(* ===== verification/Prelude.thy ===== *)
theory Prelude
  imports Main "HOL-Library.Word"
begin

text \<open>
  Shared vocabulary of the development: names for the machine types the C code uses, the
  faults an execution can end in, the result type with its sequencing operator, little-endian
  byte access, and the generic list and word lemmas that several components need.
  A C function that can leave the normal control flow (\<open>exit\<close>, a dereference of a bad pointer)
  returns \<open>Inl\<close> of a fault; every other outcome is \<open>Inr\<close>.
\<close>

unbundle bit_operations_syntax

section \<open>Machine types, faults and results\<close>

type_synonym byte = "8 word"
type_synonym u16 = "16 word"
type_synonym u32 = "32 word"

text \<open>
  \<open>ExitFailure\<close> is a call of \<open>exit(EXIT_FAILURE)\<close>. \<open>NullDeref\<close>, \<open>UseAfterFree\<close> and
  \<open>OutOfBounds\<close> stand for undefined behaviour of C that a safety theorem has to exclude.
  \<open>Blocked\<close> marks a wait for input that the environment never supplies.
\<close>

datatype fault = ExitFailure | NullDeref | UseAfterFree | OutOfBounds | Blocked

type_synonym 'a result = "fault + 'a"

definition bind_result :: "'a result \<Rightarrow> ('a \<Rightarrow> 'b result) \<Rightarrow> 'b result" where
  "bind_result m f = (case m of Inl e \<Rightarrow> Inl e | Inr x \<Rightarrow> f x)"

named_theorems result_simps

lemma bind_result_Inl [simp, result_simps]: "bind_result (Inl e) f = Inl e"
  by (simp add: bind_result_def)

lemma bind_result_Inr [simp, result_simps]: "bind_result (Inr x) f = f x"
  by (simp add: bind_result_def)

lemma bind_result_eq_Inr:
  "bind_result m f = Inr y \<longleftrightarrow> (\<exists>x. m = Inr x \<and> f x = Inr y)"
  by (cases m) auto

lemma bind_result_eq_Inl:
  "bind_result m f = Inl e \<longleftrightarrow> m = Inl e \<or> (\<exists>x. m = Inr x \<and> f x = Inl e)"
  by (cases m) auto

lemma bind_result_cong [fundef_cong]:
  "m = m' \<Longrightarrow> (\<And>x. m' = Inr x \<Longrightarrow> f x = g x) \<Longrightarrow> bind_result m f = bind_result m' g"
  by (cases m') auto

lemma bind_result_assoc:
  "bind_result (bind_result m f) g = bind_result m (\<lambda>x. bind_result (f x) g)"
  by (cases m) auto

text \<open>
  A computation is safe for a postcondition when it either calls \<open>exit\<close> or returns a value that
  satisfies it: none of the memory faults happens.
\<close>

definition safe :: "('a \<Rightarrow> bool) \<Rightarrow> 'a result \<Rightarrow> bool" where
  "safe P m = (case m of Inl e \<Rightarrow> e = ExitFailure | Inr x \<Rightarrow> P x)"

lemma safe_simps [simp]: "safe P (Inr x) = P x" "safe P (Inl e) = (e = ExitFailure)"
  by (simp_all add: safe_def)

lemma safe_bind:
  "safe Q m \<Longrightarrow> (\<And>x. Q x \<Longrightarrow> safe P (f x)) \<Longrightarrow> safe P (bind_result m f)"
  by (cases m) simp_all

lemma bind_safe_cases:
  "safe Q m \<Longrightarrow> (\<And>x. m = Inr x \<Longrightarrow> Q x \<Longrightarrow> safe P (f x)) \<Longrightarrow> safe P (bind_result m f)"
  by (cases m) simp_all

lemma safe_mono: "safe Q m \<Longrightarrow> (\<And>x. Q x \<Longrightarrow> P x) \<Longrightarrow> safe P m"
  by (cases m) simp_all

text \<open>
  A computation that returns with a postcondition if it returns at all: the frame conditions of
  the routines are stated this way, next to the safety theorems that exclude the faults.
\<close>

definition returns :: "('a \<Rightarrow> bool) \<Rightarrow> 'a result \<Rightarrow> bool" where
  "returns P m = (case m of Inl _ \<Rightarrow> True | Inr x \<Rightarrow> P x)"

lemma returns_simps [simp]:
  "returns P (Inr x) = P x" "returns P (Inl e)"
  "returns P (bind_result m f) = returns (\<lambda>x. returns P (f x)) m"
  by (simp_all add: returns_def bind_result_def split: sum.splits)

lemma returnsI: "(\<And>x. m = Inr x \<Longrightarrow> P x) \<Longrightarrow> returns P m"
  by (cases m) auto

lemma returnsD: "returns P m \<Longrightarrow> m = Inr x \<Longrightarrow> P x"
  by simp

lemma returns_mono: "returns Q m \<Longrightarrow> (\<And>x. Q x \<Longrightarrow> P x) \<Longrightarrow> returns P m"
  by (cases m) simp_all

text \<open>A \<open>for\<close> loop over the elements of an array, left at the first fault.\<close>

fun res_fold :: "('a \<Rightarrow> 's \<Rightarrow> 's result) \<Rightarrow> 'a list \<Rightarrow> 's \<Rightarrow> 's result" where
  "res_fold f [] s = Inr s"
| "res_fold f (x # xs) s = bind_result (f x s) (\<lambda>s'. res_fold f xs s')"

lemma res_fold_append:
  "res_fold f (xs @ ys) s = bind_result (res_fold f xs s) (\<lambda>s'. res_fold f ys s')"
  by (induction xs arbitrary: s) (auto simp: bind_result_def split: sum.splits)

text \<open>Arithmetic on \<open>uint32_t\<close> counters kept as natural numbers below \<open>2 ^ 32\<close>.\<close>

definition add32 :: "nat \<Rightarrow> nat \<Rightarrow> nat" where
  "add32 a b = (a + b) mod 2 ^ 32"

definition sub32 :: "nat \<Rightarrow> nat \<Rightarrow> nat" where
  "sub32 a b = (a + 2 ^ 32 - b mod 2 ^ 32) mod 2 ^ 32"

lemma add32_exact: "a + b < 2 ^ 32 \<Longrightarrow> add32 a b = a + b"
  by (simp add: add32_def)

lemma sub32_exact:
  assumes "b \<le> a" "a < 2 ^ 32"
  shows "sub32 a b = a - b"
proof -
  from assms have e: "a + 2 ^ 32 - b mod 2 ^ 32 = (a - b) + 2 ^ 32" by simp
  from assms show ?thesis unfolding sub32_def e by (simp only: mod_add_self2) simp
qed

lemma sub32_Suc: "Suc n < 2 ^ 32 \<Longrightarrow> sub32 (Suc n) (Suc 0) = n"
  by (simp add: sub32_exact)

section \<open>Little-endian access\<close>

text \<open>The bytes of a 16-bit and of a 32-bit value, least significant first.\<close>

definition le16_bytes :: "u16 \<Rightarrow> byte list" where
  "le16_bytes x = [ucast x, ucast (drop_bit 8 x)]"

definition le32_bytes :: "u32 \<Rightarrow> byte list" where
  "le32_bytes x = [ucast x, ucast (drop_bit 8 x), ucast (drop_bit 16 x), ucast (drop_bit 24 x)]"

definition le16_of :: "byte \<Rightarrow> byte \<Rightarrow> u16" where
  "le16_of b0 b1 = ucast b0 + push_bit 8 (ucast b1)"

definition le32_of :: "byte \<Rightarrow> byte \<Rightarrow> byte \<Rightarrow> byte \<Rightarrow> u32" where
  "le32_of b0 b1 b2 b3 =
     ucast b0 + push_bit 8 (ucast b1) + push_bit 16 (ucast b2) + push_bit 24 (ucast b3)"

lemma length_le16_bytes [simp]: "length (le16_bytes x) = 2"
  by (simp add: le16_bytes_def)

lemma length_le32_bytes [simp]: "length (le32_bytes x) = 4"
  by (simp add: le32_bytes_def)

text \<open>Byte-wise addition of disjoint fields is a bitwise or, which makes the round trips provable.\<close>

lemma le16_of_or: "le16_of b0 b1 = ucast b0 OR push_bit 8 (ucast b1)"
  unfolding le16_of_def
  by (rule disjunctive_add) (auto simp: bit_simps dest: bit_imp_le_length)

lemma le32_of_or:
  "le32_of b0 b1 b2 b3 =
     ucast b0 OR push_bit 8 (ucast b1) OR push_bit 16 (ucast b2) OR push_bit 24 (ucast b3)"
proof -
  have 1: "ucast b0 + push_bit 8 (ucast b1 :: u32) = ucast b0 OR push_bit 8 (ucast b1)"
    by (rule disjunctive_add) (auto simp: bit_simps dest: bit_imp_le_length)
  have 2: "(ucast b0 OR push_bit 8 (ucast b1)) + push_bit 16 (ucast b2 :: u32)
      = (ucast b0 OR push_bit 8 (ucast b1)) OR push_bit 16 (ucast b2)"
    by (rule disjunctive_add) (auto simp: bit_simps dest: bit_imp_le_length)
  have 3: "((ucast b0 OR push_bit 8 (ucast b1)) OR push_bit 16 (ucast b2)) + push_bit 24 (ucast b3 :: u32)
      = ((ucast b0 OR push_bit 8 (ucast b1)) OR push_bit 16 (ucast b2)) OR push_bit 24 (ucast b3)"
    by (rule disjunctive_add) (auto simp: bit_simps dest: bit_imp_le_length)
  show ?thesis
    unfolding le32_of_def 1 2 3 by (simp add: or.assoc)
qed

lemma le16_of_bytes [simp]: "le16_of (ucast x) (ucast (drop_bit 8 x)) = (x :: u16)"
  unfolding le16_of_or by (rule bit_word_eqI) (auto simp: bit_simps)

lemma le32_of_bytes [simp]:
  "le32_of (ucast x) (ucast (drop_bit 8 x)) (ucast (drop_bit 16 x)) (ucast (drop_bit 24 x)) = (x :: u32)"
  unfolding le32_of_or
proof (rule bit_word_eqI, goal_cases)
  case (1 n)
  consider "n < 8" | "8 \<le> n" "n < 16" | "16 \<le> n" "n < 24" | "24 \<le> n" by linarith
  then show ?case
    using 1 by cases (auto simp: bit_simps)
qed

section \<open>Generic lemmas\<close>

text \<open>A statement about every byte follows from its 256 instances.\<close>

lemma byte_all_by_enum:
  assumes "list_all (\<lambda>n. P (word_of_nat n :: byte)) [0..<256]"
  shows "P x"
proof -
  have "unat x < 2 ^ LENGTH(8)" by (rule unsigned_less)
  then have "unat x \<in> set [0..<256]" by simp
  with assms have "P (word_of_nat (unat x))"
    unfolding list_all_iff by (rule bspec)
  then show ?thesis by simp
qed

lemma unat_byte_less: "unat (x :: byte) < 256"
proof -
  have "unat x < 2 ^ LENGTH(8)" by (rule unsigned_less)
  then show ?thesis by simp
qed

lemma unat_and_mask_less: "unat (x AND 0x0F :: byte) < 16"
proof -
  have "x AND 0x0F \<le> (0x0F :: byte)" by (rule word_and_le1)
  then have "unat (x AND 0x0F) \<le> unat (0x0F :: byte)" by (simp only: word_le_nat_alt)
  then show ?thesis by simp
qed

lemma ucast_and_ff [simp]: "(ucast (x AND 0xff) :: byte) = ucast (x :: u16)"
proof (rule bit_word_eqI)
  fix n :: nat
  assume "n < LENGTH(8)"
  moreover have "(0xff :: u16) = mask 8" by (simp add: mask_eq_exp_minus_1)
  ultimately have "bit (0xff :: u16) n" by (simp only: bit_mask_iff) simp
  then show "bit (ucast (x AND 0xff) :: byte) n = bit (ucast x :: byte) n"
    by (simp add: bit_ucast_iff bit_and_iff)
qed

text \<open>Cutting a list at a multiple of a chunk length.\<close>

lemma take_drop_append: "take k xs @ take n (drop k xs) = take (k + n) xs"
  by (simp add: take_add)

lemma map_upt_shift: "map f [a..<a + n] = map (\<lambda>i. f (a + i)) [0..<n]"
  by (induction n) auto

end
