(* ===== verification/Crc.thy ===== *)
theory Crc
  imports Prelude
begin

text \<open>
  The link-level checksum of the three-wire protocol (\<open>rtk_hciattach/hciattach_rtk.c\<close> and, with
  the same table and update routine, \<open>hci_rtk_h5.c\<close>): the byte-reversal table with \<open>bit_rev8\<close>
  and \<open>bit_rev16\<close>, the nibble table with \<open>h5_crc_update\<close>. The lemmas show that the tables
  compute what they stand for (bit reversal; the bit-serial CRC-CCITT), and what the checksum
  detects.
\<close>

section \<open>Definitions\<close>

definition byte_rev_table :: "byte list" where
  "byte_rev_table = [
     0x00, 0x80, 0x40, 0xc0, 0x20, 0xa0, 0x60, 0xe0,
     0x10, 0x90, 0x50, 0xd0, 0x30, 0xb0, 0x70, 0xf0,
     0x08, 0x88, 0x48, 0xc8, 0x28, 0xa8, 0x68, 0xe8,
     0x18, 0x98, 0x58, 0xd8, 0x38, 0xb8, 0x78, 0xf8,
     0x04, 0x84, 0x44, 0xc4, 0x24, 0xa4, 0x64, 0xe4,
     0x14, 0x94, 0x54, 0xd4, 0x34, 0xb4, 0x74, 0xf4,
     0x0c, 0x8c, 0x4c, 0xcc, 0x2c, 0xac, 0x6c, 0xec,
     0x1c, 0x9c, 0x5c, 0xdc, 0x3c, 0xbc, 0x7c, 0xfc,
     0x02, 0x82, 0x42, 0xc2, 0x22, 0xa2, 0x62, 0xe2,
     0x12, 0x92, 0x52, 0xd2, 0x32, 0xb2, 0x72, 0xf2,
     0x0a, 0x8a, 0x4a, 0xca, 0x2a, 0xaa, 0x6a, 0xea,
     0x1a, 0x9a, 0x5a, 0xda, 0x3a, 0xba, 0x7a, 0xfa,
     0x06, 0x86, 0x46, 0xc6, 0x26, 0xa6, 0x66, 0xe6,
     0x16, 0x96, 0x56, 0xd6, 0x36, 0xb6, 0x76, 0xf6,
     0x0e, 0x8e, 0x4e, 0xce, 0x2e, 0xae, 0x6e, 0xee,
     0x1e, 0x9e, 0x5e, 0xde, 0x3e, 0xbe, 0x7e, 0xfe,
     0x01, 0x81, 0x41, 0xc1, 0x21, 0xa1, 0x61, 0xe1,
     0x11, 0x91, 0x51, 0xd1, 0x31, 0xb1, 0x71, 0xf1,
     0x09, 0x89, 0x49, 0xc9, 0x29, 0xa9, 0x69, 0xe9,
     0x19, 0x99, 0x59, 0xd9, 0x39, 0xb9, 0x79, 0xf9,
     0x05, 0x85, 0x45, 0xc5, 0x25, 0xa5, 0x65, 0xe5,
     0x15, 0x95, 0x55, 0xd5, 0x35, 0xb5, 0x75, 0xf5,
     0x0d, 0x8d, 0x4d, 0xcd, 0x2d, 0xad, 0x6d, 0xed,
     0x1d, 0x9d, 0x5d, 0xdd, 0x3d, 0xbd, 0x7d, 0xfd,
     0x03, 0x83, 0x43, 0xc3, 0x23, 0xa3, 0x63, 0xe3,
     0x13, 0x93, 0x53, 0xd3, 0x33, 0xb3, 0x73, 0xf3,
     0x0b, 0x8b, 0x4b, 0xcb, 0x2b, 0xab, 0x6b, 0xeb,
     0x1b, 0x9b, 0x5b, 0xdb, 0x3b, 0xbb, 0x7b, 0xfb,
     0x07, 0x87, 0x47, 0xc7, 0x27, 0xa7, 0x67, 0xe7,
     0x17, 0x97, 0x57, 0xd7, 0x37, 0xb7, 0x77, 0xf7,
     0x0f, 0x8f, 0x4f, 0xcf, 0x2f, 0xaf, 0x6f, 0xef,
     0x1f, 0x9f, 0x5f, 0xdf, 0x3f, 0xbf, 0x7f, 0xff
  ]"

definition bit_rev8 :: "byte \<Rightarrow> byte" where
  "bit_rev8 x = byte_rev_table ! unat x"

definition bit_rev16 :: "u16 \<Rightarrow> u16" where
  "bit_rev16 x =
     push_bit 8 (ucast (bit_rev8 (ucast (x AND 0xff)))) OR ucast (bit_rev8 (ucast (drop_bit 8 x)))"

definition crc_table :: "u16 list" where
  "crc_table = [
     0x0000, 0x1081, 0x2102, 0x3183,
     0x4204, 0x5285, 0x6306, 0x7387,
     0x8408, 0x9489, 0xa50a, 0xb58b,
     0xc60c, 0xd68d, 0xe70e, 0xf78f]"

definition H5_CRC_INIT :: u16 where
  "H5_CRC_INIT = 0xffff"

definition h5_crc_update :: "u16 \<Rightarrow> byte \<Rightarrow> u16" where
  "h5_crc_update crc d =
     (let reg = crc;
          reg = drop_bit 4 reg XOR crc_table ! unat ((reg XOR ucast d) AND 0x000f);
          reg = drop_bit 4 reg XOR crc_table ! unat ((reg XOR ucast (drop_bit 4 d)) AND 0x000f)
      in reg)"

text \<open>The checksum of a byte sequence: the update routine folded over it, as the loops do.\<close>

definition h5_crc :: "u16 \<Rightarrow> byte list \<Rightarrow> u16" where
  "h5_crc crc bs = fold (\<lambda>d c. h5_crc_update c d) bs crc"

text \<open>
  Reference definition: the bit-serial CRC with the CCITT polynomial \<open>0x1021\<close> in reflected form
  (\<open>0x8408\<close>), data bits entering least significant first.
\<close>

definition crc_shift :: "u16 \<Rightarrow> u16" where
  "crc_shift r = drop_bit 1 r XOR (if bit r 0 then 0x8408 else 0)"

definition crc_bit :: "u16 \<Rightarrow> bool \<Rightarrow> u16" where
  "crc_bit r b = crc_shift (r XOR of_bool b)"

definition crc_byte :: "u16 \<Rightarrow> byte \<Rightarrow> u16" where
  "crc_byte r d = fold (\<lambda>i r. crc_bit r (bit d i)) [0..<8] r"

section \<open>Bit reversal\<close>

definition mirror8 :: "byte \<Rightarrow> byte" where
  "mirror8 x = horner_sum of_bool 2 (map (\<lambda>i. bit x (7 - i)) [0..<8])"

lemma bit_mirror8: "i < 8 \<Longrightarrow> bit (mirror8 x) i = bit x (7 - i)"
  by (simp add: mirror8_def bit_horner_sum_bit_iff)

lemma byte_rev_table_eq: "byte_rev_table = map (\<lambda>n. mirror8 (word_of_nat n)) [0..<256]"
  by code_simp

lemma bit_rev8_eq_mirror8: "bit_rev8 x = mirror8 x"
  by (simp add: bit_rev8_def byte_rev_table_eq unat_byte_less)

lemma bit_bit_rev8: "i < 8 \<Longrightarrow> bit (bit_rev8 x) i = bit x (7 - i)"
  by (simp add: bit_rev8_eq_mirror8 bit_mirror8)

lemma bit_rev8_involution [simp]: "bit_rev8 (bit_rev8 x) = x"
  by (rule bit_word_eqI) (simp add: bit_bit_rev8)

lemma bit_bit_rev16:
  assumes "i < 16"
  shows "bit (bit_rev16 x) i = bit x (15 - i)"
proof (cases "i < 8")
  case True
  then have "bit (bit_rev16 x) i = bit (ucast (drop_bit 8 x) :: byte) (7 - i)"
    by (simp add: bit_rev16_def bit_or_iff bit_push_bit_iff bit_ucast_iff bit_bit_rev8)
  also have "\<dots> = bit x (8 + (7 - i))"
    using True by (auto simp: bit_ucast_iff bit_drop_bit_eq less_diff_conv)
  also have "8 + (7 - i) = 15 - i"
    using True by simp
  finally show ?thesis .
next
  case False
  with assms have "7 - (i - 8) = 15 - i" by simp
  with False assms show ?thesis
    by (auto simp: bit_rev16_def bit_simps bit_bit_rev8 dest: bit_imp_le_length)
qed

lemma bit_rev16_involution [simp]: "bit_rev16 (bit_rev16 x) = x"
  by (rule bit_word_eqI) (simp add: bit_bit_rev16)

lemma bit_rev16_inject [simp]: "bit_rev16 x = bit_rev16 y \<longleftrightarrow> x = y"
  by (metis bit_rev16_involution)

section \<open>The table-driven update is the bit-serial CRC\<close>

text \<open>The shift register is linear over exclusive or.\<close>

lemma crc_shift_xor: "crc_shift (a XOR b) = crc_shift a XOR crc_shift b"
  by (auto simp: crc_shift_def bit_xor_iff xor.assoc xor.left_commute xor.commute)

lemma crc_shift_numeral [simp]:
  "crc_shift (numeral n) = drop_bit 1 (numeral n) XOR (if bit (numeral n :: u16) 0 then 0x8408 else 0)"
  "crc_shift 1 = 0x8408"
  "crc_shift 0 = 0"
  by (simp_all add: crc_shift_def)

lemma crc_table_nibbles_enum:
  "list_all (\<lambda>n. crc_shift (crc_shift (crc_shift (crc_shift (word_of_nat n)))) = crc_table ! n) [0..<16]"
  by code_simp

lemma crc_table_nibble:
  assumes "unat r < 16"
  shows "crc_table ! unat r = crc_shift (crc_shift (crc_shift (crc_shift r)))"
proof -
  from assms have "unat r \<in> set [0..<16]" by simp
  with crc_table_nibbles_enum
  have "crc_shift (crc_shift (crc_shift (crc_shift (word_of_nat (unat r))))) = crc_table ! unat r"
    unfolding list_all_iff by (rule bspec)
  then show ?thesis by simp
qed

text \<open>Four shifts of a register: the upper bits move down, the low nibble selects a table entry.\<close>

lemma low_nibble_less: "unat (r AND 0x000f :: u16) < 16"
proof -
  have "r AND 0x000f \<le> (0x000f :: u16)" by (rule word_and_le1)
  then have "unat (r AND 0x000f) \<le> unat (0x000f :: u16)" by (simp only: word_le_nat_alt)
  then show ?thesis by simp
qed

lemma crc_shift_even:
  assumes "\<not> bit r 0"
  shows "crc_shift r = drop_bit 1 r"
  using assms by (simp add: crc_shift_def)

lemma crc_shift4_even:
  assumes "\<not> bit h 0" "\<not> bit h 1" "\<not> bit h 2" "\<not> bit h 3"
  shows "crc_shift (crc_shift (crc_shift (crc_shift h))) = drop_bit 4 h"
  using assms by (simp add: crc_shift_even bit_drop_bit_eq eval_nat_numeral)

lemma crc_shift4_high:
  "crc_shift (crc_shift (crc_shift (crc_shift (r AND NOT 0x000f)))) = drop_bit 4 r"
proof -
  have "crc_shift (crc_shift (crc_shift (crc_shift (r AND NOT 0x000f)))) = drop_bit 4 (r AND NOT 0x000f)"
    by (rule crc_shift4_even) (simp_all add: bit_and_iff bit_not_iff)
  also have "\<dots> = drop_bit 4 r"
  proof (rule bit_word_eqI)
    fix n :: nat
    have "(0xfff :: u16) = mask 12" by (simp add: mask_eq_exp_minus_1)
    then have "bit (0xfff :: u16) n" if "n < 12"
      using that by (simp only: bit_mask_iff) simp
    then show "bit (drop_bit 4 (r AND NOT 0x000f)) n = bit (drop_bit 4 r) n"
      by (auto simp: bit_simps dest: bit_imp_le_length)
  qed
  finally show ?thesis .
qed

lemma crc_shift4:
  "drop_bit 4 r XOR crc_table ! unat (r AND 0x000f) = crc_shift (crc_shift (crc_shift (crc_shift r)))"
proof -
  have split: "r = (r AND NOT 0x000f) XOR (r AND 0x000f)"
    by (rule bit_word_eqI) (auto simp: bit_simps)
  have "crc_shift (crc_shift (crc_shift (crc_shift r))) =
      crc_shift (crc_shift (crc_shift (crc_shift (r AND NOT 0x000f)))) XOR
      crc_shift (crc_shift (crc_shift (crc_shift (r AND 0x000f))))"
    by (subst split) (simp only: crc_shift_xor)
  then show ?thesis
    by (simp only: crc_shift4_high crc_table_nibble [OF low_nibble_less])
qed

text \<open>Feeding four data bits one by one, or as a nibble before four shifts, is the same.\<close>

definition nibble_of :: "bool \<Rightarrow> bool \<Rightarrow> bool \<Rightarrow> bool \<Rightarrow> u16" where
  "nibble_of b0 b1 b2 b3 = horner_sum of_bool 2 [b0, b1, b2, b3]"

lemma crc_bits_nibble:
  "crc_bit (crc_bit (crc_bit (crc_bit r b0) b1) b2) b3 =
     crc_shift (crc_shift (crc_shift (crc_shift (r XOR nibble_of b0 b1 b2 b3))))"
  by (cases b0; cases b1; cases b2; cases b3)
    (simp_all add: crc_bit_def nibble_of_def crc_shift_xor xor.assoc)

lemma and_nibble_take_bit: "x AND 0x000f = take_bit 4 (x :: u16)"
  by (simp add: take_bit_eq_mask mask_eq_exp_minus_1)

lemma nibble_of_bits: "x AND 0x000f = nibble_of (bit x 0) (bit x 1) (bit x 2) (bit x 3)"
proof -
  have "take_bit 4 x = horner_sum of_bool 2 (map (bit x) [0..<4])"
    by (simp only: horner_sum_bit_eq_take_bit)
  also have "map (bit x) [0..<4] = [bit x 0, bit x 1, bit x 2, bit x 3]"
    by (simp add: upt_rec numeral_2_eq_2 numeral_3_eq_3)
  finally show ?thesis
    unfolding and_nibble_take_bit nibble_of_def .
qed

lemma byte_nibbles:
  fixes d :: byte
  shows "ucast d AND (0x000f :: u16) = nibble_of (bit d 0) (bit d 1) (bit d 2) (bit d 3)"
    and "ucast (drop_bit 4 d) AND (0x000f :: u16) = nibble_of (bit d 4) (bit d 5) (bit d 6) (bit d 7)"
  unfolding nibble_of_bits by (simp_all add: bit_ucast_iff bit_drop_bit_eq)

text \<open>One half of \<open>h5_crc_update\<close>: the nibble enters by exclusive or before the table look-up.\<close>

lemma crc_half_update:
  assumes "n AND 0x000f = nibble_of b0 b1 b2 b3"
  shows "drop_bit 4 r XOR crc_table ! unat ((r XOR n) AND 0x000f) =
    crc_bit (crc_bit (crc_bit (crc_bit r b0) b1) b2) b3"
proof -
  let ?m = "n AND 0x000f"
  have m: "(r XOR n) AND 0x000f = (r XOR ?m) AND 0x000f"
    by (rule bit_word_eqI) (auto simp: bit_simps)
  have d: "drop_bit 4 (r XOR ?m) = drop_bit 4 r"
    by (simp add: and_nibble_take_bit drop_bit_take_bit)
  have "drop_bit 4 (r XOR ?m) XOR crc_table ! unat ((r XOR ?m) AND 0x000f) =
      crc_shift (crc_shift (crc_shift (crc_shift (r XOR ?m))))"
    by (rule crc_shift4)
  then show ?thesis
    unfolding m d crc_bits_nibble assms [symmetric] .
qed

lemma h5_crc_update_eq_crc_byte: "h5_crc_update crc d = crc_byte crc d"
proof -
  have eight: "[0..<8] = [0, 1, 2, 3, 4, 5, 6, 7 :: nat]"
    by (simp add: upt_rec eval_nat_numeral)
  show ?thesis
    unfolding h5_crc_update_def crc_byte_def eight Let_def
    by (simp add: crc_half_update [OF byte_nibbles(1)] crc_half_update [OF byte_nibbles(2)] bit_drop_bit_eq)
qed

section \<open>What the checksum detects\<close>

text \<open>The register never loses information: a shift is injective, so a difference never dies out.\<close>

lemma crc_shift_eq_0: "crc_shift r = 0 \<longleftrightarrow> r = 0"
proof
  assume r: "crc_shift r = 0"
  have even: "\<not> bit r 0"
  proof
    assume "bit r 0"
    then have "bit (crc_shift r) 15"
      by (auto simp: crc_shift_def bit_xor_iff bit_drop_bit_eq dest: bit_imp_le_length)
    with r show False by simp
  qed
  with r have "drop_bit 1 r = 0" by (simp add: crc_shift_def)
  then have "\<not> bit (drop_bit 1 r) n" for n by simp
  then have "\<not> bit r (Suc n)" for n by (simp add: bit_drop_bit_eq)
  then have "\<not> bit r n" for n
    using even by (cases n) auto
  then show "r = 0"
    by (intro bit_word_eqI) simp
qed simp

lemma xor_eq_0_word: "a XOR b = 0 \<longleftrightarrow> a = (b :: 'a::len word)"
proof
  assume "a XOR b = 0"
  then have "(a XOR b) XOR b = b" by simp
  then show "a = b" by (simp add: xor.assoc)
qed simp

lemma xor_exchange: "a XOR b = c XOR d \<Longrightarrow> a XOR c = b XOR (d :: 'a::len word)"
  by (auto simp: bit_eq_iff bit_xor_iff)

lemma crc_shift_inject [simp]: "crc_shift a = crc_shift b \<longleftrightarrow> a = b"
  by (metis crc_shift_eq_0 crc_shift_xor xor_eq_0_word)

abbreviation crc_shift8 :: "u16 \<Rightarrow> u16" where
  "crc_shift8 r \<equiv> crc_shift (crc_shift (crc_shift (crc_shift
     (crc_shift (crc_shift (crc_shift (crc_shift r)))))))"

lemma crc_shift4_push: "crc_shift (crc_shift (crc_shift (crc_shift (push_bit 4 r)))) = take_bit 12 r"
proof -
  have "crc_shift (crc_shift (crc_shift (crc_shift (push_bit 4 r)))) = drop_bit 4 (push_bit 4 r)"
    by (rule crc_shift4_even) (simp_all add: bit_push_bit_iff)
  also have "\<dots> = take_bit 12 r"
    by (rule bit_word_eqI) (auto simp: bit_simps)
  finally show ?thesis .
qed

lemma crc_shift8_push: "crc_shift8 (push_bit 8 (ucast (d :: byte))) = ucast d"
proof -
  have "push_bit 8 (ucast d :: u16) = push_bit 4 (push_bit 4 (ucast d))" by simp
  moreover have "take_bit 12 (push_bit 4 (ucast d :: u16)) = push_bit 4 (ucast d)"
    by (rule bit_word_eqI) (auto simp: bit_simps dest: bit_imp_le_length)
  moreover have "take_bit 12 (ucast d :: u16) = ucast d"
    by (rule bit_word_eqI) (auto simp: bit_simps dest: bit_imp_le_length)
  ultimately show ?thesis by (simp only: crc_shift4_push)
qed

lemma h5_crc_update_shift: "h5_crc_update c d = crc_shift8 (c XOR ucast d)"
proof -
  let ?lo = "ucast d AND 0x000f :: u16" and ?hi = "ucast (drop_bit 4 d) AND 0x000f :: u16"
  have d: "(ucast d :: u16) = ?lo XOR push_bit 4 ?hi"
    unfolding and_nibble_take_bit
    by (rule bit_word_eqI) (auto simp: bit_simps dest: bit_imp_le_length)
  have hi: "crc_shift (crc_shift (crc_shift (crc_shift (push_bit 4 ?hi)))) = ?hi"
    by (simp add: crc_shift4_push and_nibble_take_bit)
  have "crc_byte c d = crc_shift (crc_shift (crc_shift (crc_shift
      (crc_shift (crc_shift (crc_shift (crc_shift (c XOR ?lo)))) XOR ?hi))))"
    by (simp add: crc_byte_def upt_rec eval_nat_numeral crc_bits_nibble byte_nibbles bit_drop_bit_eq)
  also have "\<dots> = crc_shift8 (c XOR (?lo XOR push_bit 4 ?hi))"
    by (simp only: crc_shift_xor hi xor.assoc)
  finally show ?thesis
    by (simp only: h5_crc_update_eq_crc_byte d [symmetric])
qed

lemma h5_crc_update_inject [simp]: "h5_crc_update c d = h5_crc_update c' d \<longleftrightarrow> c = c'"
  by (simp add: h5_crc_update_shift) (metis xor.assoc xor.right_neutral xor_self_eq)

lemma h5_crc_Nil [simp]: "h5_crc c [] = c"
  and h5_crc_Cons [simp]: "h5_crc c (d # ds) = h5_crc (h5_crc_update c d) ds"
  and h5_crc_append: "h5_crc c (xs @ ys) = h5_crc (h5_crc c xs) ys"
  by (simp_all add: h5_crc_def)

lemma h5_crc_inject: "h5_crc c bs = h5_crc c' bs \<longleftrightarrow> c = c'"
  by (induction bs arbitrary: c c') auto

lemma ucast_byte_eq_0: "(ucast (x :: byte) :: u16) = 0 \<longleftrightarrow> x = 0"
proof
  assume 0: "(ucast x :: u16) = 0"
  have "\<not> bit x n" if "n < LENGTH(8)" for n
  proof -
    have "bit (ucast x :: u16) n = bit x n" using that by (simp add: bit_ucast_iff)
    then show ?thesis by (simp add: 0)
  qed
  then show "x = 0" by (intro bit_word_eqI) simp
qed simp

lemma h5_crc_update2_inject:
  assumes "h5_crc_update (h5_crc_update c a) b = h5_crc_update (h5_crc_update c a') b'"
  shows "a = a' \<and> b = b'"
proof -
  define e f where "e = (ucast (a XOR a') :: u16)" and "f = (ucast (b XOR b') :: u16)"
  have "crc_shift8 (c XOR ucast a) XOR ucast b = crc_shift8 (c XOR ucast a') XOR ucast b'"
    using assms by (simp add: h5_crc_update_shift)
  then have "crc_shift8 (c XOR ucast a) XOR crc_shift8 (c XOR ucast a') = ucast b XOR ucast b'"
    by (rule xor_exchange)
  then have ef8: "crc_shift8 e = f"
    by (simp add: e_def f_def unsigned_xor_eq flip: crc_shift_xor)
       (simp add: xor.assoc xor.left_commute)
  also have "f = crc_shift8 (push_bit 8 f)"
    unfolding f_def by (simp only: crc_shift8_push)
  finally have ef: "e = push_bit 8 f" by simp
  have "\<not> bit e n" for n
  proof (cases "8 \<le> n")
    case True
    then show ?thesis unfolding e_def by (auto simp: bit_ucast_iff dest: bit_imp_le_length)
  next
    case False
    then show ?thesis unfolding ef by (simp add: bit_push_bit_iff)
  qed
  then have e: "e = 0" by (intro bit_word_eqI) simp
  with ef8 have "f = 0" by simp
  with e have "a XOR a' = 0" "b XOR b' = 0"
    unfolding e_def f_def by (simp_all only: ucast_byte_eq_0)
  then show ?thesis by (simp add: xor_eq_0_word)
qed

text \<open>The checksum as a residue: with the trailer bytes in their natural bit order appended, the register ends in
  zero exactly for the right trailer, so a damaged trailer is covered by the same argument as a damaged payload.\<close>

lemma crc_shift8_eq_byte: "crc_shift8 r = ucast (d :: byte) \<longleftrightarrow> r = push_bit 8 (ucast d)"
  by (subst crc_shift8_push [of d, symmetric]) (simp only: crc_shift_inject)

lemma h5_crc_residue: "h5_crc_update (h5_crc_update c r0) r1 = 0 \<longleftrightarrow> c = le16_of r0 r1"
proof -
  have le: "le16_of r0 r1 = push_bit 8 (ucast r1) XOR ucast r0"
    unfolding le16_of_or by (rule bit_word_eqI) (auto simp: bit_simps dest: bit_imp_le_length)
  have "h5_crc_update (h5_crc_update c r0) r1 = 0 \<longleftrightarrow> crc_shift8 (c XOR ucast r0) = ucast r1"
    by (simp only: h5_crc_update_shift crc_shift_eq_0 xor_eq_0_word)
  also have "\<dots> \<longleftrightarrow> c XOR ucast r0 = push_bit 8 (ucast r1)" by (rule crc_shift8_eq_byte)
  also have "\<dots> \<longleftrightarrow> c = push_bit 8 (ucast r1) XOR ucast r0"
    by (auto simp: bit_eq_iff bit_xor_iff)
  finally show ?thesis unfolding le .
qed

lemma bit_rev16_le16: "bit_rev16 (le16_of t1 t0) = le16_of (bit_rev8 t0) (bit_rev8 t1)"
proof -
  have lo: "ucast (le16_of t1 t0 AND 0xff) = t1"
    unfolding le16_of_or by (rule bit_word_eqI) (auto simp: bit_simps)
  have hi: "ucast (drop_bit 8 (le16_of t1 t0)) = t0"
    unfolding le16_of_or by (rule bit_word_eqI) (auto simp: bit_simps dest: bit_imp_le_length)
  show ?thesis unfolding bit_rev16_def lo hi by (simp only: le16_of_or or.commute)
qed

lemma trailer_ok_residue:
  "le16_of t1 t0 = bit_rev16 (h5_crc c bs) \<longleftrightarrow> h5_crc c (bs @ [bit_rev8 t0, bit_rev8 t1]) = 0"
proof -
  have "le16_of t1 t0 = bit_rev16 (h5_crc c bs) \<longleftrightarrow> h5_crc c bs = le16_of (bit_rev8 t0) (bit_rev8 t1)"
    unfolding bit_rev16_le16 [symmetric] by (metis bit_rev16_involution)
  then show ?thesis by (simp add: h5_crc_append h5_crc_residue)
qed

lemma h5_crc_burst:
  assumes "h5_crc c (xs @ [a, b] @ ys) = h5_crc c (xs @ [a', b'] @ ys)"
  shows "a = a' \<and> b = b'"
proof -
  from assms have "h5_crc (h5_crc_update (h5_crc_update (h5_crc c xs) a) b) ys =
      h5_crc (h5_crc_update (h5_crc_update (h5_crc c xs) a') b') ys"
    by (simp add: h5_crc_append)
  then show ?thesis unfolding h5_crc_inject by (rule h5_crc_update2_inject)
qed

end
