(* ===== verification/Skb.thy ===== *)
theory Skb
  imports Prelude
begin

text \<open>
  The socket-buffer type of the attach tool (\<open>struct sk_buff\<close> of
  \<open>rtk_hciattach/hciattach_rtk.c\<close>): one allocation of \<open>max_len\<close> bytes, a data pointer into it
  and a data length. The data pointer is kept as its offset from the start of the allocation;
  the memory itself is a function, zero where nothing was written, because \<open>skb_alloc\<close> clears
  it. Reads and writes outside the allocation are the fault \<open>OutOfBounds\<close>.
  The locale \<open>byte_sink\<close> states what an encoder relies on when it appends to a buffer.
\<close>

section \<open>The structure and its operations\<close>

record sk_buff =
  max_len :: nat
  data_len :: nat
  data_off :: nat
  mem :: "nat \<Rightarrow> byte"

text \<open>A buffer pointer: \<open>NULL\<close>, a pointer to freed memory, or a live buffer.\<close>

datatype skb_ptr = SkbNull | SkbFreed | SkbLive sk_buff

definition deref :: "skb_ptr \<Rightarrow> sk_buff result" where
  "deref p = (case p of SkbNull \<Rightarrow> Inl NullDeref | SkbFreed \<Rightarrow> Inl UseAfterFree | SkbLive skb \<Rightarrow> Inr skb)"

text \<open>The argument tells whether \<open>malloc\<close> succeeds.\<close>

definition skb_alloc :: "bool \<Rightarrow> nat \<Rightarrow> sk_buff option" where
  "skb_alloc malloc_ok len =
     (if malloc_ok then Some \<lparr>max_len = len, data_len = 0, data_off = 0, mem = (\<lambda>_. 0)\<rparr> else None)"

text \<open>\<open>free(NULL)\<close> does nothing; freeing twice is an error.\<close>

definition skb_free :: "skb_ptr \<Rightarrow> skb_ptr result" where
  "skb_free p =
     (case p of SkbNull \<Rightarrow> Inr SkbNull | SkbFreed \<Rightarrow> Inl UseAfterFree | SkbLive _ \<Rightarrow> Inr SkbFreed)"

definition skb_put :: "sk_buff \<Rightarrow> nat \<Rightarrow> (sk_buff \<times> nat) result" where
  "skb_put skb len =
     (let old_len = data_len skb in
      if add32 (data_len skb) len > max_len skb then Inl ExitFailure
      else Inr (skb\<lparr>data_len := add32 (data_len skb) len\<rparr>, data_off skb + old_len))"

definition skb_trim :: "sk_buff \<Rightarrow> nat \<Rightarrow> sk_buff" where
  "skb_trim skb len = (if data_len skb > len then skb\<lparr>data_len := len\<rparr> else skb)"

definition skb_pull :: "sk_buff \<Rightarrow> nat \<Rightarrow> sk_buff result" where
  "skb_pull skb len =
     (if len > data_len skb then Inl ExitFailure
      else Inr (skb\<lparr>data_len := data_len skb - len, data_off := data_off skb + len\<rparr>))"

text \<open>\<open>memcpy\<close> into the allocation at an offset, and the read of \<open>skb->data[i]\<close>.\<close>

fun mem_write :: "(nat \<Rightarrow> byte) \<Rightarrow> nat \<Rightarrow> byte list \<Rightarrow> (nat \<Rightarrow> byte)" where
  "mem_write m p [] = m"
| "mem_write m p (b # bs) = mem_write (m(p := b)) (Suc p) bs"

definition skb_store :: "sk_buff \<Rightarrow> nat \<Rightarrow> byte list \<Rightarrow> sk_buff result" where
  "skb_store skb p bs =
     (if p + length bs \<le> max_len skb then Inr (skb\<lparr>mem := mem_write (mem skb) p bs\<rparr>)
      else Inl OutOfBounds)"

definition skb_data :: "sk_buff \<Rightarrow> nat \<Rightarrow> byte result" where
  "skb_data skb i =
     (if data_off skb + i < max_len skb then Inr (mem skb (data_off skb + i)) else Inl OutOfBounds)"

text \<open>The idiom \<open>memcpy(skb_put(skb, n), src, n)\<close>.\<close>

definition skb_put_bytes :: "sk_buff \<Rightarrow> byte list \<Rightarrow> sk_buff result" where
  "skb_put_bytes skb bs = bind_result (skb_put skb (length bs)) (\<lambda>(skb', p). skb_store skb' p bs)"

section \<open>Abstraction: the bytes a buffer holds\<close>

definition skb_bytes :: "sk_buff \<Rightarrow> byte list" where
  "skb_bytes skb = map (mem skb) [data_off skb..<data_off skb + data_len skb]"

definition skb_wf :: "sk_buff \<Rightarrow> bool" where
  "skb_wf skb \<longleftrightarrow> data_off skb + data_len skb \<le> max_len skb \<and> max_len skb < 2 ^ 31"

lemma mem_write_other: "i < p \<or> p + length bs \<le> i \<Longrightarrow> mem_write m p bs i = m i"
  by (induction m p bs rule: mem_write.induct) auto

lemma mem_write_at: "j < length bs \<Longrightarrow> mem_write m p bs (p + j) = bs ! j"
proof (induction bs arbitrary: m p j)
  case (Cons b bs)
  show ?case
  proof (cases j)
    case 0
    then show ?thesis by (simp add: mem_write_other)
  next
    case (Suc k)
    with Cons.prems have "mem_write (m(p := b)) (Suc p) bs (Suc p + k) = bs ! k"
      by (intro Cons.IH) simp
    then show ?thesis
      by (simp only: Suc mem_write.simps nth_Cons_Suc add_Suc_right add_Suc)
  qed
qed simp

lemma map_mem_write: "map (mem_write m p bs) [p..<p + length bs] = bs"
  by (rule nth_equalityI) (simp_all add: mem_write_at)

lemma length_skb_bytes [simp]: "length (skb_bytes skb) = data_len skb"
  by (simp add: skb_bytes_def)

lemma skb_alloc_props:
  assumes "skb_alloc ok len = Some skb"
  shows "max_len skb = len" "data_len skb = 0" "data_off skb = 0" "skb_bytes skb = []"
    "len < 2 ^ 31 \<Longrightarrow> skb_wf skb"
  using assms by (auto simp: skb_alloc_def skb_bytes_def skb_wf_def split: if_splits)

lemma skb_put_bytes_ok:
  assumes "skb_wf skb" "data_off skb + data_len skb + length bs \<le> max_len skb"
  obtains skb' where "skb_put_bytes skb bs = Inr skb'" "skb_wf skb'" "max_len skb' = max_len skb"
    "data_off skb' = data_off skb" "data_len skb' = data_len skb + length bs"
    "skb_bytes skb' = skb_bytes skb @ bs"
proof
  let ?skb' = "skb\<lparr>data_len := data_len skb + length bs,
                   mem := mem_write (mem skb) (data_off skb + data_len skb) bs\<rparr>"
  have a: "add32 (data_len skb) (length bs) = data_len skb + length bs"
    using assms by (intro add32_exact) (simp add: skb_wf_def)
  show "skb_put_bytes skb bs = Inr ?skb'"
    using assms by (simp add: skb_put_bytes_def skb_put_def skb_store_def a)
  let ?m = "mem_write (mem skb) (data_off skb + data_len skb) bs"
  have "[data_off skb..<data_off skb + (data_len skb + length bs)] =
      [data_off skb..<data_off skb + data_len skb] @
      [data_off skb + data_len skb..<(data_off skb + data_len skb) + length bs]"
    using upt_add_eq_append [of "data_off skb" "data_off skb + data_len skb" "length bs"]
    by (simp add: add.assoc)
  moreover have "map ?m [data_off skb..<data_off skb + data_len skb] = skb_bytes skb"
    by (auto simp: skb_bytes_def intro: mem_write_other)
  ultimately show "skb_bytes ?skb' = skb_bytes skb @ bs"
    by (simp add: skb_bytes_def map_mem_write)
qed (use assms in \<open>auto simp: skb_wf_def\<close>)

lemma skb_put_bytes_exit:
  "skb_wf skb \<Longrightarrow> length bs < 2 ^ 31 \<Longrightarrow> data_len skb + length bs > max_len skb \<Longrightarrow>
   skb_put_bytes skb bs = Inl ExitFailure"
  by (simp add: skb_put_bytes_def skb_put_def add32_def skb_wf_def)

lemma skb_data_nth:
  assumes "skb_wf skb" "i < data_len skb"
  shows "skb_data skb i = Inr (skb_bytes skb ! i)"
  using assms by (simp add: skb_data_def skb_bytes_def skb_wf_def)

lemma skb_pull_ok:
  assumes "n \<le> data_len skb"
  obtains skb' where "skb_pull skb n = Inr skb'" "skb_bytes skb' = drop n (skb_bytes skb)"
    "data_len skb' = data_len skb - n" "data_off skb' = data_off skb + n"
    "max_len skb' = max_len skb" "mem skb' = mem skb" "skb_wf skb' = skb_wf skb"
proof
  show "skb_pull skb n = Inr (skb\<lparr>data_len := data_len skb - n, data_off := data_off skb + n\<rparr>)"
    using assms by (simp add: skb_pull_def)
qed (use assms in \<open>simp_all add: skb_bytes_def skb_wf_def drop_map\<close>)

lemma skb_trim_bytes:
  "n \<le> data_len skb \<Longrightarrow> skb_bytes (skb_trim skb n) = take n (skb_bytes skb)"
  by (auto simp: skb_trim_def skb_bytes_def take_map)

lemma skb_trim_props [simp]:
  "max_len (skb_trim skb n) = max_len skb" "data_off (skb_trim skb n) = data_off skb"
  "mem (skb_trim skb n) = mem skb" "data_len (skb_trim skb n) = min (data_len skb) n"
  by (simp_all add: skb_trim_def)

section \<open>The interface an encoder relies on\<close>

text \<open>
  A byte sink takes bytes at its end while it has room for them: \<open>content\<close> is what it holds,
  \<open>room\<close> how many more bytes fit.
\<close>

locale byte_sink =
  fixes put :: "'s \<Rightarrow> byte list \<Rightarrow> 's result"
    and content :: "'s \<Rightarrow> byte list"
    and room :: "'s \<Rightarrow> nat"
    and valid :: "'s \<Rightarrow> bool"
  assumes put_appends: "valid s \<Longrightarrow> length bs \<le> room s \<Longrightarrow>
    \<exists>s'. put s bs = Inr s' \<and> valid s' \<and> content s' = content s @ bs \<and> room s' = room s - length bs"
begin

text \<open>Writing a sequence of pieces one after the other leaves their concatenation.\<close>

lemma puts_concat:
  assumes "valid s" "(\<Sum>x\<leftarrow>xs. length (enc x)) \<le> room s"
  shows "\<exists>s'. res_fold (\<lambda>x s. put s (enc x)) xs s = Inr s' \<and> valid s' \<and>
    content s' = content s @ concat (map enc xs) \<and> room s' = room s - (\<Sum>x\<leftarrow>xs. length (enc x))"
  using assms
proof (induction xs arbitrary: s)
  case Nil
  then show ?case by simp
next
  case (Cons x xs)
  then obtain s1 where s1: "put s (enc x) = Inr s1" "valid s1" "content s1 = content s @ enc x"
      "room s1 = room s - length (enc x)"
    using put_appends [of s "enc x"] by auto
  with Cons.prems have "(\<Sum>x\<leftarrow>xs. length (enc x)) \<le> room s1" by simp
  from Cons.IH [OF s1(2) this] s1 show ?case by auto
qed

end

interpretation skb_sink: byte_sink skb_put_bytes skb_bytes
  "\<lambda>skb. max_len skb - (data_off skb + data_len skb)" skb_wf
proof
  fix skb :: sk_buff and bs :: "byte list"
  assume "skb_wf skb" "length bs \<le> max_len skb - (data_off skb + data_len skb)"
  then have "data_off skb + data_len skb + length bs \<le> max_len skb"
    unfolding skb_wf_def by linarith
  with \<open>skb_wf skb\<close> obtain skb' where "skb_put_bytes skb bs = Inr skb'" "skb_wf skb'"
      "max_len skb' = max_len skb" "data_off skb' = data_off skb"
      "data_len skb' = data_len skb + length bs" "skb_bytes skb' = skb_bytes skb @ bs"
    by (rule skb_put_bytes_ok)
  then show "\<exists>s'. skb_put_bytes skb bs = Inr s' \<and> skb_wf s' \<and> skb_bytes s' = skb_bytes skb @ bs \<and>
      max_len s' - (data_off s' + data_len s') =
      max_len skb - (data_off skb + data_len skb) - length bs"
    by auto
qed

end
