(* ===== verification/Slip.thy ===== *)
theory Slip
  imports Skb
begin

text \<open>
  The byte stuffing of the three-wire transport: \<open>h5_slip_msgdelim\<close> and \<open>h5_slip_one_byte\<close> of
  \<open>rtk_hciattach/hciattach_rtk.c\<close> write into a buffer; \<open>slip\<close> is the pure encoding they produce
  and \<open>unslip\<close> its inverse. The locale \<open>stuffing\<close> is what a receiver relies on to find frame
  boundaries.
\<close>

section \<open>The encoder of the code\<close>

definition h5_slip_msgdelim :: "sk_buff \<Rightarrow> sk_buff result" where
  "h5_slip_msgdelim skb = skb_put_bytes skb [0xc0]"

definition h5_slip_one_byte :: "sk_buff \<Rightarrow> byte \<Rightarrow> sk_buff result" where
  "h5_slip_one_byte skb c =
     (if c = 0xc0 then skb_put_bytes skb [0xdb, 0xdc]
      else if c = 0xdb then skb_put_bytes skb [0xdb, 0xdd]
      else if c = 0x11 then skb_put_bytes skb [0xdb, 0xde]
      else if c = 0x13 then skb_put_bytes skb [0xdb, 0xdf]
      else skb_put_bytes skb [c])"

section \<open>The encoding as a function on byte sequences\<close>

definition slip_byte :: "byte \<Rightarrow> byte list" where
  "slip_byte c =
     (if c = 0xc0 then [0xdb, 0xdc] else if c = 0xdb then [0xdb, 0xdd]
      else if c = 0x11 then [0xdb, 0xde] else if c = 0x13 then [0xdb, 0xdf] else [c])"

definition slip :: "byte list \<Rightarrow> byte list" where
  "slip bs = concat (map slip_byte bs)"

text \<open>What the second byte of an escape pair stands for.\<close>

definition unescape :: "byte \<Rightarrow> byte option" where
  "unescape e =
     (if e = 0xdc then Some 0xc0 else if e = 0xdd then Some 0xdb
      else if e = 0xde then Some 0x11 else if e = 0xdf then Some 0x13 else None)"

fun unslip :: "byte list \<Rightarrow> byte list option" where
  "unslip [] = Some []"
| "unslip (b # bs) =
     (if b = 0xdb
      then (case bs of [] \<Rightarrow> None
            | e # bs' \<Rightarrow> (case unescape e of None \<Rightarrow> None
                         | Some c \<Rightarrow> map_option ((#) c) (unslip bs')))
      else map_option ((#) b) (unslip bs))"

lemma h5_slip_one_byte_eq: "h5_slip_one_byte skb c = skb_put_bytes skb (slip_byte c)"
  by (simp add: h5_slip_one_byte_def slip_byte_def)

lemma slip_simps [simp]:
  "slip [] = []" "slip (c # cs) = slip_byte c @ slip cs" "slip (xs @ ys) = slip xs @ slip ys"
  by (simp_all add: slip_def)

lemma length_slip_byte: "length (slip_byte c) \<le> 2" "1 \<le> length (slip_byte c)"
  by (auto simp: slip_byte_def)

lemma length_slip: "length (slip bs) \<le> 2 * length bs"
proof (induction bs)
  case (Cons b bs)
  then show ?case using length_slip_byte(1) [of b] by (simp del: length_greater_0_conv)
qed simp

lemma length_slip_ge: "length bs \<le> length (slip bs)"
proof (induction bs)
  case (Cons b bs)
  then show ?case using length_slip_byte(2) [of b] by (simp only: slip_simps length_append length_Cons)
qed simp

text \<open>An encoded byte is either the byte itself, which is not special, or an escape pair.\<close>

lemma slip_byte_cases:
  obtains (plain) "slip_byte c = [c]" "c \<noteq> 0xdb" "c \<noteq> 0xc0"
  | (escaped) e where "slip_byte c = [0xdb, e]" "unescape e = Some c" "e \<noteq> 0xc0"
  by (cases "c = 0xc0"; cases "c = 0xdb"; cases "c = 0x11"; cases "c = 0x13")
     (auto simp: slip_byte_def unescape_def)

lemma slip_byte_clean: "set (slip_byte c) \<inter> {0xc0, 0x11, 0x13} = {}"
  by (auto simp: slip_byte_def)

lemma slip_clean: "set (slip bs) \<inter> {0xc0, 0x11, 0x13} = {}"
  using slip_byte_clean by (fastforce simp: slip_def)

lemma unslip_slip_byte: "unslip (slip_byte c @ bs) = map_option ((#) c) (unslip bs)"
  by (cases c rule: slip_byte_cases) simp_all

lemma unslip_slip: "unslip (slip bs) = Some bs"
  by (induction bs) (simp_all add: unslip_slip_byte)

section \<open>Frame boundaries\<close>

text \<open>
  A stuffing never emits the delimiter and can be undone. Cutting a stream at the first
  delimiter then yields exactly the encoded frame in front of it.
\<close>

locale stuffing =
  fixes encode :: "byte list \<Rightarrow> byte list"
    and decode :: "byte list \<Rightarrow> byte list option"
    and delim :: byte
  assumes decode_encode: "decode (encode bs) = Some bs"
    and no_delim: "delim \<notin> set (encode bs)"
begin

lemma encode_inject: "encode xs = encode ys \<longleftrightarrow> xs = ys"
  by (metis decode_encode option.inject)

lemma first_frame:
  "decode (takeWhile (\<lambda>b. b \<noteq> delim) (encode bs @ delim # rest)) = Some bs"
  "dropWhile (\<lambda>b. b \<noteq> delim) (encode bs @ delim # rest) = delim # rest"
proof -
  have keep: "\<And>b. b \<in> set (encode bs) \<Longrightarrow> b \<noteq> delim"
    using no_delim by blast
  then show "decode (takeWhile (\<lambda>b. b \<noteq> delim) (encode bs @ delim # rest)) = Some bs"
    by (simp add: takeWhile_append2 decode_encode)
  from keep show "dropWhile (\<lambda>b. b \<noteq> delim) (encode bs @ delim # rest) = delim # rest"
    by (simp add: dropWhile_append2)
qed

end

interpretation h5_stuffing: stuffing slip unslip "0xc0"
  using slip_clean by unfold_locales (auto simp: unslip_slip)

section \<open>Writing encoded bytes into a buffer\<close>

lemma slip_bytes_into_skb:
  assumes "skb_wf skb" "length (slip bs) \<le> max_len skb - (data_off skb + data_len skb)"
  shows "\<exists>skb'. res_fold (\<lambda>c s. h5_slip_one_byte s c) bs skb = Inr skb' \<and> skb_wf skb' \<and>
    skb_bytes skb' = skb_bytes skb @ slip bs \<and>
    max_len skb' - (data_off skb' + data_len skb') =
      max_len skb - (data_off skb + data_len skb) - length (slip bs)"
  using skb_sink.puts_concat [of skb slip_byte bs] assms
  by (simp add: h5_slip_one_byte_eq slip_def length_concat comp_def)

end
