(* ===== verification/Rtb_State.thy ===== *)
theory Rtb_State
  imports Skb
begin

text \<open>
  The global state of the attach tool: \<open>struct patch_info\<close> (\<open>rtb_fwc.h\<close>), the enumerations and
  \<open>struct rtb_struct\<close> (\<open>hciattach.h\<close>), whose single instance \<open>rtb_cfg\<close> every routine of the tool
  reads and writes. The record \<open>world\<close> extends it with what the routines see of the operating
  system: the outcomes of \<open>malloc\<close>, of \<open>writev\<close> and of \<open>epoll_wait\<close> still to come, as scripts
  that are consumed call by call, and the log of every \<open>write\<close> that was issued.
\<close>

section \<open>Packet type and state constants\<close>

definition H5_ACK_PKT :: nat where "H5_ACK_PKT = 0x00"
definition HCI_COMMAND_PKT :: nat where "HCI_COMMAND_PKT = 0x01"
definition HCI_ACLDATA_PKT :: nat where "HCI_ACLDATA_PKT = 0x02"
definition HCI_SCODATA_PKT :: nat where "HCI_SCODATA_PKT = 0x03"
definition HCI_EVENT_PKT :: nat where "HCI_EVENT_PKT = 0x04"
definition H5_VDRSPEC_PKT :: nat where "H5_VDRSPEC_PKT = 0x0E"
definition H5_LINK_CTL_PKT :: nat where "H5_LINK_CTL_PKT = 0x0F"

lemmas pkt_type_defs = H5_ACK_PKT_def HCI_COMMAND_PKT_def HCI_ACLDATA_PKT_def HCI_SCODATA_PKT_def
  HCI_EVENT_PKT_def H5_VDRSPEC_PKT_def H5_LINK_CTL_PKT_def

definition HCI_CMD_READ_BD_ADDR :: u16 where "HCI_CMD_READ_BD_ADDR = 0x1009"
definition HCI_VENDOR_CHANGE_BAUD :: u16 where "HCI_VENDOR_CHANGE_BAUD = 0xfc17"
definition HCI_VENDOR_READ_ROM_VER :: u16 where "HCI_VENDOR_READ_ROM_VER = 0xfc6d"
definition HCI_CMD_READ_LOCAL_VER :: u16 where "HCI_CMD_READ_LOCAL_VER = 0x1001"
definition HCI_VENDOR_READ_CMD :: u16 where "HCI_VENDOR_READ_CMD = 0xfc61"
definition HCI_CMD_RESET :: u16 where "HCI_CMD_RESET = 0x0c03"

lemmas opcode_defs = HCI_CMD_READ_BD_ADDR_def HCI_VENDOR_CHANGE_BAUD_def HCI_VENDOR_READ_ROM_VER_def
  HCI_CMD_READ_LOCAL_VER_def HCI_VENDOR_READ_CMD_def HCI_CMD_RESET_def

definition CMD_STATE_UNKNOWN :: u16 where "CMD_STATE_UNKNOWN = 0x00"
definition CMD_STATE_SUCCESS :: u16 where "CMD_STATE_SUCCESS = 0x01"

text \<open>\<open>enum rtk_read_class\<close>, kept as the 16-bit sub-opcode the code stores.\<close>

definition READ_CHIP_TYPE :: u16 where "READ_CHIP_TYPE = 1"
definition READ_LMP_SUB_VERSION :: u16 where "READ_LMP_SUB_VERSION = 2"
definition READ_CHIP_VER :: u16 where "READ_CHIP_VER = 3"
definition READ_SEC_PROJ :: u16 where "READ_SEC_PROJ = 4"

lemmas read_class_defs = READ_CHIP_TYPE_def READ_LMP_SUB_VERSION_def READ_CHIP_VER_def READ_SEC_PROJ_def

definition HCI_UART_H4 :: int where "HCI_UART_H4 = 0"
definition HCI_UART_3WIRE :: int where "HCI_UART_3WIRE = 2"

datatype h5_rx_state = H5_W4_PKT_DELIMITER | H5_W4_PKT_START | H5_W4_HDR | H5_W4_DATA | H5_W4_CRC

datatype h5_rx_esc_state = H5_ESCSTATE_NOESC | H5_ESCSTATE_ESC

datatype h5_link_state = H5_SYNC | H5_CONFIG | H5_INIT | H5_PATCH | H5_HCI_RESET | H5_ACTIVE

section \<open>Structures\<close>

record patch_info =
  p_match_flags :: u32
  p_chip_type :: byte
  p_lmp_subver :: u16
  p_proj_id :: u16
  p_hci_ver :: byte
  p_hci_rev :: u16
  p_patch_file :: string
  p_config_file :: string
  p_ic_name :: string

record cmd_state_t =
  cs_opcode :: u16
  cs_subopcode :: u16
  cs_state :: u16

record rtb_struct =
  rxseq_txack :: byte
  rxack :: byte
  use_crc :: byte
  is_txack_req :: byte
  msgq_txseq :: byte
  message_crc :: u16
  rx_count :: nat
  rx_state :: h5_rx_state
  rx_esc_state :: h5_rx_esc_state
  link_estab_state :: h5_link_state
  rx_skb :: skb_ptr
  num_of_cmd_sent :: u16
  lmp_subver :: u16
  hci_rev :: u16
  hci_ver :: byte
  eversion :: byte
  chip_type :: byte
  chip_ver :: byte
  key_id :: byte
  vendor_baud :: u32
  dl_fw_flag :: byte
  serial_fd :: int
  uart_flow_ctrl :: u32
  parenb :: u16
  pareven :: u16
  final_speed :: int
  total_num :: int
  tx_index :: int
  rx_index :: int
  fw_len :: int
  config_len :: int
  total_len :: int
  fw_buf :: "byte list option"
  config_buf :: "byte list option"
  total_buf :: "byte list option"
  cmd_state :: cmd_state_t
  patch_ent :: "patch_info option"
  proto :: int
  timerfd :: int
  epollfd :: int

section \<open>The environment\<close>

text \<open>
  One outcome of \<open>write\<close> or \<open>writev\<close>: all bytes accepted, only the first \<open>n\<close>, interrupted, or
  failed with an error number. One event of \<open>epoll_wait\<close>: the serial line with what \<open>read\<close>
  then returns (nothing stands for a return value of zero or less), the timer with whether its
  expiration count can be read, an error condition on either descriptor, or another descriptor.
  One outcome of \<open>poll\<close> on the serial line in the four-wire code: failure, timeout, an error
  condition, or readable, with what the next \<open>read\<close> returns (\<open>None\<close> for \<open>-1\<close>).
\<close>

datatype wr_ret = WrOk | WrShort nat | WrEintr | WrErr nat

datatype ep_event = EvSerial "byte list" | EvSerialErr | EvTimer bool | EvTimerErr | EvOther

datatype ep_ret = EpFail | EpEvents "ep_event list"

datatype poll_ret = PollFail | PollTimeout | PollErr | PollIn "byte list option"

text \<open>
  A file: it cannot be opened, or the size \<open>fstat\<close> reports (if it succeeds) and what \<open>read\<close> returns,
  cut to the length asked for (\<open>None\<close> for \<open>-1\<close>).
\<close>

datatype file_ret = FOpenFail | FFile "nat option" "byte list option"

text \<open>The terminal settings the tool changes; the speeds are those of \<open>cfsetospeed\<close> and \<open>cfsetispeed\<close>.\<close>

record termios =
  t_raw :: bool
  t_clocal :: bool
  t_crtscts :: bool
  t_parenb :: bool
  t_parodd :: bool
  t_ospeed :: int
  t_ispeed :: int

text \<open>
  \<open>tcsets\<close> scripts the outcomes of \<open>tcsetattr\<close>; \<open>tio\<close> are the settings handed around as \<open>ti\<close>, and
  \<open>tio_applied\<close> those last set on the line; \<open>armed\<close> is the timeout of the retransmission timer in
  milliseconds, zero when it is disarmed; \<open>files\<close> is the file system and \<open>junk\<close> the content of
  freshly allocated memory.
\<close>

record world = rtb_struct +
  mallocs :: "bool list"
  wlog :: "(int \<times> byte list) list"
  wr_rets :: "wr_ret list"
  polls :: "ep_ret list"
  polls4 :: "poll_ret list"
  tcsets :: "bool list"
  tio :: termios
  tio_applied :: termios
  armed :: nat
  files :: "string \<Rightarrow> file_ret"
  junk :: "nat \<Rightarrow> byte"

text \<open>The next \<open>malloc\<close> outcome; a script that has run out means success.\<close>

definition next_malloc :: "world \<Rightarrow> bool \<times> world" where
  "next_malloc w = (case mallocs w of [] \<Rightarrow> (True, w) | b # bs \<Rightarrow> (b, w\<lparr>mallocs := bs\<rparr>))"

lemma next_malloc_eq:
  "next_malloc w = (mallocs w = [] \<or> hd (mallocs w), w\<lparr>mallocs := tl (mallocs w)\<rparr>)"
  by (cases "mallocs w") (simp_all add: next_malloc_def)

definition log_write :: "int \<Rightarrow> byte list \<Rightarrow> world \<Rightarrow> world" where
  "log_write fd bs w = w\<lparr>wlog := wlog w @ [(fd, bs)]\<rparr>"

text \<open>\<open>tcsetattr(fd, TCSANOW, ti)\<close>: whether it succeeded, and the settings in force.\<close>

definition tcsetattr :: "world \<Rightarrow> bool \<times> world" where
  "tcsetattr w =
     (case tcsets w of
        [] \<Rightarrow> (True, w\<lparr>tio_applied := tio w\<rparr>)
      | b # bs \<Rightarrow> (b, if b then w\<lparr>tcsets := bs, tio_applied := tio w\<rparr> else w\<lparr>tcsets := bs\<rparr>))"

text \<open>The cleared structure of \<open>rtb_init\<close>, in an environment where every call succeeds.\<close>

definition termios_raw :: termios where
  "termios_raw = \<lparr>t_raw = True, t_clocal = True, t_crtscts = False, t_parenb = False, t_parodd = False,
     t_ospeed = 0, t_ispeed = 0\<rparr>"

definition rtb_zero :: world where
  "rtb_zero = \<lparr>rxseq_txack = 0, rxack = 0, use_crc = 0, is_txack_req = 0, msgq_txseq = 0, message_crc = 0,
     rx_count = 0, rx_state = H5_W4_PKT_DELIMITER, rx_esc_state = H5_ESCSTATE_NOESC,
     link_estab_state = H5_SYNC, rx_skb = SkbNull, num_of_cmd_sent = 0, lmp_subver = 0, hci_rev = 0,
     hci_ver = 0, eversion = 0, chip_type = 0, chip_ver = 0, key_id = 0, vendor_baud = 0, dl_fw_flag = 0,
     serial_fd = 0, uart_flow_ctrl = 0, parenb = 0, pareven = 0, final_speed = 0, total_num = 0, tx_index = 0,
     rx_index = 0, fw_len = 0, config_len = 0, total_len = 0, fw_buf = None, config_buf = None,
     total_buf = None, cmd_state = \<lparr>cs_opcode = 0, cs_subopcode = 0, cs_state = 0\<rparr>, patch_ent = None,
     proto = 0, timerfd = 0, epollfd = 0,
     mallocs = [], wlog = [], wr_rets = [], polls = [], polls4 = [], tcsets = [],
     tio = termios_raw, tio_applied = termios_raw, armed = 0, files = (\<lambda>_. FOpenFail), junk = (\<lambda>_. 0)\<rparr>"

end
