(* ===== verification/H5_Tx.thy ===== *)
theory H5_Tx
  imports Crc Slip Rtb_State
begin

text \<open>
  Packet construction in the attach tool: the header macros, \<open>h5_prepare_pkt\<close> and
  \<open>rtb_send_ack\<close> of \<open>rtk_hciattach/hciattach_rtk.c\<close>. The lemmas show that a prepared packet is
  the delimited, stuffed image of header, payload and checksum, that its buffer is always large
  enough, and that every header field can be read back.
\<close>

section \<open>Header fields\<close>

definition H5_HDR_SEQ :: "byte \<Rightarrow> byte" where "H5_HDR_SEQ h0 = h0 AND 0x07"
definition H5_HDR_ACK :: "byte \<Rightarrow> byte" where "H5_HDR_ACK h0 = drop_bit 3 h0 AND 0x07"
definition H5_HDR_CRC :: "byte \<Rightarrow> byte" where "H5_HDR_CRC h0 = drop_bit 6 h0 AND 0x01"
definition H5_HDR_RELIABLE :: "byte \<Rightarrow> byte" where "H5_HDR_RELIABLE h0 = drop_bit 7 h0 AND 0x01"
definition H5_HDR_PKT_TYPE :: "byte \<Rightarrow> byte" where "H5_HDR_PKT_TYPE h1 = h1 AND 0x0f"
definition H5_HDR_LEN :: "byte \<Rightarrow> byte \<Rightarrow> nat" where
  "H5_HDR_LEN h1 h2 = unat (drop_bit 4 h1) + unat h2 * 16"
definition H5_HDR_SIZE :: nat where "H5_HDR_SIZE = 4"

lemmas h5_hdr_defs = H5_HDR_SEQ_def H5_HDR_ACK_def H5_HDR_CRC_def H5_HDR_RELIABLE_def
  H5_HDR_PKT_TYPE_def

section \<open>Building a packet\<close>

text \<open>The \<open>switch\<close> on the packet type: reliable, unreliable, or unknown.\<close>

definition h5_pkt_reliable :: "nat \<Rightarrow> bool option" where
  "h5_pkt_reliable pkt_type =
     (if pkt_type = HCI_ACLDATA_PKT \<or> pkt_type = HCI_COMMAND_PKT \<or> pkt_type = HCI_EVENT_PKT then Some True
      else if pkt_type = H5_ACK_PKT \<or> pkt_type = H5_VDRSPEC_PKT \<or> pkt_type = H5_LINK_CTL_PKT then Some False
      else None)"

definition h5_tx_header :: "bool \<Rightarrow> byte \<Rightarrow> byte \<Rightarrow> bool \<Rightarrow> nat \<Rightarrow> nat \<Rightarrow> byte list" where
  "h5_tx_header rel txack txseq crc len pkt_type =
     (let hdr0 = push_bit 3 txack;
          hdr0 = (if rel then hdr0 OR (0x80 + txseq) else hdr0);
          hdr0 = (if crc then hdr0 OR 0x40 else hdr0);
          hdr1 = push_bit 4 (word_of_nat len) OR word_of_nat pkt_type;
          hdr2 = word_of_nat (len div 16);
          hdr3 = NOT (hdr0 + hdr1 + hdr2)
      in [hdr0, hdr1, hdr2, hdr3])"

text \<open>The body of the encoding loops: stuff one byte and, with a checksum, feed it in.\<close>

definition h5_encode_byte :: "bool \<Rightarrow> byte \<Rightarrow> sk_buff \<times> u16 \<Rightarrow> (sk_buff \<times> u16) result" where
  "h5_encode_byte crc_on c st =
     (case st of (nskb, crc) \<Rightarrow>
        bind_result (h5_slip_one_byte nskb c)
          (\<lambda>nskb. Inr (nskb, if crc_on then h5_crc_update crc c else crc)))"

definition h5_encode_crc :: "bool \<Rightarrow> sk_buff \<Rightarrow> u16 \<Rightarrow> sk_buff result" where
  "h5_encode_crc crc_on nskb crc =
     (if crc_on then
        let crc = bit_rev16 crc in
        bind_result (h5_slip_one_byte nskb (ucast (drop_bit 8 crc AND 0x00ff)))
          (\<lambda>nskb. h5_slip_one_byte nskb (ucast (crc AND 0x00ff)))
      else Inr nskb)"

definition h5_prepare_pkt ::
  "world \<Rightarrow> byte list \<Rightarrow> nat \<Rightarrow> nat \<Rightarrow> (sk_buff option \<times> world) result" where
  "h5_prepare_pkt w data len pkt_type =
     (case h5_pkt_reliable pkt_type of
        None \<Rightarrow> Inr (None, w)
      | Some rel \<Rightarrow>
          (case next_malloc w of (ok, w) \<Rightarrow>
          (case skb_alloc ok ((len + 6) * 2 + 2) of
             None \<Rightarrow> Inr (None, w)
           | Some nskb \<Rightarrow>
               bind_result (h5_slip_msgdelim nskb) (\<lambda>nskb.
               let crc_on = (use_crc w \<noteq> 0);
                   hdr = h5_tx_header rel (rxseq_txack w) (msgq_txseq w) crc_on len pkt_type;
                   w = w\<lparr>is_txack_req := 0\<rparr>;
                   w = (if rel then w\<lparr>msgq_txseq := (msgq_txseq w + 1) AND 0x07\<rparr> else w)
               in
               bind_result (res_fold (h5_encode_byte crc_on) hdr (nskb, H5_CRC_INIT)) (\<lambda>st.
               bind_result (if len \<le> length data then Inr (take len data) else Inl OutOfBounds) (\<lambda>payload.
               bind_result (res_fold (h5_encode_byte crc_on) payload st) (\<lambda>(nskb, crc).
               bind_result (h5_encode_crc crc_on nskb crc) (\<lambda>nskb.
               bind_result (h5_slip_msgdelim nskb) (\<lambda>nskb.
               Inr (Some nskb, w))))))))))"

text \<open>
  \<open>rtb_send_ack\<close> does not test the packet pointer before it reads through it; the return value
  of \<open>write\<close> only decides about a message.
\<close>

definition rtb_send_ack :: "int \<Rightarrow> world \<Rightarrow> world result" where
  "rtb_send_ack fd w =
     bind_result (h5_prepare_pkt w [] 0 H5_ACK_PKT) (\<lambda>(nskb, w).
       case nskb of None \<Rightarrow> Inl NullDeref
       | Some nskb \<Rightarrow> Inr (log_write fd (skb_bytes nskb) w))"

section \<open>The frame on the wire\<close>

text \<open>The checksum bytes as sent: bit-reversed, most significant byte first.\<close>

definition crc_trailer :: "bool \<Rightarrow> byte list \<Rightarrow> byte list" where
  "crc_trailer crc_on bs =
     (if crc_on then
        let crc = bit_rev16 (h5_crc H5_CRC_INIT bs) in [ucast (drop_bit 8 crc), ucast crc]
      else [])"

definition h5_frame :: "bool \<Rightarrow> byte list \<Rightarrow> byte list" where
  "h5_frame crc_on bs = 0xc0 # slip (bs @ crc_trailer crc_on bs) @ [0xc0]"

lemma length_crc_trailer: "length (crc_trailer crc_on bs) \<le> 2"
  by (simp add: crc_trailer_def Let_def)

lemma length_h5_tx_header [simp]: "length (h5_tx_header rel a s c len t) = 4"
  by (simp add: h5_tx_header_def Let_def)

text \<open>One encoding loop appends the stuffed bytes and carries the checksum along.\<close>

lemma encode_loop:
  assumes "skb_wf skb" "length (slip bs) \<le> max_len skb - (data_off skb + data_len skb)"
  obtains skb' where
    "res_fold (h5_encode_byte crc_on) bs (skb, crc) = Inr (skb', if crc_on then h5_crc crc bs else crc)"
    "skb_wf skb'" "skb_bytes skb' = skb_bytes skb @ slip bs"
    "max_len skb' - (data_off skb' + data_len skb') =
       max_len skb - (data_off skb + data_len skb) - length (slip bs)"
proof -
  have pair: "res_fold (h5_encode_byte crc_on) bs (skb, crc) =
      bind_result (res_fold (\<lambda>c s. h5_slip_one_byte s c) bs skb)
        (\<lambda>s. Inr (s, if crc_on then h5_crc crc bs else crc))" for bs skb crc
    by (induction bs arbitrary: skb crc)
       (auto simp: h5_encode_byte_def bind_result_def split: sum.splits)
  from slip_bytes_into_skb [OF assms] that show thesis
    unfolding pair by auto
qed

lemma put_delim:
  assumes "skb_wf skb" "1 \<le> max_len skb - (data_off skb + data_len skb)"
  obtains skb' where "h5_slip_msgdelim skb = Inr skb'" "skb_wf skb'"
    "skb_bytes skb' = skb_bytes skb @ [0xc0]"
    "max_len skb' - (data_off skb' + data_len skb') = max_len skb - (data_off skb + data_len skb) - 1"
  using skb_sink.put_appends [of skb "[0xc0]"] assms
  by (auto simp: h5_slip_msgdelim_def)

lemma encode_crc_loop:
  "h5_encode_crc crc_on nskb (if crc_on then h5_crc H5_CRC_INIT bs else c) =
     res_fold (\<lambda>c s. h5_slip_one_byte s c) (crc_trailer crc_on bs) nskb"
  by (simp add: h5_encode_crc_def crc_trailer_def Let_def bind_result_def split: sum.splits)

text \<open>
  Header and payload loops in sequence are one loop over the concatenation, followed by the
  checksum bytes and the closing delimiter: they leave a complete frame in a buffer that starts
  with the opening delimiter and has room for twice the bytes plus five.
\<close>

lemma encode_frame:
  assumes "skb_wf skb" "skb_bytes skb = [0xc0]" "data_off skb = 0" "data_len skb = 1"
    "2 * length bs + 6 \<le> max_len skb"
  obtains skb' where
    "bind_result (res_fold (h5_encode_byte on) bs (skb, H5_CRC_INIT)) (\<lambda>(nskb, crc).
       bind_result (h5_encode_crc on nskb crc) h5_slip_msgdelim) = Inr skb'"
    "skb_bytes skb' = h5_frame on bs"
proof -
  let ?room = "\<lambda>s. max_len s - (data_off s + data_len s)" and ?t = "crc_trailer on bs"
  have len: "length (slip bs) \<le> 2 * length bs" "length (slip ?t) \<le> 4"
    using length_slip [of bs] length_slip [of ?t] length_crc_trailer [of on bs] by auto
  from assms(1,3-5) len(1) obtain s1 where s1:
      "res_fold (h5_encode_byte on) bs (skb, H5_CRC_INIT) =
         Inr (s1, if on then h5_crc H5_CRC_INIT bs else H5_CRC_INIT)"
      "skb_wf s1" "skb_bytes s1 = 0xc0 # slip bs" "?room s1 = max_len skb - 1 - length (slip bs)"
    by (elim encode_loop [of skb bs on H5_CRC_INIT]) (auto simp: assms(2-4))
  from len assms(5) s1(4) have "length (slip ?t) \<le> ?room s1" by linarith
  from slip_bytes_into_skb [OF s1(2) this] s1(3) obtain s2 where s2:
      "res_fold (\<lambda>c s. h5_slip_one_byte s c) ?t s1 = Inr s2" "skb_wf s2"
      "skb_bytes s2 = 0xc0 # slip (bs @ ?t)" "?room s2 = ?room s1 - length (slip ?t)"
    by auto
  with len assms(5) s1(4) obtain s3 where s3: "h5_slip_msgdelim s2 = Inr s3"
      "skb_bytes s3 = h5_frame on bs"
    by (elim put_delim [of s2]) (auto simp: h5_frame_def)
  with s1(1) s2(1) that show thesis by (simp add: encode_crc_loop)
qed

lemma h5_prepare_pkt_frame:
  assumes rel: "h5_pkt_reliable pkt_type = Some rel"
    and ok: "next_malloc w = (True, w1)"
    and len: "length data < 2 ^ 29"
  defines "hdr \<equiv> h5_tx_header rel (rxseq_txack w) (msgq_txseq w) (use_crc w \<noteq> 0) (length data) pkt_type"
  obtains nskb where
    "h5_prepare_pkt w data (length data) pkt_type =
       Inr (Some nskb, w1\<lparr>is_txack_req := 0,
              msgq_txseq := (if rel then (msgq_txseq w + 1) AND 0x07 else msgq_txseq w)\<rparr>)"
    "skb_bytes nskb = h5_frame (use_crc w \<noteq> 0) (hdr @ data)"
proof -
  have w1: "rxseq_txack w1 = rxseq_txack w" "msgq_txseq w1 = msgq_txseq w" "use_crc w1 = use_crc w"
    using ok by (auto simp: next_malloc_def split: list.splits)
  let ?on = "use_crc w \<noteq> 0" and ?n = "(length data + 6) * 2 + 2"
  obtain s0 where s0: "skb_alloc True ?n = Some s0" by (simp add: skb_alloc_def)
  with skb_alloc_props [OF s0] len skb_put_bytes_ok [of s0 "[0xc0]"]
  obtain s1 where s1: "h5_slip_msgdelim s0 = Inr s1" "skb_wf s1" "skb_bytes s1 = [0xc0]"
      "data_off s1 = 0" "data_len s1 = 1" "max_len s1 = ?n"
    by (auto simp: h5_slip_msgdelim_def)
  from len s1(6) have "2 * length (hdr @ data) + 6 \<le> max_len s1" by (simp add: hdr_def)
  from encode_frame [OF s1(2-5) this] obtain s2 where s2:
      "bind_result (res_fold (h5_encode_byte ?on) (hdr @ data) (s1, H5_CRC_INIT)) (\<lambda>(nskb, crc).
         bind_result (h5_encode_crc ?on nskb crc) h5_slip_msgdelim) = Inr s2"
      "skb_bytes s2 = h5_frame ?on (hdr @ data)"
    by blast
  have "h5_prepare_pkt w data (length data) pkt_type =
       Inr (Some s2, w1\<lparr>is_txack_req := 0,
              msgq_txseq := (if rel then (msgq_txseq w + 1) AND 0x07 else msgq_txseq w)\<rparr>)"
    using s2(1)
    by (auto simp: h5_prepare_pkt_def rel ok s0 [simplified] s1(1) w1 Let_def res_fold_append bind_result_assoc
          bind_result_eq_Inr hdr_def split_def)
  with s2(2) that show thesis by blast
qed

section \<open>Reading the header back\<close>

lemma byte_less8_cases:
  assumes "x < (8 :: byte)"
  shows "x \<in> {0, 1, 2, 3, 4, 5, 6, 7}"
proof -
  obtain n where n: "x = word_of_nat n" "n < 8"
    using assms by (intro that [of "unat x"]) (simp_all add: word_less_nat_alt)
  from n(2) have "n = 0 \<or> n = 1 \<or> n = 2 \<or> n = 3 \<or> n = 4 \<or> n = 5 \<or> n = 6 \<or> n = 7" by auto
  with n(1) show ?thesis by auto
qed

lemma hdr0_fields:
  fixes rel crc :: bool
  assumes "a < (8 :: byte)" "s < (8 :: byte)"
  defines "h \<equiv> (let h = push_bit 3 a; h = (if rel then h OR (0x80 + s) else h)
                in if crc then h OR 0x40 else h)"
  shows "H5_HDR_ACK h = a" "H5_HDR_RELIABLE h = of_bool rel" "H5_HDR_CRC h = of_bool crc"
    "rel \<Longrightarrow> H5_HDR_SEQ h = s"
  using byte_less8_cases [OF assms(1)] byte_less8_cases [OF assms(2)]
  unfolding h_def h5_hdr_defs Let_def
  by (elim insertE; force)+

lemma take_bit_nibble: "t < 16 \<Longrightarrow> take_bit 4 (word_of_nat t :: byte) = word_of_nat t"
  by (simp add: take_bit_nat_eq_self flip: of_nat_take_bit)

lemma hdr1_type:
  assumes "t < 16"
  shows "H5_HDR_PKT_TYPE (push_bit 4 (word_of_nat len) OR word_of_nat t) = word_of_nat t"
proof -
  have t: "(word_of_nat t :: byte) AND mask 4 = word_of_nat t"
    using take_bit_nibble [OF assms] by (simp only: take_bit_eq_mask)
  have "(push_bit 4 (word_of_nat len) :: byte) AND mask 4 = 0"
    by (simp add: take_bit_eq_mask [symmetric] take_bit_push_bit)
  moreover have "(0x0f :: byte) = mask 4" by (simp add: mask_eq_exp_minus_1)
  ultimately show ?thesis
    unfolding H5_HDR_PKT_TYPE_def using t by (simp only: bit.conj_disj_distrib2 or.left_neutral)
qed

lemma hdr_len:
  assumes "t < 16" "len < 4096"
  shows "H5_HDR_LEN (push_bit 4 (word_of_nat len) OR word_of_nat t) (word_of_nat (len div 16)) = len"
proof -
  have "drop_bit 4 (take_bit 4 (word_of_nat t :: byte)) = 0"
    by (simp add: drop_bit_take_bit)
  then have t: "drop_bit 4 (word_of_nat t :: byte) = 0"
    by (simp only: take_bit_nibble [OF assms(1)])
  have "drop_bit 4 (push_bit 4 (word_of_nat len) :: byte) = take_bit 4 (word_of_nat len)"
    by (rule bit_word_eqI) (auto simp: bit_simps)
  also have "\<dots> = word_of_nat (take_bit 4 len)"
    by (simp only: of_nat_take_bit)
  also have "take_bit 4 len = len mod 16"
    by (simp add: take_bit_eq_mod)
  finally have "unat (drop_bit 4 (push_bit 4 (word_of_nat len) OR word_of_nat t :: byte)) = len mod 16"
    by (simp add: t unsigned_of_nat take_bit_nat_eq_self)
  moreover have "unat (word_of_nat (len div 16) :: byte) = len div 16"
    using assms(2) by (simp add: unsigned_of_nat take_bit_nat_eq_self)
  ultimately show ?thesis
    by (simp only: H5_HDR_LEN_def) (simp add: mult.commute)
qed

end
