(* ===== verification/H5_Rx.thy ===== *)
theory H5_Rx
  imports H5_Tx
begin

text \<open>
  The receiver of the attach tool (\<open>rtk_hciattach/hciattach_rtk.c\<close>): unstuffing and checksum
  (\<open>h5_unslip_one_byte\<close>, \<open>h5_get_crc\<close>), the command-complete handlers, link establishment
  (\<open>h5_handle_internal_rx\<close>), packet completion and the receive loop \<open>h5_recv\<close>. This theory
  holds the definitions; \<open>H5_Rx_Safety\<close> and \<open>H5_Roundtrip\<close> hold what is proved of them.
\<close>

section \<open>One received byte\<close>

text \<open>Append one decoded byte to the packet and feed it to the checksum where that is due.\<close>

definition rx_store_byte :: "world \<Rightarrow> byte \<Rightarrow> world result" where
  "rx_store_byte w c =
     bind_result (deref (rx_skb w)) (\<lambda>skb.
     bind_result (skb_put_bytes skb [c]) (\<lambda>skb.
     bind_result (skb_data skb 0) (\<lambda>d0.
       Inr (w\<lparr>rx_skb := SkbLive skb,
              message_crc := (if d0 AND 0x40 \<noteq> 0 \<and> rx_state w \<noteq> H5_W4_CRC
                              then h5_crc_update (message_crc w) c else message_crc w)\<rparr>))))"

definition h5_unslip_one_byte :: "world \<Rightarrow> byte \<Rightarrow> world result" where
  "h5_unslip_one_byte w b =
     (case rx_esc_state w of
        H5_ESCSTATE_NOESC \<Rightarrow>
          if b = 0xdb then Inr (w\<lparr>rx_esc_state := H5_ESCSTATE_ESC\<rparr>)
          else bind_result (rx_store_byte w b) (\<lambda>w. Inr (w\<lparr>rx_count := sub32 (rx_count w) 1\<rparr>))
      | H5_ESCSTATE_ESC \<Rightarrow>
          let escaped = (\<lambda>c. bind_result (rx_store_byte w c) (\<lambda>w.
                Inr (w\<lparr>rx_esc_state := H5_ESCSTATE_NOESC, rx_count := sub32 (rx_count w) 1\<rparr>)))
          in if b = 0xdc then escaped 0xc0
             else if b = 0xdd then escaped 0xdb
             else if b = 0xde then escaped 0x11
             else if b = 0xdf then escaped 0x13
             else bind_result (skb_free (rx_skb w)) (\<lambda>_.
                    Inr (w\<lparr>rx_skb := SkbNull, rx_state := H5_W4_PKT_DELIMITER, rx_count := 0\<rparr>)))"

definition h5_get_crc :: "world \<Rightarrow> u16 result" where
  "h5_get_crc w =
     bind_result (deref (rx_skb w)) (\<lambda>skb.
       if data_len skb < 2 then Inl OutOfBounds
       else bind_result (skb_data skb (data_len skb - 2)) (\<lambda>d0.
            bind_result (skb_data skb (data_len skb - 1)) (\<lambda>d1.
              Inr (ucast d1 + push_bit 8 (ucast d0)))))"

section \<open>Packets for the command state\<close>

text \<open>\<open>skb->data[i] | skb->data[j] << 8\<close>.\<close>

definition skb_le16 :: "sk_buff \<Rightarrow> nat \<Rightarrow> nat \<Rightarrow> u16 result" where
  "skb_le16 skb i j =
     bind_result (skb_data skb i) (\<lambda>lo. bind_result (skb_data skb j) (\<lambda>hi.
       Inr (ucast lo OR push_bit 8 (ucast hi))))"

definition h5_init_cc_fields :: "sk_buff \<Rightarrow> u16 \<Rightarrow> world \<Rightarrow> world option result" where
  "h5_init_cc_fields skb opcode w =
     (if opcode = HCI_VENDOR_CHANGE_BAUD then Inr (Some w)
      else if opcode = HCI_CMD_READ_BD_ADDR then
        bind_result (skb_data skb 5) (\<lambda>_. Inr (Some w))
      else if opcode = HCI_CMD_READ_LOCAL_VER then
        bind_result (skb_data skb 1) (\<lambda>ver.
        bind_result (skb_le16 skb 2 3) (\<lambda>rev.
        bind_result (skb_le16 skb 7 8) (\<lambda>sub.
          Inr (Some (w\<lparr>hci_ver := ver, hci_rev := rev, lmp_subver := sub\<rparr>)))))
      else if opcode = HCI_VENDOR_READ_ROM_VER then
        bind_result (skb_data skb 1) (\<lambda>ver. Inr (Some (w\<lparr>eversion := ver\<rparr>)))
      else if opcode = HCI_VENDOR_READ_CMD then
        (let sub = cs_subopcode (cmd_state w) in
         if sub = READ_CHIP_TYPE then
           bind_result (skb_data skb 1) (\<lambda>d1. bind_result (skb_data skb 2) (\<lambda>d2.
             Inr (Some (w\<lparr>chip_type := d1 AND 0x0f, chip_ver := d2 AND 0x0f\<rparr>))))
         else if sub = READ_LMP_SUB_VERSION then
           bind_result (skb_le16 skb 1 2) (\<lambda>v. Inr (Some (w\<lparr>lmp_subver := v\<rparr>)))
         else if sub = READ_CHIP_VER then
           bind_result (skb_le16 skb 1 2) (\<lambda>v. Inr (Some (w\<lparr>hci_rev := v\<rparr>)))
         else if sub = READ_SEC_PROJ then
           bind_result (skb_data skb 1) (\<lambda>d1. Inr (Some (w\<lparr>key_id := d1\<rparr>)))
         else Inr (Some w))
      else Inr None)"

text \<open>
  The common prefix of both command-complete handlers: strip the event header, read opcode and
  status. \<open>None\<close> stands for the early returns on a bad status or an unexpected opcode.
\<close>

definition h5_cc_prefix :: "sk_buff \<Rightarrow> world \<Rightarrow> (sk_buff \<times> u16) option result" where
  "h5_cc_prefix skb w =
     bind_result (skb_pull skb 2) (\<lambda>skb.
     bind_result (skb_le16 skb 1 2) (\<lambda>opcode.
     bind_result (skb_pull skb 3) (\<lambda>skb.
     bind_result (skb_data skb 0) (\<lambda>status.
       if status \<noteq> 0 then Inr None
       else if cs_opcode (cmd_state w) \<noteq> opcode then Inr None
       else Inr (Some (skb, opcode))))))"

definition h5_init_hci_cc :: "sk_buff \<Rightarrow> world \<Rightarrow> world result" where
  "h5_init_hci_cc skb w =
     bind_result (h5_cc_prefix skb w) (\<lambda>r.
       case r of None \<Rightarrow> Inr w
       | Some (skb, opcode) \<Rightarrow>
           let w = w\<lparr>cmd_state := (cmd_state w)\<lparr>cs_state := CMD_STATE_SUCCESS\<rparr>\<rparr> in
           bind_result (h5_init_cc_fields skb opcode w) (\<lambda>r.
             case r of None \<Rightarrow> Inr w
             | Some w \<Rightarrow> Inr (w\<lparr>num_of_cmd_sent := num_of_cmd_sent w + 1\<rparr>)))"

definition h5_post_hci_cc :: "sk_buff \<Rightarrow> world \<Rightarrow> world result" where
  "h5_post_hci_cc skb w =
     bind_result (h5_cc_prefix skb w) (\<lambda>r.
       case r of None \<Rightarrow> Inr w
       | Some (skb, opcode) \<Rightarrow>
           let w = w\<lparr>cmd_state := (cmd_state w)\<lparr>cs_state := CMD_STATE_SUCCESS\<rparr>\<rparr> in
           if opcode = HCI_CMD_RESET then Inr (w\<lparr>link_estab_state := H5_ACTIVE\<rparr>) else Inr w)"

text \<open>\<open>rx_index\<close> is an \<open>int\<close>, so the mask with \<open>~0x80\<close> clears bit 7 of the byte it was set from.\<close>

definition hci_recv_frame :: "sk_buff \<Rightarrow> world \<Rightarrow> world result" where
  "hci_recv_frame skb w =
     (case link_estab_state w of
        H5_INIT \<Rightarrow>
          bind_result (skb_data skb 0) (\<lambda>ev. if ev = 0x0e then h5_init_hci_cc skb w else Inr w)
      | H5_PATCH \<Rightarrow>
          bind_result (skb_data skb 0) (\<lambda>ev.
            if ev \<noteq> 0x0e then Inr w
            else bind_result (skb_data skb 6) (\<lambda>d6.
              let w = w\<lparr>rx_index := uint d6\<rparr> in
              if d6 AND 0x80 \<noteq> 0
              then Inr (w\<lparr>rx_index := uint (d6 AND NOT 0x80), link_estab_state := H5_HCI_RESET\<rparr>)
              else Inr w))
      | H5_HCI_RESET \<Rightarrow>
          bind_result (skb_data skb 0) (\<lambda>ev. if ev = 0x0e then h5_post_hci_cc skb w else Inr w)
      | _ \<Rightarrow> Inr w)"

section \<open>Link establishment\<close>

definition sync_req :: "byte list" where "sync_req = [0x01, 0x7E]"
definition sync_resp :: "byte list" where "sync_resp = [0x02, 0x7D]"
definition sync_resp_pkt :: "byte list" where
  "sync_resp_pkt = [0xc0, 0x00, 0x2F, 0x00, 0xD0, 0x02, 0x7D, 0xc0]"
definition conf_req :: "byte list" where "conf_req = [0x03, 0xFC]"
definition conf_resp :: "byte list" where "conf_resp = [0x04, 0x7B]"
definition conf_resp_pkt :: "byte list" where
  "conf_resp_pkt = [0xc0, 0x00, 0x2F, 0x00, 0xD0, 0x04, 0x7B, 0xc0]"

lemmas link_pkt_defs = sync_req_def sync_resp_def sync_resp_pkt_def conf_req_def conf_resp_def
  conf_resp_pkt_def

text \<open>The branches compare the first two payload bytes, read once here.\<close>

definition h5_handle_internal_rx :: "sk_buff \<Rightarrow> world \<Rightarrow> world result" where
  "h5_handle_internal_rx skb w =
     (case link_estab_state w of
        H5_SYNC \<Rightarrow>
          bind_result (skb_data skb 0) (\<lambda>d0. bind_result (skb_data skb 1) (\<lambda>d1.
            if [d0, d1] = sync_req then Inr (log_write (serial_fd w) sync_resp_pkt w)
            else if [d0, d1] = sync_resp then Inr (w\<lparr>link_estab_state := H5_CONFIG\<rparr>)
            else Inr w))
      | H5_CONFIG \<Rightarrow>
          bind_result (skb_data skb 0) (\<lambda>d0. bind_result (skb_data skb 1) (\<lambda>d1.
            if [d0, d1] = sync_req then Inr (log_write (serial_fd w) sync_resp_pkt w)
            else if [d0, d1] = conf_req then Inr (log_write (serial_fd w) conf_resp_pkt w)
            else if [d0, d1] = conf_resp then
              (let w = w\<lparr>link_estab_state := H5_INIT\<rparr> in
               if data_len skb > 2
               then bind_result (skb_data skb 2) (\<lambda>d2. Inr (w\<lparr>use_crc := drop_bit 4 d2 AND 0x01\<rparr>))
               else Inr w)
            else rtb_send_ack (serial_fd w) w))
      | _ \<Rightarrow> Inr w)"

section \<open>Packet completion and the receive loop\<close>

text \<open>Sequence and acknowledgement numbers of a complete packet.\<close>

definition h5_rx_bookkeep :: "byte \<Rightarrow> world \<Rightarrow> world" where
  "h5_rx_bookkeep h0 w =
     (let w = (if H5_HDR_RELIABLE h0 \<noteq> 0
               then w\<lparr>rxseq_txack := (H5_HDR_SEQ h0 + 1) AND 0x07, is_txack_req := 1\<rparr> else w)
      in w\<lparr>rxack := H5_HDR_ACK h0\<rparr>)"

text \<open>The \<open>switch\<close> on the packet type and the hand-over of the payload.\<close>

definition h5_rx_deliver :: "sk_buff \<Rightarrow> byte \<Rightarrow> world \<Rightarrow> world result" where
  "h5_rx_deliver skb h1 w =
     (let t = unat (H5_HDR_PKT_TYPE h1) in
      if t = HCI_ACLDATA_PKT \<or> t = HCI_EVENT_PKT \<or> t = HCI_COMMAND_PKT \<or> t = HCI_SCODATA_PKT then
        bind_result (skb_pull skb H5_HDR_SIZE) (\<lambda>skb. hci_recv_frame skb w)
      else if t = H5_LINK_CTL_PKT then
        bind_result (skb_pull skb H5_HDR_SIZE) (\<lambda>skb. h5_handle_internal_rx skb w)
      else Inr w)"

text \<open>Acknowledge if required, free the packet, wait for the next delimiter.\<close>

definition h5_rx_ack :: "world \<Rightarrow> world result" where
  "h5_rx_ack w =
     (if is_txack_req w \<noteq> 0
      then bind_result (rtb_send_ack (serial_fd w) w) (\<lambda>w. Inr (w\<lparr>is_txack_req := 0\<rparr>))
      else Inr w)"

definition h5_rx_release :: "world \<Rightarrow> world result" where
  "h5_rx_release w =
     bind_result (skb_free (rx_skb w)) (\<lambda>_.
       Inr (w\<lparr>rx_state := H5_W4_PKT_DELIMITER, rx_skb := SkbNull\<rparr>))"

definition h5_complete_rx_pkt :: "world \<Rightarrow> world result" where
  "h5_complete_rx_pkt w =
     bind_result (deref (rx_skb w)) (\<lambda>skb.
     bind_result (skb_data skb 0) (\<lambda>h0.
     bind_result (skb_data skb 1) (\<lambda>h1.
     bind_result (h5_rx_deliver skb h1 (h5_rx_bookkeep h0 w)) (\<lambda>w.
     bind_result (h5_rx_ack w) (\<lambda>w.
     h5_rx_release w)))))"

text \<open>
  One iteration of the loop, and what it does with the current byte: consume it, look at it
  again in the next iteration (\<open>continue\<close> without advancing), or leave the function.
\<close>

datatype rx_action = RxConsume | RxKeep | RxReturn

definition h5_drop_rx :: "world \<Rightarrow> world result" where
  "h5_drop_rx w =
     bind_result (skb_free (rx_skb w)) (\<lambda>p.
       Inr (w\<lparr>rx_skb := p, rx_state := H5_W4_PKT_DELIMITER, rx_count := 0\<rparr>))"

definition h5_recv_hdr :: "world \<Rightarrow> world result" where
  "h5_recv_hdr w =
     bind_result (deref (rx_skb w)) (\<lambda>skb.
     bind_result (skb_data skb 0) (\<lambda>d0.
     bind_result (skb_data skb 1) (\<lambda>d1.
     bind_result (skb_data skb 2) (\<lambda>d2.
     bind_result (skb_data skb 3) (\<lambda>d3.
       if NOT (d0 + d1 + d2) \<noteq> d3 then h5_drop_rx w
       else if d0 AND 0x80 \<noteq> 0 \<and> d0 AND 0x07 \<noteq> rxseq_txack w then
         bind_result (h5_drop_rx (w\<lparr>is_txack_req := 1\<rparr>)) (\<lambda>w.
           Inr (if link_estab_state w = H5_PATCH \<and> tx_index w = total_num w
                then w\<lparr>rxseq_txack := d0 AND 0x07\<rparr> else w))
       else Inr (w\<lparr>rx_state := H5_W4_DATA, rx_count := unat (drop_bit 4 d1) + unat d2 * 16\<rparr>))))))"

definition h5_recv_crc :: "world \<Rightarrow> world result" where
  "h5_recv_crc w =
     bind_result (h5_get_crc w) (\<lambda>crc.
       if bit_rev16 (message_crc w) \<noteq> crc then h5_drop_rx w
       else bind_result (deref (rx_skb w)) (\<lambda>skb.
         h5_complete_rx_pkt (w\<lparr>rx_skb := SkbLive (skb_trim skb (sub32 (data_len skb) 2))\<rparr>)))"

definition h5_recv_start :: "world \<Rightarrow> rx_action \<times> world" where
  "h5_recv_start w =
     (let w = w\<lparr>rx_state := H5_W4_HDR, rx_count := 4, rx_esc_state := H5_ESCSTATE_NOESC,
                message_crc := H5_CRC_INIT\<rparr>
      in case next_malloc w of (ok, w) \<Rightarrow>
        (case skb_alloc ok 0x1005 of
           None \<Rightarrow> (RxReturn, w\<lparr>rx_skb := SkbNull, rx_state := H5_W4_PKT_DELIMITER, rx_count := 0\<rparr>)
         | Some skb \<Rightarrow> (RxKeep, w\<lparr>rx_skb := SkbLive skb\<rparr>)))"

definition h5_recv_iter :: "world \<Rightarrow> byte \<Rightarrow> (rx_action \<times> world) result" where
  "h5_recv_iter w b =
     (if rx_count w \<noteq> 0 then
        (if b = 0xc0 then
           bind_result (skb_free (rx_skb w)) (\<lambda>p.
             Inr (RxConsume, w\<lparr>rx_skb := p, rx_state := H5_W4_PKT_START, rx_count := 0\<rparr>))
         else bind_result (h5_unslip_one_byte w b) (\<lambda>w. Inr (RxConsume, w)))
      else
        (case rx_state w of
           H5_W4_HDR \<Rightarrow> bind_result (h5_recv_hdr w) (\<lambda>w. Inr (RxKeep, w))
         | H5_W4_DATA \<Rightarrow>
             bind_result (deref (rx_skb w)) (\<lambda>skb.
             bind_result (skb_data skb 0) (\<lambda>d0.
               if d0 AND 0x40 \<noteq> 0
               then Inr (RxKeep, w\<lparr>rx_state := H5_W4_CRC, rx_count := 2\<rparr>)
               else bind_result (h5_complete_rx_pkt w) (\<lambda>w. Inr (RxKeep, w))))
         | H5_W4_CRC \<Rightarrow> bind_result (h5_recv_crc w) (\<lambda>w. Inr (RxKeep, w))
         | H5_W4_PKT_DELIMITER \<Rightarrow>
             Inr (RxConsume, if b = 0xc0 then w\<lparr>rx_state := H5_W4_PKT_START\<rparr> else w)
         | H5_W4_PKT_START \<Rightarrow>
             if b = 0xc0 then Inr (RxConsume, w) else Inr (h5_recv_start w)))"

text \<open>
  The loop looks at the current byte again at most a few times: every such iteration moves the
  receiver to a state of lower rank, and a state of rank zero consumes.
\<close>

definition rx_rank :: "world \<Rightarrow> nat" where
  "rx_rank w =
     (if rx_count w \<noteq> 0 then 0
      else case rx_state w of H5_W4_HDR \<Rightarrow> 4 | H5_W4_DATA \<Rightarrow> 3 | H5_W4_CRC \<Rightarrow> 2
           | H5_W4_PKT_START \<Rightarrow> 1 | H5_W4_PKT_DELIMITER \<Rightarrow> 1)"

lemma h5_complete_rx_pkt_state:
  "h5_complete_rx_pkt w = Inr w' \<Longrightarrow> rx_state w' = H5_W4_PKT_DELIMITER"
  by (auto simp: h5_complete_rx_pkt_def h5_rx_release_def bind_result_eq_Inr)

lemma h5_drop_rx_state: "h5_drop_rx w = Inr w' \<Longrightarrow> rx_state w' = H5_W4_PKT_DELIMITER"
  by (auto simp: h5_drop_rx_def bind_result_eq_Inr)

lemma rx_rank_delim: "rx_state w = H5_W4_PKT_DELIMITER \<Longrightarrow> rx_rank w < 2"
  by (simp add: rx_rank_def)

lemma h5_recv_hdr_rank: "h5_recv_hdr w = Inr w' \<Longrightarrow> rx_rank w' \<le> 3"
  by (auto simp: h5_recv_hdr_def bind_result_eq_Inr rx_rank_def dest!: h5_drop_rx_state split: if_splits)

lemma h5_recv_crc_rank: "h5_recv_crc w = Inr w' \<Longrightarrow> rx_rank w' < 2"
  by (auto simp: h5_recv_crc_def bind_result_eq_Inr split: if_splits
      dest: h5_drop_rx_state h5_complete_rx_pkt_state intro: rx_rank_delim)

lemma h5_recv_iter_rank:
  assumes "h5_recv_iter w b = Inr (RxKeep, w')"
  shows "rx_rank w' < rx_rank w"
proof (cases "rx_count w = 0")
  case False
  with assms show ?thesis
    by (auto simp: h5_recv_iter_def bind_result_eq_Inr split: if_splits)
next
  case True
  with assms show ?thesis
    by (cases "rx_state w")
       (auto simp: h5_recv_iter_def bind_result_eq_Inr rx_rank_def [of w] split: if_splits
         dest!: h5_recv_hdr_rank h5_recv_crc_rank rx_rank_delim [OF h5_complete_rx_pkt_state]
         simp: h5_recv_start_def Let_def rx_rank_def next_malloc_eq split: option.splits)
qed

function h5_recv :: "world \<Rightarrow> byte list \<Rightarrow> world result" where
  "h5_recv w [] = Inr w"
| "h5_recv w (b # bs) =
     bind_result (h5_recv_iter w b) (\<lambda>(act, w').
       case act of RxConsume \<Rightarrow> h5_recv w' bs | RxKeep \<Rightarrow> h5_recv w' (b # bs) | RxReturn \<Rightarrow> Inr w')"
  by pat_completeness auto
termination
  by (relation "measures [length \<circ> snd, rx_rank \<circ> fst]") (auto dest: h5_recv_iter_rank)

declare h5_recv.simps(2) [simp del]

end
