(* ===== verification/H5_Rx_Safety.thy ===== *)
theory H5_Rx_Safety
  imports H5_Rx
begin

text \<open>
  Memory safety of the receive loop: an invariant of the receiver that ties the expected byte
  count to the fill level of the packet buffer, and the proof that every iteration keeps it and
  commits none of the memory faults.
\<close>

section \<open>The invariant\<close>

definition mem_ok :: "world \<Rightarrow> bool" where
  "mem_ok w \<longleftrightarrow> False \<notin> set (mallocs w)"

text \<open>The receive buffer: live, not yet pulled, of the size the receiver allocates.\<close>

definition rx_buf :: "sk_buff \<Rightarrow> bool" where
  "rx_buf skb \<longleftrightarrow> data_off skb = 0 \<and> max_len skb = 0x1005 \<and> data_len skb \<le> 0x1005"

text \<open>The buffer is filled up to \<open>fill\<close> bytes once the outstanding bytes have arrived.\<close>

definition rx_filled :: "world \<Rightarrow> (sk_buff \<Rightarrow> nat) \<Rightarrow> bool" where
  "rx_filled w fill =
     (case rx_skb w of SkbLive skb \<Rightarrow> rx_buf skb \<and> data_len skb + rx_count w = fill skb | _ \<Rightarrow> False)"

definition pkt_len :: "sk_buff \<Rightarrow> nat" where
  "pkt_len skb = H5_HDR_LEN (mem skb 1) (mem skb 2)"

text \<open>Header bytes are complete and no longer change.\<close>

definition rx_hdr_done :: "world \<Rightarrow> bool" where
  "rx_hdr_done w = (case rx_skb w of SkbLive skb \<Rightarrow> 4 \<le> data_len skb | _ \<Rightarrow> False)"

definition rx_inv :: "world \<Rightarrow> bool" where
  "rx_inv w \<longleftrightarrow> rxseq_txack w < 8 \<and> msgq_txseq w < 8 \<and>
     (case rx_state w of
        H5_W4_PKT_DELIMITER \<Rightarrow> rx_count w = 0
      | H5_W4_PKT_START \<Rightarrow> rx_count w = 0
      | H5_W4_HDR \<Rightarrow> rx_filled w (\<lambda>_. 4)
      | H5_W4_DATA \<Rightarrow> rx_hdr_done w \<and> rx_filled w (\<lambda>skb. 4 + pkt_len skb)
      | H5_W4_CRC \<Rightarrow> rx_hdr_done w \<and> rx_filled w (\<lambda>skb. 6 + pkt_len skb))"

lemma pkt_len_less: "pkt_len skb < 4096"
proof -
  have "unat (drop_bit 4 (mem skb 1)) < 16"
    using unat_byte_less [of "mem skb 1"] by (simp add: drop_bit_eq_div unat_div)
  then show ?thesis
    using unat_byte_less [of "mem skb 2"] by (simp add: pkt_len_def H5_HDR_LEN_def)
qed

lemma byte_and7_less: "x AND 0x07 < (8 :: byte)"
proof -
  have "x AND 0x07 \<le> (0x07 :: byte)" by (rule word_and_le1)
  also have "(0x07 :: byte) < 8" by simp
  finally show ?thesis .
qed

section \<open>Building blocks\<close>

lemma safe_skb_data: "data_off skb + i < max_len skb \<Longrightarrow> safe (\<lambda>_. True) (skb_data skb i)"
  by (simp add: skb_data_def)

lemma safe_skb_pull:
  "safe (\<lambda>skb'. data_off skb' = data_off skb + n \<and> max_len skb' = max_len skb) (skb_pull skb n)"
  by (simp add: skb_pull_def)

lemma safe_skb_le16:
  "data_off skb + i < max_len skb \<Longrightarrow> data_off skb + j < max_len skb \<Longrightarrow>
   safe (\<lambda>_. True) (skb_le16 skb i j)"
  by (simp add: skb_le16_def skb_data_def)

text \<open>What the handlers of a complete packet leave alone.\<close>

definition same_rx :: "world \<Rightarrow> world \<Rightarrow> bool" where
  "same_rx w w' \<longleftrightarrow> rx_skb w' = rx_skb w \<and> rx_count w' = rx_count w \<and> rx_state w' = rx_state w \<and>
     rxseq_txack w' = rxseq_txack w \<and> msgq_txseq w' = msgq_txseq w \<and> (mem_ok w \<longrightarrow> mem_ok w')"

lemma same_rx_refl [simp]: "same_rx w w"
  by (simp add: same_rx_def)

lemma same_rx_trans: "same_rx w w' \<Longrightarrow> same_rx w' w'' \<Longrightarrow> same_rx w w''"
  by (simp add: same_rx_def)

lemma next_malloc_ok: "mem_ok w \<Longrightarrow> next_malloc w = (True, w\<lparr>mallocs := tl (mallocs w)\<rparr>)"
  by (cases "mallocs w") (auto simp: next_malloc_eq mem_ok_def)

lemma mem_ok_tl: "mem_ok w \<Longrightarrow> False \<notin> set (tl (mallocs w))"
  by (cases "mallocs w") (auto simp: mem_ok_def)

lemma mem_ok_hd: "mem_ok w \<Longrightarrow> mallocs w = [] \<or> hd (mallocs w)"
  by (cases "mallocs w") (auto simp: mem_ok_def)

text \<open>The pure acknowledgement: sent as one frame, with no other effect than clearing the request.\<close>

definition ack_frame :: "world \<Rightarrow> byte list" where
  "ack_frame w = h5_frame (use_crc w \<noteq> 0)
     (h5_tx_header False (rxseq_txack w) (msgq_txseq w) (use_crc w \<noteq> 0) 0 H5_ACK_PKT)"

lemma rtb_send_ack_ok:
  assumes "mem_ok w"
  shows "rtb_send_ack fd w =
    Inr (w\<lparr>mallocs := tl (mallocs w), is_txack_req := 0, wlog := wlog w @ [(fd, ack_frame w)]\<rparr>)"
proof -
  have rel: "h5_pkt_reliable H5_ACK_PKT = Some False"
    by (simp add: h5_pkt_reliable_def pkt_type_defs)
  obtain nskb where "h5_prepare_pkt w [] 0 H5_ACK_PKT =
      Inr (Some nskb, w\<lparr>mallocs := tl (mallocs w), is_txack_req := 0, msgq_txseq := msgq_txseq w\<rparr>)"
    "skb_bytes nskb = ack_frame w"
    using h5_prepare_pkt_frame [OF rel next_malloc_ok [OF assms], of "[]"]
    by (auto simp: ack_frame_def)
  then show ?thesis
    by (simp add: rtb_send_ack_def log_write_def)
qed

lemma safe_rtb_send_ack: "mem_ok w \<Longrightarrow> safe (same_rx w) (rtb_send_ack fd w)"
  using mem_ok_tl [of w] by (simp add: rtb_send_ack_ok same_rx_def) (simp add: mem_ok_def)

section \<open>The handlers are safe\<close>

lemma safe_h5_cc_prefix:
  assumes "data_off skb + 100 < max_len skb"
  shows "safe (\<lambda>r. case r of None \<Rightarrow> True
    | Some (skb', _) \<Rightarrow> data_off skb' = data_off skb + 5 \<and> max_len skb' = max_len skb) (h5_cc_prefix skb w)"
  using assms
  by (auto simp: h5_cc_prefix_def skb_pull_def skb_le16_def skb_data_def)

lemma safe_h5_init_cc_fields:
  "data_off skb + 10 < max_len skb \<Longrightarrow>
   safe (\<lambda>r. case r of None \<Rightarrow> True | Some w' \<Rightarrow> same_rx w w') (h5_init_cc_fields skb opcode w)"
  by (auto simp: h5_init_cc_fields_def skb_le16_def skb_data_def same_rx_def mem_ok_def Let_def)

lemma safe_h5_init_hci_cc:
  assumes "data_off skb + 100 < max_len skb"
  shows "safe (same_rx w) (h5_init_hci_cc skb w)"
  unfolding h5_init_hci_cc_def
proof (rule safe_bind [OF safe_h5_cc_prefix [OF assms]], goal_cases)
  case (1 r)
  show ?case
  proof (cases r)
    case None
    then show ?thesis by simp
  next
    case (Some p)
    obtain skb' opcode where p: "p = (skb', opcode)" by (cases p)
    let ?w = "w\<lparr>cmd_state := (cmd_state w)\<lparr>cs_state := CMD_STATE_SUCCESS\<rparr>\<rparr>"
    have "same_rx w ?w" by (simp add: same_rx_def mem_ok_def)
    moreover from 1 Some p assms have "data_off skb' + 10 < max_len skb'" by simp
    note safe_h5_init_cc_fields [OF this, of ?w opcode]
    ultimately have "safe (same_rx w) (bind_result (h5_init_cc_fields skb' opcode ?w)
        (\<lambda>r. case r of None \<Rightarrow> Inr ?w | Some w \<Rightarrow> Inr (w\<lparr>num_of_cmd_sent := num_of_cmd_sent w + 1\<rparr>)))"
      by (elim safe_bind) (auto simp: same_rx_def mem_ok_def split: option.splits)
    with Some p show ?thesis by (simp add: Let_def)
  qed
qed

lemma safe_h5_post_hci_cc:
  assumes "data_off skb + 100 < max_len skb"
  shows "safe (same_rx w) (h5_post_hci_cc skb w)"
  unfolding h5_post_hci_cc_def
  by (rule safe_bind [OF safe_h5_cc_prefix [OF assms]])
     (auto simp: same_rx_def mem_ok_def Let_def split: option.splits)

lemma safe_hci_recv_frame:
  assumes "data_off skb + 100 < max_len skb"
  shows "safe (same_rx w) (hci_recv_frame skb w)"
proof (cases "link_estab_state w")
  case H5_PATCH
  with assms show ?thesis
    by (auto simp: hci_recv_frame_def skb_data_def same_rx_def mem_ok_def Let_def)
qed (use assms safe_h5_init_hci_cc safe_h5_post_hci_cc in
    \<open>auto simp: hci_recv_frame_def skb_data_def\<close>)

lemma safe_h5_handle_internal_rx:
  assumes "data_off skb + 100 < max_len skb" "mem_ok w"
  shows "safe (same_rx w) (h5_handle_internal_rx skb w)"
  using assms safe_rtb_send_ack [of w "serial_fd w"]
  by (auto simp: h5_handle_internal_rx_def skb_data_def log_write_def same_rx_def mem_ok_def Let_def
      split: h5_link_state.splits)

section \<open>Every iteration keeps the invariant\<close>

text \<open>The states between packets, where no buffer is expected.\<close>

definition rx_idle :: "world \<Rightarrow> bool" where
  "rx_idle w \<longleftrightarrow> rx_count w = 0 \<and> rx_state w \<in> {H5_W4_PKT_DELIMITER, H5_W4_PKT_START} \<and>
     rxseq_txack w < 8 \<and> msgq_txseq w < 8"

lemma rx_idle_inv: "rx_idle w \<Longrightarrow> rx_inv w"
  by (auto simp: rx_idle_def rx_inv_def)

lemma safe_h5_rx_deliver:
  assumes "rx_buf skb" "mem_ok w"
  shows "safe (same_rx w) (h5_rx_deliver skb h1 w)"
  using assms
  by (auto simp: h5_rx_deliver_def rx_buf_def H5_HDR_SIZE_def Let_def
      intro!: safe_bind [OF safe_skb_pull] safe_hci_recv_frame safe_h5_handle_internal_rx)

lemma safe_h5_rx_ack: "mem_ok w \<Longrightarrow> safe (same_rx w) (h5_rx_ack w)"
  unfolding h5_rx_ack_def
  by (auto intro!: safe_bind [OF safe_rtb_send_ack] simp: same_rx_def mem_ok_def)

lemma h5_rx_bookkeep_fields [simp]:
  "rx_skb (h5_rx_bookkeep h0 w) = rx_skb w" "rx_count (h5_rx_bookkeep h0 w) = rx_count w"
  "rx_state (h5_rx_bookkeep h0 w) = rx_state w" "msgq_txseq (h5_rx_bookkeep h0 w) = msgq_txseq w"
  "mallocs (h5_rx_bookkeep h0 w) = mallocs w"
  by (simp_all add: h5_rx_bookkeep_def)

lemma h5_rx_bookkeep_seq: "rxseq_txack w < 8 \<Longrightarrow> rxseq_txack (h5_rx_bookkeep h0 w) < 8"
  by (simp add: h5_rx_bookkeep_def byte_and7_less)

lemma safe_h5_complete_rx_pkt:
  assumes "rx_skb w = SkbLive skb" "rx_buf skb" "rx_count w = 0" "mem_ok w"
    "rxseq_txack w < 8" "msgq_txseq w < 8"
  shows "safe (\<lambda>w'. rx_idle w' \<and> mem_ok w') (h5_complete_rx_pkt w)"
proof -
  let ?w1 = "h5_rx_bookkeep (mem skb 0) w"
  have "h5_complete_rx_pkt w = bind_result (h5_rx_deliver skb (mem skb 1) ?w1) (\<lambda>w.
      bind_result (h5_rx_ack w) (\<lambda>w. h5_rx_release w))"
    using assms(1,2) by (simp add: h5_complete_rx_pkt_def deref_def skb_data_def rx_buf_def)
  also have "safe (\<lambda>w'. rx_idle w' \<and> mem_ok w') \<dots>"
  proof (rule safe_bind [OF safe_h5_rx_deliver])
    fix w2 assume w2: "same_rx ?w1 w2"
    show "safe (\<lambda>w'. rx_idle w' \<and> mem_ok w') (bind_result (h5_rx_ack w2) (\<lambda>w. h5_rx_release w))"
    proof (rule safe_bind [OF safe_h5_rx_ack])
      fix w3 assume "same_rx w2 w3"
      with w2 have "same_rx ?w1 w3" by (rule same_rx_trans)
      with assms h5_rx_bookkeep_seq [of w "mem skb 0"]
      show "safe (\<lambda>w'. rx_idle w' \<and> mem_ok w') (h5_rx_release w3)"
        by (auto simp: same_rx_def h5_rx_release_def skb_free_def rx_idle_def mem_ok_def)
    qed (use w2 assms in \<open>simp add: same_rx_def mem_ok_def\<close>)
  qed (use assms in \<open>simp_all add: mem_ok_def\<close>)
  finally show ?thesis .
qed

lemma rx_filledE:
  assumes "rx_filled w fill"
  obtains skb where "rx_skb w = SkbLive skb" "rx_buf skb" "data_len skb + rx_count w = fill skb"
  using assms by (auto simp: rx_filled_def split: skb_ptr.splits)

lemma safe_h5_drop_rx:
  assumes "rx_skb w = SkbLive skb" "mem_ok w" "rxseq_txack w < 8" "msgq_txseq w < 8"
  shows "safe (\<lambda>w'. rx_idle w' \<and> mem_ok w') (h5_drop_rx w)"
  using assms by (simp add: h5_drop_rx_def skb_free_def rx_idle_def mem_ok_def)

lemma safe_h5_recv_hdr:
  assumes "rx_inv w" "mem_ok w" "rx_state w = H5_W4_HDR" "rx_count w = 0"
  shows "safe (\<lambda>w'. rx_inv w' \<and> mem_ok w') (h5_recv_hdr w)"
proof -
  from assms obtain skb where skb: "rx_skb w = SkbLive skb" "rx_buf skb" "data_len skb = 4"
      "rxseq_txack w < 8" "msgq_txseq w < 8"
    by (auto simp: rx_inv_def elim: rx_filledE)
  let ?d0 = "mem skb 0"
  have drop: "safe (\<lambda>w'. rx_inv w' \<and> mem_ok w') (h5_drop_rx w)"
    using safe_h5_drop_rx [OF skb(1) assms(2) skb(4,5)] by (rule safe_mono) (auto intro: rx_idle_inv)
  have ooo: "safe (\<lambda>w'. rx_inv w' \<and> mem_ok w') (bind_result (h5_drop_rx (w\<lparr>is_txack_req := 1\<rparr>)) (\<lambda>w.
           Inr (if link_estab_state w = H5_PATCH \<and> tx_index w = total_num w
                then w\<lparr>rxseq_txack := ?d0 AND 0x07\<rparr> else w)))"
    using skb assms(2) byte_and7_less [of ?d0]
    by (auto simp: h5_drop_rx_def skb_free_def rx_inv_def mem_ok_def)
  have accept: "rx_inv (w\<lparr>rx_state := H5_W4_DATA,
      rx_count := unat (drop_bit 4 (mem skb 1)) + unat (mem skb 2) * 16\<rparr>)"
    using skb by (simp add: rx_inv_def rx_filled_def rx_hdr_done_def pkt_len_def H5_HDR_LEN_def)
  show ?thesis
    using skb(2) drop ooo accept assms(2)
    by (simp add: h5_recv_hdr_def skb(1) deref_def skb_data_def rx_buf_def mem_ok_def numeral_2_eq_2)
qed

lemma safe_h5_recv_crc:
  assumes "rx_inv w" "mem_ok w" "rx_state w = H5_W4_CRC" "rx_count w = 0"
  shows "safe (\<lambda>w'. rx_inv w' \<and> mem_ok w') (h5_recv_crc w)"
proof -
  from assms obtain skb where skb: "rx_skb w = SkbLive skb" "rx_buf skb" "data_len skb = 6 + pkt_len skb"
      "rxseq_txack w < 8" "msgq_txseq w < 8"
    by (auto simp: rx_inv_def elim: rx_filledE)
  let ?w = "w\<lparr>rx_skb := SkbLive (skb_trim skb (sub32 (data_len skb) 2))\<rparr>"
  obtain crc where crc: "h5_get_crc w = Inr crc"
    using skb(1-3) by (simp add: h5_get_crc_def deref_def skb_data_def rx_buf_def)
  have drop: "safe (\<lambda>w'. rx_idle w' \<and> mem_ok w') (h5_drop_rx w)"
    using safe_h5_drop_rx [OF skb(1) assms(2) skb(4,5)] .
  have "safe (\<lambda>w'. rx_idle w' \<and> mem_ok w') (h5_complete_rx_pkt ?w)"
    using skb assms(2,4)
    by (intro safe_h5_complete_rx_pkt) (auto simp: rx_buf_def mem_ok_def)
  with drop have "safe (\<lambda>w'. rx_idle w' \<and> mem_ok w') (h5_recv_crc w)"
    by (simp add: h5_recv_crc_def crc skb(1) deref_def)
  then show ?thesis by (rule safe_mono) (auto intro: rx_idle_inv)
qed

text \<open>A byte stored while bytes are outstanding fills the buffer by one; header bytes stay put.\<close>

lemma skb_put_one:
  assumes "rx_buf skb" "data_len skb < 0x1005"
  shows "skb_put_bytes skb [c] =
    Inr (skb\<lparr>data_len := data_len skb + 1, mem := (mem skb)(data_len skb := c)\<rparr>)"
  using assms by (simp add: rx_buf_def skb_put_bytes_def skb_put_def skb_store_def add32_def)

lemma rx_outstanding:
  assumes "rx_inv w" "rx_count w \<noteq> 0"
  obtains skb where "rx_skb w = SkbLive skb" "rx_buf skb" "data_len skb + rx_count w \<le> 0x1005"
proof -
  from assms obtain fill skb where "rx_skb w = SkbLive skb" "rx_buf skb"
      "data_len skb + rx_count w = fill skb" "fill skb \<le> 6 + pkt_len skb"
    by (cases "rx_state w") (auto simp: rx_inv_def elim!: rx_filledE)
  moreover have "6 + pkt_len skb \<le> 0x1005"
    using pkt_len_less [of skb] by simp
  ultimately show thesis using that by simp
qed

lemma rx_store_byte_inv:
  assumes inv: "rx_inv w" "mem_ok w" "rx_count w \<noteq> 0"
  obtains w' where "rx_store_byte w c = Inr w'" "rx_count w' = rx_count w"
    "rx_inv (w'\<lparr>rx_count := sub32 (rx_count w) 1\<rparr>)" "mem_ok w'"
proof -
  from inv obtain skb where skb: "rx_skb w = SkbLive skb" "rx_buf skb" "data_len skb + rx_count w \<le> 0x1005"
    by (elim rx_outstanding)
  let ?skb = "skb\<lparr>data_len := data_len skb + 1, mem := (mem skb)(data_len skb := c)\<rparr>"
  let ?w = "w\<lparr>rx_skb := SkbLive ?skb, message_crc := (if mem ?skb 0 AND 0x40 \<noteq> 0 \<and> rx_state w \<noteq> H5_W4_CRC
                              then h5_crc_update (message_crc w) c else message_crc w)\<rparr>"
  have less: "data_len skb < 0x1005" and sub: "sub32 (rx_count w) 1 = rx_count w - 1"
    using skb(3) inv(3) by (auto intro: sub32_exact)
  have "rx_store_byte w c = Inr ?w"
    using skb(2) less
    by (simp add: rx_store_byte_def skb(1) deref_def skb_put_one [OF skb(2) less] skb_data_def rx_buf_def)
  moreover have "rx_inv (?w\<lparr>rx_count := sub32 (rx_count w) 1\<rparr>)"
    using inv(1,3) skb less
    by (cases "rx_state w")
       (auto simp: sub [unfolded One_nat_def] rx_inv_def rx_filled_def rx_hdr_done_def rx_buf_def pkt_len_def)
  moreover have "mem_ok ?w" using inv(2) by (simp add: mem_ok_def)
  ultimately show thesis by (intro that) simp_all
qed

lemma rx_inv_esc [simp]: "rx_inv (w\<lparr>rx_esc_state := e\<rparr>) = rx_inv w"
  by (cases "rx_state w"; cases "rx_skb w") (simp_all add: rx_inv_def rx_filled_def rx_hdr_done_def)

lemma rx_inv_esc_count [simp]:
  "rx_inv (w\<lparr>rx_esc_state := e, rx_count := n\<rparr>) = rx_inv (w\<lparr>rx_count := n\<rparr>)"
proof -
  have "w\<lparr>rx_esc_state := e, rx_count := n\<rparr> = w\<lparr>rx_count := n\<rparr>\<lparr>rx_esc_state := e\<rparr>" by simp
  then show ?thesis by (simp only: rx_inv_esc)
qed

lemma safe_h5_unslip_one_byte:
  assumes inv: "rx_inv w" "mem_ok w" "rx_count w \<noteq> 0"
  shows "safe (\<lambda>w'. rx_inv w' \<and> mem_ok w') (h5_unslip_one_byte w b)"
proof -
  from inv obtain skb where skb: "rx_skb w = SkbLive skb" by (elim rx_outstanding)
  have store: "safe (\<lambda>w'. rx_inv w' \<and> mem_ok w') (bind_result (rx_store_byte w c) (\<lambda>w.
      Inr (w\<lparr>rx_esc_state := e w, rx_count := sub32 (rx_count w) 1\<rparr>)))" for c e
  proof -
    from inv obtain w' where w': "rx_store_byte w c = Inr w'" "rx_count w' = rx_count w"
        "rx_inv (w'\<lparr>rx_count := sub32 (rx_count w) 1\<rparr>)" "mem_ok w'"
      by (rule rx_store_byte_inv)
    then show ?thesis by (simp add: mem_ok_def)
  qed
  from store [of b rx_esc_state]
  have plain: "safe (\<lambda>w'. rx_inv w' \<and> mem_ok w') (bind_result (rx_store_byte w b) (\<lambda>w.
      Inr (w\<lparr>rx_count := sub32 (rx_count w) 1\<rparr>)))" by simp
  have bad: "rx_inv (w\<lparr>rx_skb := SkbNull, rx_state := H5_W4_PKT_DELIMITER, rx_count := 0\<rparr>)"
    using inv(1) by (simp add: rx_inv_def)
  show ?thesis
    using inv plain store [of _ "\<lambda>_. H5_ESCSTATE_NOESC"] bad
    by (auto simp: h5_unslip_one_byte_def skb skb_free_def mem_ok_def Let_def split: h5_rx_esc_state.splits)
qed

lemma safe_h5_recv_iter:
  assumes inv: "rx_inv w" "mem_ok w"
  shows "safe (\<lambda>(act, w'). rx_inv w' \<and> mem_ok w' \<and> act \<noteq> RxReturn) (h5_recv_iter w b)"
proof (cases "rx_count w = 0")
  case False
  with inv obtain skb where skb: "rx_skb w = SkbLive skb" by (elim rx_outstanding)
  have "rx_inv (w\<lparr>rx_skb := SkbFreed, rx_state := H5_W4_PKT_START, rx_count := 0\<rparr>)"
    using inv(1) by (simp add: rx_inv_def)
  with False inv safe_h5_unslip_one_byte [OF inv False, of b] show ?thesis
    by (auto simp: h5_recv_iter_def skb skb_free_def mem_ok_def elim!: safe_bind)
next
  case True
  show ?thesis
  proof (cases "rx_state w")
    case H5_W4_PKT_DELIMITER
    with True inv show ?thesis by (auto simp: h5_recv_iter_def rx_inv_def mem_ok_def)
  next
    case H5_W4_PKT_START
    with True inv mem_ok_tl [OF inv(2)] mem_ok_hd [OF inv(2)] show ?thesis
      by (auto simp: h5_recv_iter_def h5_recv_start_def mem_ok_def skb_alloc_def
          rx_inv_def rx_filled_def rx_buf_def Let_def next_malloc_eq)
  next
    case H5_W4_HDR
    with True safe_h5_recv_hdr [OF inv] show ?thesis
      by (auto simp: h5_recv_iter_def elim!: safe_bind)
  next
    case H5_W4_DATA
    with inv True obtain skb where skb: "rx_skb w = SkbLive skb" "rx_buf skb" "data_len skb = 4 + pkt_len skb"
        "rxseq_txack w < 8" "msgq_txseq w < 8" "4 \<le> data_len skb"
      by (auto simp: rx_inv_def elim: rx_filledE)
    have "rx_inv (w\<lparr>rx_state := H5_W4_CRC, rx_count := 2\<rparr>)"
      using skb by (simp add: rx_inv_def rx_filled_def rx_hdr_done_def)
    with H5_W4_DATA True skb inv(2) safe_h5_complete_rx_pkt [OF skb(1,2) True inv(2) skb(4,5)]
    show ?thesis
      by (auto simp: h5_recv_iter_def deref_def skb_data_def rx_buf_def mem_ok_def
          intro: rx_idle_inv elim!: safe_bind)
  next
    case H5_W4_CRC
    with True safe_h5_recv_crc [OF inv] show ?thesis
      by (auto simp: h5_recv_iter_def elim!: safe_bind)
  qed
qed

lemma safe_h5_recv:
  assumes "rx_inv w" "mem_ok w"
  shows "safe (\<lambda>w'. rx_inv w' \<and> mem_ok w') (h5_recv w bs)"
  using assms
proof (induction w bs rule: h5_recv.induct)
  case (2 w b bs)
  show ?case
  proof (subst h5_recv.simps(2), rule bind_safe_cases [OF safe_h5_recv_iter [OF "2.prems", of b]], goal_cases)
    case (1 r)
    obtain act w' where r: "r = (act, w')" by (cases r)
    with 1 "2.IH" show ?case by (cases act) auto
  qed
qed simp

end
