(* ===== verification/H5_Roundtrip.thy ===== *)
theory H5_Roundtrip
  imports H5_Rx_Safety
begin

text \<open>
  What the receiver makes of a frame: the receive loop run over the bytes of a well-formed frame
  is the handling of exactly the packet that was framed, however the serial line cuts the bytes
  into reads; a frame whose checksum does not match is dropped without any handler running.
\<close>

section \<open>Reads can be cut anywhere\<close>

lemma h5_recv_append:
  assumes "rx_inv w" "mem_ok w"
  shows "h5_recv w (xs @ ys) = bind_result (h5_recv w xs) (\<lambda>w. h5_recv w ys)"
  using assms
proof (induction w xs rule: h5_recv.induct)
  case (2 w b bs)
  show ?case
  proof (cases "h5_recv_iter w b")
    case (Inl e)
    then show ?thesis by (simp add: h5_recv.simps(2) [of w b])
  next
    case (Inr r)
    obtain act w' where r: "r = (act, w')" by (cases r)
    from safe_h5_recv_iter [OF "2.prems", of b] Inr r
    have w': "rx_inv w'" "mem_ok w'" "act \<noteq> RxReturn" by auto
    with "2.IH" [OF Inr r [symmetric]] Inr r show ?thesis
      by (cases act) (simp_all add: h5_recv.simps(2) [of w b])
  qed
qed simp

section \<open>Feeding decoded bytes\<close>

definition rx_feed :: "byte \<Rightarrow> world \<Rightarrow> world" where
  "rx_feed c w =
     (case rx_skb w of
        SkbLive skb \<Rightarrow>
          let skb = skb\<lparr>data_len := data_len skb + 1, mem := (mem skb)(data_len skb := c)\<rparr> in
          w\<lparr>rx_skb := SkbLive skb,
            message_crc := (if mem skb 0 AND 0x40 \<noteq> 0 \<and> rx_state w \<noteq> H5_W4_CRC
                            then h5_crc_update (message_crc w) c else message_crc w),
            rx_count := rx_count w - 1\<rparr>
      | _ \<Rightarrow> w)"

text \<open>The receiver is inside a packet, between two encoded bytes, with bytes outstanding.\<close>

definition rx_ready :: "world \<Rightarrow> sk_buff \<Rightarrow> nat \<Rightarrow> bool" where
  "rx_ready w skb n \<longleftrightarrow> rx_skb w = SkbLive skb \<and> rx_buf skb \<and> rx_esc_state w = H5_ESCSTATE_NOESC \<and>
     rx_count w = n \<and> data_len skb + n \<le> 0x1005"

lemma rx_store_byte_eq:
  fixes c :: byte
  assumes "rx_skb w = SkbLive skb" "rx_buf skb" "data_len skb < 0x1005"
  defines "skb' \<equiv> skb\<lparr>data_len := data_len skb + 1, mem := (mem skb)(data_len skb := c)\<rparr>"
  shows "rx_store_byte w c = Inr (w\<lparr>rx_skb := SkbLive skb',
           message_crc := (if mem skb' 0 AND 0x40 \<noteq> 0 \<and> rx_state w \<noteq> H5_W4_CRC
                           then h5_crc_update (message_crc w) c else message_crc w)\<rparr>)"
  using assms by (simp add: rx_store_byte_def deref_def skb_put_one skb_data_def rx_buf_def)

lemma h5_recv_feed1:
  assumes r: "rx_ready w skb (Suc n)"
  shows "h5_recv w (slip_byte c @ bs) = h5_recv (rx_feed c w) bs"
proof -
  from r have w: "rx_skb w = SkbLive skb" "rx_buf skb" "data_len skb < 0x1005" "rx_count w = Suc n"
      "Suc n < 2 ^ 32" "rx_esc_state w = H5_ESCSTATE_NOESC"
    by (auto simp: rx_ready_def)
  show ?thesis
proof (cases c rule: slip_byte_cases)
  case plain
  with w have "h5_recv_iter w c = Inr (RxConsume, rx_feed c w)"
    by (simp add: h5_recv_iter_def h5_unslip_one_byte_def rx_store_byte_eq rx_feed_def sub32_Suc)
  with plain show ?thesis by (simp add: h5_recv.simps(2) [of w c])
next
  case (escaped e)
  let ?w1 = "w\<lparr>rx_esc_state := H5_ESCSTATE_ESC\<rparr>"
  from w have 1: "h5_recv_iter w 0xdb = Inr (RxConsume, ?w1)"
    by (simp add: h5_recv_iter_def h5_unslip_one_byte_def)
  have "bind_result (rx_store_byte ?w1 c) (\<lambda>w.
      Inr (w\<lparr>rx_esc_state := H5_ESCSTATE_NOESC, rx_count := sub32 (rx_count w) 1\<rparr>)) = Inr (rx_feed c w)"
    using w by (simp add: rx_store_byte_eq [of ?w1 skb] rx_feed_def sub32_Suc)
  with escaped w have "h5_recv_iter ?w1 e = Inr (RxConsume, rx_feed c w)"
    by (auto simp: h5_recv_iter_def h5_unslip_one_byte_def unescape_def Let_def split: if_splits)
  with 1 escaped(1) show ?thesis
    by (simp add: h5_recv.simps(2) [of w] h5_recv.simps(2) [of ?w1])
qed
qed

lemma rx_feed_ready:
  assumes "rx_ready w skb (Suc n)"
  shows "rx_ready (rx_feed c w) (skb\<lparr>data_len := data_len skb + 1, mem := (mem skb)(data_len skb := c)\<rparr>) n"
  using assms by (auto simp: rx_ready_def rx_feed_def rx_buf_def)

text \<open>A run of bytes: where the receiver is afterwards, in closed form.\<close>

definition rx_at :: "world \<Rightarrow> sk_buff \<Rightarrow> nat \<Rightarrow> u16 \<Rightarrow> world" where
  "rx_at w skb n crc = w\<lparr>rx_skb := SkbLive skb, rx_count := n, message_crc := crc\<rparr>"

definition crc_after :: "world \<Rightarrow> byte \<Rightarrow> byte list \<Rightarrow> u16" where
  "crc_after w d0 cs =
     (if d0 AND 0x40 \<noteq> 0 \<and> rx_state w \<noteq> H5_W4_CRC then h5_crc (message_crc w) cs else message_crc w)"

lemma rx_at_rx_at [simp]: "rx_at (rx_at w s m c) s' n c' = rx_at w s' n c'"
  by (simp add: rx_at_def)

lemma crc_after_step [simp]: "crc_after (rx_at w s m (crc_after w d0 [c])) d0 cs = crc_after w d0 (c # cs)"
  by (simp add: crc_after_def rx_at_def)

lemma rx_feed_at:
  assumes "rx_ready w skb (Suc n)" "skb_bytes skb @ c # cs = d0 # ds"
  defines "skb' \<equiv> skb\<lparr>data_len := data_len skb + 1, mem := (mem skb)(data_len skb := c)\<rparr>"
  shows "rx_feed c w = rx_at w skb' n (crc_after w d0 [c])" "skb_bytes skb' = skb_bytes skb @ [c]"
proof -
  from assms(1) have skb: "rx_skb w = SkbLive skb" "rx_buf skb" "rx_count w = Suc n"
    by (auto simp: rx_ready_def)
  show b: "skb_bytes skb' = skb_bytes skb @ [c]"
    using skb(2) by (simp add: skb'_def skb_bytes_def rx_buf_def)
  have "mem skb' 0 = (skb_bytes skb' @ cs) ! 0"
    using skb(2) by (simp add: skb'_def skb_bytes_def rx_buf_def nth_append)
  also have "skb_bytes skb' @ cs = d0 # ds" using b assms(2) by simp
  finally show "rx_feed c w = rx_at w skb' n (crc_after w d0 [c])"
    by (simp add: rx_feed_def skb rx_at_def crc_after_def skb'_def Let_def)
qed

lemma h5_recv_feed:
  assumes "rx_ready w skb (n + length cs)" "skb_bytes skb @ cs = d0 # ds"
  shows "\<exists>skb'. rx_ready (rx_at w skb' n (crc_after w d0 cs)) skb' n \<and> skb_bytes skb' = skb_bytes skb @ cs \<and>
    (\<forall>bs. h5_recv w (slip cs @ bs) = h5_recv (rx_at w skb' n (crc_after w d0 cs)) bs)"
  using assms
proof (induction cs arbitrary: w skb)
  case Nil
  then have "rx_at w skb n (crc_after w d0 []) = w"
    by (simp add: rx_at_def crc_after_def rx_ready_def)
  with Nil show ?case by (intro exI [of _ skb]) simp
next
  case (Cons c cs)
  let ?skb = "skb\<lparr>data_len := data_len skb + 1, mem := (mem skb)(data_len skb := c)\<rparr>"
  from Cons.prems(1) have r: "rx_ready w skb (Suc (n + length cs))" by simp
  note at = rx_feed_at [OF r Cons.prems(2)]
  have "rx_ready (rx_feed c w) ?skb (n + length cs)" by (rule rx_feed_ready [OF r])
  moreover have "skb_bytes ?skb @ cs = d0 # ds" using at(2) Cons.prems(2) by simp
  ultimately obtain skb' where
      "rx_ready (rx_at (rx_feed c w) skb' n (crc_after (rx_feed c w) d0 cs)) skb' n"
      "skb_bytes skb' = skb_bytes ?skb @ cs"
      "\<forall>bs. h5_recv (rx_feed c w) (slip cs @ bs) =
         h5_recv (rx_at (rx_feed c w) skb' n (crc_after (rx_feed c w) d0 cs)) bs"
    using Cons.IH by blast
  with at show ?case
    by (intro exI [of _ skb']) (simp add: h5_recv_feed1 [OF r])
qed

section \<open>The phases of a frame\<close>

lemma h5_recv_keep:
  assumes "\<And>b. h5_recv_iter w b = bind_result m (\<lambda>w. Inr (RxKeep, w))" "bs \<noteq> []"
  shows "h5_recv w bs = bind_result m (\<lambda>w. h5_recv w bs)"
  using assms by (cases bs; cases m) (simp_all add: h5_recv.simps(2) [of w])

lemma skb_nth_mem: "rx_buf skb \<Longrightarrow> i < data_len skb \<Longrightarrow> mem skb i = skb_bytes skb ! i"
  by (simp add: skb_bytes_def rx_buf_def)

text \<open>The receiver after the opening delimiter: an empty packet, four header bytes outstanding.\<close>

definition rx_started :: "world \<Rightarrow> world" where
  "rx_started w =
     w\<lparr>mallocs := tl (mallocs w),
       rx_skb := SkbLive \<lparr>max_len = 0x1005, data_len = 0, data_off = 0, mem = (\<lambda>_. 0)\<rparr>,
       rx_state := H5_W4_HDR, rx_count := 4, rx_esc_state := H5_ESCSTATE_NOESC, message_crc := H5_CRC_INIT\<rparr>"

lemma h5_recv_delim:
  assumes "rx_idle w" "mem_ok w" "b \<noteq> 0xc0"
  shows "h5_recv w (0xc0 # b # bs) = h5_recv (rx_started w) (b # bs)"
proof -
  let ?w = "w\<lparr>rx_state := H5_W4_PKT_START\<rparr>"
  from assms have "h5_recv_iter w 0xc0 = Inr (RxConsume, ?w)"
    by (auto simp: h5_recv_iter_def rx_idle_def)
  moreover have "h5_recv_iter ?w b = Inr (RxKeep, rx_started w)"
    using assms mem_ok_hd [OF assms(2)]
    by (simp add: h5_recv_iter_def rx_idle_def h5_recv_start_def next_malloc_eq skb_alloc_def
        Let_def rx_started_def)
  ultimately show ?thesis
    by (simp add: h5_recv.simps(2) [of w] h5_recv.simps(2) [of ?w])
qed

text \<open>The header the receiver accepts in a state: checksum right, and in sequence if reliable.\<close>

definition hdr_accepted :: "world \<Rightarrow> byte \<Rightarrow> byte \<Rightarrow> byte \<Rightarrow> byte \<Rightarrow> bool" where
  "hdr_accepted w h0 h1 h2 h3 \<longleftrightarrow>
     NOT (h0 + h1 + h2) = h3 \<and> (h0 AND 0x80 \<noteq> 0 \<longrightarrow> h0 AND 0x07 = rxseq_txack w)"

definition rx_in_data :: "world \<Rightarrow> sk_buff \<Rightarrow> nat \<Rightarrow> u16 \<Rightarrow> world" where
  "rx_in_data w skb n crc =
     w\<lparr>mallocs := tl (mallocs w), rx_skb := SkbLive skb, rx_state := H5_W4_DATA, rx_count := n,
       rx_esc_state := H5_ESCSTATE_NOESC, message_crc := crc\<rparr>"

definition crc_of :: "byte \<Rightarrow> byte list \<Rightarrow> u16" where
  "crc_of h0 bs = (if h0 AND 0x40 \<noteq> 0 then h5_crc H5_CRC_INIT bs else H5_CRC_INIT)"

lemma h5_recv_header:
  assumes hdr: "hdr_accepted w h0 h1 h2 h3" and bs: "bs \<noteq> []"
  obtains skb where "rx_buf skb" "skb_bytes skb = [h0, h1, h2, h3]"
    "h5_recv (rx_started w) (slip [h0, h1, h2, h3] @ bs) =
       h5_recv (rx_in_data w skb (H5_HDR_LEN h1 h2) (crc_of h0 [h0, h1, h2, h3])) bs"
proof -
  let ?hdr = "[h0, h1, h2, h3]" and ?w = "rx_started w"
  obtain skb0 where skb0: "rx_ready ?w skb0 (0 + length ?hdr)" "skb_bytes skb0 = []"
    by (simp add: rx_ready_def rx_started_def rx_buf_def skb_bytes_def)
  with h5_recv_feed [OF skb0(1), of h0 "[h1, h2, h3]"] obtain skb where
      skb: "rx_ready (rx_at ?w skb 0 (crc_after ?w h0 ?hdr)) skb 0" "skb_bytes skb = ?hdr"
      and run: "h5_recv ?w (slip ?hdr @ bs) = h5_recv (rx_at ?w skb 0 (crc_after ?w h0 ?hdr)) bs"
    by auto
  let ?w1 = "rx_at ?w skb 0 (crc_after ?w h0 ?hdr)"
  from skb(1) have buf: "rx_buf skb" by (simp add: rx_ready_def)
  from skb(2) have "data_len skb = 4" using length_skb_bytes [of skb] by simp
  then have m: "mem skb 0 = h0" "mem skb 1 = h1" "mem skb 2 = h2" "mem skb 3 = h3"
    using skb(2) by (simp_all add: skb_nth_mem [OF buf])
  have h: "h5_recv_hdr ?w1 = Inr (rx_in_data w skb (H5_HDR_LEN h1 h2) (crc_of h0 ?hdr))"
    using hdr buf m
    by (auto simp: h5_recv_hdr_def rx_at_def rx_started_def rx_in_data_def deref_def skb_data_def rx_buf_def
        hdr_accepted_def crc_after_def crc_of_def H5_HDR_LEN_def numeral_2_eq_2 simp del: h5_crc_Cons)
  have i: "h5_recv_iter ?w1 b = bind_result (h5_recv_hdr ?w1) (\<lambda>w. Inr (RxKeep, w))" for b
    by (simp add: h5_recv_iter_def rx_at_def rx_started_def)
  from h5_recv_keep [OF i bs] h
  have "h5_recv ?w1 bs = h5_recv (rx_in_data w skb (H5_HDR_LEN h1 h2) (crc_of h0 ?hdr)) bs"
    by simp
  with run buf skb(2) that show thesis by simp
qed

lemma hdr_len_less:
  assumes "H5_HDR_LEN h1 h2 = n"
  shows "n < 4096"
  using pkt_len_less [of "\<lparr>max_len = 0, data_len = 0, data_off = 0, mem = (\<lambda>i. if i = 1 then h1 else h2)\<rparr>"] assms
  by (simp add: pkt_len_def)

text \<open>From the opening delimiter to the end of the payload.\<close>

lemma h5_recv_to_payload_end:
  assumes idle: "rx_idle w" "mem_ok w"
    and hdr: "hdr_accepted w h0 h1 h2 h3" "H5_HDR_LEN h1 h2 = length data" and bs: "bs \<noteq> []"
  obtains skb where "rx_buf skb" "skb_bytes skb = [h0, h1, h2, h3] @ data"
    "h5_recv w (0xc0 # slip ([h0, h1, h2, h3] @ data) @ bs) =
       h5_recv (rx_in_data w skb 0 (crc_of h0 ([h0, h1, h2, h3] @ data))) bs"
proof -
  let ?hdr = "[h0, h1, h2, h3]"
  obtain b bs' where b: "slip ?hdr @ slip data @ bs = b # bs'" "b \<noteq> 0xc0"
    by (cases h0 rule: slip_byte_cases) auto
  have start: "h5_recv w (0xc0 # slip (?hdr @ data) @ bs) = h5_recv (rx_started w) (slip ?hdr @ slip data @ bs)"
    using h5_recv_delim [OF idle b(2), of bs'] b(1) by simp
  obtain skb1 where skb1: "rx_buf skb1" "skb_bytes skb1 = ?hdr"
      "h5_recv (rx_started w) (slip ?hdr @ slip data @ bs) =
       h5_recv (rx_in_data w skb1 (length data) (crc_of h0 ?hdr)) (slip data @ bs)"
    using h5_recv_header [OF hdr(1), of "slip data @ bs"] bs hdr(2) by auto
  let ?w1 = "rx_in_data w skb1 (length data) (crc_of h0 ?hdr)"
  have len: "data_len skb1 = 4" using skb1(2) length_skb_bytes [of skb1] by simp
  have "length data < 4096" using hdr_len_less [OF hdr(2)] .
  then have ready: "rx_ready ?w1 skb1 (0 + length data)"
    using skb1(1) len by (simp add: rx_ready_def rx_in_data_def)
  have "skb_bytes skb1 @ data = h0 # [h1, h2, h3] @ data" using skb1(2) by simp
  from h5_recv_feed [OF ready this] obtain skb where skb:
      "rx_ready (rx_at ?w1 skb 0 (crc_after ?w1 h0 data)) skb 0" "skb_bytes skb = skb_bytes skb1 @ data"
      "h5_recv ?w1 (slip data @ bs) = h5_recv (rx_at ?w1 skb 0 (crc_after ?w1 h0 data)) bs"
    by blast
  have "rx_at ?w1 skb 0 (crc_after ?w1 h0 data) = rx_in_data w skb 0 (crc_of h0 (?hdr @ data))"
    by (simp add: rx_at_def rx_in_data_def crc_after_def crc_of_def h5_crc_append del: h5_crc_Cons append_Cons)
  with skb start skb1 show thesis
    by (intro that [of skb]) (simp_all only: rx_ready_def)
qed

section \<open>A whole frame\<close>

lemma h5_complete_idle:
  assumes "rx_buf skb" "rx_idle w" "mem_ok w" "h5_complete_rx_pkt (rx_in_data w skb 0 crc) = Inr w'"
  shows "rx_idle w'" "rx_state w' = H5_W4_PKT_DELIMITER"
proof -
  have "safe (\<lambda>w'. rx_idle w' \<and> mem_ok w') (h5_complete_rx_pkt (rx_in_data w skb 0 crc))"
    using assms(1-3) mem_ok_tl [OF assms(3)]
    by (intro safe_h5_complete_rx_pkt [of _ skb]) (auto simp: rx_in_data_def rx_idle_def mem_ok_def)
  with assms(4) show "rx_idle w'" by simp
  from assms(4) show "rx_state w' = H5_W4_PKT_DELIMITER" by (rule h5_complete_rx_pkt_state)
qed

lemma h5_recv_end_delim:
  "rx_idle w \<Longrightarrow> rx_state w = H5_W4_PKT_DELIMITER \<Longrightarrow> h5_recv w [0xc0] = Inr (w\<lparr>rx_state := H5_W4_PKT_START\<rparr>)"
  by (simp add: h5_recv.simps(2) [of w] h5_recv_iter_def rx_idle_def)

text \<open>Without a checksum the packet is handled when the closing delimiter arrives.\<close>

lemma h5_recv_frame_plain:
  assumes idle: "rx_idle w" "mem_ok w"
    and hdr: "hdr_accepted w h0 h1 h2 h3" "H5_HDR_LEN h1 h2 = length data" and plain: "h0 AND 0x40 = 0"
  obtains skb where "rx_buf skb" "skb_bytes skb = [h0, h1, h2, h3] @ data"
    "h5_recv w (h5_frame False ([h0, h1, h2, h3] @ data)) =
       bind_result (h5_complete_rx_pkt (rx_in_data w skb 0 H5_CRC_INIT))
         (\<lambda>w. Inr (w\<lparr>rx_state := H5_W4_PKT_START\<rparr>))"
proof -
  let ?pkt = "[h0, h1, h2, h3] @ data"
  obtain skb where skb: "rx_buf skb" "skb_bytes skb = ?pkt"
      "h5_recv w (0xc0 # slip ?pkt @ [0xc0]) = h5_recv (rx_in_data w skb 0 (crc_of h0 ?pkt)) [0xc0]"
    using h5_recv_to_payload_end [OF idle hdr, of "[0xc0]"] by blast
  let ?w = "rx_in_data w skb 0 H5_CRC_INIT"
  have crc: "crc_of h0 ?pkt = H5_CRC_INIT" by (simp add: crc_of_def plain)
  have len: "0 < data_len skb" using skb(2) length_skb_bytes [of skb] by simp
  have "mem skb 0 = h0" using skb(2) skb_nth_mem [OF skb(1) len] by simp
  then have i: "h5_recv_iter ?w b = bind_result (h5_complete_rx_pkt ?w) (\<lambda>w. Inr (RxKeep, w))" for b
    using skb(1) plain
    by (simp add: h5_recv_iter_def rx_in_data_def deref_def skb_data_def rx_buf_def)
  have "h5_recv ?w [0xc0] = bind_result (h5_complete_rx_pkt ?w) (\<lambda>w. h5_recv w [0xc0])"
    by (rule h5_recv_keep [OF i]) simp
  also have "\<dots> = bind_result (h5_complete_rx_pkt ?w) (\<lambda>w. Inr (w\<lparr>rx_state := H5_W4_PKT_START\<rparr>))"
    by (rule bind_result_cong) (auto intro: h5_recv_end_delim dest: h5_complete_idle [OF skb(1) idle])
  finally show thesis
    using skb that by (simp add: h5_frame_def crc_trailer_def crc del: append_Cons)
qed

text \<open>With a checksum, the two trailing bytes decide whether the packet is handled or dropped.\<close>

lemma be16_of_bytes: "(ucast t1 + push_bit 8 (ucast t0) :: u16) = le16_of t1 t0"
  by (simp add: le16_of_def)

lemma h5_recv_frame_crc:
  assumes idle: "rx_idle w" "mem_ok w"
    and hdr: "hdr_accepted w h0 h1 h2 h3" "H5_HDR_LEN h1 h2 = length data" and on: "h0 AND 0x40 \<noteq> 0"
  defines "pkt \<equiv> [h0, h1, h2, h3] @ data"
  obtains skb where "rx_buf skb" "skb_bytes skb = pkt @ [t0, t1]"
    "h5_recv w (0xc0 # slip (pkt @ [t0, t1]) @ [0xc0]) =
       bind_result (h5_recv_crc ((rx_in_data w skb 0 (h5_crc H5_CRC_INIT pkt))\<lparr>rx_state := H5_W4_CRC\<rparr>))
         (\<lambda>w. h5_recv w [0xc0])"
proof -
  obtain skb1 where skb1: "rx_buf skb1" "skb_bytes skb1 = pkt"
      "h5_recv w (0xc0 # slip pkt @ slip [t0, t1] @ [0xc0]) =
       h5_recv (rx_in_data w skb1 0 (crc_of h0 pkt)) (slip [t0, t1] @ [0xc0])"
    unfolding pkt_def using h5_recv_to_payload_end [OF idle hdr, of "slip [t0, t1] @ [0xc0]"] by blast
  have crc: "crc_of h0 pkt = h5_crc H5_CRC_INIT pkt" by (simp add: crc_of_def on)
  let ?w1 = "rx_in_data w skb1 0 (h5_crc H5_CRC_INIT pkt)"
  let ?w2 = "?w1\<lparr>rx_state := H5_W4_CRC, rx_count := 2\<rparr>"
  have len: "data_len skb1 = 4 + length data" using skb1(2) length_skb_bytes [of skb1] by (simp add: pkt_def)
  then have "mem skb1 0 = h0" using skb_nth_mem [OF skb1(1), of 0] skb1(2) by (simp add: pkt_def)
  then have i: "h5_recv_iter ?w1 b = bind_result (Inr ?w2) (\<lambda>w. Inr (RxKeep, w))" for b
    using skb1(1) on by (simp add: h5_recv_iter_def rx_in_data_def deref_def skb_data_def rx_buf_def)
  have step: "h5_recv ?w1 (slip [t0, t1] @ [0xc0]) = h5_recv ?w2 (slip [t0, t1] @ [0xc0])"
    using h5_recv_keep [OF i, of "slip [t0, t1] @ [0xc0]"] by simp
  have "length data < 4096" using hdr_len_less [OF hdr(2)] .
  then have ready: "rx_ready ?w2 skb1 (0 + length [t0, t1])"
    using skb1(1) len by (simp add: rx_ready_def rx_in_data_def)
  have "skb_bytes skb1 @ [t0, t1] = h0 # [h1, h2, h3] @ data @ [t0, t1]" using skb1(2) by (simp add: pkt_def)
  from h5_recv_feed [OF ready this] obtain skb where skb:
      "rx_ready (rx_at ?w2 skb 0 (crc_after ?w2 h0 [t0, t1])) skb 0" "skb_bytes skb = pkt @ [t0, t1]"
      "h5_recv ?w2 (slip [t0, t1] @ [0xc0]) = h5_recv (rx_at ?w2 skb 0 (crc_after ?w2 h0 [t0, t1])) [0xc0]"
    unfolding skb1(2) by blast
  let ?w3 = "(rx_in_data w skb 0 (h5_crc H5_CRC_INIT pkt))\<lparr>rx_state := H5_W4_CRC\<rparr>"
  have w3: "rx_at ?w2 skb 0 (crc_after ?w2 h0 [t0, t1]) = ?w3"
    by (simp add: rx_at_def rx_in_data_def crc_after_def)
  have j: "h5_recv_iter ?w3 b = bind_result (h5_recv_crc ?w3) (\<lambda>w. Inr (RxKeep, w))" for b
    by (simp add: h5_recv_iter_def rx_in_data_def)
  have "h5_recv ?w3 [0xc0] = bind_result (h5_recv_crc ?w3) (\<lambda>w. h5_recv w [0xc0])"
    by (rule h5_recv_keep [OF j]) simp
  with skb skb1(3) step w3 crc show thesis
    by (intro that [of skb]) (simp_all add: rx_ready_def)
qed


section \<open>Checksum decides\<close>

lemma trailer_get_crc:
  assumes "rx_buf skb" "skb_bytes skb = pkt @ [t0, t1]" "rx_skb w = SkbLive skb"
  shows "h5_get_crc w = Inr (le16_of t1 t0)"
proof -
  have len: "data_len skb = length pkt + 2" using assms(2) length_skb_bytes [of skb] by simp
  then have m: "mem skb (length pkt) = t0" "mem skb (Suc (length pkt)) = t1"
    using assms(2) by (simp_all add: skb_nth_mem [OF assms(1)] nth_append)
  with assms(1,3) len show ?thesis
    by (simp add: h5_get_crc_def deref_def skb_data_def rx_buf_def le16_of_def)
qed

lemma rx_in_data_idle_drop:
  assumes "rx_idle w" "rx_buf skb"
  shows "h5_drop_rx ((rx_in_data w skb 0 crc)\<lparr>rx_state := st\<rparr>) =
    Inr (w\<lparr>mallocs := tl (mallocs w), rx_skb := SkbFreed, rx_state := H5_W4_PKT_DELIMITER, rx_count := 0,
           rx_esc_state := H5_ESCSTATE_NOESC, message_crc := crc\<rparr>)"
  by (simp add: h5_drop_rx_def rx_in_data_def skb_free_def)

text \<open>What a receiver looks like after a frame it dropped: ready for the next packet, all else unchanged.\<close>

definition rx_dropped :: "world \<Rightarrow> u16 \<Rightarrow> world" where
  "rx_dropped w crc =
     w\<lparr>mallocs := tl (mallocs w), rx_skb := SkbFreed, rx_state := H5_W4_PKT_START, rx_count := 0,
       rx_esc_state := H5_ESCSTATE_NOESC, message_crc := crc\<rparr>"

lemma h5_recv_frame_bad_crc:
  assumes idle: "rx_idle w" "mem_ok w"
    and hdr: "hdr_accepted w h0 h1 h2 h3" "H5_HDR_LEN h1 h2 = length data" and on: "h0 AND 0x40 \<noteq> 0"
  defines "pkt \<equiv> [h0, h1, h2, h3] @ data"
  assumes bad: "le16_of t1 t0 \<noteq> bit_rev16 (h5_crc H5_CRC_INIT pkt)"
  shows "h5_recv w (0xc0 # slip (pkt @ [t0, t1]) @ [0xc0]) = Inr (rx_dropped w (h5_crc H5_CRC_INIT pkt))"
proof -
  let ?crc = "h5_crc H5_CRC_INIT pkt"
  obtain skb where skb: "rx_buf skb" "skb_bytes skb = pkt @ [t0, t1]"
    "h5_recv w (0xc0 # slip (pkt @ [t0, t1]) @ [0xc0]) =
       bind_result (h5_recv_crc ((rx_in_data w skb 0 ?crc)\<lparr>rx_state := H5_W4_CRC\<rparr>)) (\<lambda>w. h5_recv w [0xc0])"
    unfolding pkt_def using h5_recv_frame_crc [OF idle hdr on] by blast
  let ?w = "(rx_in_data w skb 0 ?crc)\<lparr>rx_state := H5_W4_CRC\<rparr>"
  have "h5_get_crc ?w = Inr (le16_of t1 t0)"
    by (rule trailer_get_crc [OF skb(1,2)]) (simp add: rx_in_data_def)
  moreover have "message_crc ?w = ?crc" by (simp add: rx_in_data_def)
  ultimately have "h5_recv_crc ?w = h5_drop_rx ?w" using bad by (simp add: h5_recv_crc_def)
  then show ?thesis
    unfolding skb(3) using idle(1)
    by (simp add: rx_in_data_idle_drop [OF idle(1) skb(1)] rx_dropped_def h5_recv.simps(2) h5_recv_iter_def)
qed

text \<open>A dropped packet is skipped up to the next delimiter.\<close>

lemma h5_recv_skip:
  assumes "rx_state w = H5_W4_PKT_DELIMITER" "rx_count w = 0" "0xc0 \<notin> set bs"
  shows "h5_recv w (bs @ [0xc0]) = Inr (w\<lparr>rx_state := H5_W4_PKT_START\<rparr>)"
  using assms(3)
proof (induction bs)
  case Nil
  with assms(1,2) show ?case by (simp add: h5_recv.simps(2) [of w] h5_recv_iter_def)
next
  case (Cons b bs)
  then have "h5_recv_iter w b = Inr (RxConsume, w)" using assms(1,2) by (auto simp: h5_recv_iter_def)
  with Cons show ?case by (simp add: h5_recv.simps(2) [of w])
qed

text \<open>A header whose sum is wrong: the packet is dropped and the rest of the frame skipped.\<close>

lemma h5_recv_bad_header:
  assumes idle: "rx_idle w" "mem_ok w" and bad: "NOT (g0 + g1 + g2) \<noteq> g3"
  shows "h5_recv w (0xc0 # slip ([g0, g1, g2, g3] @ rest) @ [0xc0]) =
    Inr (rx_dropped w (crc_of g0 [g0, g1, g2, g3]))"
proof -
  let ?hdr = "[g0, g1, g2, g3]" and ?w = "rx_started w" and ?bs = "slip rest @ [0xc0]"
  obtain b bs' where b: "slip ?hdr @ ?bs = b # bs'" "b \<noteq> 0xc0"
    by (cases g0 rule: slip_byte_cases) auto
  have start: "h5_recv w (0xc0 # slip (?hdr @ rest) @ [0xc0]) = h5_recv ?w (slip ?hdr @ ?bs)"
    using h5_recv_delim [OF idle b(2), of bs'] b(1) by simp
  obtain skb0 where skb0: "rx_ready ?w skb0 (0 + length ?hdr)" "skb_bytes skb0 = []"
    by (simp add: rx_ready_def rx_started_def rx_buf_def skb_bytes_def)
  with h5_recv_feed [OF skb0(1), of g0 "[g1, g2, g3]"] obtain skb where
      skb: "rx_ready (rx_at ?w skb 0 (crc_after ?w g0 ?hdr)) skb 0" "skb_bytes skb = ?hdr"
      and run: "h5_recv ?w (slip ?hdr @ ?bs) = h5_recv (rx_at ?w skb 0 (crc_after ?w g0 ?hdr)) ?bs"
    by auto
  let ?w1 = "rx_at ?w skb 0 (crc_after ?w g0 ?hdr)"
  let ?w2 = "(rx_dropped w (crc_of g0 ?hdr))\<lparr>rx_state := H5_W4_PKT_DELIMITER\<rparr>"
  from skb(1) have buf: "rx_buf skb" by (simp add: rx_ready_def)
  from skb(2) have "data_len skb = 4" using length_skb_bytes [of skb] by simp
  then have m: "mem skb 0 = g0" "mem skb 1 = g1" "mem skb 2 = g2" "mem skb 3 = g3"
    using skb(2) by (simp_all add: skb_nth_mem [OF buf])
  have h: "h5_recv_hdr ?w1 = Inr ?w2"
    using bad buf m
    by (simp add: h5_recv_hdr_def h5_drop_rx_def skb_free_def rx_at_def rx_started_def rx_dropped_def deref_def
        skb_data_def rx_buf_def crc_after_def crc_of_def numeral_2_eq_2 del: h5_crc_Cons)
  have i: "h5_recv_iter ?w1 b = bind_result (h5_recv_hdr ?w1) (\<lambda>w. Inr (RxKeep, w))" for b
    by (simp add: h5_recv_iter_def rx_at_def rx_started_def)
  have "h5_recv ?w1 ?bs = h5_recv ?w2 ?bs" using h5_recv_keep [OF i, of ?bs] h by simp
  also have "\<dots> = Inr (?w2\<lparr>rx_state := H5_W4_PKT_START\<rparr>)"
    using slip_clean [of rest] by (intro h5_recv_skip) (auto simp: rx_dropped_def)
  finally show ?thesis unfolding start run by (simp add: rx_dropped_def)
qed

text \<open>A packet as the receiver holds it when it is complete.\<close>

definition rx_holds :: "world \<Rightarrow> byte list \<Rightarrow> world \<Rightarrow> bool" where
  "rx_holds w pkt w1 \<longleftrightarrow>
     (\<exists>skb st crc. rx_buf skb \<and> skb_bytes skb = pkt \<and> w1 = (rx_in_data w skb 0 crc)\<lparr>rx_state := st\<rparr>)"

lemma trailer_is_crc:
  "crc_trailer True pkt = [t0, t1] \<Longrightarrow> le16_of t1 t0 = bit_rev16 (h5_crc H5_CRC_INIT pkt)"
  by (auto simp: crc_trailer_def Let_def)

lemma h5_complete_state_indep:
  "h5_complete_rx_pkt ((rx_in_data w skb 0 crc)\<lparr>rx_state := st\<rparr>) = Inr w' \<Longrightarrow> rx_buf skb \<Longrightarrow>
   rx_idle w \<Longrightarrow> mem_ok w \<Longrightarrow> rx_idle w' \<and> rx_state w' = H5_W4_PKT_DELIMITER"
proof (intro conjI)
  assume *: "h5_complete_rx_pkt ((rx_in_data w skb 0 crc)\<lparr>rx_state := st\<rparr>) = Inr w'"
    and a: "rx_buf skb" "rx_idle w" "mem_ok w"
  have "safe (\<lambda>w'. rx_idle w' \<and> mem_ok w') (h5_complete_rx_pkt ((rx_in_data w skb 0 crc)\<lparr>rx_state := st\<rparr>))"
    using a mem_ok_tl [OF a(3)]
    by (intro safe_h5_complete_rx_pkt [of _ skb]) (auto simp: rx_in_data_def rx_idle_def mem_ok_def)
  with * show "rx_idle w'" by simp
  from * show "rx_state w' = H5_W4_PKT_DELIMITER" by (rule h5_complete_rx_pkt_state)
qed

text \<open>An intact frame, with or without a checksum, is handled as the packet it carries.\<close>

lemma h5_recv_frame_intact:
  assumes idle: "rx_idle w" "mem_ok w"
    and hdr: "hdr_accepted w h0 h1 h2 h3" "H5_HDR_LEN h1 h2 = length data"
  defines "on \<equiv> h0 AND 0x40 \<noteq> 0" and "pkt \<equiv> [h0, h1, h2, h3] @ data"
  obtains w1 where "rx_holds w pkt w1"
    "h5_recv w (h5_frame on pkt) =
       bind_result (h5_complete_rx_pkt w1) (\<lambda>w. Inr (w\<lparr>rx_state := H5_W4_PKT_START\<rparr>))"
proof (cases on)
  case False
  with h5_recv_frame_plain [OF idle hdr] obtain skb where skb: "rx_buf skb" "skb_bytes skb = pkt"
    "h5_recv w (h5_frame False pkt) =
       bind_result (h5_complete_rx_pkt (rx_in_data w skb 0 H5_CRC_INIT)) (\<lambda>w. Inr (w\<lparr>rx_state := H5_W4_PKT_START\<rparr>))"
    by (auto simp: on_def pkt_def)
  moreover have "rx_in_data w skb 0 H5_CRC_INIT = (rx_in_data w skb 0 H5_CRC_INIT)\<lparr>rx_state := H5_W4_DATA\<rparr>"
    by (simp add: rx_in_data_def)
  ultimately have "rx_holds w pkt (rx_in_data w skb 0 H5_CRC_INIT)" unfolding rx_holds_def by blast
  with skb(3) False show thesis by (intro that) auto
next
  case True
  then have h40: "h0 AND 0x40 \<noteq> 0" by (simp add: on_def)
  let ?crc = "h5_crc H5_CRC_INIT pkt"
  obtain t0 t1 where t: "crc_trailer True pkt = [t0, t1]" by (simp add: crc_trailer_def Let_def)
  obtain skb where skb: "rx_buf skb" "skb_bytes skb = pkt @ [t0, t1]"
    "h5_recv w (0xc0 # slip (pkt @ [t0, t1]) @ [0xc0]) =
       bind_result (h5_recv_crc ((rx_in_data w skb 0 ?crc)\<lparr>rx_state := H5_W4_CRC\<rparr>)) (\<lambda>w. h5_recv w [0xc0])"
    unfolding pkt_def using h5_recv_frame_crc [OF idle hdr h40] by blast
  let ?w = "(rx_in_data w skb 0 ?crc)\<lparr>rx_state := H5_W4_CRC\<rparr>" and ?skb = "skb_trim skb (data_len skb - 2)"
  have len: "data_len skb = length pkt + 2" using skb(2) length_skb_bytes [of skb] by simp
  have tr: "rx_buf ?skb" "skb_bytes ?skb = pkt"
    using skb(1,2) len by (simp_all add: rx_buf_def skb_trim_bytes)
  have sub: "sub32 (data_len skb) 2 = data_len skb - 2"
    using skb(1) len by (intro sub32_exact) (simp_all add: rx_buf_def)
  let ?w1 = "(rx_in_data w ?skb 0 ?crc)\<lparr>rx_state := H5_W4_CRC\<rparr>"
  have "h5_get_crc ?w = Inr (bit_rev16 ?crc)"
    using trailer_get_crc [OF skb(1,2), of ?w] trailer_is_crc [OF t] by (simp add: rx_in_data_def)
  moreover have "?w\<lparr>rx_skb := SkbLive ?skb\<rparr> = ?w1" by (simp add: rx_in_data_def)
  moreover have "rx_skb ?w = SkbLive skb" "message_crc ?w = ?crc" by (simp_all add: rx_in_data_def)
  ultimately have "h5_recv_crc ?w = h5_complete_rx_pkt ?w1"
    by (simp add: h5_recv_crc_def deref_def sub)
  moreover have "bind_result (h5_complete_rx_pkt ?w1) (\<lambda>w. h5_recv w [0xc0]) =
      bind_result (h5_complete_rx_pkt ?w1) (\<lambda>w. Inr (w\<lparr>rx_state := H5_W4_PKT_START\<rparr>))"
    by (rule bind_result_cong [OF refl])
       (use h5_complete_state_indep [OF _ tr(1) idle] h5_recv_end_delim in blast)
  moreover have "rx_holds w pkt ?w1" unfolding rx_holds_def using tr by blast
  ultimately show thesis
    using skb(3) t True by (intro that [of ?w1]) (simp_all add: h5_frame_def)
qed

section \<open>From the sender's packet to the receiver's handler\<close>

lemma and_bit_byte:
  "h AND 0x40 \<noteq> 0 \<longleftrightarrow> H5_HDR_CRC h = 1" "h AND 0x80 \<noteq> 0 \<longleftrightarrow> H5_HDR_RELIABLE h = 1"
proof -
  have "h AND 0x40 \<noteq> 0 \<longleftrightarrow> bit h 6" "h AND 0x80 \<noteq> 0 \<longleftrightarrow> bit h 7"
    using and_exp_eq_0_iff_not_bit [of h 6] and_exp_eq_0_iff_not_bit [of h 7] by simp_all
  moreover have "drop_bit n h AND 1 = 1 \<longleftrightarrow> bit h n" for n
    by (simp add: and_one_eq bit_iff_odd_drop_bit odd_iff_mod_2_eq_one)
  ultimately show "h AND 0x40 \<noteq> 0 \<longleftrightarrow> H5_HDR_CRC h = 1" "h AND 0x80 \<noteq> 0 \<longleftrightarrow> H5_HDR_RELIABLE h = 1"
    by (simp_all add: h5_hdr_defs)
qed

lemma sent_header:
  assumes "a < 8" "s < 8" "t < 16" "len < 4096"
  obtains h0 h1 h2 h3 where "h5_tx_header rel a s crc len t = [h0, h1, h2, h3]"
    "NOT (h0 + h1 + h2) = h3" "H5_HDR_ACK h0 = a" "h0 AND 0x80 \<noteq> 0 \<longleftrightarrow> rel" "h0 AND 0x40 \<noteq> 0 \<longleftrightarrow> crc"
    "rel \<Longrightarrow> h0 AND 0x07 = s" "H5_HDR_PKT_TYPE h1 = word_of_nat t" "H5_HDR_LEN h1 h2 = len"
proof -
  define h0 where "h0 = (let h = push_bit 3 a; h = (if rel then h OR (0x80 + s) else h)
                in if crc then h OR 0x40 else h)"
  note f = hdr0_fields [OF assms(1,2), where rel = rel and crc = crc, folded h0_def]
  let ?h1 = "push_bit 4 (word_of_nat len) OR word_of_nat t :: byte" and ?h2 = "word_of_nat (len div 16) :: byte"
  show thesis
  proof (rule that [of h0 ?h1 ?h2 "NOT (h0 + ?h1 + ?h2)"])
    show "h5_tx_header rel a s crc len t = [h0, ?h1, ?h2, NOT (h0 + ?h1 + ?h2)]"
      by (simp add: h5_tx_header_def h0_def Let_def)
  qed (use f hdr1_type [OF assms(3)] hdr_len [OF assms(3,4)] in \<open>auto simp: and_bit_byte H5_HDR_SEQ_def\<close>)
qed

text \<open>What completing a packet does to the sequence numbers.\<close>

lemma h5_complete_seq:
  assumes "rx_holds w ([h0, h1, h2, h3] @ data) w1" "rx_idle w" "mem_ok w" "h5_complete_rx_pkt w1 = Inr w'"
  shows "rxseq_txack w' = (if h0 AND 0x80 \<noteq> 0 then ((h0 AND 0x07) + 1) AND 0x07 else rxseq_txack w)"
proof -
  let ?pkt = "[h0, h1, h2, h3] @ data"
  from assms(1) obtain skb st crc where skb: "rx_buf skb" "skb_bytes skb = ?pkt"
      "w1 = (rx_in_data w skb 0 crc)\<lparr>rx_state := st\<rparr>"
    by (auto simp: rx_holds_def)
  have len: "4 \<le> data_len skb" using skb(2) length_skb_bytes [of skb] by simp
  then have m: "mem skb 0 = h0" "mem skb 1 = h1"
    using skb_nth_mem [OF skb(1), of 0] skb_nth_mem [OF skb(1), of 1] skb(2) by auto
  let ?wb = "h5_rx_bookkeep h0 w1"
  have mo: "mem_ok ?wb" using mem_ok_tl [OF assms(3)] by (simp add: skb(3) rx_in_data_def mem_ok_def)
  from assms(4) skb len m obtain w2 w3 where w2: "h5_rx_deliver skb h1 ?wb = Inr w2"
      "h5_rx_ack w2 = Inr w3" "h5_rx_release w3 = Inr w'"
    by (auto simp: h5_complete_rx_pkt_def bind_result_eq_Inr rx_in_data_def deref_def skb_data_def rx_buf_def)
  have "safe (same_rx ?wb) (h5_rx_deliver skb h1 ?wb)"
    by (rule safe_h5_rx_deliver) (use skb(1) mo in \<open>auto simp: rx_buf_def\<close>)
  with w2(1) have s2: "same_rx ?wb w2" by simp
  with mo have "safe (same_rx w2) (h5_rx_ack w2)" by (intro safe_h5_rx_ack) (simp add: same_rx_def)
  with w2(2) have s3: "same_rx w2 w3" by simp
  from w2(3) have "rxseq_txack w' = rxseq_txack w3"
    by (auto simp: h5_rx_release_def bind_result_eq_Inr)
  with s2 s3 have "rxseq_txack w' = rxseq_txack ?wb" by (simp add: same_rx_def)
  moreover have "H5_HDR_RELIABLE h0 \<noteq> 0 \<longleftrightarrow> h0 AND 0x80 \<noteq> 0"
    by (simp add: and_bit_byte h5_hdr_defs and_one_eq)
  ultimately show ?thesis
    by (simp add: h5_rx_bookkeep_def H5_HDR_SEQ_def Let_def skb(3) rx_in_data_def)
qed

end
