(* ===== verification/H5_Link.thy ===== *)
theory H5_Link
  imports H5_Roundtrip
begin

text \<open>
  The link layer of the attach tool as a whole. The link state machine
  (\<open>H5_LINK_STATE\<close> of \<open>hciattach.h\<close>) is stated as a step relation, and the receiver is shown to
  follow it; what a received packet can and cannot change is collected in frame lemmas. The
  second half states the properties of framing, checksum, receive loop and link establishment.
\<close>

section \<open>The link state machine\<close>

text \<open>
  The transitions that a received packet can cause. \<open>H5_PATCH\<close> is entered by the downloader, not
  by a packet.
\<close>

inductive link_step :: "h5_link_state \<Rightarrow> h5_link_state \<Rightarrow> bool" where
  sync_done: "link_step H5_SYNC H5_CONFIG"
| config_done: "link_step H5_CONFIG H5_INIT"
| patch_done: "link_step H5_PATCH H5_HCI_RESET"
| reset_done: "link_step H5_HCI_RESET H5_ACTIVE"

inductive_simps link_step_iff: "link_step s s'"

abbreviation link_steps :: "h5_link_state \<Rightarrow> h5_link_state \<Rightarrow> bool" where
  "link_steps \<equiv> link_step\<^sup>*\<^sup>*"

text \<open>Progress along the start-up sequence, as a number.\<close>

definition link_rank :: "h5_link_state \<Rightarrow> nat" where
  "link_rank s = (case s of H5_SYNC \<Rightarrow> 0 | H5_CONFIG \<Rightarrow> 1 | H5_INIT \<Rightarrow> 2 | H5_PATCH \<Rightarrow> 3
     | H5_HCI_RESET \<Rightarrow> 4 | H5_ACTIVE \<Rightarrow> 5)"

lemma link_step_rank: "link_step s s' \<Longrightarrow> link_rank s' = Suc (link_rank s)"
  by (auto simp: link_step_iff link_rank_def)

lemma link_steps_rank: "link_steps s s' \<Longrightarrow> link_rank s \<le> link_rank s'"
  by (induction rule: rtranclp_induct) (auto dest: link_step_rank)

text \<open>Packets alone never take the tool from initialisation into the download or beyond.\<close>

lemma link_steps_init: "link_steps s s' \<Longrightarrow> s \<in> {H5_SYNC, H5_CONFIG, H5_INIT} \<Longrightarrow> s' \<in> {H5_SYNC, H5_CONFIG, H5_INIT}"
  by (induction rule: rtranclp_induct) (auto simp: link_step_iff)

section \<open>What sending and receiving leave unchanged\<close>

lemma h5_prepare_pkt_world:
  assumes "h5_prepare_pkt w data len t = Inr (r, w')"
  shows "w' = w\<lparr>mallocs := mallocs w', is_txack_req := is_txack_req w', msgq_txseq := msgq_txseq w'\<rparr>"
  using assms
  by (auto simp: h5_prepare_pkt_def next_malloc_eq bind_result_eq_Inr Let_def split: option.splits if_splits)

lemma h5_prepare_pkt_seq:
  assumes "h5_prepare_pkt w data len t = Inr (Some nskb, w')"
  shows "msgq_txseq w' = (if h5_pkt_reliable t = Some True then (msgq_txseq w + 1) AND 0x07 else msgq_txseq w)"
  using assms
  by (auto simp: h5_prepare_pkt_def next_malloc_eq bind_result_eq_Inr Let_def split: option.splits if_splits)

lemma rtb_send_ack_world:
  assumes "rtb_send_ack fd w = Inr w'"
  shows "w' = w\<lparr>mallocs := mallocs w', is_txack_req := is_txack_req w', wlog := wlog w'\<rparr>"
proof -
  from assms obtain nskb w1 where w1: "h5_prepare_pkt w [] 0 H5_ACK_PKT = Inr (Some nskb, w1)"
      "w' = log_write fd (skb_bytes nskb) w1"
    by (auto simp: rtb_send_ack_def bind_result_eq_Inr split: option.splits)
  have "msgq_txseq w1 = msgq_txseq w"
    using h5_prepare_pkt_seq [OF w1(1)] by (simp add: h5_pkt_reliable_def pkt_type_defs)
  then show ?thesis
    using h5_prepare_pkt_world [OF w1(1)] w1(2)
    by (cases w; cases w1) (simp add: log_write_def)
qed

text \<open>
  The part of the state that belongs to the transmitter, the downloader and the operating system:
  nothing the receiver does touches it.
\<close>

definition same_host :: "world \<Rightarrow> world \<Rightarrow> bool" where
  "same_host w w' \<longleftrightarrow> msgq_txseq w' = msgq_txseq w \<and> tx_index w' = tx_index w \<and> total_num w' = total_num w \<and>
     serial_fd w' = serial_fd w \<and> timerfd w' = timerfd w \<and> wr_rets w' = wr_rets w \<and> polls w' = polls w \<and>
     polls4 w' = polls4 w \<and> tcsets w' = tcsets w \<and> tio w' = tio w \<and> tio_applied w' = tio_applied w \<and>
     armed w' = armed w \<and> cs_opcode (cmd_state w') = cs_opcode (cmd_state w) \<and>
     cs_subopcode (cmd_state w') = cs_subopcode (cmd_state w)"

definition rx_moves :: "world \<Rightarrow> world \<Rightarrow> bool" where
  "rx_moves w w' \<longleftrightarrow> same_host w w' \<and> link_steps (link_estab_state w) (link_estab_state w')"

lemma rx_moves_refl [simp]: "rx_moves w w"
  by (simp add: rx_moves_def same_host_def)

lemma rx_moves_trans: "rx_moves w w' \<Longrightarrow> rx_moves w' w'' \<Longrightarrow> rx_moves w w''"
  by (auto simp: rx_moves_def same_host_def)

lemma rx_moves_update [simp]:
  "rx_moves w (w'\<lparr>hci_ver := a\<rparr>) = rx_moves w w'" "rx_moves w (w'\<lparr>hci_rev := b\<rparr>) = rx_moves w w'"
  "rx_moves w (w'\<lparr>lmp_subver := b\<rparr>) = rx_moves w w'" "rx_moves w (w'\<lparr>eversion := a\<rparr>) = rx_moves w w'"
  "rx_moves w (w'\<lparr>chip_type := a\<rparr>) = rx_moves w w'" "rx_moves w (w'\<lparr>chip_ver := a\<rparr>) = rx_moves w w'"
  "rx_moves w (w'\<lparr>key_id := a\<rparr>) = rx_moves w w'" "rx_moves w (w'\<lparr>num_of_cmd_sent := b\<rparr>) = rx_moves w w'"
  "rx_moves w (w'\<lparr>rx_index := i\<rparr>) = rx_moves w w'" "rx_moves w (w'\<lparr>use_crc := a\<rparr>) = rx_moves w w'"
  "rx_moves w (w'\<lparr>is_txack_req := a\<rparr>) = rx_moves w w'" "rx_moves w (w'\<lparr>rxack := a\<rparr>) = rx_moves w w'"
  "rx_moves w (w'\<lparr>rxseq_txack := a\<rparr>) = rx_moves w w'" "rx_moves w (w'\<lparr>rx_state := st\<rparr>) = rx_moves w w'"
  "rx_moves w (w'\<lparr>rx_count := n\<rparr>) = rx_moves w w'" "rx_moves w (w'\<lparr>rx_skb := p\<rparr>) = rx_moves w w'"
  "rx_moves w (w'\<lparr>rx_esc_state := e\<rparr>) = rx_moves w w'" "rx_moves w (w'\<lparr>message_crc := b\<rparr>) = rx_moves w w'"
  "rx_moves w (w'\<lparr>mallocs := m\<rparr>) = rx_moves w w'" "rx_moves w (w'\<lparr>wlog := l\<rparr>) = rx_moves w w'"
  "rx_moves w (w'\<lparr>cmd_state := (cmd_state w')\<lparr>cs_state := b\<rparr>\<rparr>) = rx_moves w w'"
  "rx_moves w (log_write fd bs w') = rx_moves w w'"
  by (simp_all add: rx_moves_def same_host_def log_write_def)

lemma rx_moves_link:
  "rx_moves w v \<Longrightarrow> link_step (link_estab_state v) s \<Longrightarrow> rx_moves w (v\<lparr>link_estab_state := s\<rparr>)"
  by (auto simp: rx_moves_def same_host_def)

lemma rtb_send_ack_moves: "returns (rx_moves w) (rtb_send_ack fd w)"
proof (rule returnsI)
  fix w' assume "rtb_send_ack fd w = Inr w'"
  from rtb_send_ack_world [OF this] show "rx_moves w w'"
    by (metis rx_moves_refl rx_moves_update(11,19,20))
qed

lemma h5_init_cc_fields_moves:
  "rx_moves w v \<Longrightarrow> returns (\<lambda>r. \<forall>w'. r = Some w' \<longrightarrow> rx_moves w w') (h5_init_cc_fields skb opcode v)"
  by (simp add: h5_init_cc_fields_def Let_def returnsI)

lemma h5_init_hci_cc_moves: "returns (rx_moves w) (h5_init_hci_cc skb w)"
  by (auto simp: h5_init_hci_cc_def Let_def intro!: returnsI split: option.splits
      dest!: returnsD [OF h5_init_cc_fields_moves, rotated])

lemma h5_post_hci_cc_moves: "link_estab_state w = H5_HCI_RESET \<Longrightarrow> returns (rx_moves w) (h5_post_hci_cc skb w)"
  by (auto simp: h5_post_hci_cc_def Let_def link_step_iff intro!: returnsI rx_moves_link split: option.splits)

lemma hci_recv_frame_moves: "returns (rx_moves w) (hci_recv_frame skb w)"
  by (cases "link_estab_state w")
     (auto simp: hci_recv_frame_def Let_def h5_init_hci_cc_moves h5_post_hci_cc_moves link_step_iff
       intro!: returnsI rx_moves_link dest: returnsD [OF h5_init_hci_cc_moves] returnsD [OF h5_post_hci_cc_moves])

lemma h5_handle_internal_rx_moves: "returns (rx_moves w) (h5_handle_internal_rx skb w)"
  by (cases "link_estab_state w")
     (auto simp: h5_handle_internal_rx_def Let_def link_step_iff
       intro!: returnsI rx_moves_link dest: returnsD [OF rtb_send_ack_moves])

lemma h5_rx_deliver_moves: "returns (rx_moves w) (h5_rx_deliver skb h1 w)"
  by (auto simp: h5_rx_deliver_def Let_def hci_recv_frame_moves h5_handle_internal_rx_moves intro!: returnsI
      dest: returnsD [OF hci_recv_frame_moves] returnsD [OF h5_handle_internal_rx_moves])

lemma h5_rx_ack_moves: "returns (rx_moves w) (h5_rx_ack w)"
  using rtb_send_ack_moves by (auto simp: h5_rx_ack_def intro: returns_mono)

lemma h5_complete_rx_pkt_moves: "returns (rx_moves w) (h5_complete_rx_pkt w)"
proof (rule returnsI)
  fix w' assume "h5_complete_rx_pkt w = Inr w'"
  then obtain skb h0 h1 w1 w2 where w: "h5_rx_deliver skb h1 (h5_rx_bookkeep h0 w) = Inr w1"
      "h5_rx_ack w1 = Inr w2" "h5_rx_release w2 = Inr w'"
    by (auto simp: h5_complete_rx_pkt_def bind_result_eq_Inr)
  have "rx_moves w (h5_rx_bookkeep h0 w)" by (simp add: h5_rx_bookkeep_def)
  then have "rx_moves w w1" by (rule rx_moves_trans) (rule returnsD [OF h5_rx_deliver_moves w(1)])
  then have "rx_moves w w2" by (rule rx_moves_trans) (rule returnsD [OF h5_rx_ack_moves w(2)])
  moreover have "rx_moves w2 w'" using w(3) by (auto simp: h5_rx_release_def bind_result_eq_Inr)
  ultimately show "rx_moves w w'" by (rule rx_moves_trans)
qed

lemma h5_drop_rx_moves: "rx_moves w v \<Longrightarrow> returns (rx_moves w) (h5_drop_rx v)"
  by (simp add: h5_drop_rx_def returnsI)

lemma h5_recv_hdr_moves: "returns (rx_moves w) (h5_recv_hdr w)"
  by (auto simp: h5_recv_hdr_def h5_drop_rx_def intro!: returnsI)

lemma h5_recv_crc_moves: "returns (rx_moves w) (h5_recv_crc w)"
proof -
  have "returns (rx_moves w) (h5_complete_rx_pkt (w\<lparr>rx_skb := p\<rparr>))" for p
    using h5_complete_rx_pkt_moves
    by (rule returns_mono) (rule rx_moves_trans [of _ "w\<lparr>rx_skb := p\<rparr>"], simp_all)
  then show ?thesis
    by (auto simp: h5_recv_crc_def h5_drop_rx_moves intro!: returnsI dest: returnsD)
qed

lemma h5_unslip_moves: "returns (rx_moves w) (h5_unslip_one_byte w b)"
  by (auto simp: h5_unslip_one_byte_def rx_store_byte_def Let_def intro!: returnsI split: h5_rx_esc_state.splits)

lemma h5_recv_start_moves: "rx_moves w (snd (h5_recv_start w))"
  by (simp add: h5_recv_start_def next_malloc_eq Let_def split: option.splits)

lemma h5_recv_iter_moves: "returns (\<lambda>(act, w'). rx_moves w w') (h5_recv_iter w b)"
  using h5_recv_start_moves [of w] h5_unslip_moves [of w b] h5_recv_hdr_moves [of w] h5_recv_crc_moves [of w]
    h5_complete_rx_pkt_moves [of w]
  by (cases "rx_state w") (auto simp: h5_recv_iter_def split_def intro!: returnsI dest: returnsD)

lemma h5_recv_moves: "returns (rx_moves w) (h5_recv w bs)"
proof (induction w bs rule: h5_recv.induct)
  case (2 w b bs)
  show ?case
  proof (subst h5_recv.simps(2), unfold returns_simps, rule returnsI)
    fix r assume r: "h5_recv_iter w b = Inr r"
    with h5_recv_iter_moves [of w b] have "rx_moves w (snd r)" by (simp add: split_def)
    with 2 [OF r] show "returns (rx_moves w) (case r of (act, w') \<Rightarrow>
        case act of RxConsume \<Rightarrow> h5_recv w' bs | RxKeep \<Rightarrow> h5_recv w' (b # bs) | RxReturn \<Rightarrow> Inr w')"
      by (cases r; cases "fst r") (auto elim!: returns_mono intro: rx_moves_trans)
  qed
qed simp

text \<open>The definitions that a run on concrete bytes unfolds.\<close>

lemmas h5_eval = h5_recv.simps(2) h5_recv_iter_def h5_recv_start_def h5_recv_hdr_def next_malloc_def skb_alloc_def
  h5_unslip_one_byte_def rx_store_byte_def deref_def skb_put_bytes_def skb_put_def skb_store_def skb_data_def
  add32_def sub32_def Let_def h5_complete_rx_pkt_def h5_rx_bookkeep_def h5_hdr_defs h5_rx_deliver_def pkt_type_defs
  skb_pull_def H5_HDR_SIZE_def hci_recv_frame_def h5_rx_ack_def h5_rx_release_def skb_free_def h5_prepare_pkt_def
  h5_pkt_reliable_def h5_tx_header_def h5_slip_msgdelim_def h5_slip_one_byte_def h5_encode_byte_def h5_encode_crc_def

section \<open>Properties: framing and checksum\<close>

text \<open>The packet header as the protocol describes it, in numbers: acknowledgement and sequence number, the
  reliable and checksum flags, the type and the 12-bit length, and the checksum that makes the four bytes sum
  to 255 modulo 256.\<close>

definition wire_header :: "bool \<Rightarrow> nat \<Rightarrow> nat \<Rightarrow> bool \<Rightarrow> nat \<Rightarrow> nat \<Rightarrow> byte list" where
  "wire_header rel ack seq crc len t =
     (let h0 = 8 * ack + (if rel then 128 + seq else 0) + (if crc then 64 else 0);
          h1 = 16 * (len mod 16) + t;
          h2 = len div 16 mod 256
      in map word_of_nat [h0, h1, h2, 255 - (h0 + h1 + h2) mod 256])"

lemma hdr0_disjoint:
  assumes "a < (8 :: byte)" "s < (8 :: byte)"
  shows "push_bit 3 a AND (0x80 + s) = 0" "(push_bit 3 a + (0x80 + s)) AND 0x40 = 0" "push_bit 3 a AND 0x40 = 0"
  using byte_less8_cases [OF assms(1)] byte_less8_cases [OF assms(2)]
  by (elim insertE; simp)+

lemma hdr0_arith:
  assumes "a < (8 :: byte)" "s < (8 :: byte)"
  shows "(let h = push_bit 3 a; h = (if rel then h OR (0x80 + s) else h) in if crc then h OR 0x40 else h) =
    word_of_nat (8 * unat a + (if rel then 128 + unat s else 0) + (if crc then 64 else 0))"
proof -
  note or = hdr0_disjoint [OF assms, THEN disjunctive_add_eq_or, symmetric]
  show ?thesis
    by (cases rel; cases crc) (simp_all only: Let_def if_True if_False or, simp_all add: push_bit_eq_mult)
qed

lemma hdr1_arith:
  assumes "t < 16"
  shows "(push_bit 4 (word_of_nat len) OR word_of_nat t :: byte) = word_of_nat (16 * (len mod 16) + t)"
proof -
  have 1: "(push_bit 4 (word_of_nat len) OR word_of_nat t :: byte) = push_bit 4 (word_of_nat len) + word_of_nat t"
  proof (rule disjunctive_add_eq_or [symmetric])
    have "(push_bit 4 (word_of_nat len) :: byte) AND take_bit 4 (word_of_nat t) = 0"
      by (rule bit_word_eqI) (auto simp: bit_simps)
    then show "(push_bit 4 (word_of_nat len) :: byte) AND word_of_nat t = 0"
      by (simp only: take_bit_nibble [OF assms])
  qed
  have 2: "(push_bit 4 (word_of_nat len) :: byte) = word_of_nat (16 * (len mod 16))"
  proof -
    have "(push_bit 4 (word_of_nat len) :: byte) = word_of_nat (16 * len)" by (simp add: push_bit_eq_mult)
    also have "\<dots> = word_of_nat (16 * (len mod 16))"
      by (rule word_of_nat_eq_iff [THEN iffD2]) (simp add: take_bit_eq_mod mult_mod_right)
    finally show ?thesis .
  qed
  show ?thesis by (subst 1, subst 2) (simp only: of_nat_add)
qed

lemma not_arith: "NOT (word_of_nat n :: byte) = word_of_nat (255 - n mod 256)"
proof -
  have "(word_of_nat n :: byte) = word_of_nat (n mod 256)"
    by (rule word_of_nat_eq_iff [THEN iffD2]) (simp add: take_bit_eq_mod)
  moreover have "n mod 256 \<le> 255" by (simp add: less_Suc_eq_le [symmetric])
  ultimately show ?thesis by (simp add: not_eq_complement of_nat_diff)
qed

lemma tx_header_wire:
  assumes "a < 8" "s < 8" "t < 16"
  shows "h5_tx_header rel a s crc len t = wire_header rel (unat a) (unat s) crc len t"
proof -
  have 2: "(word_of_nat (len div 16) :: byte) = word_of_nat (len div 16 mod 256)"
    by (rule word_of_nat_eq_iff [THEN iffD2]) (simp add: take_bit_eq_mod)
  show ?thesis
    using hdr0_arith [OF assms(1,2), of rel crc] hdr1_arith [OF assms(3), of len]
    unfolding h5_tx_header_def wire_header_def Let_def 2
    by (simp only: list.map not_arith of_nat_add [symmetric])
qed


text \<open>(C20) Whatever the packet type and payload and the outcome of \<open>malloc\<close>: \<open>h5_prepare_pkt\<close> returns no packet for
  exactly the types other than 0, 1, 2, 4, 14 and 15 and for a failed allocation; otherwise its buffer never
  overflows and it returns the delimited, stuffed image of header, payload and (when enabled) checksum. The header
  bytes are stated as numbers: 8 times the acknowledgement number, plus 128 and the sequence number for the types
  1, 2 and 4, plus 64 with a checksum; 16 times the low four bits of the length plus the type; the next eight bits
  of the length; and 255 less the sum of the three. A packet of type 1, 2 or 4 advances the sequence number modulo
  8, the others do not, and the pending acknowledgement counts as sent. The two numbers of the link are below 8, as
  the code keeps them.\<close>

theorem h5_prepare_pkt_correct:
  assumes "length data < 2 ^ 29" "rxseq_txack w < 8" "msgq_txseq w < 8"
  shows "(t \<notin> {0, 1, 2, 4, 14, 15} \<longrightarrow> h5_prepare_pkt w data (length data) t = Inr (None, w)) \<and>
    (t \<in> {0, 1, 2, 4, 14, 15} \<and> \<not> fst (next_malloc w) \<longrightarrow>
       h5_prepare_pkt w data (length data) t = Inr (None, snd (next_malloc w))) \<and>
    (t \<in> {0, 1, 2, 4, 14, 15} \<and> fst (next_malloc w) \<longrightarrow>
       (\<exists>nskb w'. h5_prepare_pkt w data (length data) t = Inr (Some nskb, w') \<and>
          skb_bytes nskb = h5_frame (use_crc w \<noteq> 0)
            (wire_header (t \<in> {1, 2, 4}) (unat (rxseq_txack w)) (unat (msgq_txseq w)) (use_crc w \<noteq> 0) (length data) t @ data) \<and>
          unat (msgq_txseq w') = (if t \<in> {1, 2, 4} then (unat (msgq_txseq w) + 1) mod 8 else unat (msgq_txseq w)) \<and>
          w' = (snd (next_malloc w))\<lparr>is_txack_req := 0, msgq_txseq := msgq_txseq w'\<rparr>))"
proof (cases "t \<in> {0, 1, 2, 4, 14, 15}")
  case False
  then have "h5_pkt_reliable t = None" by (simp add: h5_pkt_reliable_def pkt_type_defs)
  with False show ?thesis by (simp add: h5_prepare_pkt_def)
next
  case True
  define rel where "rel \<longleftrightarrow> t \<in> {1, 2, 4}"
  from True have rel: "h5_pkt_reliable t = Some rel" and t: "t < 16"
    by (auto simp: h5_pkt_reliable_def pkt_type_defs rel_def)
  show ?thesis
  proof (cases "fst (next_malloc w)")
    case ok: True
    then have "next_malloc w = (True, snd (next_malloc w))" by (simp add: prod_eq_iff)
    from h5_prepare_pkt_frame [OF rel this assms(1)] obtain nskb where
        "h5_prepare_pkt w data (length data) t = Inr (Some nskb, (snd (next_malloc w))\<lparr>is_txack_req := 0,
           msgq_txseq := (if rel then (msgq_txseq w + 1) AND 0x07 else msgq_txseq w)\<rparr>)"
        "skb_bytes nskb = h5_frame (use_crc w \<noteq> 0)
           (wire_header rel (unat (rxseq_txack w)) (unat (msgq_txseq w)) (use_crc w \<noteq> 0) (length data) t @ data)"
      unfolding tx_header_wire [OF assms(2,3) t] by blast
    moreover have "unat ((msgq_txseq w + 1) AND 0x07) = (unat (msgq_txseq w) + 1) mod 8"
      using byte_less8_cases [OF assms(3)] by auto
    ultimately show ?thesis using True ok unfolding rel_def [symmetric] by simp
  next
    case False
    with rel True show ?thesis by (simp add: h5_prepare_pkt_def skb_alloc_def next_malloc_eq)
  qed
qed

definition tx_start :: world where
  "tx_start = rtb_zero\<lparr>rxseq_txack := 3, msgq_txseq := 5, use_crc := 1\<rparr>"

theorem h5_prepare_pkt_correct_witness:
  "\<exists>nskb w'. h5_prepare_pkt tx_start [0x03, 0x0c, 0x00] 3 1 = Inr (Some nskb, w') \<and>
    skb_bytes nskb = h5_frame True ([0xdd, 0x31, 0x00, 0xf1] @ [0x03, 0x0c, 0x00]) \<and>
    unat (msgq_txseq w') = 6 \<and> w' = tx_start\<lparr>is_txack_req := 0, msgq_txseq := msgq_txseq w'\<rparr>"
proof -
  have start: "rxseq_txack tx_start = 3" "msgq_txseq tx_start = 5" "use_crc tx_start = 1" "next_malloc tx_start = (True, tx_start)"
    by (simp_all add: tx_start_def rtb_zero_def next_malloc_def)
  have hdr: "wire_header True 3 5 True 3 (Suc 0) = [0xdd, 0x31, 0x00, 0xf1]"
    by (simp add: wire_header_def)
  have len: "length [0x03, 0x0c, 0x00 :: byte] = 3" by simp
  from h5_prepare_pkt_correct [where data = "[0x03, 0x0c, 0x00]" and t = 1 and w = tx_start]
  show ?thesis unfolding len start by (simp add: hdr)
qed

lemma reset_cmd_header:
  "h5_pkt_reliable HCI_COMMAND_PKT = Some True"
  "h5_tx_header True (rxseq_txack rtb_zero) (msgq_txseq rtb_zero) (use_crc rtb_zero \<noteq> 0) 3 HCI_COMMAND_PKT
     = [0x80, 0x31, 0x00, 0x4e]"
  "next_malloc rtb_zero = (True, rtb_zero)"
  by (simp_all add: h5_pkt_reliable_def h5_tx_header_def rtb_zero_def pkt_type_defs next_malloc_def)

text \<open>Writing any bytes through \<open>h5_slip_one_byte\<close> into a buffer with room appends an encoding from which
  the bytes can be recovered, at most twice as long, and free of the delimiter and of XON/XOFF.\<close>

theorem h5_slip_roundtrip:
  assumes "skb_wf skb" "2 * length bs \<le> max_len skb - (data_off skb + data_len skb)"
  shows "\<exists>skb' enc. res_fold (\<lambda>c s. h5_slip_one_byte s c) bs skb = Inr skb' \<and>
    skb_bytes skb' = skb_bytes skb @ enc \<and> unslip enc = Some bs \<and> length enc \<le> 2 * length bs \<and>
    set enc \<inter> {0xc0, 0x11, 0x13} = {}"
  using slip_bytes_into_skb [OF assms(1), of bs] assms(2) length_slip [of bs] slip_clean [of bs] unslip_slip [of bs]
  by auto

theorem h5_slip_roundtrip_witness:
  "\<exists>skb' enc. res_fold (\<lambda>c s. h5_slip_one_byte s c) [0xc0, 0x41]
      \<lparr>max_len = 8, data_len = 0, data_off = 0, mem = (\<lambda>_. 0)\<rparr> = Inr skb' \<and>
    skb_bytes skb' = enc \<and> unslip enc = Some [0xc0, 0x41] \<and> length enc \<le> 4 \<and> set enc \<inter> {0xc0, 0x11, 0x13} = {}"
  using h5_slip_roundtrip [of "\<lparr>max_len = 8, data_len = 0, data_off = 0, mem = (\<lambda>_. 0)\<rparr>" "[0xc0, 0x41]"]
  by (simp add: skb_wf_def skb_bytes_def)

text \<open>(C21) The nibble-table checksum update of the code, run over any bytes from any start value, is the
  bit-serial CRC with the reflected CCITT polynomial.\<close>

theorem h5_crc_is_bit_serial:
  "h5_crc crc ds = foldl (\<lambda>r d. foldl crc_bit r (map (bit d) [0..<8])) crc ds"
  by (induction ds arbitrary: crc) (simp_all add: h5_crc_update_eq_crc_byte crc_byte_def foldl_conv_fold fold_map comp_def)

section \<open>Properties: the receiver\<close>

text \<open>(C3) Memory safety of the receive loop: from a state in the receiver's invariant, for any received bytes,
  the loop reads and writes inside its buffer only, never uses a freed packet, and keeps the
  invariant; the only other exit is the deliberate \<open>exit\<close> on a truncated event.\<close>

theorem h5_recv_memory_safe:
  assumes "rx_inv w" "mem_ok w"
  shows "h5_recv w bs = Inl ExitFailure \<or> (\<exists>w'. h5_recv w bs = Inr w' \<and> rx_inv w' \<and> mem_ok w')"
  using safe_h5_recv [OF assms, of bs] by (cases "h5_recv w bs") auto

theorem h5_recv_memory_safe_witness:
  "h5_recv rtb_zero [0xc0, 0xdb, 0x00, 0xc0, 0x01] = Inl ExitFailure \<or>
   (\<exists>w'. h5_recv rtb_zero [0xc0, 0xdb, 0x00, 0xc0, 0x01] = Inr w' \<and> rx_inv w' \<and> mem_ok w')"
  by (rule h5_recv_memory_safe) (simp_all add: rx_inv_def mem_ok_def rtb_zero_def)

text \<open>The receiver does not depend on how the serial line cuts the byte stream into reads.\<close>

theorem h5_recv_chunks:
  assumes "rx_inv w" "mem_ok w"
  shows "h5_recv w (concat css) = res_fold (\<lambda>cs w. h5_recv w cs) css w"
  using assms
proof (induction css arbitrary: w)
  case (Cons cs css)
  show ?case
  proof (cases "h5_recv w cs")
    case (Inr w1)
    with safe_h5_recv [OF Cons.prems, of cs] Cons.IH [of w1] h5_recv_append [OF Cons.prems, of cs]
    show ?thesis by simp
  qed (use h5_recv_append [OF Cons.prems, of cs] in simp)
qed simp

theorem h5_recv_chunks_witness:
  "h5_recv rtb_zero [0xc0, 0x00, 0x2f, 0xc0] = res_fold (\<lambda>cs w. h5_recv w cs) [[0xc0, 0x00], [0x2f], [0xc0]] rtb_zero"
  using h5_recv_chunks [of rtb_zero "[[0xc0, 0x00], [0x2f], [0xc0]]"]
  by (simp add: rx_inv_def mem_ok_def rtb_zero_def)

text \<open>(C2) End to end: a packet prepared by one side and received by an idle peer that expects its sequence
  number is handled by the peer exactly once, with the very header and payload that were sent,
  with and without a checksum; afterwards the peer expects the sender's next sequence number.\<close>

theorem h5_send_receive:
  assumes recv: "rx_idle w" "mem_ok w"
    and send: "mem_ok s" "rxseq_txack s < 8" "msgq_txseq s < 8"
    and t: "h5_pkt_reliable t = Some rel" and len: "length data < 4096"
    and seq: "rel \<Longrightarrow> rxseq_txack w = msgq_txseq s"
  shows "\<exists>nskb s' w1. h5_prepare_pkt s data (length data) t = Inr (Some nskb, s') \<and>
    rx_holds w (h5_tx_header rel (rxseq_txack s) (msgq_txseq s) (use_crc s \<noteq> 0) (length data) t @ data) w1 \<and>
    h5_recv w (skb_bytes nskb) =
      bind_result (h5_complete_rx_pkt w1) (\<lambda>w. Inr (w\<lparr>rx_state := H5_W4_PKT_START\<rparr>)) \<and>
    (\<forall>w'. h5_complete_rx_pkt w1 = Inr w' \<longrightarrow> rel \<longrightarrow> rxseq_txack w' = msgq_txseq s')"
proof -
  have t16: "t < 16" using t by (auto simp: h5_pkt_reliable_def pkt_type_defs split: if_splits)
  obtain h0 h1 h2 h3 where h: "h5_tx_header rel (rxseq_txack s) (msgq_txseq s) (use_crc s \<noteq> 0) (length data) t = [h0, h1, h2, h3]"
      "NOT (h0 + h1 + h2) = h3" "h0 AND 0x80 \<noteq> 0 \<longleftrightarrow> rel" "h0 AND 0x40 \<noteq> 0 \<longleftrightarrow> use_crc s \<noteq> 0"
      "rel \<Longrightarrow> h0 AND 0x07 = msgq_txseq s" "H5_HDR_LEN h1 h2 = length data"
    by (rule sent_header [OF send(2,3) t16 len, of rel "use_crc s \<noteq> 0"]) (rule that; assumption)
  have acc: "hdr_accepted w h0 h1 h2 h3" using h seq by (simp add: hdr_accepted_def)
  obtain nskb s' where p: "h5_prepare_pkt s data (length data) t = Inr (Some nskb, s')"
      "skb_bytes nskb = h5_frame (use_crc s \<noteq> 0) ([h0, h1, h2, h3] @ data)"
  proof (rule h5_prepare_pkt_frame [OF t next_malloc_ok [OF send(1)], of data])
    show "length data < 2 ^ 29" using len by simp
  qed (simp add: h(1) that)
  obtain w1 where w1: "rx_holds w ([h0, h1, h2, h3] @ data) w1"
      "h5_recv w (skb_bytes nskb) = bind_result (h5_complete_rx_pkt w1) (\<lambda>w. Inr (w\<lparr>rx_state := H5_W4_PKT_START\<rparr>))"
    by (rule h5_recv_frame_intact [OF recv acc h(6)]) (rule that, assumption, simp only: h(4) p(2))
  have "rxseq_txack w' = msgq_txseq s'" if "h5_complete_rx_pkt w1 = Inr w'" rel for w'
    using h5_complete_seq [OF w1(1) recv that(1)] h5_prepare_pkt_seq [OF p(1)] t h(3) h(5) [OF that(2)] that(2)
    by simp
  with p(1) w1 show ?thesis unfolding h(1) by blast
qed

theorem h5_send_receive_witness:
  "\<exists>nskb s' w1. h5_prepare_pkt rtb_zero [0x01, 0x10, 0x00] 3 HCI_COMMAND_PKT = Inr (Some nskb, s') \<and>
    rx_holds rtb_zero ([0x80, 0x31, 0x00, 0x4e] @ [0x01, 0x10, 0x00]) w1 \<and>
    h5_recv rtb_zero (skb_bytes nskb) =
      bind_result (h5_complete_rx_pkt w1) (\<lambda>w. Inr (w\<lparr>rx_state := H5_W4_PKT_START\<rparr>)) \<and>
    (\<forall>w'. h5_complete_rx_pkt w1 = Inr w' \<longrightarrow> True \<longrightarrow> rxseq_txack w' = msgq_txseq s')"
proof -
  have *: "rx_idle rtb_zero" "mem_ok rtb_zero" "rxseq_txack rtb_zero < 8" "msgq_txseq rtb_zero < 8"
    "rxseq_txack rtb_zero = msgq_txseq rtb_zero"
    by (simp_all add: rx_idle_def mem_ok_def rtb_zero_def)
  have len: "length [0x01, 0x10, 0x00 :: byte] = 3" by simp
  show ?thesis
    using h5_send_receive [OF *(1,2,2,3,4) reset_cmd_header(1), where data = "[0x01, 0x10, 0x00]"]
    unfolding len reset_cmd_header(2) using *(5) by simp
qed

text \<open>One damaged header byte breaks the header sum; two neighbouring ones may compensate each other.\<close>

lemma length_ge_4: "4 \<le> length l \<Longrightarrow> \<exists>x0 x1 x2 x3 q. l = x0 # x1 # x2 # x3 # q"
  by (auto simp: Suc_le_length_iff numeral_eq_Suc)

lemma length_eq_2: "length l = 2 \<Longrightarrow> \<exists>x y. l = [x, y]"
  by (auto simp: length_Suc_conv numeral_2_eq_2)

lemma burst_in_header:
  fixes h0 h1 h2 h3 :: byte
  assumes "h0 # h1 # h2 # h3 # p = xs @ [a, b] @ ys" "g0 # g1 # g2 # g3 # q = xs @ [a', b'] @ ys"
    and "length xs < 3 \<Longrightarrow> a = a' \<or> b = b'"
    and "NOT (h0 + h1 + h2) = h3" "NOT (g0 + g1 + g2) = g3"
  shows "[g0, g1, g2, g3] = [h0, h1, h2, h3]"
proof -
  consider "xs = []" | x where "xs = [x]" | x y where "xs = [x, y]" | x y z where "xs = [x, y, z]"
    | x y z u zs where "xs = x # y # z # u # zs"
    by (metis neq_Nil_conv)
  then show ?thesis using assms by cases auto
qed

text \<open>A burst stays a burst when the two trailer bytes are reversed.\<close>

lemma burst_before_reversal:
  assumes "p @ [t0, t1] = xs @ [a, b] @ ys" "q @ [r0, r1] = xs @ [a', b'] @ ys" "(a, b) \<noteq> (a', b')"
  shows "h5_crc c (p @ [bit_rev8 t0, bit_rev8 t1]) \<noteq> h5_crc c (q @ [bit_rev8 r0, bit_rev8 r1])"
proof
  assume eq: "h5_crc c (p @ [bit_rev8 t0, bit_rev8 t1]) = h5_crc c (q @ [bit_rev8 r0, bit_rev8 r1])"
  have rev: "x = y" if "bit_rev8 x = bit_rev8 y" for x y by (metis that bit_rev8_involution)
  consider "ys = []" | y where "ys = [y]" | zs y0 y1 where "ys = zs @ [y0, y1]"
    by (cases ys rule: rev_cases; cases "butlast ys" rule: rev_cases) auto
  then show False
  proof cases
    case 1
    with assms have "p = xs" "q = xs" "[t0, t1] = [a, b]" "[r0, r1] = [a', b']" by auto
    with eq h5_crc_burst [of c xs "bit_rev8 a" "bit_rev8 b" "[]" "bit_rev8 a'" "bit_rev8 b'"] assms(3) show False by (auto dest: rev)
  next
    case 2
    with assms(1,2) have "p @ [t0, t1] = (xs @ [a]) @ [b, y]" "q @ [r0, r1] = (xs @ [a']) @ [b', y]" by simp_all
    then have "p = xs @ [a]" "q = xs @ [a']" "t0 = b" "t1 = y" "r0 = b'" "r1 = y" by (simp_all add: append_eq_append_conv)
    with eq h5_crc_burst [of c xs a "bit_rev8 b" "[bit_rev8 y]" a' "bit_rev8 b'"] assms(3) show False by (auto dest: rev)
  next
    case 3
    with assms(1,2) have "p @ [t0, t1] = (xs @ [a, b] @ zs) @ [y0, y1]" "q @ [r0, r1] = (xs @ [a', b'] @ zs) @ [y0, y1]"
      by simp_all
    then have "p = xs @ [a, b] @ zs" "q = xs @ [a', b'] @ zs" "t0 = y0" "t1 = y1" "r0 = y0" "r1 = y1"
      by (simp_all add: append_eq_append_conv)
    with eq h5_crc_burst [of c xs a b "zs @ [bit_rev8 y0, bit_rev8 y1]" a' b'] assms(3) show False by auto
  qed
qed

text \<open>(C18) With the checksum enabled, take a frame an idle receiver would accept, and damage one byte or two
  neighbouring bytes of it, anywhere in header, payload or checksum trailer, but not two bytes of the header: the frame
  is dropped. No handler runs, nothing is acknowledged and the receiver is ready for the next packet. The bytes are
  those before stuffing. Two damaged header bytes can compensate each other in the header sum and clear
  the checksum flag, so they are left out.\<close>

theorem h5_recv_drops_burst:
  assumes idle: "rx_idle w" "mem_ok w"
    and hdr: "hdr_accepted w h0 h1 h2 h3" "H5_HDR_LEN h1 h2 = length data" "h0 AND 0x40 \<noteq> 0"
    and sent: "[h0, h1, h2, h3] @ data @ crc_trailer True ([h0, h1, h2, h3] @ data) = xs @ [a, b] @ ys"
    and burst: "(a, b) \<noteq> (a', b')" "length xs < 3 \<Longrightarrow> a = a' \<or> b = b'"
  shows "\<exists>crc. h5_recv w (0xc0 # slip (xs @ [a', b'] @ ys) @ [0xc0]) = Inr (rx_dropped w crc)"
proof -
  let ?pkt = "[h0, h1, h2, h3] @ data"
  obtain t0 t1 where t: "crc_trailer True ?pkt = [t0, t1]" by (simp add: crc_trailer_def Let_def)
  have sent: "h0 # h1 # h2 # h3 # data @ [t0, t1] = xs @ [a, b] @ ys" using sent unfolding t by simp
  from arg_cong [OF this, of length] have len: "length (xs @ [a', b'] @ ys) = 6 + length data" by simp
  obtain g0 g1 g2 g3 q where q: "g0 # g1 # g2 # g3 # q = xs @ [a', b'] @ ys" "length q = length data + 2"
  proof -
    obtain g0 g1 g2 g3 q where g: "xs @ [a', b'] @ ys = g0 # g1 # g2 # g3 # q"
      using length_ge_4 [of "xs @ [a', b'] @ ys"] len by auto
    with len have "length q = length data + 2" unfolding g by simp
    with g that show thesis by metis
  qed
  show ?thesis
  proof (cases "NOT (g0 + g1 + g2) = g3")
    case False
    from h5_recv_bad_header [OF idle this, of q] show ?thesis unfolding q(1) [symmetric] by auto
  next
    case True
    have "NOT (h0 + h1 + h2) = h3" using hdr(1) by (simp add: hdr_accepted_def)
    with True burst(2) have g: "[g0, g1, g2, g3] = [h0, h1, h2, h3]" by (intro burst_in_header [OF sent q(1)])
    define d where "d = take (length data) q"
    obtain r0 r1 where d: "q = d @ [r0, r1]" "length d = length data"
    proof -
      have "length (drop (length data) q) = 2" using q(2) by simp
      then obtain r0 r1 where "drop (length data) q = [r0, r1]" using length_eq_2 by blast
      then show thesis using that [of r0 r1] append_take_drop_id [of "length data" q] q(2) by (simp add: d_def)
    qed
    let ?rx = "[h0, h1, h2, h3] @ d"
    have r: "?rx @ [r0, r1] = xs @ [a', b'] @ ys" and s: "?pkt @ [t0, t1] = xs @ [a, b] @ ys"
      using g q(1) d(1) sent by simp_all
    from trailer_is_crc [OF t] have "h5_crc H5_CRC_INIT (?pkt @ [bit_rev8 t0, bit_rev8 t1]) = 0"
      by (simp only: trailer_ok_residue)
    with burst_before_reversal [OF s r burst(1)]
    have "le16_of r1 r0 \<noteq> bit_rev16 (h5_crc H5_CRC_INIT ?rx)" by (simp only: trailer_ok_residue) metis
    from h5_recv_frame_bad_crc [OF idle hdr(1) hdr(2) [folded d(2)] hdr(3) this] show ?thesis
      unfolding r by blast
  qed
qed


text \<open>The damaged frame of the witness: a link-control packet whose last payload byte and first checksum byte were
  hit, as it was sent and as it arrives.\<close>

lemma burst_frame_sent:
  "[0x40, 0x2f, 0x00, 0x90] @ [0x01, 0x7e] @ crc_trailer True ([0x40, 0x2f, 0x00, 0x90] @ [0x01, 0x7e]) =
   [0x40, 0x2f, 0x00, 0x90, 0x01] @ [0x7e, 0x29] @ [0x50]"
  by (simp add: crc_trailer_def Let_def H5_CRC_INIT_def h5_crc_update_def crc_table_def bit_rev16_def bit_rev8_def byte_rev_table_def)

theorem h5_recv_drops_burst_witness:
  "\<exists>crc. h5_recv rtb_zero (0xc0 # slip [0x40, 0x2f, 0x00, 0x90, 0x01, 0x7f, 0xff, 0x50] @ [0xc0]) =
     Inr (rx_dropped rtb_zero crc)"
  using h5_recv_drops_burst [OF _ _ _ _ _ burst_frame_sent, of rtb_zero "0x7f" "0xff"]
  by (simp add: rx_idle_def mem_ok_def rtb_zero_def hdr_accepted_def H5_HDR_LEN_def)

text \<open>(C19) Refinement: whatever bytes arrive, the link state only follows the steps of the link state machine,
  so it never goes back and never enters the download or active states on its own; the transmitter, the
  downloader and the serial settings are untouched.\<close>

theorem h5_recv_refines_link:
  assumes "h5_recv w bs = Inr w'"
  shows "link_steps (link_estab_state w) (link_estab_state w') \<and>
    link_rank (link_estab_state w) \<le> link_rank (link_estab_state w') \<and> same_host w w' \<and>
    (link_estab_state w \<in> {H5_SYNC, H5_CONFIG, H5_INIT} \<longrightarrow> link_estab_state w' \<in> {H5_SYNC, H5_CONFIG, H5_INIT})"
proof -
  have m: "same_host w w'" "link_steps (link_estab_state w) (link_estab_state w')"
    using returnsD [OF h5_recv_moves assms] by (simp_all add: rx_moves_def)
  with link_steps_rank [OF m(2)] link_steps_init [OF m(2)] show ?thesis by blast
qed

text \<open>The witness runs the receiver over a complete sync response, which moves the link.\<close>

definition sync_resp_bytes :: "byte list" where
  "sync_resp_bytes = [0xc0, 0x00, 0x2f, 0x00, 0xd0, 0x02, 0x7d, 0xc0]"

lemma recv_sync_resp_bytes: "\<exists>w'. h5_recv rtb_zero sync_resp_bytes = Inr w' \<and> link_estab_state w' = H5_CONFIG"
  by (simp add: sync_resp_bytes_def rtb_zero_def h5_handle_internal_rx_def link_pkt_defs h5_eval)

theorem h5_recv_refines_link_witness:
  "\<exists>w'. h5_recv rtb_zero sync_resp_bytes = Inr w' \<and> link_estab_state w' = H5_CONFIG \<and>
    link_steps H5_SYNC (link_estab_state w') \<and> link_rank H5_SYNC \<le> link_rank (link_estab_state w') \<and> same_host rtb_zero w'"
proof -
  obtain w' where w': "h5_recv rtb_zero sync_resp_bytes = Inr w'" "link_estab_state w' = H5_CONFIG"
    using recv_sync_resp_bytes by blast
  have "link_estab_state rtb_zero = H5_SYNC" by (simp add: rtb_zero_def)
  with w' h5_recv_refines_link [OF w'(1)] show ?thesis by auto
qed

text \<open>The acknowledgement path does not survive a failed allocation: \<open>rtb_send_ack\<close> reads through the null
  pointer that \<open>h5_prepare_pkt\<close> returns.\<close>

theorem rtb_send_ack_null_deref:
  assumes "\<not> fst (next_malloc w)"
  shows "rtb_send_ack fd w = Inl NullDeref"
  using assms
  by (simp add: rtb_send_ack_def h5_prepare_pkt_def h5_pkt_reliable_def pkt_type_defs skb_alloc_def next_malloc_eq)

theorem rtb_send_ack_null_deref_witness:
  "rtb_send_ack 3 (rtb_zero\<lparr>mallocs := [False]\<rparr>) = Inl NullDeref"
  by (rule rtb_send_ack_null_deref) (simp add: next_malloc_def)

end
