(* ===== verification/H5_Xfer.thy ===== *)
theory H5_Xfer
  imports H5_Link
begin

text \<open>
  Command transfer over the three-wire link (\<open>rtk_hciattach/hciattach_rtk.c\<close>): the transmit-and-wait
  loop with its retransmission timer, the patch fragment transfer \<open>h5_download_patch\<close>, and the
  commands built on them. The environment scripts of the \<open>world\<close> record decide what \<open>writev\<close> and
  \<open>epoll_wait\<close> return; a wait for which the script holds no further answer is \<open>Blocked\<close>.
\<close>

section \<open>Operation codes\<close>

definition OP_H5_SYNC :: u32 where "OP_H5_SYNC = 0x01"
definition OP_H5_CONFIG :: u32 where "OP_H5_CONFIG = 0x02"
definition OP_ROM_VER :: u32 where "OP_ROM_VER = push_bit 24 1 OR ucast HCI_VENDOR_READ_ROM_VER"
definition OP_LMP_VER :: u32 where "OP_LMP_VER = push_bit 24 1 OR ucast HCI_CMD_READ_LOCAL_VER"
definition OP_VENDOR_READ :: u32 where "OP_VENDOR_READ = push_bit 24 1 OR ucast HCI_VENDOR_READ_CMD"
definition OP_SET_BAUD :: u32 where "OP_SET_BAUD = push_bit 24 1 OR ucast HCI_VENDOR_CHANGE_BAUD"
definition OP_HCI_RESET :: u32 where "OP_HCI_RESET = push_bit 24 1 OR ucast HCI_CMD_RESET"

lemmas op_defs = OP_H5_SYNC_def OP_H5_CONFIG_def OP_ROM_VER_def OP_LMP_VER_def OP_VENDOR_READ_def
  OP_SET_BAUD_def OP_HCI_RESET_def

text \<open>\<open>op & (1 << 24)\<close>: the operation is an HCI command, whose opcode is in the low half.\<close>

definition op_is_cmd :: "u32 \<Rightarrow> bool" where
  "op_is_cmd op \<longleftrightarrow> op AND push_bit 24 1 \<noteq> 0"

definition op_opcode :: "u32 \<Rightarrow> u16" where
  "op_opcode op = ucast (op AND 0xffff)"

section \<open>Writing with restart\<close>

text \<open>
  \<open>do { ret = writev(...) } while (ret < 0 && errno == EINTR)\<close>: what reaches the line, the error if
  any (\<open>WrErr n\<close> stands for the error number \<open>n + 1\<close>, error numbers being positive), and the rest
  of the script.
\<close>

fun writev_eintr :: "byte list \<Rightarrow> wr_ret list \<Rightarrow> byte list list \<times> int \<times> wr_ret list" where
  "writev_eintr bs [] = ([bs], 0, [])"
| "writev_eintr bs (WrOk # rs) = ([bs], 0, rs)"
| "writev_eintr bs (WrShort n # rs) = ([take n bs], 0, rs)"
| "writev_eintr bs (WrEintr # rs) = writev_eintr bs rs"
| "writev_eintr bs (WrErr n # rs) = ([], - int (Suc n), rs)"

text \<open>The result is zero, or the negated error number.\<close>

definition writev_loop :: "int \<Rightarrow> byte list \<Rightarrow> world \<Rightarrow> int \<times> world" where
  "writev_loop fd bs w =
     (case writev_eintr bs (wr_rets w) of (out, err, rs) \<Rightarrow>
        (err, w\<lparr>wlog := wlog w @ map (Pair fd) out, wr_rets := rs\<rparr>))"

definition timeout_set :: "nat \<Rightarrow> world \<Rightarrow> world" where
  "timeout_set msec w = w\<lparr>armed := msec\<rparr>"

definition timeout_arm :: "nat \<Rightarrow> world \<Rightarrow> world" where
  "timeout_arm msec w = (if timerfd w > 0 then timeout_set msec w else w)"

section \<open>Transmit and wait\<close>

text \<open>
  The \<open>for\<close> loop over the events of one \<open>epoll_wait\<close>: either the routine returns with a code
  (\<open>Some\<close>), or the loop ends and the wait goes on. A timer whose expiration count cannot be read ends
  the loop over the events.
\<close>

fun stw_events ::
  "int \<Rightarrow> byte list \<Rightarrow> nat \<Rightarrow> ep_event list \<Rightarrow> int \<Rightarrow> world \<Rightarrow> (int option \<times> int \<times> world) result" where
  "stw_events fd pkt msec [] retry w = Inr (None, retry, w)"
| "stw_events fd pkt msec (EvSerial bs # evs) retry w =
     (if bs = [] then stw_events fd pkt msec evs retry w
      else bind_result (h5_recv w (take 128 bs)) (\<lambda>w. stw_events fd pkt msec evs retry w))"
| "stw_events fd pkt msec (EvSerialErr # evs) retry w = Inl ExitFailure"
| "stw_events fd pkt msec (EvTimerErr # evs) retry w = Inl ExitFailure"
| "stw_events fd pkt msec (EvOther # evs) retry w = stw_events fd pkt msec evs retry w"
| "stw_events fd pkt msec (EvTimer ok # evs) retry w =
     (if \<not> ok then Inr (None, retry, w)
      else if retry \<le> 0 then Inl ExitFailure
      else case writev_loop fd pkt w of (err, w) \<Rightarrow>
        if err < 0 then Inr (Some err, retry, w)
        else stw_events fd pkt msec evs (retry - 1) (timeout_set msec w))"

text \<open>The condition under which the wait ends with success.\<close>

definition stw_done :: "u32 \<Rightarrow> world \<Rightarrow> bool" where
  "stw_done op w =
     (if \<not> op_is_cmd op
      then op = OP_H5_SYNC \<and> link_estab_state w = H5_CONFIG \<or>
           op = OP_H5_CONFIG \<and> link_estab_state w = H5_INIT
      else cs_opcode (cmd_state w) = op_opcode op \<and> cs_state (cmd_state w) = CMD_STATE_SUCCESS)"

fun stw_loop ::
  "int \<Rightarrow> byte list \<Rightarrow> u32 \<Rightarrow> nat \<Rightarrow> ep_ret list \<Rightarrow> int \<Rightarrow> world \<Rightarrow> (int \<times> world) result" where
  "stw_loop fd pkt op msec [] retry w = Inl Blocked"
| "stw_loop fd pkt op msec (EpFail # ps) retry w = Inl ExitFailure"
| "stw_loop fd pkt op msec (EpEvents evs # ps) retry w =
     bind_result (stw_events fd pkt msec evs retry (w\<lparr>polls := ps\<rparr>)) (\<lambda>(r, retry, w).
       case r of
         Some err \<Rightarrow> Inr (err, w)
       | None \<Rightarrow> if stw_done op w then Inr (0, timeout_set 0 w)
                 else stw_loop fd pkt op msec ps retry w)"

definition start_transmit_wait ::
  "int \<Rightarrow> sk_buff option \<Rightarrow> u32 \<Rightarrow> nat \<Rightarrow> int \<Rightarrow> world \<Rightarrow> (int \<times> world) result" where
  "start_transmit_wait fd skb op msec retry w =
     (case skb of
        None \<Rightarrow> Inr (- 1, w)
      | Some skb \<Rightarrow>
          if fd = - 1 then Inr (- 1, w)
          else if op_is_cmd op \<and> (op_opcode op \<noteq> cs_opcode (cmd_state w) \<or>
                                   cs_state (cmd_state w) \<noteq> CMD_STATE_UNKNOWN)
          then Inr (- 1, w)
          else case writev_loop fd (skb_bytes skb) w of (err, w) \<Rightarrow>
            if err < 0 then Inr (err, w)
            else let w = timeout_arm msec w
                 in stw_loop fd (skb_bytes skb) op msec (polls w) retry w)"

section \<open>Patch fragments\<close>

definition PATCH_DATA_FIELD_MAX_SIZE :: nat where "PATCH_DATA_FIELD_MAX_SIZE = 252"

fun dl_events ::
  "int \<Rightarrow> byte list \<Rightarrow> nat \<Rightarrow> ep_event list \<Rightarrow> int \<Rightarrow> world \<Rightarrow> (int option \<times> int \<times> world) result" where
  "dl_events dd pkt tmo [] retry w = Inr (None, retry, w)"
| "dl_events dd pkt tmo (EvSerial bs # evs) retry w =
     (if bs = [] then dl_events dd pkt tmo evs retry w
      else bind_result (h5_recv w (take 64 bs)) (\<lambda>w. dl_events dd pkt tmo evs retry w))"
| "dl_events dd pkt tmo (EvSerialErr # evs) retry w = Inl ExitFailure"
| "dl_events dd pkt tmo (EvTimerErr # evs) retry w = Inl ExitFailure"
| "dl_events dd pkt tmo (EvOther # evs) retry w = dl_events dd pkt tmo evs retry w"
| "dl_events dd pkt tmo (EvTimer ok # evs) retry w =
     (if \<not> ok then Inl ExitFailure
      else if retry \<le> 0 then Inl ExitFailure
      else case writev_loop dd pkt w of (err, w) \<Rightarrow>
        if err < 0 then Inr (Some err, retry, w)
        else dl_events dd pkt tmo evs (retry - 1) (timeout_set tmo w))"

fun dl_loop :: "int \<Rightarrow> byte list \<Rightarrow> nat \<Rightarrow> ep_ret list \<Rightarrow> int \<Rightarrow> world \<Rightarrow> (int \<times> world) result" where
  "dl_loop dd pkt tmo [] retry w = Inl Blocked"
| "dl_loop dd pkt tmo (EpFail # ps) retry w = Inl ExitFailure"
| "dl_loop dd pkt tmo (EpEvents evs # ps) retry w =
     bind_result (dl_events dd pkt tmo evs retry (w\<lparr>polls := ps\<rparr>)) (\<lambda>(r, retry, w).
       case r of
         Some err \<Rightarrow> Inr (err, w)
       | None \<Rightarrow> if rx_index w = tx_index w then Inr (0, timeout_arm 0 w)
                 else dl_loop dd pkt tmo ps retry w)"

text \<open>
  The command in \<open>hci_patch\<close>, an array of 256 bytes: a longer fragment would overrun it, and with no
  data only an empty fragment is initialised.
\<close>

definition hci_patch_cmd :: "byte \<Rightarrow> byte list option \<Rightarrow> nat \<Rightarrow> byte list result" where
  "hci_patch_cmd index data len =
     (let hdr = [0x20, 0xfc, word_of_nat (len + 1), index] in
      case data of
        None \<Rightarrow> if len = 0 then Inr hdr else Inl OutOfBounds
      | Some bs \<Rightarrow> if len \<le> length bs \<and> len \<le> PATCH_DATA_FIELD_MAX_SIZE then Inr (hdr @ take len bs)
                  else Inl OutOfBounds)"

text \<open>After the last fragment the host's flow control is set as the configuration asks.\<close>

definition set_flow_ctrl :: "world \<Rightarrow> bool \<times> world" where
  "set_flow_ctrl w = tcsetattr (w\<lparr>tio := (tio w)\<lparr>t_crtscts := (uart_flow_ctrl w \<noteq> 0)\<rparr>\<rparr>)"

text \<open>Write the packet, set the flow control after the last one, and wait for the echoed index.\<close>

definition dl_transmit :: "int \<Rightarrow> byte \<Rightarrow> byte list \<Rightarrow> world \<Rightarrow> (int \<times> world) result" where
  "dl_transmit dd index pkt w =
     (case writev_loop dd pkt w of (err, w) \<Rightarrow>
        if err < 0 then Inr (err, w)
        else case (if index AND 0x80 \<noteq> 0 then set_flow_ctrl w else (True, w)) of (ok, w) \<Rightarrow>
          if \<not> ok then Inr (- 1, w)
          else let tmo = (if index AND 0x80 \<noteq> 0 then 1000 else 800);
                   w = timeout_arm tmo w
               in dl_loop dd pkt tmo (polls w) 3 w)"

definition h5_download_patch ::
  "int \<Rightarrow> byte \<Rightarrow> byte list option \<Rightarrow> nat \<Rightarrow> world \<Rightarrow> (int \<times> world) result" where
  "h5_download_patch dd index data len w =
     (let w = w\<lparr>tx_index := (if index AND 0x80 \<noteq> 0 then uint (index AND 0x7f) else uint index)\<rparr>
      in
      bind_result (hci_patch_cmd index data len) (\<lambda>hci_patch.
      bind_result (h5_prepare_pkt w hci_patch (len + 4) HCI_COMMAND_PKT) (\<lambda>(nskb, w).
        case nskb of
          None \<Rightarrow> Inr (- 1, w)
        | Some nskb \<Rightarrow> dl_transmit dd index (skb_bytes nskb) w)))"

section \<open>Commands\<close>

text \<open>
  The three HCI commands share their shape: build the packet, note the opcode as outstanding, transmit
  and wait.
\<close>

definition await_cmd :: "u16 \<Rightarrow> world \<Rightarrow> world" where
  "await_cmd opcode w = w\<lparr>cmd_state := (cmd_state w)\<lparr>cs_opcode := opcode, cs_state := CMD_STATE_UNKNOWN\<rparr>\<rparr>"

definition h5_vendor_change_speed :: "int \<Rightarrow> u32 \<Rightarrow> world \<Rightarrow> (int \<times> world) result" where
  "h5_vendor_change_speed fd baudrate w =
     bind_result (h5_prepare_pkt w ([0x17, 0xfc, 4] @ le32_bytes baudrate) 7 HCI_COMMAND_PKT) (\<lambda>(nskb, w).
       case nskb of
         None \<Rightarrow> Inr (- 1, w)
       | Some _ \<Rightarrow>
           bind_result (start_transmit_wait fd nskb OP_SET_BAUD 1000 0 (await_cmd HCI_VENDOR_CHANGE_BAUD w))
             (\<lambda>(result, w). Inr (if result < 0 then result else 0, w)))"

definition rtb_init_h5 :: "int \<Rightarrow> world \<Rightarrow> (int \<times> world) result" where
  "rtb_init_h5 fd w =
     (case tcsetattr (w\<lparr>tio := (tio w)\<lparr>t_crtscts := False, t_parenb := True, t_parodd := False\<rparr>\<rparr>) of (ok, w) \<Rightarrow>
        if \<not> ok then Inr (- 1, w)
        else
          bind_result (h5_prepare_pkt (w\<lparr>link_estab_state := H5_SYNC\<rparr>) [0x01, 0x7E] 2 H5_LINK_CTL_PKT) (\<lambda>(nskb, w).
          bind_result (start_transmit_wait fd nskb OP_H5_SYNC 500 10 w) (\<lambda>(result, w).
            if result < 0 then Inr (- 1, w)
            else
              bind_result (h5_prepare_pkt w [0x03, 0xFC, 0x14] 3 H5_LINK_CTL_PKT) (\<lambda>(nskb, w).
              bind_result (start_transmit_wait fd nskb OP_H5_CONFIG 500 10 w) (\<lambda>(result, w).
                if result < 0 then Inr (- 1, w)
                else bind_result (rtb_send_ack fd w) (\<lambda>w.
                  Inr (0, w\<lparr>cmd_state := (cmd_state w)\<lparr>cs_state := CMD_STATE_UNKNOWN\<rparr>\<rparr>)))))))"

definition h5_hci_reset :: "int \<Rightarrow> world \<Rightarrow> (int \<times> world) result" where
  "h5_hci_reset fd w =
     bind_result (h5_prepare_pkt w [0x03, 0x0c, 0x00] 3 HCI_COMMAND_PKT) (\<lambda>(nskb, w).
       case nskb of
         None \<Rightarrow> Inr (- 1, w)
       | Some _ \<Rightarrow> start_transmit_wait fd nskb OP_HCI_RESET 1500 1 (await_cmd HCI_CMD_RESET w))"

definition vendor_read_cmd :: "u16 \<Rightarrow> byte list" where
  "vendor_read_cmd subopcode =
     (if subopcode = READ_CHIP_TYPE then [0x61, 0xfc, 0x05, 0x10, 0xA6, 0xAD, 0x00, 0xB0]
      else if subopcode = READ_LMP_SUB_VERSION then [0x61, 0xfc, 0x05, 0x10, 0x38, 0x04, 0x28, 0x80]
      else if subopcode = READ_CHIP_VER then [0x61, 0xfc, 0x05, 0x10, 0x3A, 0x04, 0x28, 0x80]
      else if subopcode = READ_SEC_PROJ then [0x61, 0xfc, 0x05, 0x10, 0xA4, 0x0D, 0x00, 0xb0]
      else [0x00, 0x00, 0x00, 0x00, 0x00, 0x00, 0x00, 0xB0])"

definition rtb_vendor_read :: "int \<Rightarrow> u16 \<Rightarrow> world \<Rightarrow> (int \<times> world) result" where
  "rtb_vendor_read dd subopcode w =
     bind_result (h5_prepare_pkt w (vendor_read_cmd subopcode) 8 HCI_COMMAND_PKT) (\<lambda>(nskb, w).
       case nskb of
         None \<Rightarrow> Inl ExitFailure
       | Some _ \<Rightarrow>
           let w = await_cmd HCI_VENDOR_READ_CMD w;
               w = w\<lparr>cmd_state := (cmd_state w)\<lparr>cs_subopcode := subopcode\<rparr>\<rparr>
           in bind_result (start_transmit_wait dd nskb OP_VENDOR_READ 250 3 w) (\<lambda>(result, w). Inr (0, w)))"

definition rtb_read_eversion :: "int \<Rightarrow> world \<Rightarrow> world result" where
  "rtb_read_eversion dd w =
     bind_result (h5_prepare_pkt w [0x6d, 0xfc, 0x00] 3 HCI_COMMAND_PKT) (\<lambda>(nskb, w).
       case nskb of
         None \<Rightarrow> Inl ExitFailure
       | Some _ \<Rightarrow>
           bind_result (start_transmit_wait dd nskb OP_ROM_VER 500 3 (await_cmd HCI_VENDOR_READ_ROM_VER w))
             (\<lambda>(result, w). Inr w))"

definition rtb_read_local_version :: "int \<Rightarrow> world \<Rightarrow> world result" where
  "rtb_read_local_version dd w =
     bind_result (h5_prepare_pkt w [0x01, 0x10, 0x00] 3 HCI_COMMAND_PKT) (\<lambda>(nskb, w).
       case nskb of
         None \<Rightarrow> Inl ExitFailure
       | Some _ \<Rightarrow>
           bind_result (start_transmit_wait dd nskb OP_LMP_VER 500 3 (await_cmd HCI_CMD_READ_LOCAL_VER w))
             (\<lambda>(result, w). Inr w))"

definition check_fw_chip_ver :: "int \<Rightarrow> world \<Rightarrow> (int \<times> world) result" where
  "check_fw_chip_ver fd w =
     bind_result (rtb_vendor_read fd READ_LMP_SUB_VERSION w) (\<lambda>(_, w).
       let local_ver = (\<lambda>w. bind_result (rtb_read_local_version fd w) (\<lambda>w. Inr (0, w))) in
       if lmp_subver w = 0x8822 then
         bind_result (rtb_vendor_read fd READ_CHIP_VER w) (\<lambda>(_, w).
           if hci_rev w = 0x000e then Inr (0, w) else local_ver w)
       else local_ver w)"


text \<open>The definitions that a transfer on concrete bytes unfolds.\<close>

lemmas xfer_eval_defs = h5_download_patch_def hci_patch_cmd_def dl_transmit_def writev_loop_def set_flow_ctrl_def
  tcsetattr_def timeout_arm_def timeout_set_def PATCH_DATA_FIELD_MAX_SIZE_def h5_hci_reset_def await_cmd_def
  op_defs opcode_defs start_transmit_wait_def op_is_cmd_def op_opcode_def CMD_STATE_UNKNOWN_def
  CMD_STATE_SUCCESS_def stw_done_def h5_post_hci_cc_def h5_cc_prefix_def skb_le16_def

section \<open>What a transfer leaves unchanged\<close>

text \<open>
  Waiting for an answer never touches the transmit sequence number, the download position or the
  terminal settings, and moves the link only along its state machine.
\<close>

definition tx_moves :: "world \<Rightarrow> world \<Rightarrow> bool" where
  "tx_moves w w' \<longleftrightarrow> msgq_txseq w' = msgq_txseq w \<and> tx_index w' = tx_index w \<and> total_num w' = total_num w \<and>
     serial_fd w' = serial_fd w \<and> timerfd w' = timerfd w \<and> tcsets w' = tcsets w \<and> tio w' = tio w \<and>
     tio_applied w' = tio_applied w \<and> cs_opcode (cmd_state w') = cs_opcode (cmd_state w) \<and>
     link_steps (link_estab_state w) (link_estab_state w')"

lemma tx_moves_refl [simp]: "tx_moves w w"
  by (simp add: tx_moves_def)

lemma tx_moves_trans: "tx_moves w w' \<Longrightarrow> tx_moves w' w'' \<Longrightarrow> tx_moves w w''"
  by (auto simp: tx_moves_def)

lemma rx_tx_moves: "rx_moves w w' \<Longrightarrow> tx_moves w w'"
  by (simp add: rx_moves_def same_host_def tx_moves_def)

lemma tx_moves_update [simp]:
  "tx_moves w (w'\<lparr>polls := ps\<rparr>) = tx_moves w w'" "tx_moves w (timeout_set n w') = tx_moves w w'"
  "tx_moves w (timeout_arm n w') = tx_moves w w'" "tx_moves w (w'\<lparr>wlog := l\<rparr>) = tx_moves w w'"
  "tx_moves w (w'\<lparr>wr_rets := rs\<rparr>) = tx_moves w w'"
  "tx_moves (w\<lparr>polls := ps\<rparr>) w' = tx_moves w w'" "tx_moves (timeout_set n w) w' = tx_moves w w'"
  "tx_moves (timeout_arm n w) w' = tx_moves w w'"
  by (simp_all add: tx_moves_def timeout_set_def timeout_arm_def)

lemma timeout_arm_fields [simp]:
  "link_estab_state (timeout_arm n w) = link_estab_state w" "msgq_txseq (timeout_arm n w) = msgq_txseq w"
  "tx_index (timeout_arm n w) = tx_index w" "total_num (timeout_arm n w) = total_num w"
  "polls (timeout_arm n w) = polls w" "cmd_state (timeout_arm n w) = cmd_state w" "wlog (timeout_arm n w) = wlog w"
  "wr_rets (timeout_arm n w) = wr_rets w"
  by (simp_all add: timeout_arm_def timeout_set_def)

lemma writev_moves: "tx_moves w (snd (writev_loop fd bs w))"
  by (simp add: writev_loop_def split: prod.splits)

lemma writev_err: "fst (snd (writev_eintr bs rs)) \<le> 0"
  by (induction bs rs rule: writev_eintr.induct) auto

lemma writev_loop_err: "fst (writev_loop fd bs w) \<le> 0"
  using writev_err [of bs "wr_rets w"] by (cases "writev_eintr bs (wr_rets w)") (simp add: writev_loop_def)

lemma writev_loop_moves: "writev_loop fd bs w = (err, w') \<Longrightarrow> tx_moves w w' \<and> err \<le> 0"
  using writev_moves [of w fd bs] writev_loop_err [of fd bs w] by simp

lemma h5_recv_tx_moves: "returns (tx_moves w) (h5_recv w bs)"
  using h5_recv_moves by (rule returns_mono) (rule rx_tx_moves)

text \<open>Both event loops have the same shape of postcondition: an early return carries an error code.\<close>

definition ev_post :: "world \<Rightarrow> int option \<times> int \<times> world \<Rightarrow> bool" where
  "ev_post w r \<longleftrightarrow> tx_moves w (snd (snd r)) \<and> (\<forall>e. fst r = Some e \<longrightarrow> e < 0)"

lemma ev_post_simp [simp]: "ev_post w (r, n, v) \<longleftrightarrow> tx_moves w v \<and> (\<forall>e. r = Some e \<longrightarrow> e < 0)"
  by (simp add: ev_post_def)

lemma ev_post_step: "tx_moves w v \<Longrightarrow> returns (ev_post v) m \<Longrightarrow> returns (ev_post w) m"
  by (erule returns_mono) (auto simp: ev_post_def intro: tx_moves_trans)

lemma stw_events_post: "returns (ev_post w) (stw_events fd pkt msec evs retry w)"
proof (induction fd pkt msec evs retry w rule: stw_events.induct)
  case (2 fd pkt msec bs evs retry w)
  then show ?case
    by (auto intro!: returnsI dest: returnsD [OF ev_post_step] returnsD [OF h5_recv_tx_moves])
next
  case (6 fd pkt msec ok evs retry w)
  obtain err v where v: "writev_loop fd pkt w = (err, v)" by (cases "writev_loop fd pkt w")
  with 6 ev_post_step [of w "timeout_set msec v"] writev_loop_moves [OF v] show ?case
    by auto
qed simp_all

lemma dl_events_post: "returns (ev_post w) (dl_events dd pkt tmo evs retry w)"
proof (induction dd pkt tmo evs retry w rule: dl_events.induct)
  case (2 dd pkt tmo bs evs retry w)
  then show ?case
    by (auto intro!: returnsI dest: returnsD [OF ev_post_step] returnsD [OF h5_recv_tx_moves])
next
  case (6 dd pkt tmo ok evs retry w)
  obtain err v where v: "writev_loop dd pkt w = (err, v)" by (cases "writev_loop dd pkt w")
  with 6 ev_post_step [of w "timeout_set tmo v"] writev_loop_moves [OF v] show ?case
    by auto
qed simp_all


lemma stw_loop_moves:
  "returns (\<lambda>(rc, w'). tx_moves w w' \<and> rc \<le> 0 \<and> (rc = 0 \<longrightarrow> stw_done op w' \<and> armed w' = 0))
    (stw_loop fd pkt op msec ps retry w)"
proof (induction ps arbitrary: retry w)
  case (Cons p ps)
  show ?case
  proof (cases p)
    case (EpEvents evs)
    show ?thesis
      unfolding EpEvents stw_loop.simps returns_simps
    proof (rule returns_mono [OF stw_events_post])
      fix r assume r: "ev_post (w\<lparr>polls := ps\<rparr>) r"
      obtain e n v where rv: "r = (e, n, v)" by (cases r)
      show "returns (\<lambda>(rc, w'). tx_moves w w' \<and> rc \<le> 0 \<and> (rc = 0 \<longrightarrow> stw_done op w' \<and> armed w' = 0))
          (case r of (r, retry, v) \<Rightarrow> case r of Some err \<Rightarrow> Inr (err, v)
            | None \<Rightarrow> if stw_done op v then Inr (0, timeout_set 0 v) else stw_loop fd pkt op msec ps retry v)"
        using r Cons.IH [where w = v and retry = n]
        by (cases e) (auto simp: rv stw_done_def timeout_set_def tx_moves_def elim!: returns_mono)
    qed
  qed simp
qed simp

lemma dl_loop_moves:
  "returns (\<lambda>(rc, w'). tx_moves w w' \<and> rc \<le> 0 \<and> (rc = 0 \<longrightarrow> rx_index w' = tx_index w'))
    (dl_loop dd pkt tmo ps retry w)"
proof (induction ps arbitrary: retry w)
  case (Cons p ps)
  show ?case
  proof (cases p)
    case (EpEvents evs)
    show ?thesis
      unfolding EpEvents dl_loop.simps returns_simps
    proof (rule returns_mono [OF dl_events_post])
      fix r assume r: "ev_post (w\<lparr>polls := ps\<rparr>) r"
      obtain e n v where rv: "r = (e, n, v)" by (cases r)
      show "returns (\<lambda>(rc, w'). tx_moves w w' \<and> rc \<le> 0 \<and> (rc = 0 \<longrightarrow> rx_index w' = tx_index w'))
          (case r of (r, retry, v) \<Rightarrow> case r of Some err \<Rightarrow> Inr (err, v)
            | None \<Rightarrow> if rx_index v = tx_index v then Inr (0, timeout_arm 0 v) else dl_loop dd pkt tmo ps retry v)"
        using r Cons.IH [where w = v and retry = n]
        by (cases e) (auto simp: rv timeout_arm_def timeout_set_def tx_moves_def elim!: returns_mono)
    qed
  qed simp
qed simp

lemma start_transmit_wait_moves:
  "returns (\<lambda>(rc, w'). tx_moves w w' \<and> rc \<le> 0 \<and> (rc = 0 \<longrightarrow> stw_done op w' \<and> armed w' = 0))
    (start_transmit_wait fd skb op msec retry w)"
proof (cases skb)
  case (Some s)
  obtain err v where v: "writev_loop fd (skb_bytes s) w = (err, v)" by (cases "writev_loop fd (skb_bytes s) w")
  note m = writev_loop_moves [OF v]
  have "returns (\<lambda>(rc, w'). tx_moves w w' \<and> rc \<le> 0 \<and> (rc = 0 \<longrightarrow> stw_done op w' \<and> armed w' = 0))
      (stw_loop fd (skb_bytes s) op msec ps retry (timeout_arm msec v))" for ps
    by (rule returns_mono [OF stw_loop_moves]) (use m in \<open>auto intro: tx_moves_trans\<close>)
  with m show ?thesis by (auto simp: start_transmit_wait_def Some v Let_def)
qed (simp add: start_transmit_wait_def)

text \<open>A fragment that was accepted advanced the sequence number by one and was echoed by the controller.\<close>

definition frag_post :: "byte \<Rightarrow> world \<Rightarrow> int \<times> world \<Rightarrow> bool" where
  "frag_post index w = (\<lambda>(rc, w'). rc \<le> 0 \<and>
     (rc = 0 \<longrightarrow> msgq_txseq w' = (msgq_txseq w + 1) AND 0x07 \<and> total_num w' = total_num w \<and>
        rx_index w' = uint (index AND 0x7f) \<and> link_steps (link_estab_state w) (link_estab_state w')))"

lemma last_index:
  assumes "index AND 0x80 = (0 :: byte)"
  shows "index AND 0x7f = index"
proof (rule bit_word_eqI)
  fix n :: nat
  assume n: "n < LENGTH(8)"
  have "\<not> bit index 7" using assms and_exp_eq_0_iff_not_bit [of index 7] by simp
  then have "bit index n \<Longrightarrow> n < 7" using n by (cases "n = 7") auto
  moreover have "bit (0x7f :: byte) n \<longleftrightarrow> n < 7"
    using bit_mask_iff [of 7 n, where 'a = byte] n by (simp add: mask_eq_exp_minus_1)
  ultimately show "bit (index AND 0x7f) n = bit index n" by (auto simp: bit_and_iff)
qed

lemma set_flow_ctrl_fields:
  "set_flow_ctrl w = (ok, w') \<Longrightarrow> msgq_txseq w' = msgq_txseq w \<and> tx_index w' = tx_index w \<and>
   total_num w' = total_num w \<and> link_estab_state w' = link_estab_state w"
  by (auto simp: set_flow_ctrl_def tcsetattr_def split: list.splits if_splits)

lemma dl_transmit_post:
  "returns (\<lambda>(rc, w'). rc \<le> 0 \<and> (rc = 0 \<longrightarrow> msgq_txseq w' = msgq_txseq w \<and> total_num w' = total_num w \<and>
      rx_index w' = tx_index w \<and> link_steps (link_estab_state w) (link_estab_state w')))
    (dl_transmit dd index pkt w)"
proof -
  obtain err w2 where w2: "writev_loop dd pkt w = (err, w2)" by (cases "writev_loop dd pkt w")
  obtain ok w3 where w3: "(if index AND 0x80 \<noteq> 0 then set_flow_ctrl w2 else (True, w2)) = (ok, w3)"
    by (cases "if index AND 0x80 \<noteq> 0 then set_flow_ctrl w2 else (True, w2)")
  have f: "msgq_txseq w3 = msgq_txseq w2 \<and> tx_index w3 = tx_index w2 \<and> total_num w3 = total_num w2 \<and>
      link_estab_state w3 = link_estab_state w2"
    using w3 by (auto split: if_splits dest: set_flow_ctrl_fields)
  have l: "link_steps (link_estab_state w) (link_estab_state w3)"
    using f writev_loop_moves [OF w2] by (simp add: tx_moves_def)
  have "returns (\<lambda>(rc, w'). rc \<le> 0 \<and> (rc = 0 \<longrightarrow> msgq_txseq w' = msgq_txseq w \<and> total_num w' = total_num w \<and>
      rx_index w' = tx_index w \<and> link_steps (link_estab_state w) (link_estab_state w')))
      (dl_loop dd pkt tmo ps 3 (timeout_arm tmo w3))" for tmo ps
    by (rule returns_mono [OF dl_loop_moves])
       (use f writev_loop_moves [OF w2] in \<open>auto simp: tx_moves_def dest: rtranclp_trans [OF l]\<close>)
  with w2 w3 writev_loop_moves [OF w2] show ?thesis
    by (simp add: dl_transmit_def Let_def)
qed

lemma h5_download_patch_post: "returns (frag_post index w) (h5_download_patch dd index data len w)"
proof -
  let ?w0 = "w\<lparr>tx_index := (if index AND 0x80 \<noteq> 0 then uint (index AND 0x7f) else uint index)\<rparr>"
  have "returns (frag_post index w) (case nskb of None \<Rightarrow> Inr (- 1, w1) | Some nskb \<Rightarrow> dl_transmit dd index (skb_bytes nskb) w1)"
    if p: "h5_prepare_pkt ?w0 cmd (len + 4) HCI_COMMAND_PKT = Inr (nskb, w1)" for cmd nskb w1
  proof (cases nskb)
    case (Some s)
    have seq: "msgq_txseq w1 = (msgq_txseq w + 1) AND 0x07"
      using h5_prepare_pkt_seq [of ?w0 cmd "len + 4" HCI_COMMAND_PKT s w1] p Some
      by (simp add: h5_pkt_reliable_def pkt_type_defs)
    have w1: "w1 = ?w0\<lparr>mallocs := mallocs w1, is_txack_req := is_txack_req w1, msgq_txseq := msgq_txseq w1\<rparr>"
      by (rule h5_prepare_pkt_world [OF p])
    have same: "tx_index w1 = uint (index AND 0x7f)" "total_num w1 = total_num w"
        "link_estab_state w1 = link_estab_state w"
      using last_index [of index] by (subst w1, simp)+
    show ?thesis
      unfolding Some option.case
      by (rule returns_mono [OF dl_transmit_post]) (auto simp: frag_post_def seq same)
  qed (simp add: frag_post_def)
  then have "returns (\<lambda>(nskb, w1). returns (frag_post index w)
      (case nskb of None \<Rightarrow> Inr (- 1, w1) | Some nskb \<Rightarrow> dl_transmit dd index (skb_bytes nskb) w1))
      (h5_prepare_pkt ?w0 cmd (len + 4) HCI_COMMAND_PKT)" for cmd
    by - (rule returnsI, simp add: split_paired_all)
  then show ?thesis
    unfolding h5_download_patch_def Let_def returns_simps by - (rule returnsI, simp add: split_def)
qed

section \<open>Retransmission\<close>

lemma stw_done_update [simp]:
  "stw_done op (w\<lparr>polls := ps\<rparr>) = stw_done op w" "stw_done op (w\<lparr>wlog := l\<rparr>) = stw_done op w"
  "stw_done op (w\<lparr>armed := n\<rparr>) = stw_done op w"
  by (simp_all add: stw_done_def)

lemma polls_same: "polls w = ps \<Longrightarrow> w\<lparr>polls := ps\<rparr> = w"
  by (cases w) simp

lemma wr_rets_same: "wr_rets w = rs \<Longrightarrow> w\<lparr>wr_rets := rs\<rparr> = w"
  by (cases w) simp

lemma stw_loop_timeouts:
  assumes "wr_rets w = []" "\<not> stw_done op w" "polls w = replicate k (EpEvents [EvTimer True]) @ ps" "k \<le> n"
  shows "stw_loop fd pkt op msec (replicate k (EpEvents [EvTimer True]) @ ps) (int n) w =
    stw_loop fd pkt op msec ps (int (n - k))
      (w\<lparr>polls := ps, wlog := wlog w @ replicate k (fd, pkt), armed := (if k = 0 then armed w else msec)\<rparr>)"
  using assms
proof (induction k arbitrary: w n)
  case (Suc k)
  let ?ps = "replicate k (EpEvents [EvTimer True]) @ ps"
  let ?w = "w\<lparr>polls := ?ps, wlog := wlog w @ [(fd, pkt)], armed := msec\<rparr>"
  from Suc.prems(4) obtain m where n: "n = Suc m" "k \<le> m" by (cases n) auto
  have d: "\<not> stw_done op ?w" using Suc.prems(2) by simp
  have "writev_loop fd pkt (w\<lparr>polls := ?ps\<rparr>) = (0, w\<lparr>polls := ?ps, wlog := wlog w @ [(fd, pkt)]\<rparr>)"
    using Suc.prems(1) by (simp add: writev_loop_def)
  then have "stw_loop fd pkt op msec (replicate (Suc k) (EpEvents [EvTimer True]) @ ps) (int n) w =
      stw_loop fd pkt op msec ?ps (int m) ?w"
    using d by (simp add: n timeout_set_def)
  also have "\<dots> = stw_loop fd pkt op msec ps (int (m - k))
      (?w\<lparr>polls := ps, wlog := wlog ?w @ replicate k (fd, pkt), armed := (if k = 0 then armed ?w else msec)\<rparr>)"
    using Suc.prems(1) d n(2) by (intro Suc.IH) simp_all
  finally show ?case by (simp add: n)
qed (simp add: polls_same)

lemma stw_loop_exhausted:
  assumes "wr_rets w = []" "\<not> stw_done op w" "n < k"
  shows "stw_loop fd pkt op msec (replicate k (EpEvents [EvTimer True]) @ ps) (int n) w = Inl ExitFailure"
  using assms
proof (induction k arbitrary: w n)
  case (Suc k)
  show ?case
  proof (cases n)
    case (Suc m)
    let ?ps = "replicate k (EpEvents [EvTimer True]) @ ps"
    let ?w = "w\<lparr>polls := ?ps, wlog := wlog w @ [(fd, pkt)], armed := msec\<rparr>"
    have d: "\<not> stw_done op ?w" using Suc.prems(2) by simp
    have "writev_loop fd pkt (w\<lparr>polls := ?ps\<rparr>) = (0, w\<lparr>polls := ?ps, wlog := wlog w @ [(fd, pkt)]\<rparr>)"
      using Suc.prems(1) by (simp add: writev_loop_def)
    with d Suc.IH [of ?w m] Suc.prems(1,3) Suc show ?thesis by (simp add: timeout_set_def)
  qed simp
qed simp

lemma transmit_retries:
  assumes "fd \<noteq> - 1" "wr_rets w = []" "timerfd w > 0" "\<not> stw_done op w" "bs \<noteq> []"
    and guard: "op_is_cmd op \<Longrightarrow> op_opcode op = cs_opcode (cmd_state w) \<and> cs_state (cmd_state w) = CMD_STATE_UNKNOWN"
    and script: "polls w = replicate k (EpEvents [EvTimer True]) @ EpEvents [EvSerial bs] # ps"
    and w1: "w1 = w\<lparr>polls := ps, wlog := wlog w @ replicate (Suc k) (fd, skb_bytes skb), armed := msec\<rparr>"
  shows "start_transmit_wait fd (Some skb) op msec (int n) w =
    (if n < k then Inl ExitFailure
     else bind_result (h5_recv w1 (take 128 bs)) (\<lambda>w2.
       if stw_done op w2 then Inr (0, timeout_set 0 w2)
       else stw_loop fd (skb_bytes skb) op msec ps (int (n - k)) w2))"
proof -
  let ?pkt = "skb_bytes skb"
  let ?w = "w\<lparr>wlog := wlog w @ [(fd, ?pkt)], armed := msec\<rparr>"
  have d: "\<not> stw_done op ?w" using assms(4) by simp
  have "start_transmit_wait fd (Some skb) op msec (int n) w = stw_loop fd ?pkt op msec (polls w) (int n) ?w"
    using assms(1-3) guard
    by (auto simp: start_transmit_wait_def writev_loop_def wr_rets_same timeout_arm_def timeout_set_def Let_def)
  also have "\<dots> = (if n < k then Inl ExitFailure
     else bind_result (h5_recv w1 (take 128 bs)) (\<lambda>w2.
       if stw_done op w2 then Inr (0, timeout_set 0 w2) else stw_loop fd ?pkt op msec ps (int (n - k)) w2))"
  proof (cases "n < k")
    case False
    have "?w\<lparr>polls := EpEvents [EvSerial bs] # ps, wlog := wlog ?w @ replicate k (fd, ?pkt),
        armed := (if k = 0 then armed ?w else msec)\<rparr>\<lparr>polls := ps\<rparr> = w1"
      by (simp add: w1)
    moreover from False script stw_loop_timeouts [of ?w op k "EpEvents [EvSerial bs] # ps" n fd ?pkt msec] d assms(2)
    have "stw_loop fd ?pkt op msec (polls w) (int n) ?w = stw_loop fd ?pkt op msec (EpEvents [EvSerial bs] # ps) (int (n - k))
        (?w\<lparr>polls := EpEvents [EvSerial bs] # ps, wlog := wlog ?w @ replicate k (fd, ?pkt),
           armed := (if k = 0 then armed ?w else msec)\<rparr>)"
      by simp
    ultimately show ?thesis
      using False assms(5) by (simp add: bind_result_assoc cong: if_cong)
  qed (use script d assms(2) stw_loop_exhausted [of ?w op n k] in simp)
  finally show ?thesis .
qed

section \<open>The handshake with a controller that answers\<close>

text \<open>An unreliable link-control packet is handled by the link state machine and nothing else.\<close>

lemma h5_recv_link_ctl:
  assumes idle: "rx_idle w" "mem_ok w" "is_txack_req w = 0"
    and len: "length data < 4096" "h1 = push_bit 4 (word_of_nat (length data)) OR 0x0f" "h2 = word_of_nat (length data div 16)"
    and h3: "h3 = NOT (h1 + h2)"
  obtains skb w1 where "skb_bytes skb = data" "skb_wf skb" "same_host w w1" "mem_ok w1" "is_txack_req w1 = 0"
    "link_estab_state w1 = link_estab_state w" "use_crc w1 = use_crc w" "cmd_state w1 = cmd_state w"
    "rx_skb w1 \<noteq> SkbFreed" "rx_idle (w1\<lparr>rx_state := H5_W4_PKT_START\<rparr>)"
    "h5_recv w (h5_frame False ([0x00, h1, h2, h3] @ data)) =
       bind_result (h5_handle_internal_rx skb w1) (\<lambda>w. bind_result (h5_rx_ack w) (\<lambda>w.
       bind_result (h5_rx_release w) (\<lambda>w. Inr (w\<lparr>rx_state := H5_W4_PKT_START\<rparr>))))"
proof -
  have l: "H5_HDR_LEN h1 h2 = length data" using hdr_len [of 15 "length data"] len by simp
  have t: "unat (H5_HDR_PKT_TYPE h1) = H5_LINK_CTL_PKT"
    using hdr1_type [of 15 "length data"] len(2) by (simp add: pkt_type_defs)
  have acc: "hdr_accepted w 0x00 h1 h2 h3" using h3 by (simp add: hdr_accepted_def)
  obtain v where v: "rx_holds w ([0x00, h1, h2, h3] @ data) v"
      "h5_recv w (h5_frame False ([0x00, h1, h2, h3] @ data)) =
       bind_result (h5_complete_rx_pkt v) (\<lambda>w. Inr (w\<lparr>rx_state := H5_W4_PKT_START\<rparr>))"
    by (rule h5_recv_frame_intact [OF idle(1,2) acc l]) (rule that, assumption, simp)
  then obtain skb st crc where skb: "rx_buf skb" "skb_bytes skb = [0x00, h1, h2, h3] @ data"
      "v = (rx_in_data w skb 0 crc)\<lparr>rx_state := st\<rparr>" by (auto simp: rx_holds_def)
  have dl: "data_len skb = 4 + length data" using skb(2) length_skb_bytes [of skb] by simp
  then have m: "mem skb 0 = 0x00" "mem skb (Suc 0) = h1"
    using skb_nth_mem [OF skb(1), of 0] skb_nth_mem [OF skb(1), of 1] skb(2) by auto
  have wf: "skb_wf skb" using skb(1) by (simp add: skb_wf_def rx_buf_def)
  obtain skb' where p: "skb_pull skb 4 = Inr skb'" "skb_bytes skb' = data" "skb_wf skb'"
    using skb_pull_ok [of 4 skb] dl skb(2) wf by auto
  let ?w1 = "h5_rx_bookkeep 0x00 v"
  show thesis
  proof (rule that [of skb' ?w1])
    show "h5_recv w (h5_frame False ([0x00, h1, h2, h3] @ data)) =
       bind_result (h5_handle_internal_rx skb' ?w1) (\<lambda>w. bind_result (h5_rx_ack w) (\<lambda>w.
       bind_result (h5_rx_release w) (\<lambda>w. Inr (w\<lparr>rx_state := H5_W4_PKT_START\<rparr>))))"
      using skb(1) m p(1) t unfolding v(2) h5_complete_rx_pkt_def
      by (simp add: skb(3) rx_in_data_def deref_def skb_data_def rx_buf_def h5_rx_deliver_def Let_def
          pkt_type_defs H5_HDR_SIZE_def bind_result_assoc)
  qed (use p(2,3) mem_ok_tl [OF idle(2)] idle(1,3) in
      \<open>simp_all add: h5_rx_bookkeep_def h5_hdr_defs skb(3) rx_in_data_def same_host_def mem_ok_def rx_idle_def\<close>)
qed


text \<open>The two packets a controller answers with, as they appear on the line.\<close>

definition sync_resp_frame :: "byte list" where
  "sync_resp_frame = h5_frame False ([0x00, 0x2f, 0x00, 0xd0] @ sync_resp)"

definition conf_resp_frame :: "byte \<Rightarrow> byte list" where
  "conf_resp_frame cfg = h5_frame False ([0x00, 0x3f, 0x00, 0xc0] @ conf_resp @ [cfg])"

lemma sync_resp_frame_bytes: "sync_resp_frame = [0xc0, 0x00, 0x2f, 0x00, 0xd0, 0x02, 0x7d, 0xc0]"
  by (simp add: sync_resp_frame_def h5_frame_def slip_def slip_byte_def crc_trailer_def sync_resp_def)

lemma length_resp_frames: "length sync_resp_frame \<le> 128" "length (conf_resp_frame cfg) \<le> 128"
  "sync_resp_frame \<noteq> []" "conf_resp_frame cfg \<noteq> []"
  by (simp_all add: sync_resp_frame_bytes conf_resp_frame_def h5_frame_def slip_def slip_byte_def crc_trailer_def conf_resp_def)

lemma h5_rx_finish:
  assumes "is_txack_req w = 0" "rx_skb w \<noteq> SkbFreed"
  shows "bind_result (h5_rx_ack w) (\<lambda>w. bind_result (h5_rx_release w) (\<lambda>w. Inr (w\<lparr>rx_state := H5_W4_PKT_START\<rparr>))) =
    Inr (w\<lparr>rx_state := H5_W4_PKT_START, rx_skb := SkbNull\<rparr>)"
  using assms by (cases "rx_skb w") (simp_all add: h5_rx_ack_def h5_rx_release_def skb_free_def)

lemma recv_sync_resp:
  assumes "rx_idle w" "mem_ok w" "is_txack_req w = 0" "link_estab_state w = H5_SYNC"
  obtains w' where "h5_recv w sync_resp_frame = Inr w'" "link_estab_state w' = H5_CONFIG"
    "rx_idle w'" "mem_ok w'" "is_txack_req w' = 0" "same_host w w'"
proof -
  have len: "length sync_resp < 4096" "0x2f = push_bit 4 (word_of_nat (length sync_resp)) OR (0x0f :: byte)"
    "0x00 = (word_of_nat (length sync_resp div 16) :: byte)" "0xd0 = NOT (0x2f + 0x00 :: byte)"
    by (simp_all add: sync_resp_def)
  obtain skb w1 where h: "skb_bytes skb = sync_resp" "skb_wf skb" "same_host w w1" "mem_ok w1" "is_txack_req w1 = 0"
    "link_estab_state w1 = link_estab_state w" "rx_skb w1 \<noteq> SkbFreed" "rx_idle (w1\<lparr>rx_state := H5_W4_PKT_START\<rparr>)"
    "h5_recv w sync_resp_frame = bind_result (h5_handle_internal_rx skb w1) (\<lambda>w. bind_result (h5_rx_ack w) (\<lambda>w.
       bind_result (h5_rx_release w) (\<lambda>w. Inr (w\<lparr>rx_state := H5_W4_PKT_START\<rparr>))))"
    using h5_recv_link_ctl [OF assms(1-3) len] unfolding sync_resp_frame_def by blast
  have "data_len skb = 2" using h(1) length_skb_bytes [of skb] by (simp add: sync_resp_def)
  then have "skb_data skb 0 = Inr 0x02" "skb_data skb (Suc 0) = Inr 0x7d"
    using skb_data_nth [OF h(2), of 0] skb_data_nth [OF h(2), of 1] h(1) by (simp_all add: sync_resp_def)
  then have "h5_handle_internal_rx skb w1 = Inr (w1\<lparr>link_estab_state := H5_CONFIG\<rparr>)"
    using h(6) assms(4) by (simp add: h5_handle_internal_rx_def link_pkt_defs)
  with h show thesis
    by (intro that [of "w1\<lparr>link_estab_state := H5_CONFIG, rx_state := H5_W4_PKT_START, rx_skb := SkbNull\<rparr>"])
       (simp_all add: h5_rx_finish same_host_def mem_ok_def rx_idle_def)
qed

lemma recv_conf_resp:
  assumes "rx_idle w" "mem_ok w" "is_txack_req w = 0" "link_estab_state w = H5_CONFIG"
  obtains w' where "h5_recv w (conf_resp_frame cfg) = Inr w'" "link_estab_state w' = H5_INIT"
    "use_crc w' = drop_bit 4 cfg AND 0x01" "rx_idle w'" "mem_ok w'" "is_txack_req w' = 0" "same_host w w'"
proof -
  have len: "length (conf_resp @ [cfg]) < 4096"
    "0x3f = push_bit 4 (word_of_nat (length (conf_resp @ [cfg]))) OR (0x0f :: byte)"
    "0x00 = (word_of_nat (length (conf_resp @ [cfg]) div 16) :: byte)" "0xc0 = NOT (0x3f + 0x00 :: byte)"
    by (simp_all add: conf_resp_def)
  obtain skb w1 where h: "skb_bytes skb = conf_resp @ [cfg]" "skb_wf skb" "same_host w w1" "mem_ok w1" "is_txack_req w1 = 0"
    "link_estab_state w1 = link_estab_state w" "rx_skb w1 \<noteq> SkbFreed" "rx_idle (w1\<lparr>rx_state := H5_W4_PKT_START\<rparr>)"
    "h5_recv w (conf_resp_frame cfg) = bind_result (h5_handle_internal_rx skb w1) (\<lambda>w. bind_result (h5_rx_ack w) (\<lambda>w.
       bind_result (h5_rx_release w) (\<lambda>w. Inr (w\<lparr>rx_state := H5_W4_PKT_START\<rparr>))))"
    using h5_recv_link_ctl [OF assms(1-3) len] unfolding conf_resp_frame_def by blast
  have dl: "data_len skb = 3" using h(1) length_skb_bytes [of skb] by (simp add: conf_resp_def)
  then have "skb_data skb 0 = Inr 0x04" "skb_data skb (Suc 0) = Inr 0x7b" "skb_data skb 2 = Inr cfg"
    using skb_data_nth [OF h(2), of 0] skb_data_nth [OF h(2), of 1] skb_data_nth [OF h(2), of 2] h(1)
    by (simp_all add: conf_resp_def)
  then have "h5_handle_internal_rx skb w1 = Inr (w1\<lparr>link_estab_state := H5_INIT, use_crc := drop_bit 4 cfg AND 0x01\<rparr>)"
    using h(6) assms(4) dl by (simp add: h5_handle_internal_rx_def link_pkt_defs)
  with h show thesis
    by (intro that [of "w1\<lparr>link_estab_state := H5_INIT, use_crc := drop_bit 4 cfg AND 0x01,
            rx_state := H5_W4_PKT_START, rx_skb := SkbNull\<rparr>"])
       (simp_all add: h5_rx_finish same_host_def mem_ok_def rx_idle_def)
qed

lemma transmit_answered:
  assumes "fd \<noteq> - 1" "wr_rets w = []" "timerfd w > 0" "\<not> stw_done op w" "bs \<noteq> []" "length bs \<le> 128"
    and "op_is_cmd op \<Longrightarrow> op_opcode op = cs_opcode (cmd_state w) \<and> cs_state (cmd_state w) = CMD_STATE_UNKNOWN"
    and "polls w = replicate k (EpEvents [EvTimer True]) @ EpEvents [EvSerial bs] # ps" "k \<le> n"
    and "h5_recv (w\<lparr>polls := ps, wlog := wlog w @ replicate (Suc k) (fd, skb_bytes skb), armed := msec\<rparr>) bs = Inr w2"
    and "stw_done op w2"
  shows "start_transmit_wait fd (Some skb) op msec (int n) w = Inr (0, timeout_set 0 w2)"
  using transmit_retries [OF assms(1-5,7,8) refl, where skb = skb and msec = msec and n = n] assms(6,9-11) by simp

lemma h5_prepare_link_ctl:
  assumes "mem_ok w" "n = length data" "n < 2 ^ 29"
  obtains nskb where "h5_prepare_pkt w data n H5_LINK_CTL_PKT =
    Inr (Some nskb, w\<lparr>mallocs := tl (mallocs w), is_txack_req := 0\<rparr>)"
proof -
  have "h5_pkt_reliable H5_LINK_CTL_PKT = Some False" by (simp add: h5_pkt_reliable_def pkt_type_defs)
  from h5_prepare_pkt_frame [OF this next_malloc_ok [OF assms(1)] assms(3) [unfolded assms(2)]] obtain nskb where
    "h5_prepare_pkt w data (length data) H5_LINK_CTL_PKT =
      Inr (Some nskb, w\<lparr>mallocs := tl (mallocs w), is_txack_req := 0, msgq_txseq := msgq_txseq w\<rparr>)"
    by auto
  then show thesis using assms(2) by (intro that) simp
qed

lemma link_ops: "\<not> op_is_cmd OP_H5_SYNC" "\<not> op_is_cmd OP_H5_CONFIG"
  "stw_done OP_H5_SYNC w \<longleftrightarrow> link_estab_state w = H5_CONFIG"
  "stw_done OP_H5_CONFIG w \<longleftrightarrow> link_estab_state w = H5_INIT"
  by (auto simp: op_is_cmd_def stw_done_def op_defs)

lemma init_h5_sync:
  assumes "rx_idle w" "mem_ok w" "fd \<noteq> - 1" "wr_rets w = []" "timerfd w > 0" "link_estab_state w = H5_SYNC"
    and "polls w = replicate k (EpEvents [EvTimer True]) @ EpEvents [EvSerial sync_resp_frame] # ps" "k \<le> 10"
  obtains nskb w1 w2 where "h5_prepare_pkt w [0x01, 0x7E] 2 H5_LINK_CTL_PKT = Inr (nskb, w1)"
    "start_transmit_wait fd nskb OP_H5_SYNC 500 10 w1 = Inr (0, w2)" "link_estab_state w2 = H5_CONFIG" "polls w2 = ps"
    "rx_idle w2" "mem_ok w2" "wr_rets w2 = []" "timerfd w2 = timerfd w" "is_txack_req w2 = 0" "tio_applied w2 = tio_applied w"
proof -
  let ?w1 = "w\<lparr>mallocs := tl (mallocs w), is_txack_req := 0\<rparr>"
  obtain nskb where p: "h5_prepare_pkt w [0x01, 0x7E] 2 H5_LINK_CTL_PKT = Inr (Some nskb, ?w1)"
    by (rule h5_prepare_link_ctl [OF assms(2), of 2 "[0x01, 0x7E]"]) simp_all
  let ?w = "?w1\<lparr>polls := ps, wlog := wlog ?w1 @ replicate (Suc k) (fd, skb_bytes nskb), armed := 500\<rparr>"
  have "rx_idle ?w" "mem_ok ?w" "is_txack_req ?w = 0" "link_estab_state ?w = H5_SYNC"
    using assms(1,6) mem_ok_tl [OF assms(2)] by (simp_all add: rx_idle_def mem_ok_def)
  then obtain w2 where w2: "h5_recv ?w sync_resp_frame = Inr w2" "link_estab_state w2 = H5_CONFIG"
    "rx_idle w2" "mem_ok w2" "is_txack_req w2 = 0" "same_host ?w w2"
    by (rule recv_sync_resp)
  have "start_transmit_wait fd (Some nskb) OP_H5_SYNC 500 (int 10) ?w1 = Inr (0, timeout_set 0 w2)"
    by (rule transmit_answered [OF assms(3) _ _ _ length_resp_frames(3,1) _ _ assms(8) w2(1)])
       (use assms w2 in \<open>simp_all add: link_ops\<close>)
  with p w2 assms(4) show thesis
    by (intro that [of "Some nskb" ?w1 "timeout_set 0 w2"])
       (simp_all add: timeout_set_def same_host_def rx_idle_def mem_ok_def)
qed

lemma init_h5_config:
  assumes "rx_idle w" "mem_ok w" "fd \<noteq> - 1" "wr_rets w = []" "timerfd w > 0" "link_estab_state w = H5_CONFIG"
    and "polls w = replicate k (EpEvents [EvTimer True]) @ EpEvents [EvSerial (conf_resp_frame cfg)] # ps" "k \<le> 10"
  obtains nskb w1 w2 where "h5_prepare_pkt w [0x03, 0xFC, 0x14] 3 H5_LINK_CTL_PKT = Inr (nskb, w1)"
    "start_transmit_wait fd nskb OP_H5_CONFIG 500 10 w1 = Inr (0, w2)" "link_estab_state w2 = H5_INIT" "polls w2 = ps"
    "use_crc w2 = drop_bit 4 cfg AND 0x01" "rx_idle w2" "mem_ok w2" "tio_applied w2 = tio_applied w" "armed w2 = 0"
proof -
  let ?w1 = "w\<lparr>mallocs := tl (mallocs w), is_txack_req := 0\<rparr>"
  obtain nskb where p: "h5_prepare_pkt w [0x03, 0xFC, 0x14] 3 H5_LINK_CTL_PKT = Inr (Some nskb, ?w1)"
    by (rule h5_prepare_link_ctl [OF assms(2), of 3 "[0x03, 0xFC, 0x14]"]) simp_all
  let ?w = "?w1\<lparr>polls := ps, wlog := wlog ?w1 @ replicate (Suc k) (fd, skb_bytes nskb), armed := 500\<rparr>"
  have "rx_idle ?w" "mem_ok ?w" "is_txack_req ?w = 0" "link_estab_state ?w = H5_CONFIG"
    using assms(1,6) mem_ok_tl [OF assms(2)] by (simp_all add: rx_idle_def mem_ok_def)
  then obtain w2 where w2: "h5_recv ?w (conf_resp_frame cfg) = Inr w2" "link_estab_state w2 = H5_INIT"
    "use_crc w2 = drop_bit 4 cfg AND 0x01" "rx_idle w2" "mem_ok w2" "is_txack_req w2 = 0" "same_host ?w w2"
    by (rule recv_conf_resp)
  have "start_transmit_wait fd (Some nskb) OP_H5_CONFIG 500 (int 10) ?w1 = Inr (0, timeout_set 0 w2)"
    by (rule transmit_answered [OF assms(3) _ _ _ length_resp_frames(4,2) _ _ assms(8) w2(1)])
       (use assms w2 in \<open>simp_all add: link_ops\<close>)
  with p w2 assms(4) show thesis
    by (intro that [of "Some nskb" ?w1 "timeout_set 0 w2"])
       (simp_all add: timeout_set_def same_host_def rx_idle_def mem_ok_def)
qed

section \<open>The answer that ends a wait\<close>

text \<open>The packet that answers an operation: for a command a payload that starts with the code of the
  command-complete event and carries the opcode and a zero status, for the two link operations the response of the
  peer. The payload starts behind the four header bytes.\<close>

definition answers :: "u32 \<Rightarrow> sk_buff \<Rightarrow> bool" where
  "answers op skb \<longleftrightarrow>
     (if op_is_cmd op
      then skb_data skb 4 = Inr 0x0e \<and> skb_data skb 7 = Inr (ucast (op_opcode op)) \<and>
           skb_data skb 8 = Inr (ucast (drop_bit 8 (op_opcode op))) \<and> skb_data skb 9 = Inr 0x00
      else if op = OP_H5_SYNC then skb_data skb 4 = Inr 0x02 \<and> skb_data skb 5 = Inr 0x7d
      else op = OP_H5_CONFIG \<and> skb_data skb 4 = Inr 0x04 \<and> skb_data skb 5 = Inr 0x7b)"

lemma stw_done_cong:
  "cmd_state w' = cmd_state w \<Longrightarrow> link_estab_state w' = link_estab_state w \<Longrightarrow> stw_done op w' = stw_done op w"
  by (simp add: stw_done_def)

lemma stw_done_fields [simp]:
  "stw_done op (w\<lparr>polls := ps\<rparr>) = stw_done op w" "stw_done op (timeout_set n w) = stw_done op w"
  "stw_done op (timeout_arm n w) = stw_done op w" "stw_done op (w\<lparr>rx_skb := p\<rparr>) = stw_done op w"
  by (simp_all add: stw_done_def timeout_set_def timeout_arm_def)

lemma stw_done_writev: "writev_loop fd bs w = (err, v) \<Longrightarrow> stw_done op v = stw_done op w"
  by (auto simp: writev_loop_def intro!: stw_done_cong split: prod.splits)

lemma skb_le16_bytes:
  assumes "skb_le16 skb i j = Inr x"
  shows "skb_data skb i = Inr (ucast x)" "skb_data skb j = Inr (ucast (drop_bit 8 x))"
proof -
  from assms obtain lo hi where d: "skb_data skb i = Inr lo" "skb_data skb j = Inr hi" "x = ucast lo OR push_bit 8 (ucast hi)"
    by (auto simp: skb_le16_def bind_result_eq_Inr)
  have "ucast x = lo" unfolding d(3) by (rule bit_word_eqI) (auto simp: bit_simps)
  moreover have "ucast (drop_bit 8 x) = hi"
    unfolding d(3) by (rule bit_word_eqI) (auto simp: bit_simps dest: bit_imp_le_length)
  ultimately show "skb_data skb i = Inr (ucast x)" "skb_data skb j = Inr (ucast (drop_bit 8 x))" using d by simp_all
qed

lemma skb_pull_data:
  "skb_pull skb n = Inr skb' \<Longrightarrow> skb_data skb' i = skb_data skb (n + i)"
  by (auto simp: skb_pull_def skb_data_def ac_simps split: if_splits)

lemma skb_trim_data [simp]: "skb_data (skb_trim skb n) i = skb_data skb i"
  by (simp add: skb_trim_def skb_data_def)

lemma h5_cc_prefix_reads:
  assumes "h5_cc_prefix skb w = Inr (Some (skb', opcode))"
  shows "skb_data skb 3 = Inr (ucast opcode)" "skb_data skb 4 = Inr (ucast (drop_bit 8 opcode))" "skb_data skb 5 = Inr 0"
    "cs_opcode (cmd_state w) = opcode"
proof -
  from assms obtain s1 s2 where s: "skb_pull skb 2 = Inr s1" "skb_le16 s1 1 2 = Inr opcode" "skb_pull s1 3 = Inr s2"
      "skb_data s2 0 = Inr 0" "cs_opcode (cmd_state w) = opcode"
    by (auto simp: h5_cc_prefix_def bind_result_eq_Inr split: if_splits)
  with skb_le16_bytes [OF s(2)]
  show "skb_data skb 3 = Inr (ucast opcode)" "skb_data skb 4 = Inr (ucast (drop_bit 8 opcode))" "skb_data skb 5 = Inr 0"
    "cs_opcode (cmd_state w) = opcode"
    by (simp_all add: skb_pull_data [OF s(1)] skb_pull_data [OF s(3)])
qed

text \<open>The event handlers leave the command state alone unless the event completes the awaited command.\<close>

lemma h5_init_cc_fields_state:
  "h5_init_cc_fields skb opcode w = Inr (Some w') \<Longrightarrow> cmd_state w' = cmd_state w \<and> link_estab_state w' = link_estab_state w"
  by (auto simp: h5_init_cc_fields_def Let_def bind_result_eq_Inr split: if_splits)

definition cc_event :: "u16 \<Rightarrow> sk_buff \<Rightarrow> bool" where
  "cc_event opcode skb \<longleftrightarrow> skb_data skb 0 = Inr 0x0e \<and> skb_data skb 3 = Inr (ucast opcode) \<and>
     skb_data skb 4 = Inr (ucast (drop_bit 8 opcode)) \<and> skb_data skb 5 = Inr 0"

lemma h5_cc_prefix_event:
  "h5_cc_prefix skb w = Inr (Some (skb', opcode)) \<Longrightarrow> skb_data skb 0 = Inr 0x0e \<Longrightarrow> cc_event (cs_opcode (cmd_state w)) skb"
  using h5_cc_prefix_reads [of skb w skb' opcode] by (simp add: cc_event_def)

lemma h5_init_hci_cc_state:
  assumes "h5_init_hci_cc skb w = Inr w'"
  shows "(w' = w \<or> (\<exists>r. h5_cc_prefix skb w = Inr (Some r))) \<and> link_estab_state w' = link_estab_state w"
proof -
  from assms obtain r where r: "h5_cc_prefix skb w = Inr r" by (auto simp: h5_init_hci_cc_def bind_result_eq_Inr)
  show ?thesis
  proof (cases r)
    case (Some x)
    obtain s opc where x: "x = (s, opc)" by (cases x)
    let ?w = "w\<lparr>cmd_state := (cmd_state w)\<lparr>cs_state := CMD_STATE_SUCCESS\<rparr>\<rparr>"
    from assms r Some x obtain q where q: "h5_init_cc_fields s opc ?w = Inr q"
        "w' = (case q of None \<Rightarrow> ?w | Some v \<Rightarrow> v\<lparr>num_of_cmd_sent := num_of_cmd_sent v + 1\<rparr>)"
      by (auto simp: h5_init_hci_cc_def bind_result_eq_Inr Let_def split: option.splits)
    with h5_init_cc_fields_state [of s opc ?w] have "link_estab_state w' = link_estab_state w" by (cases q) simp_all
    with r Some show ?thesis by blast
  qed (use assms r in \<open>simp add: h5_init_hci_cc_def\<close>)
qed

lemma h5_post_hci_cc_state:
  assumes "h5_post_hci_cc skb w = Inr w'"
  shows "(w' = w \<or> (\<exists>r. h5_cc_prefix skb w = Inr (Some r))) \<and>
    (link_estab_state w' = link_estab_state w \<or> link_estab_state w' = H5_ACTIVE)"
proof -
  from assms obtain r where r: "h5_cc_prefix skb w = Inr r" by (auto simp: h5_post_hci_cc_def bind_result_eq_Inr)
  show ?thesis
  proof (cases r)
    case (Some x)
    with assms r have "link_estab_state w' = link_estab_state w \<or> link_estab_state w' = H5_ACTIVE"
      by (auto simp: h5_post_hci_cc_def Let_def split: if_splits prod.splits)
    with r Some show ?thesis by blast
  qed (use assms r in \<open>simp add: h5_post_hci_cc_def\<close>)
qed

lemma hci_recv_frame_state:
  assumes "hci_recv_frame skb w = Inr w'"
  shows "(cmd_state w' = cmd_state w \<or> cc_event (cs_opcode (cmd_state w)) skb) \<and>
    (link_estab_state w' = link_estab_state w \<or> link_estab_state w' \<notin> {H5_CONFIG, H5_INIT})"
proof (cases "link_estab_state w")
  case H5_INIT
  from assms H5_INIT consider "w' = w" | "skb_data skb 0 = Inr 0x0e" "h5_init_hci_cc skb w = Inr w'"
    by (auto simp: hci_recv_frame_def bind_result_eq_Inr split: if_splits)
  then show ?thesis
  proof cases
    case 2
    from h5_init_hci_cc_state [OF 2(2)] h5_cc_prefix_event [OF _ 2(1), of w] show ?thesis by (metis surj_pair)
  qed simp
next
  case H5_HCI_RESET
  from assms H5_HCI_RESET consider "w' = w" | "skb_data skb 0 = Inr 0x0e" "h5_post_hci_cc skb w = Inr w'"
    by (auto simp: hci_recv_frame_def bind_result_eq_Inr split: if_splits)
  then show ?thesis
  proof cases
    case 2
    from h5_post_hci_cc_state [OF 2(2)] h5_cc_prefix_event [OF _ 2(1), of w]
    have "cmd_state w' = cmd_state w \<or> cc_event (cs_opcode (cmd_state w)) skb" by (metis surj_pair)
    with h5_post_hci_cc_state [OF 2(2)] show ?thesis by auto
  qed simp
next
  case H5_PATCH
  with assms obtain d0 :: byte where d0: "(if d0 \<noteq> 0x0e then Inr w else bind_result (skb_data skb 6) (\<lambda>d6.
      let w = w\<lparr>rx_index := uint d6\<rparr> in if d6 AND 0x80 \<noteq> 0
      then Inr (w\<lparr>rx_index := uint (d6 AND NOT 0x80), link_estab_state := H5_HCI_RESET\<rparr>) else Inr w)) = Inr w'"
    by (auto simp: hci_recv_frame_def bind_result_eq_Inr)
  then show ?thesis by (auto simp: bind_result_eq_Inr Let_def split: if_splits)
qed (use assms in \<open>simp_all add: hci_recv_frame_def\<close>)

lemma rtb_send_ack_state:
  assumes "rtb_send_ack fd w = Inr w'"
  shows "cmd_state w' = cmd_state w \<and> link_estab_state w' = link_estab_state w"
  by (subst rtb_send_ack_world [OF assms], subst (2) rtb_send_ack_world [OF assms]) simp

lemma h5_handle_internal_rx_state:
  assumes "h5_handle_internal_rx skb w = Inr w'"
  shows "cmd_state w' = cmd_state w"
    and "link_estab_state w' = link_estab_state w \<or>
      link_estab_state w' = H5_CONFIG \<and> skb_data skb 0 = Inr 0x02 \<and> skb_data skb 1 = Inr 0x7d \<or>
      link_estab_state w' = H5_INIT \<and> skb_data skb 0 = Inr 0x04 \<and> skb_data skb 1 = Inr 0x7b"
  using assms
  by (cases "link_estab_state w";
      auto simp: h5_handle_internal_rx_def bind_result_eq_Inr Let_def link_pkt_defs log_write_def split: if_splits
        dest!: rtb_send_ack_state)+


text \<open>Delivery of a complete packet: the wait is over afterwards only if the packet is the answer.\<close>

lemma h5_rx_deliver_answers:
  assumes "h5_rx_deliver skb h1 w = Inr w'" "\<not> stw_done op w" "stw_done op w'"
  shows "answers op skb"
proof -
  note m = returnsD [OF h5_rx_deliver_moves assms(1)]
  then have opc: "cs_opcode (cmd_state w') = cs_opcode (cmd_state w)" by (simp add: rx_moves_def same_host_def)
  from assms have "w' \<noteq> w" by auto
  with assms(1) obtain s where s: "skb_pull skb 4 = Inr s"
      "hci_recv_frame s w = Inr w' \<or> h5_handle_internal_rx s w = Inr w'"
    by (auto simp: h5_rx_deliver_def Let_def bind_result_eq_Inr H5_HDR_SIZE_def split: if_splits)
  have d: "skb_data s i = skb_data skb (4 + i)" for i by (rule skb_pull_data [OF s(1)])
  from s(2) show ?thesis
  proof
    assume r: "hci_recv_frame s w = Inr w'"
    with hci_recv_frame_state [OF r] assms(2,3) opc show ?thesis
      by (auto simp: answers_def stw_done_def cc_event_def d split: if_splits)
  next
    assume r: "h5_handle_internal_rx s w = Inr w'"
    with h5_handle_internal_rx_state [OF r] assms(2,3) opc show ?thesis
      by (auto simp: answers_def stw_done_def d op_defs split: if_splits)
  qed
qed

lemma stw_done_rx [simp]:
  "stw_done op (w\<lparr>is_txack_req := a\<rparr>) = stw_done op w" "stw_done op (w\<lparr>rx_state := s\<rparr>) = stw_done op w"
  "stw_done op (w\<lparr>rx_count := n\<rparr>) = stw_done op w" "stw_done op (w\<lparr>rxseq_txack := a\<rparr>) = stw_done op w"
  "stw_done op (w\<lparr>rx_esc_state := e\<rparr>) = stw_done op w" "stw_done op (w\<lparr>message_crc := c\<rparr>) = stw_done op w"
  "stw_done op (w\<lparr>mallocs := m\<rparr>) = stw_done op w" "stw_done op (h5_rx_bookkeep h0 w) = stw_done op w"
  by (simp_all add: stw_done_def h5_rx_bookkeep_def Let_def)

lemma h5_complete_answers:
  assumes "h5_complete_rx_pkt w = Inr w'" "\<not> stw_done op w" "stw_done op w'"
  obtains skb where "rx_skb w = SkbLive skb" "answers op skb"
proof -
  from assms(1) obtain skb h0 h1 w1 w2 where w: "deref (rx_skb w) = Inr skb"
      "h5_rx_deliver skb h1 (h5_rx_bookkeep h0 w) = Inr w1" "h5_rx_ack w1 = Inr w2" "h5_rx_release w2 = Inr w'"
    by (auto simp: h5_complete_rx_pkt_def bind_result_eq_Inr)
  have "stw_done op w2 = stw_done op w1"
    using w(3) by (auto simp: h5_rx_ack_def bind_result_eq_Inr stw_done_def dest!: rtb_send_ack_state split: if_splits)
  moreover have "stw_done op w' = stw_done op w2" using w(4) by (auto simp: h5_rx_release_def bind_result_eq_Inr)
  ultimately have "stw_done op w1" using assms(3) by simp
  with h5_rx_deliver_answers [OF w(2)] assms(2) have "answers op skb" by simp
  moreover have "rx_skb w = SkbLive skb" using w(1) by (cases "rx_skb w") (simp_all add: deref_def)
  ultimately show thesis by (rule that [rotated])
qed

lemma h5_recv_crc_answers:
  assumes "h5_recv_crc w = Inr w'" "\<not> stw_done op w" "stw_done op w'"
  obtains skb where "rx_skb w = SkbLive skb" "answers op skb"
proof -
  have "stw_done op w' = stw_done op w" if "h5_drop_rx w = Inr w'"
    using that by (auto simp: h5_drop_rx_def bind_result_eq_Inr)
  with assms obtain skb n where s: "deref (rx_skb w) = Inr skb"
      "h5_complete_rx_pkt (w\<lparr>rx_skb := SkbLive (skb_trim skb n)\<rparr>) = Inr w'"
    by (auto simp: h5_recv_crc_def bind_result_eq_Inr split: if_splits)
  have "rx_skb w = SkbLive skb" using s(1) by (cases "rx_skb w") (simp_all add: deref_def)
  moreover have "answers op skb"
  proof (rule h5_complete_answers [OF s(2)])
    show "\<not> stw_done op (w\<lparr>rx_skb := SkbLive (skb_trim skb n)\<rparr>)" using assms(2) by simp
  qed (use assms(3) in \<open>auto simp: answers_def\<close>)
  ultimately show thesis by (rule that)
qed

lemma h5_recv_iter_answers:
  assumes "h5_recv_iter w b = Inr (act, w')" "\<not> stw_done op w" "stw_done op w'"
  obtains skb where "rx_count w = 0" "rx_skb w = SkbLive skb" "answers op skb"
proof -
  have un: "stw_done op w' = stw_done op w" if "h5_unslip_one_byte w b = Inr w'"
    using that by (auto simp: h5_unslip_one_byte_def rx_store_byte_def bind_result_eq_Inr Let_def
        simp del: split_paired_Ex split: h5_rx_esc_state.splits if_splits)
  have hd: "stw_done op w' = stw_done op w" if "h5_recv_hdr w = Inr w'"
  proof -
    have "returns (\<lambda>w'. stw_done op w' = stw_done op w) (h5_recv_hdr w)"
      by (auto simp: h5_recv_hdr_def h5_drop_rx_def intro!: returnsI)
    from returnsD [OF this that] show ?thesis .
  qed
  have st: "stw_done op (snd (h5_recv_start w)) = stw_done op w"
    by (simp add: h5_recv_start_def next_malloc_eq Let_def split: option.splits)
  have cnt: "rx_count w = 0"
  proof (rule ccontr)
    assume "rx_count w \<noteq> 0"
    with assms(1) have "h5_unslip_one_byte w b = Inr w' \<or> stw_done op w' = stw_done op w"
      by (auto simp: h5_recv_iter_def bind_result_eq_Inr split: if_splits)
    with un assms(2,3) show False by blast
  qed
  with assms(1) have "h5_complete_rx_pkt w = Inr w' \<or> h5_recv_crc w = Inr w' \<or> h5_recv_hdr w = Inr w' \<or>
      w' = snd (h5_recv_start w) \<or> stw_done op w' = stw_done op w"
    by (cases "rx_state w") (auto simp: h5_recv_iter_def bind_result_eq_Inr split: if_splits)
  with hd st assms(2,3) have "h5_complete_rx_pkt w = Inr w' \<or> h5_recv_crc w = Inr w'" by blast
  then obtain skb where "rx_skb w = SkbLive skb" "answers op skb"
    using h5_complete_answers [OF _ assms(2,3)] h5_recv_crc_answers [OF _ assms(2,3)] by blast
  with cnt show thesis by (rule that)
qed


text \<open>The receive loop as a step relation on the state and the bytes still to come.\<close>

inductive rx_step :: "world \<times> byte list \<Rightarrow> world \<times> byte list \<Rightarrow> bool" where
  rx_consume: "h5_recv_iter w b = Inr (RxConsume, w') \<Longrightarrow> rx_step (w, b # bs) (w', bs)"
| rx_keep: "h5_recv_iter w b = Inr (RxKeep, w') \<Longrightarrow> rx_step (w, b # bs) (w', b # bs)"

text \<open>A read in which the answer to an operation is received: the loop over its bytes comes to a complete packet
  that answers the operation, before which the wait was not over.\<close>

definition answer_read :: "u32 \<Rightarrow> world \<Rightarrow> byte list \<Rightarrow> bool" where
  "answer_read op w bs \<longleftrightarrow>
     (\<exists>v b rest skb. rx_step\<^sup>*\<^sup>* (w, bs) (v, b # rest) \<and> \<not> stw_done op v \<and> rx_count v = 0 \<and>
        rx_skb v = SkbLive skb \<and> answers op skb)"

lemma answer_read_step: "rx_step (w, bs) (w', bs') \<Longrightarrow> answer_read op w' bs' \<Longrightarrow> answer_read op w bs"
  unfolding answer_read_def by (meson converse_rtranclp_into_rtranclp)

lemma h5_recv_answer_read:
  "h5_recv w bs = Inr w' \<Longrightarrow> \<not> stw_done op w \<Longrightarrow> stw_done op w' \<Longrightarrow> answer_read op w bs"
proof (induction w bs rule: h5_recv.induct)
  case (2 w b bs)
  from "2.prems"(1) obtain act v where v: "h5_recv_iter w b = Inr (act, v)"
      "(case act of RxConsume \<Rightarrow> h5_recv v bs | RxKeep \<Rightarrow> h5_recv v (b # bs) | RxReturn \<Rightarrow> Inr v) = Inr w'"
    by (auto simp: h5_recv.simps(2) [of w] bind_result_eq_Inr)
  show ?case
  proof (cases "stw_done op v")
    case True
    obtain skb where "rx_count w = 0" "rx_skb w = SkbLive skb" "answers op skb"
      by (rule h5_recv_iter_answers [OF v(1) "2.prems"(2) True])
    with "2.prems"(2) show ?thesis unfolding answer_read_def using rtranclp.rtrancl_refl by metis
  next
    case False
    show ?thesis
    proof (cases act)
      case RxConsume
      then have "h5_recv v bs = Inr w'" using v(2) by (simp only: rx_action.case)
      from "2.IH"(1) [OF v(1) refl RxConsume this False "2.prems"(3)] have "answer_read op v bs" .
      with v(1) RxConsume show ?thesis using answer_read_step rx_consume by blast
    next
      case RxKeep
      then have "h5_recv v (b # bs) = Inr w'" using v(2) by (simp only: rx_action.case)
      from "2.IH"(2) [OF v(1) refl RxKeep this False "2.prems"(3)] have "answer_read op v (b # bs)" .
      with v(1) RxKeep show ?thesis using answer_read_step rx_keep by blast
    qed (use v(2) "2.prems"(3) False in simp)
  qed
qed simp

text \<open>The wait as a step relation on the events still to be handled and the state.\<close>

inductive wait_step :: "int \<Rightarrow> byte list \<Rightarrow> nat \<Rightarrow> ep_event list \<times> world \<Rightarrow> ep_event list \<times> world \<Rightarrow> bool" for fd pkt msec where
  wait_poll: "polls w = EpEvents evs # ps \<Longrightarrow> wait_step fd pkt msec ([], w) (evs, w\<lparr>polls := ps\<rparr>)"
| wait_read: "h5_recv w (take 128 bs) = Inr w' \<Longrightarrow> wait_step fd pkt msec (EvSerial bs # evs, w) (evs, w')"
| wait_other: "wait_step fd pkt msec (EvOther # evs, w) (evs, w)"
| wait_unread: "wait_step fd pkt msec (EvTimer False # evs, w) ([], w)"
| wait_resend: "writev_loop fd pkt w = (err, v) \<Longrightarrow> err \<ge> 0 \<Longrightarrow>
    wait_step fd pkt msec (EvTimer True # evs, w) (evs, timeout_set msec v)"

text \<open>On the way from one point of the wait to another, a read brought the answer.\<close>

definition answered :: "int \<Rightarrow> byte list \<Rightarrow> nat \<Rightarrow> u32 \<Rightarrow> ep_event list \<times> world \<Rightarrow> ep_event list \<times> world \<Rightarrow> bool" where
  "answered fd pkt msec op c d \<longleftrightarrow>
     (\<exists>bs evs v. (wait_step fd pkt msec)\<^sup>*\<^sup>* c (EvSerial bs # evs, v) \<and> answer_read op v (take 128 bs) \<and>
        (wait_step fd pkt msec)\<^sup>+\<^sup>+ (EvSerial bs # evs, v) d)"

lemma answered_step: "wait_step fd pkt msec c c' \<Longrightarrow> answered fd pkt msec op c' d \<Longrightarrow> answered fd pkt msec op c d"
  unfolding answered_def by (meson converse_rtranclp_into_rtranclp)

lemma answered_steps: "(wait_step fd pkt msec)\<^sup>*\<^sup>* c c' \<Longrightarrow> answered fd pkt msec op c' d \<Longrightarrow> answered fd pkt msec op c d"
  by (induction rule: converse_rtranclp_induct) (auto intro: answered_step)

lemma stw_events_polls: "returns (\<lambda>(r, n, w'). polls w' = polls w) (stw_events fd pkt msec evs retry w)"
proof (induction fd pkt msec evs retry w rule: stw_events.induct)
  case (2 fd pkt msec bs evs retry w)
  show ?case
  proof (cases "bs = []")
    case False
    have "returns (\<lambda>(r, n, w'). polls w' = polls w) (stw_events fd pkt msec evs retry v)"
      if v: "h5_recv w (take 128 bs) = Inr v" for v
      using "2.IH"(2) [OF False v] returnsD [OF h5_recv_moves v] by (simp add: rx_moves_def same_host_def)
    with False show ?thesis by (simp add: returnsI)
  qed (use 2 in simp)
next
  case (6 fd pkt msec ok evs retry w)
  obtain err v where v: "writev_loop fd pkt w = (err, v)" by (cases "writev_loop fd pkt w")
  then have "polls v = polls w" by (auto simp: writev_loop_def split: prod.splits)
  with 6 v show ?case by (auto simp: timeout_set_def)
qed simp_all

text \<open>One \<open>epoll_wait\<close>: its events are handled in steps of the relation, and if the wait is over afterwards and was
  not before, one of the reads brought the answer.\<close>

lemma stw_events_answered:
  assumes "stw_events fd pkt msec evs retry w = Inr (None, retry', w')"
  shows "(wait_step fd pkt msec)\<^sup>*\<^sup>* (evs, w) ([], w') \<and>
    (\<not> stw_done op w \<longrightarrow> stw_done op w' \<longrightarrow> answered fd pkt msec op (evs, w) ([], w'))"
  using assms
proof (induction fd pkt msec evs retry w rule: stw_events.induct)
  case (2 fd pkt msec bs evs retry w)
  obtain v where v: "h5_recv w (take 128 bs) = Inr v" "stw_events fd pkt msec evs retry v = Inr (None, retry', w')"
    using "2.prems" by (auto simp: bind_result_eq_Inr split: if_splits)
  have st: "wait_step fd pkt msec (EvSerial bs # evs, w) (evs, v)" using v(1) by (rule wait_read)
  have IH: "(wait_step fd pkt msec)\<^sup>*\<^sup>* (evs, v) ([], w') \<and>
    (\<not> stw_done op v \<longrightarrow> stw_done op w' \<longrightarrow> answered fd pkt msec op (evs, v) ([], w'))"
  proof (cases "bs = []")
    case True
    with v "2.IH"(1) show ?thesis by simp
  next
    case False
    with v "2.IH"(2) show ?thesis by blast
  qed
  have "(wait_step fd pkt msec)\<^sup>+\<^sup>+ (EvSerial bs # evs, w) ([], w')" using st IH by (meson rtranclp_into_tranclp2)
  then have "answered fd pkt msec op (EvSerial bs # evs, w) ([], w')" if "\<not> stw_done op w" "stw_done op v"
    unfolding answered_def using h5_recv_answer_read [OF v(1) that] by blast
  with IH st show ?case by (blast intro: converse_rtranclp_into_rtranclp answered_step)
next
  case (5 fd pkt msec evs retry w)
  then show ?case by (auto intro: converse_rtranclp_into_rtranclp answered_step wait_other)
next
  case (6 fd pkt msec ok evs retry w)
  show ?case
  proof (cases ok)
    case True
    obtain err v where v: "writev_loop fd pkt w = (err, v)" by (cases "writev_loop fd pkt w")
    from 6 True v have e: "\<not> retry \<le> 0" "\<not> err < 0" "stw_events fd pkt msec evs (retry - 1) (timeout_set msec v) = Inr (None, retry', w')"
      by (auto split: if_splits)
    from "6.IH" [OF _ e(1) v [symmetric] e(2) e(3)] True
    have IH: "(wait_step fd pkt msec)\<^sup>*\<^sup>* (evs, timeout_set msec v) ([], w') \<and>
      (\<not> stw_done op (timeout_set msec v) \<longrightarrow> stw_done op w' \<longrightarrow> answered fd pkt msec op (evs, timeout_set msec v) ([], w'))" by blast
    have "wait_step fd pkt msec (EvTimer ok # evs, w) (evs, timeout_set msec v)"
      using wait_resend [OF v, of msec evs] e(2) True by simp
    with IH stw_done_writev [OF v, of op] show ?thesis
      by (auto intro: converse_rtranclp_into_rtranclp answered_step)
  next
    case False
    with 6 show ?thesis by (auto intro: wait_unread)
  qed
qed auto


lemma stw_loop_answered:
  assumes "stw_loop fd pkt op msec (polls w) retry w = Inr (rc, w')" "rc = 0"
  shows "\<exists>u. w' = timeout_set 0 u \<and> (stw_done op w \<or> answered fd pkt msec op ([], w) ([], u))"
  using assms
proof (induction "length (polls w)" arbitrary: retry w rule: less_induct)
  case less
  from less.prems obtain evs ps where ps: "polls w = EpEvents evs # ps"
    by (cases "polls w"; cases "hd (polls w)") auto
  let ?w = "w\<lparr>polls := ps\<rparr>"
  from less.prems obtain r n v where v: "stw_events fd pkt msec evs retry ?w = Inr (r, n, v)"
      "(case r of Some err \<Rightarrow> Inr (err, v) | None \<Rightarrow> if stw_done op v then Inr (0, timeout_set 0 v)
         else stw_loop fd pkt op msec ps n v) = Inr (rc, w')"
    by (auto simp: ps bind_result_eq_Inr)
  have post: "ev_post ?w (r, n, v)" by (rule returnsD [OF stw_events_post v(1)])
  then have r: "r = None" using v(2) less.prems(2) by (cases r) auto
  have pv: "polls v = ps" using returnsD [OF stw_events_polls v(1)] by simp
  note ev = stw_events_answered [OF v(1) [unfolded r], of op]
  have st: "wait_step fd pkt msec ([], w) (evs, ?w)" using ps by (rule wait_poll)
  show ?case
  proof (cases "stw_done op v")
    case True
    with ev have "stw_done op ?w \<or> answered fd pkt msec op (evs, ?w) ([], v)" by blast
    with st have "stw_done op w \<or> answered fd pkt msec op ([], w) ([], v)" by (auto intro: answered_step)
    moreover have "w' = timeout_set 0 v" using v(2) r True by simp
    ultimately show ?thesis by blast
  next
    case False
    with v(2) r less.hyps [of v n] less.prems(2) pv ps obtain u where
        u: "w' = timeout_set 0 u" "answered fd pkt msec op ([], v) ([], u)" by auto
    from ev u(2) have "answered fd pkt msec op (evs, ?w) ([], u)" by (blast intro: answered_steps)
    with st u(1) show ?thesis by (blast intro: answered_step)
  qed
qed

section \<open>Properties: transfers\<close>

text \<open>(C24) A transfer returns success only when its answer was received during the call. For a command, the command
  was the awaited one and still unanswered when the call began, the packet was written, and among the events
  handled after that there is a serial read in which the receive loop comes to a complete packet whose payload is a
  command-complete event with the opcode and a zero status. For the two link operations the same holds with the
  response of the peer, unless the link was already in the state the operation leads to. Afterwards the command is
  marked successful or the link is in that state, and the retransmission timer is disarmed. Every other return value
  is negative, and the sequence number of the transmitter never changes during a wait.\<close>

theorem start_transmit_wait_sound:
  assumes "start_transmit_wait fd skb op msec retry w = Inr (rc, w')"
  shows "rc \<le> 0 \<and> msgq_txseq w' = msgq_txseq w \<and>
    (rc = 0 \<longrightarrow> armed w' = 0 \<and>
      (if op_is_cmd op
       then cs_opcode (cmd_state w) = op_opcode op \<and> cs_state (cmd_state w) = CMD_STATE_UNKNOWN \<and>
            cs_opcode (cmd_state w') = op_opcode op \<and> cs_state (cmd_state w') = CMD_STATE_SUCCESS
       else op = OP_H5_SYNC \<and> link_estab_state w' = H5_CONFIG \<or> op = OP_H5_CONFIG \<and> link_estab_state w' = H5_INIT) \<and>
      (\<exists>s v u. skb = Some s \<and> writev_loop fd (skb_bytes s) w = (0, v) \<and> w' = timeout_set 0 u \<and>
         (\<not> op_is_cmd op \<and> stw_done op w \<or> answered fd (skb_bytes s) msec op ([], timeout_arm msec v) ([], u))))"
proof -
  note base = returnsD [OF start_transmit_wait_moves assms]
  have ex: "\<exists>s v u. skb = Some s \<and> writev_loop fd (skb_bytes s) w = (0, v) \<and> w' = timeout_set 0 u \<and>
      (op_is_cmd op \<longrightarrow> cs_opcode (cmd_state w) = op_opcode op \<and> cs_state (cmd_state w) = CMD_STATE_UNKNOWN) \<and>
      (stw_done op w \<or> answered fd (skb_bytes s) msec op ([], timeout_arm msec v) ([], u))" if rc: "rc = 0"
  proof -
    from assms rc obtain s where s: "skb = Some s" by (cases skb) (simp_all add: start_transmit_wait_def)
    obtain err v where v: "writev_loop fd (skb_bytes s) w = (err, v)" by (cases "writev_loop fd (skb_bytes s) w")
    from assms rc s v have g: "op_is_cmd op \<longrightarrow> cs_opcode (cmd_state w) = op_opcode op \<and> cs_state (cmd_state w) = CMD_STATE_UNKNOWN"
        "err = 0" "stw_loop fd (skb_bytes s) op msec (polls (timeout_arm msec v)) retry (timeout_arm msec v) = Inr (0, w')"
      using writev_loop_moves [OF v] by (auto simp: start_transmit_wait_def Let_def split: if_splits)
    from stw_loop_answered [OF g(3) refl] stw_done_writev [OF v, of op] obtain u where
      "w' = timeout_set 0 u" "stw_done op w \<or> answered fd (skb_bytes s) msec op ([], timeout_arm msec v) ([], u)" by auto
    with s v g show ?thesis by auto
  qed
  have fresh: "\<not> stw_done op w" if "op_is_cmd op" "cs_state (cmd_state w) = CMD_STATE_UNKNOWN"
    using that by (simp add: stw_done_def CMD_STATE_UNKNOWN_def CMD_STATE_SUCCESS_def)
  have fin: "(if op_is_cmd op then cs_opcode (cmd_state w') = op_opcode op \<and> cs_state (cmd_state w') = CMD_STATE_SUCCESS
      else op = OP_H5_SYNC \<and> link_estab_state w' = H5_CONFIG \<or> op = OP_H5_CONFIG \<and> link_estab_state w' = H5_INIT)"
      "armed w' = 0" if "rc = 0"
    using base that by (auto simp: stw_done_def split: if_splits)
  have "rc \<le> 0 \<and> msgq_txseq w' = msgq_txseq w" using base by (simp add: tx_moves_def)
  then show ?thesis using fin ex fresh by (cases "op_is_cmd op") (simp_all, blast+)
qed

definition sync_world :: world where
  "sync_world = rtb_zero\<lparr>serial_fd := 3, timerfd := 4,
     polls := [EpEvents [EvTimer True], EpEvents [EvSerial sync_resp_frame]]\<rparr>"

definition one_byte_skb :: sk_buff where
  "one_byte_skb = \<lparr>max_len = 1, data_len = 1, data_off = 0, mem = (\<lambda>_. 0)\<rparr>"

lemma sync_world_facts: "wr_rets sync_world = []" "timerfd sync_world > 0" "\<not> stw_done OP_H5_SYNC sync_world"
  "polls sync_world = replicate 1 (EpEvents [EvTimer True]) @ EpEvents [EvSerial sync_resp_frame] # []"
  by (simp_all add: sync_world_def rtb_zero_def link_ops)

definition rom_cmd_world :: world where
  "rom_cmd_world = rtb_zero\<lparr>serial_fd := 3, timerfd := 4, link_estab_state := H5_INIT,
     cmd_state := \<lparr>cs_opcode = HCI_VENDOR_READ_ROM_VER, cs_subopcode = 0, cs_state = CMD_STATE_UNKNOWN\<rparr>,
     polls := [EpEvents [EvTimer True],
       EpEvents [EvSerial [0xc0, 0x00, 0x74, 0x00, 0x8b, 0x0e, 0x05, 0x01, 0x6d, 0xfc, 0x00, 0x02, 0xc0]]]\<rparr>"

lemma rom_cmd_run:
  "\<exists>w'. start_transmit_wait 3 (Some one_byte_skb) OP_ROM_VER 500 10 rom_cmd_world = Inr (0, w')"
  by (simp add: rom_cmd_world_def one_byte_skb_def rtb_zero_def h5_init_hci_cc_def h5_init_cc_fields_def h5_eval xfer_eval_defs)

theorem start_transmit_wait_sound_witness:
  "\<exists>w' v u. start_transmit_wait 3 (Some one_byte_skb) OP_ROM_VER 500 10 rom_cmd_world = Inr (0, w') \<and> w' = timeout_set 0 u \<and>
    armed w' = 0 \<and> cs_state (cmd_state w') = CMD_STATE_SUCCESS \<and>
    writev_loop 3 (skb_bytes one_byte_skb) rom_cmd_world = (0, v) \<and>
    answered 3 (skb_bytes one_byte_skb) 500 OP_ROM_VER ([], timeout_arm 500 v) ([], u)"
proof -
  obtain w' where w': "start_transmit_wait 3 (Some one_byte_skb) OP_ROM_VER 500 10 rom_cmd_world = Inr (0, w')"
    using rom_cmd_run by blast
  have "op_is_cmd OP_ROM_VER" by (simp add: op_is_cmd_def op_defs opcode_defs)
  with w' start_transmit_wait_sound [OF w'] show ?thesis by auto
qed

text \<open>Retransmission: when \<open>k\<close> timeouts precede the answer, the packet has been written \<open>k + 1\<close> times,
  unchanged, and the answer is processed; more timeouts than the retry count end the tool.\<close>

theorem start_transmit_wait_retries:
  assumes "fd \<noteq> - 1" "wr_rets w = []" "timerfd w > 0" "\<not> stw_done op w" "bs \<noteq> []"
    and guard: "op_is_cmd op \<Longrightarrow> op_opcode op = cs_opcode (cmd_state w) \<and> cs_state (cmd_state w) = CMD_STATE_UNKNOWN"
    and script: "polls w = replicate k (EpEvents [EvTimer True]) @ EpEvents [EvSerial bs] # ps"
    and w1: "w1 = w\<lparr>polls := ps, wlog := wlog w @ replicate (Suc k) (fd, skb_bytes skb), armed := msec\<rparr>"
  shows "start_transmit_wait fd (Some skb) op msec (int n) w =
    (if n < k then Inl ExitFailure
     else bind_result (h5_recv w1 (take 128 bs)) (\<lambda>w2.
       if stw_done op w2 then Inr (0, timeout_set 0 w2)
       else stw_loop fd (skb_bytes skb) op msec ps (int (n - k)) w2))"
  using assms by (rule transmit_retries)

theorem start_transmit_wait_retries_witness:
  "start_transmit_wait 3 (Some one_byte_skb) OP_H5_SYNC 500 (int 10) sync_world =
      bind_result (h5_recv (sync_world\<lparr>polls := [],
          wlog := wlog sync_world @ replicate (Suc 1) (3, skb_bytes one_byte_skb), armed := 500\<rparr>)
        (take 128 sync_resp_frame)) (\<lambda>w2.
        if stw_done OP_H5_SYNC w2 then Inr (0, timeout_set 0 w2)
        else stw_loop 3 (skb_bytes one_byte_skb) OP_H5_SYNC 500 [] (int (10 - 1)) w2)"
proof -
  have "\<not> 10 < (1 :: nat)" "(3 :: int) \<noteq> - 1" by simp_all
  with start_transmit_wait_retries [OF _ sync_world_facts(1-3) length_resp_frames(3) _ sync_world_facts(4) refl,
      where fd = 3 and skb = one_byte_skb and msec = 500 and n = 10] link_ops(1)
  show ?thesis by (simp only: if_False) blast
qed

text \<open>(C23) Link establishment completes: with a controller that answers the sync and the config request, each
  after at most ten timeouts, \<open>rtb_init_h5\<close> returns success with the link initialised, even parity set,
  the timer disarmed and the checksum used exactly when the controller agreed to it.\<close>

theorem rtb_init_h5_completes:
  assumes "rx_idle w" "mem_ok w" "fd \<noteq> - 1" "wr_rets w = []" "timerfd w > 0" "tcsets w = []"
    and "polls w = replicate k1 (EpEvents [EvTimer True]) @ EpEvents [EvSerial sync_resp_frame] #
        replicate k2 (EpEvents [EvTimer True]) @ EpEvents [EvSerial (conf_resp_frame cfg)] # ps" "k1 \<le> 10" "k2 \<le> 10"
  shows "\<exists>w'. rtb_init_h5 fd w = Inr (0, w') \<and> link_estab_state w' = H5_INIT \<and>
    use_crc w' = drop_bit 4 cfg AND 0x01 \<and> t_parenb (tio_applied w') \<and> \<not> t_parodd (tio_applied w') \<and>
    armed w' = 0 \<and> polls w' = ps \<and> cs_state (cmd_state w') = CMD_STATE_UNKNOWN"
proof -
  let ?t = "(tio w)\<lparr>t_crtscts := False, t_parenb := True, t_parodd := False\<rparr>"
  let ?w0 = "w\<lparr>tio := ?t, tio_applied := ?t\<rparr>"
  have tc: "tcsetattr (w\<lparr>tio := ?t\<rparr>) = (True, ?w0)" using assms(6) by (simp add: tcsetattr_def)
  let ?ws = "?w0\<lparr>link_estab_state := H5_SYNC\<rparr>"
  let ?rest = "replicate k2 (EpEvents [EvTimer True]) @ EpEvents [EvSerial (conf_resp_frame cfg)] # ps"
  from assms have ws: "rx_idle ?ws" "mem_ok ?ws" "wr_rets ?ws = []" "timerfd ?ws > 0" "link_estab_state ?ws = H5_SYNC"
      "polls ?ws = replicate k1 (EpEvents [EvTimer True]) @ EpEvents [EvSerial sync_resp_frame] # ?rest"
    by (simp_all add: rx_idle_def mem_ok_def)
  obtain nskb w1 w2 where sync: "h5_prepare_pkt ?ws [0x01, 0x7E] 2 H5_LINK_CTL_PKT = Inr (nskb, w1)"
    "start_transmit_wait fd nskb OP_H5_SYNC 500 10 w1 = Inr (0, w2)" "link_estab_state w2 = H5_CONFIG"
    "polls w2 = replicate k2 (EpEvents [EvTimer True]) @ EpEvents [EvSerial (conf_resp_frame cfg)] # ps"
    "rx_idle w2" "mem_ok w2" "wr_rets w2 = []" "timerfd w2 = timerfd w" "tio_applied w2 = ?t"
    by (rule init_h5_sync [OF ws(1,2) assms(3) ws(3-6) assms(8)]) (rule that; simp)
  have "timerfd w2 > 0" using sync(8) assms(5) by simp
  then obtain nskb' w3 w4 where conf: "h5_prepare_pkt w2 [0x03, 0xFC, 0x14] 3 H5_LINK_CTL_PKT = Inr (nskb', w3)"
    "start_transmit_wait fd nskb' OP_H5_CONFIG 500 10 w3 = Inr (0, w4)" "link_estab_state w4 = H5_INIT" "polls w4 = ps"
    "use_crc w4 = drop_bit 4 cfg AND 0x01" "mem_ok w4" "tio_applied w4 = ?t" "armed w4 = 0"
    by (rule init_h5_config [OF sync(5,6) assms(3) sync(7) _ sync(3,4) assms(9)]) (rule that; simp add: sync(9))
  show ?thesis
    using conf(3-8) by (simp add: rtb_init_h5_def tc sync(1,2) conf(1,2) rtb_send_ack_ok [OF conf(6)])
qed

theorem rtb_init_h5_completes_witness:
  "\<exists>w'. rtb_init_h5 3 (rtb_zero\<lparr>timerfd := 4, polls := [EpEvents [EvTimer True], EpEvents [EvSerial sync_resp_frame],
        EpEvents [EvSerial (conf_resp_frame 0x10)]]\<rparr>) = Inr (0, w') \<and>
    link_estab_state w' = H5_INIT \<and> use_crc w' = 1"
  using rtb_init_h5_completes [where w = "rtb_zero\<lparr>timerfd := 4, polls := [EpEvents [EvTimer True],
      EpEvents [EvSerial sync_resp_frame], EpEvents [EvSerial (conf_resp_frame 0x10)]]\<rparr>"
      and fd = 3 and ?k1.0 = 1 and ?k2.0 = 0 and cfg = "0x10" and ps = "[]"]
  by (auto simp: rtb_zero_def rx_idle_def mem_ok_def)

end
