(* ===== verification/H4_Xfer.thy ===== *)
theory H4_Xfer
  imports H5_Xfer
begin

text \<open>
  Command transfer over the plain four-wire transport (\<open>rtk_hciattach/hciattach_h4.c\<close>):
  \<open>start_xfer_wait\<close> with its three reading states, and the commands built on it. The script
  \<open>polls4\<close> of the \<open>world\<close> record supplies the outcome of each \<open>poll\<close> and of the \<open>read\<close> after it.
\<close>

section \<open>One transfer\<close>

text \<open>\<open>write\<close> once: whether all bytes were taken.\<close>

definition write_once :: "int \<Rightarrow> byte list \<Rightarrow> world \<Rightarrow> bool \<times> world" where
  "write_once fd bs w =
     (case wr_rets w of
        [] \<Rightarrow> (True, log_write fd bs w)
      | WrOk # rs \<Rightarrow> (True, log_write fd bs (w\<lparr>wr_rets := rs\<rparr>))
      | WrShort n # rs \<Rightarrow> (length bs \<le> n, log_write fd (take n bs) (w\<lparr>wr_rets := rs\<rparr>))
      | _ # rs \<Rightarrow> (False, w\<lparr>wr_rets := rs\<rparr>))"

text \<open>
  The variables of the receiving loop: the 64-byte buffer, the state (packet type, header or
  parameters), the bytes received and the parameter bytes outstanding.
\<close>

datatype x_state = XType | XHeader | XParams

record xfer =
  x_buf :: "byte list"
  x_state :: x_state
  x_count :: nat
  x_params :: nat

definition XFER_BUF :: nat where "XFER_BUF = 64"

definition xfer_start :: xfer where
  "xfer_start = \<lparr>x_buf = replicate XFER_BUF 0, x_state = XType, x_count = 0, x_params = 0\<rparr>"

text \<open>\<open>read\<close> of the given bytes to \<open>buf + pos\<close>.\<close>

definition buf_store :: "nat \<Rightarrow> byte list \<Rightarrow> byte list \<Rightarrow> byte list result" where
  "buf_store pos bs buf =
     (if pos + length bs \<le> length buf then Inr (take pos buf @ bs @ drop (pos + length bs) buf)
      else Inl OutOfBounds)"

text \<open>
  One \<open>read\<close> of the loop. The loop goes on (\<open>Go\<close>), or is left with the variable \<open>result\<close> below zero
  (\<open>Fail\<close>) or not (\<open>Packet\<close>). A header read that returns fewer than two bytes is reported as an error
  but leaves \<open>result\<close> at its non-negative count.
\<close>

datatype xfer_out = Go xfer | Fail | Packet xfer

definition xfer_read :: "byte list option \<Rightarrow> xfer \<Rightarrow> xfer_out result" where
  "xfer_read r st =
     (case x_state st of
        XType \<Rightarrow>
          (case map_option (take 1) r of
             Some [b] \<Rightarrow>
               bind_result (buf_store 0 [b] (x_buf st)) (\<lambda>buf.
                 Inr (Go (if b = 0x04 then st\<lparr>x_buf := buf, x_count := 1, x_state := XHeader\<rparr>
                          else st\<lparr>x_buf := buf\<rparr>)))
           | _ \<Rightarrow> Inr Fail)
      | XHeader \<Rightarrow>
          (case map_option (take 2) r of
             None \<Rightarrow> Inr Fail
           | Some bs \<Rightarrow>
               bind_result (buf_store (x_count st) bs (x_buf st)) (\<lambda>buf.
                 if length bs \<noteq> 2 then Inr (Packet (st\<lparr>x_buf := buf\<rparr>))
                 else let n = unat (buf ! 2);
                          st = st\<lparr>x_buf := buf, x_count := x_count st + 2, x_state := XParams, x_params := n\<rparr>
                      in Inr (if n + 3 > XFER_BUF then Fail else Go st)))
      | XParams \<Rightarrow>
          (case map_option (take (x_params st)) r of
             None \<Rightarrow> Inr Fail
           | Some bs \<Rightarrow>
               bind_result (buf_store (x_count st) bs (x_buf st)) (\<lambda>buf.
                 let st = st\<lparr>x_buf := buf, x_count := x_count st + length bs, x_params := x_params st - length bs\<rparr>
                 in Inr (if x_params st = 0 then Packet st else Go st))))"

text \<open>
  The evaluation of a packet: \<open>None\<close> is the jump back to \<open>start_recv\<close> for an unexpected event. The
  response is copied up to the length the caller offers (\<open>None\<close> for a null pointer).
\<close>

definition xfer_eval :: "u16 \<Rightarrow> nat option \<Rightarrow> xfer \<Rightarrow> (int \<times> byte list) option" where
  "xfer_eval opcode resp_len st =
     (let buf = x_buf st in
      if buf ! 1 = 0x0e then
        let tmp_opcode = (ucast (buf ! 4) OR push_bit 8 (ucast (buf ! 5)) :: u16) in
        Some (if tmp_opcode = opcode then
                if buf ! 6 \<noteq> 0 then (- 1, [])
                else case resp_len of None \<Rightarrow> (0, []) | Some n \<Rightarrow> (0, take (min n (x_count st)) buf)
              else (- 1, []))
      else None)"

text \<open>The polling loop with its two labels, driven by the script.\<close>

fun xfer_loop ::
  "int \<Rightarrow> byte list \<Rightarrow> u16 \<Rightarrow> nat option \<Rightarrow> poll_ret list \<Rightarrow> int \<Rightarrow> xfer \<Rightarrow> world \<Rightarrow>
   (int \<times> byte list \<times> world) result" where
  "xfer_loop fd cmd opcode resp_len [] retry st w = Inl Blocked"
| "xfer_loop fd cmd opcode resp_len (PollFail # ps) retry st w = Inr (- 1, [], w\<lparr>polls4 := ps\<rparr>)"
| "xfer_loop fd cmd opcode resp_len (PollErr # ps) retry st w = Inr (- 1, [], w\<lparr>polls4 := ps\<rparr>)"
| "xfer_loop fd cmd opcode resp_len (PollTimeout # ps) retry st w =
     (if retry \<le> 0 then Inl ExitFailure
      else case write_once fd cmd (w\<lparr>polls4 := ps\<rparr>) of (ok, w) \<Rightarrow>
        if ok then xfer_loop fd cmd opcode resp_len ps (retry - 1) xfer_start w else Inr (- 1, [], w))"
| "xfer_loop fd cmd opcode resp_len (PollIn r # ps) retry st w =
     bind_result (xfer_read r st) (\<lambda>out.
       let w = w\<lparr>polls4 := ps\<rparr> in
       case out of
         Go st \<Rightarrow> xfer_loop fd cmd opcode resp_len ps retry st w
       | Fail \<Rightarrow> Inr (- 1, [], w)
       | Packet st \<Rightarrow>
           (case xfer_eval opcode resp_len st of
              Some (rc, resp) \<Rightarrow> Inr (rc, resp, w)
            | None \<Rightarrow> xfer_loop fd cmd opcode resp_len ps retry xfer_start w))"

definition start_xfer_wait ::
  "int \<Rightarrow> byte list \<Rightarrow> int \<Rightarrow> nat option \<Rightarrow> world \<Rightarrow> (int \<times> byte list \<times> world) result" where
  "start_xfer_wait fd cmd retry resp_len w =
     (if fd = - 1 \<or> length cmd < 4 then Inr (- 1, [], w)
      else let opcode = push_bit 8 (ucast (cmd ! 2)) + ucast (cmd ! 1) in
        case write_once fd cmd w of (ok, w) \<Rightarrow>
          if ok then xfer_loop fd cmd opcode resp_len (polls4 w) retry xfer_start w else Inr (- 1, [], w))"

section \<open>Commands\<close>

text \<open>The result is the echoed index, or \<open>-1\<close>; the command array has 257 bytes.\<close>

definition h4_download_patch :: "int \<Rightarrow> byte \<Rightarrow> byte list option \<Rightarrow> nat \<Rightarrow> world \<Rightarrow> (int \<times> world) result" where
  "h4_download_patch fd index data len w =
     (let hdr = [0x01, 0x20, 0xfc, word_of_nat (len + 1), index] in
      bind_result (case data of
          None \<Rightarrow> if len = 0 then Inr hdr else Inl OutOfBounds
        | Some bs \<Rightarrow> if len \<le> length bs \<and> len \<le> 252 then Inr (hdr @ take len bs) else Inl OutOfBounds) (\<lambda>buf.
      bind_result (start_xfer_wait fd buf 0 (Some 8) w) (\<lambda>(result, resp, w).
        if result < 0 then Inr (- 1, w)
        else if length resp \<noteq> 8 then Inr (- 1, w)
        else Inr (uint (resp ! 7), w))))"

definition h4_vendor_change_speed :: "int \<Rightarrow> u32 \<Rightarrow> world \<Rightarrow> (int \<times> world) result" where
  "h4_vendor_change_speed fd baudrate w =
     bind_result (start_xfer_wait fd ([1, 0x17, 0xfc, 4] @ le32_bytes baudrate) 0 None w)
       (\<lambda>(res, _, w). Inr (res, w))"

definition h4_hci_reset :: "int \<Rightarrow> world \<Rightarrow> (int \<times> world) result" where
  "h4_hci_reset fd w =
     bind_result (start_xfer_wait fd [0x01, 0x03, 0x0c, 0x00] 0 None w)
       (\<lambda>(result, _, w). Inr (if result < 0 then - 1 else 0, w))"

definition h4_read_local_ver :: "int \<Rightarrow> world \<Rightarrow> (int \<times> world) result" where
  "h4_read_local_ver fd w =
     bind_result (start_xfer_wait fd [0x01, 0x01, 0x10, 0x00] 0 (Some 16) w) (\<lambda>(result, resp, w).
       if result < 0 then Inr (- 1, w)
       else if length resp \<noteq> 15 then Inr (- 1, w)
       else Inr (0, w\<lparr>hci_ver := resp ! 7,
                      hci_rev := push_bit 8 (ucast (resp ! 9)) OR ucast (resp ! 8),
                      lmp_subver := push_bit 8 (ucast (resp ! 14)) OR ucast (resp ! 13)\<rparr>))"

definition h4_vendor_read_rom_ver :: "int \<Rightarrow> world \<Rightarrow> (int \<times> world) result" where
  "h4_vendor_read_rom_ver fd w =
     bind_result (start_xfer_wait fd [0x01, 0x6d, 0xfc, 0x00] 0 (Some 16) w) (\<lambda>(result, resp, w).
       if result < 0 then Inr (- 1, w)
       else if length resp \<noteq> 8 then Inr (- 1, w)
       else Inr (0, w\<lparr>eversion := resp ! 7\<rparr>))"

section \<open>The reading states stay inside the buffer\<close>

definition xfer_inv :: "xfer \<Rightarrow> bool" where
  "xfer_inv st \<longleftrightarrow> length (x_buf st) = XFER_BUF \<and>
     (case x_state st of XType \<Rightarrow> True | XHeader \<Rightarrow> x_count st = 1
      | XParams \<Rightarrow> x_count st + x_params st \<le> XFER_BUF)"

lemma xfer_start_inv [simp]: "xfer_inv xfer_start"
  by (simp add: xfer_inv_def xfer_start_def)

lemma buf_store_ok:
  assumes "pos + length bs \<le> length buf"
  obtains buf' where "buf_store pos bs buf = Inr buf'" "length buf' = length buf"
    "take (pos + length bs) buf' = take pos buf @ bs"
  using assms by (simp add: buf_store_def)

lemma xfer_read_safe:
  assumes "xfer_inv st"
  shows "\<exists>out. xfer_read r st = Inr out \<and> (\<forall>st'. out = Go st' \<or> out = Packet st' \<longrightarrow> length (x_buf st') = XFER_BUF) \<and>
    (\<forall>st'. out = Go st' \<longrightarrow> xfer_inv st')"
proof (cases "x_state st")
  case XType
  with assms show ?thesis
    by (auto simp: xfer_read_def xfer_inv_def buf_store_def XFER_BUF_def split: option.splits list.splits)
next
  case XHeader
  with assms show ?thesis
    by (auto simp: xfer_read_def xfer_inv_def buf_store_def XFER_BUF_def Let_def split: option.splits)
next
  case XParams
  with assms show ?thesis
    by (auto simp: xfer_read_def xfer_inv_def buf_store_def XFER_BUF_def Let_def split: option.splits)
qed

lemma xfer_loop_safe:
  assumes "xfer_inv st" "xfer_loop fd cmd opcode resp_len ps retry st w = Inl e"
  shows "e \<in> {Blocked, ExitFailure}"
  using assms
proof (induction fd cmd opcode resp_len ps retry st w rule: xfer_loop.induct)
  case (4 fd cmd opcode resp_len ps retry st w)
  then show ?case by (auto split: if_splits prod.splits)
next
  case (5 fd cmd opcode resp_len r ps retry st w)
  obtain out where out: "xfer_read r st = Inr out" "\<forall>st'. out = Go st' \<longrightarrow> xfer_inv st'"
    using xfer_read_safe [OF "5.prems"(1), of r] by blast
  with 5 show ?case
    by (cases out) (auto simp: Let_def split: option.splits)
qed auto

section \<open>An answer is found however it is cut into reads\<close>

text \<open>The parameter bytes may arrive in any number of reads, each at least one byte.\<close>

lemma xfer_read_params:
  assumes "x_state st = XParams" "length bs \<le> x_params st" "x_count st + length bs \<le> length (x_buf st)"
  defines "st' \<equiv> st\<lparr>x_buf := take (x_count st) (x_buf st) @ bs @ drop (x_count st + length bs) (x_buf st),
      x_count := x_count st + length bs, x_params := x_params st - length bs\<rparr>"
  shows "xfer_read (Some bs) st = Inr (if x_params st = length bs then Packet st' else Go st')"
  using assms by (simp add: xfer_read_def buf_store_def Let_def)

lemma xfer_loop_params:
  assumes "x_state st = XParams" "[] \<notin> set chunks" "x_params st = length (concat chunks)" "chunks \<noteq> []"
    "x_count st + x_params st \<le> length (x_buf st)"
  shows "\<exists>st'. take (x_count st') (x_buf st') = take (x_count st) (x_buf st) @ concat chunks \<and>
    x_count st' = x_count st + length (concat chunks) \<and> length (x_buf st') = length (x_buf st) \<and>
    xfer_loop fd cmd opcode resp_len (map (PollIn \<circ> Some) chunks @ ps) retry st w =
      (case xfer_eval opcode resp_len st' of
         Some (rc, resp) \<Rightarrow> Inr (rc, resp, w\<lparr>polls4 := ps\<rparr>)
       | None \<Rightarrow> xfer_loop fd cmd opcode resp_len ps retry xfer_start (w\<lparr>polls4 := ps\<rparr>))"
  using assms
proof (induction chunks arbitrary: st w)
  case (Cons c chunks)
  let ?st = "st\<lparr>x_buf := take (x_count st) (x_buf st) @ c @ drop (x_count st + length c) (x_buf st),
      x_count := x_count st + length c, x_params := x_params st - length c\<rparr>"
  from Cons.prems have len: "length c \<le> x_params st" "x_count st + length c \<le> length (x_buf st)" by auto
  note rd = xfer_read_params [OF Cons.prems(1) len]
  show ?case
  proof (cases "chunks = []")
    case True
    with Cons.prems rd len show ?thesis
      by (intro exI [of _ ?st]) (simp add: Let_def)
  next
    case False
    with Cons.prems(2) have "concat chunks \<noteq> []" by (cases chunks) auto
    with Cons.prems(3) have "x_params st \<noteq> length c" by simp
    then have step: "xfer_loop fd cmd opcode resp_len (map (PollIn \<circ> Some) (c # chunks) @ ps) retry st w =
        xfer_loop fd cmd opcode resp_len (map (PollIn \<circ> Some) chunks @ ps) retry ?st
          (w\<lparr>polls4 := map (PollIn \<circ> Some) chunks @ ps\<rparr>)"
      using rd by (simp add: Let_def)
    let ?w = "w\<lparr>polls4 := map (PollIn \<circ> Some) chunks @ ps\<rparr>"
    from Cons.prems False len have "x_state ?st = XParams" "[] \<notin> set chunks"
        "x_params ?st = length (concat chunks)" "x_count ?st + x_params ?st \<le> length (x_buf ?st)"
      by auto
    from Cons.IH [OF this(1-3) False this(4), of ?w] obtain st' where st':
        "take (x_count st') (x_buf st') = take (x_count ?st) (x_buf ?st) @ concat chunks"
        "x_count st' = x_count ?st + length (concat chunks)" "length (x_buf st') = length (x_buf ?st)"
        "xfer_loop fd cmd opcode resp_len (map (PollIn \<circ> Some) chunks @ ps) retry ?st ?w =
          (case xfer_eval opcode resp_len st' of
             Some (rc, resp) \<Rightarrow> Inr (rc, resp, ?w\<lparr>polls4 := ps\<rparr>)
           | None \<Rightarrow> xfer_loop fd cmd opcode resp_len ps retry xfer_start (?w\<lparr>polls4 := ps\<rparr>))"
      by blast
    have w: "?w\<lparr>polls4 := ps\<rparr> = w\<lparr>polls4 := ps\<rparr>" by simp
    show ?thesis
      unfolding step by (rule exI [of _ st']) (use st' [unfolded w] len(2) in simp)
  qed
qed simp

lemma nth_of_take: "take n xs = ys \<Longrightarrow> i < length ys \<Longrightarrow> xs ! i = ys ! i"
  by (metis length_take min.strict_boundedE nth_take)

text \<open>A complete event: type and header in one read each, then the parameters.\<close>

lemma xfer_loop_event:
  assumes "[] \<notin> set chunks" "chunks \<noteq> []" "n = length (concat chunks)" "n \<le> 61"
  shows "\<exists>st'. take (3 + n) (x_buf st') = [0x04, ev, word_of_nat n] @ concat chunks \<and> x_count st' = 3 + n \<and>
    xfer_loop fd cmd opcode resp_len
        ([PollIn (Some [0x04]), PollIn (Some [ev, word_of_nat n])] @ map (PollIn \<circ> Some) chunks @ ps) retry xfer_start w =
      (case xfer_eval opcode resp_len st' of
         Some (rc, resp) \<Rightarrow> Inr (rc, resp, w\<lparr>polls4 := ps\<rparr>)
       | None \<Rightarrow> xfer_loop fd cmd opcode resp_len ps retry xfer_start (w\<lparr>polls4 := ps\<rparr>))"
proof -
  let ?hdr = "[0x04, ev, word_of_nat n] :: byte list"
  let ?st = "\<lparr>x_buf = ?hdr @ replicate 61 0, x_state = XParams, x_count = 3, x_params = n\<rparr>"
  have n: "unat (word_of_nat n :: byte) = n" using assms(4) by (simp add: unsigned_of_nat take_bit_nat_eq_self)
  have r1: "xfer_read (Some [0x04]) xfer_start =
      Inr (Go \<lparr>x_buf = 0x04 # replicate 63 0, x_state = XHeader, x_count = Suc 0, x_params = 0\<rparr>)"
    by (simp add: xfer_read_def xfer_start_def buf_store_def XFER_BUF_def)
  have r2: "xfer_read (Some [ev, word_of_nat n]) \<lparr>x_buf = 0x04 # replicate 63 0, x_state = XHeader, x_count = Suc 0, x_params = 0\<rparr>
      = Inr (Go ?st)"
    using assms(4) by (simp add: xfer_read_def buf_store_def XFER_BUF_def Let_def n)
  obtain st' where st': "take (x_count st') (x_buf st') = take (x_count ?st) (x_buf ?st) @ concat chunks"
      "x_count st' = x_count ?st + length (concat chunks)"
      "xfer_loop fd cmd opcode resp_len (map (PollIn \<circ> Some) chunks @ ps) retry ?st (w\<lparr>polls4 := map (PollIn \<circ> Some) chunks @ ps\<rparr>) =
      (case xfer_eval opcode resp_len st' of
         Some (rc, resp) \<Rightarrow> Inr (rc, resp, w\<lparr>polls4 := ps\<rparr>)
       | None \<Rightarrow> xfer_loop fd cmd opcode resp_len ps retry xfer_start (w\<lparr>polls4 := ps\<rparr>))"
    using xfer_loop_params [of ?st chunks fd cmd opcode resp_len ps retry "w\<lparr>polls4 := map (PollIn \<circ> Some) chunks @ ps\<rparr>"]
      assms by (auto cong: option.case_cong)
  show ?thesis
    by (intro exI [of _ st']) (use st' assms(3) in \<open>simp add: r1 r2 [unfolded assms(3)] Let_def\<close>)
qed

section \<open>Properties: four-wire transfers\<close>

text \<open>Whatever the controller sends and however the reads are cut, a four-wire transfer never writes or
  reads outside its 64-byte buffer; it ends with a result, by the deliberate \<open>exit\<close> after exhausted
  retries, or waits for more input.\<close>

theorem start_xfer_wait_memory_safe:
  "case start_xfer_wait fd cmd retry resp_len w of Inl e \<Rightarrow> e = Blocked \<or> e = ExitFailure | Inr _ \<Rightarrow> True"
  using xfer_loop_safe [OF xfer_start_inv]
  by (auto simp: start_xfer_wait_def Let_def split: sum.splits prod.splits if_splits)

text \<open>(C27) A command-complete event for the issued command with zero status, up to the size of the buffer, whose type
  byte arrives in one read and whose two header bytes arrive together in the next, and whose parameters arrive in
  any number of reads, ends the transfer with success and hands back exactly the event, cut to the length the caller
  asked for. A header that arrives in two reads is not covered: the code then fails the transfer.\<close>

theorem start_xfer_wait_answer:
  assumes "fd \<noteq> - 1" "4 \<le> length cmd" "wr_rets w = []"
    and params: "concat chunks = ncmd # cmd ! 1 # cmd ! 2 # 0x00 # ret" "[] \<notin> set chunks" "length ret \<le> 57"
    and script: "polls4 w = [PollIn (Some [0x04]), PollIn (Some [0x0e, word_of_nat (4 + length ret)])] @
        map (PollIn \<circ> Some) chunks @ ps"
  shows "start_xfer_wait fd cmd retry (Some n) w =
    Inr (0, take n ([0x04, 0x0e, word_of_nat (4 + length ret), ncmd, cmd ! 1, cmd ! 2, 0x00] @ ret),
         w\<lparr>wlog := wlog w @ [(fd, cmd)], polls4 := ps\<rparr>)"
proof -
  let ?opcode = "push_bit 8 (ucast (cmd ! 2)) + ucast (cmd ! 1) :: u16"
  let ?ev = "[0x04, 0x0e, word_of_nat (4 + length ret)] @ concat chunks"
  let ?w = "log_write fd cmd w"
  have len: "4 + length ret = length (concat chunks)" "chunks \<noteq> []" "4 + length ret \<le> 61"
    using params by auto
  obtain st where st: "take (3 + (4 + length ret)) (x_buf st) = ?ev" "x_count st = 3 + (4 + length ret)"
      "xfer_loop fd cmd ?opcode (Some n) (polls4 w) retry xfer_start ?w =
        (case xfer_eval ?opcode (Some n) st of Some (rc, resp) \<Rightarrow> Inr (rc, resp, ?w\<lparr>polls4 := ps\<rparr>)
         | None \<Rightarrow> xfer_loop fd cmd ?opcode (Some n) ps retry xfer_start (?w\<lparr>polls4 := ps\<rparr>))"
    using xfer_loop_event [OF params(2) len(2,1,3), of "0x0e" fd cmd ?opcode "Some n" ps retry ?w] unfolding script by blast
  have nth: "x_buf st ! i = ?ev ! i" if "i < length ?ev" for i using nth_of_take [OF st(1)] that by blast
  have "ucast (cmd ! 1) OR push_bit 8 (ucast (cmd ! 2)) = ?opcode"
    using le16_of_or [of "cmd ! 1" "cmd ! 2"] by (simp add: le16_of_def add.commute)
  then have "xfer_eval ?opcode (Some n) st = Some (0, take (min n (x_count st)) (x_buf st))"
    using nth [of 1] nth [of 4] nth [of 5] nth [of 6] params(1) by (simp add: xfer_eval_def Let_def)
  moreover have "take (min n (x_count st)) (x_buf st) = take n ?ev"
    using st(1,2) by (metis min.commute take_take)
  ultimately have "xfer_loop fd cmd ?opcode (Some n) (polls4 w) retry xfer_start ?w = Inr (0, take n ?ev, ?w\<lparr>polls4 := ps\<rparr>)"
    using st(3) by simp
  moreover have "write_once fd cmd w = (True, ?w)" using assms(3) by (simp add: write_once_def)
  ultimately show ?thesis
    using assms(1,2) params(1) by (simp add: start_xfer_wait_def Let_def log_write_def)
qed

theorem start_xfer_wait_answer_witness:
  "start_xfer_wait 3 [0x01, 0x6d, 0xfc, 0x00] 0 (Some 16)
      (rtb_zero\<lparr>polls4 := [PollIn (Some [0x04]), PollIn (Some [0x0e, 0x05]), PollIn (Some [0x02, 0x6d]),
         PollIn (Some [0xfc, 0x00, 0x07])]\<rparr>) =
    Inr (0, [0x04, 0x0e, 0x05, 0x02, 0x6d, 0xfc, 0x00, 0x07],
      rtb_zero\<lparr>wlog := [(3, [0x01, 0x6d, 0xfc, 0x00])], polls4 := []\<rparr>)"
  using start_xfer_wait_answer [where fd = 3 and cmd = "[0x01, 0x6d, 0xfc, 0x00]" and retry = 0 and n = 16 and ps = "[]"
      and ncmd = "0x02" and ret = "[0x07]" and chunks = "[[0x02, 0x6d], [0xfc, 0x00, 0x07]]"
      and w = "rtb_zero\<lparr>polls4 := [PollIn (Some [0x04]), PollIn (Some [0x0e, 0x05]), PollIn (Some [0x02, 0x6d]),
         PollIn (Some [0xfc, 0x00, 0x07])]\<rparr>"]
  by (simp add: rtb_zero_def)

text \<open>A header read that returns a single byte is logged as an error but taken for a packet: when that
  byte is not the command-complete code, the transfer silently starts over in the middle of the
  event instead of failing.\<close>

theorem short_header_read_not_an_error:
  assumes "ev \<noteq> 0x0e"
  shows "xfer_loop fd cmd opcode resp_len (PollIn (Some [0x04]) # PollIn (Some [ev]) # ps) retry xfer_start w =
    xfer_loop fd cmd opcode resp_len ps retry xfer_start (w\<lparr>polls4 := ps\<rparr>)"
  using assms
  by (simp add: xfer_read_def xfer_start_def buf_store_def XFER_BUF_def xfer_eval_def Let_def)

theorem short_header_read_not_an_error_witness:
  "xfer_loop 3 [0x01, 0x03, 0x0c, 0x00] 0x0c03 None (PollIn (Some [0x04]) # PollIn (Some [0x0f]) # []) 0 xfer_start rtb_zero =
   xfer_loop 3 [0x01, 0x03, 0x0c, 0x00] 0x0c03 None [] 0 xfer_start (rtb_zero\<lparr>polls4 := []\<rparr>)"
  by (rule short_header_read_not_an_error) simp

end
