(* ===== verification/Download.thy ===== *)
theory Download
  imports H4_Xfer
begin

text \<open>
  The firmware download \<open>rtb_download_fwc\<close> of \<open>rtk_hciattach/hciattach_rtk.c\<close>: the buffer is cut into
  fragments of 252 bytes, each sent with an index that rolls over, and empty fragments are added
  so that the sequence number of the link is zero again after the reset command. The
  specification is the plan of fragments as a list; the loop is shown to send exactly that plan.
\<close>

section \<open>The loop of the code\<close>

text \<open>The choice of index, buffer pointer and length in one iteration. A null pointer is \<open>None\<close>.\<close>

definition frag_choose ::
  "nat \<Rightarrow> nat \<Rightarrow> nat \<Rightarrow> nat \<Rightarrow> nat \<Rightarrow> nat option \<Rightarrow> byte \<times> nat option \<times> nat" where
  "frag_choose i j end_idx total_idx lp_len pkt_buf =
     (if i < end_idx then (word_of_nat j, pkt_buf, PATCH_DATA_FIELD_MAX_SIZE)
      else if i = end_idx then
        (if i = total_idx then word_of_nat j OR 0x80 else word_of_nat j, pkt_buf, lp_len)
      else if i < total_idx then (word_of_nat j, None, 0)
      else (word_of_nat j OR 0x80, None, 0))"

text \<open>
  One fragment over either transport: \<open>Inl\<close> of a return code, or the index the rest of the
  iteration works with. Over the four-wire transport that is the index the controller echoed.
\<close>

definition frag_send ::
  "int \<Rightarrow> int \<Rightarrow> nat \<Rightarrow> bool \<Rightarrow> byte \<Rightarrow> byte list option \<Rightarrow> nat \<Rightarrow> world \<Rightarrow> ((int + byte) \<times> world) result" where
  "frag_send fd protocol j is_total curr_idx data curr_len w =
     (if protocol = HCI_UART_H4 then
        bind_result (h4_download_patch fd curr_idx data curr_len w) (\<lambda>(r, w).
          let echoed = (word_of_int r :: byte) in
          if unat echoed \<noteq> j \<and> \<not> is_total then Inr (Inl (- 1), w) else Inr (Inr echoed, w))
      else if protocol = HCI_UART_3WIRE then
        bind_result (h5_download_patch fd curr_idx data curr_len w) (\<lambda>(r, w).
          if r < 0 then Inr (Inl (- 1), w) else Inr (Inr curr_idx, w))
      else Inr (Inr curr_idx, w))"

text \<open>
  The loop counter \<open>i\<close> is a \<open>uint16_t\<close>: with the bound \<open>0xffff\<close> it would wrap and the loop would not
  end. The first argument counts the iterations; \<open>2 ^ 16 + 1\<close> of them are enough for every smaller
  bound. Advancing a null pointer leaves it out of use: later iterations reset it before reading.
\<close>

fun fwc_loop ::
  "nat \<Rightarrow> int \<Rightarrow> byte list \<Rightarrow> int \<Rightarrow> nat \<Rightarrow> nat \<Rightarrow> nat \<Rightarrow> nat \<Rightarrow> nat \<Rightarrow> nat option \<Rightarrow> world \<Rightarrow> (int \<times> world) result" where
  "fwc_loop 0 fd buf protocol end_idx total_idx lp_len i idx pkt_buf w = Inl Blocked"
| "fwc_loop (Suc fuel) fd buf protocol end_idx total_idx lp_len i idx pkt_buf w =
     (if i > total_idx then Inr (0, w)
      else
        let j = idx;
            idx = (if j = 0x7f then 1 else idx + 1);
            (curr_idx, pkt_buf, curr_len) = frag_choose i j end_idx total_idx lp_len pkt_buf
        in
        bind_result (frag_send fd protocol j (i = total_idx) curr_idx (map_option (\<lambda>p. drop p buf) pkt_buf) curr_len w)
          (\<lambda>(r, w). case r of
             Inl rc \<Rightarrow> Inr (rc, w)
           | Inr curr_idx \<Rightarrow>
               let pkt_buf = (if unat curr_idx < end_idx
                              then map_option (\<lambda>p. p + PATCH_DATA_FIELD_MAX_SIZE) pkt_buf else pkt_buf)
               in fwc_loop fuel fd buf protocol end_idx total_idx lp_len ((i + 1) mod 65536) idx pkt_buf w))"

definition fwc_end_idx :: "nat \<Rightarrow> nat" where
  "fwc_end_idx buf_size = ((buf_size - 1) div PATCH_DATA_FIELD_MAX_SIZE) mod 65536"

text \<open>The number of empty fragments, so that the next sequence number is zero after the reset.\<close>

definition fwc_add_pkts :: "int \<Rightarrow> u16 \<Rightarrow> nat \<Rightarrow> nat" where
  "fwc_add_pkts protocol cmds_sent end_idx =
     (let num = (unat cmds_sent + (end_idx + 1)) mod 65536;
          add_pkts = (if num mod 8 \<noteq> 0 then 8 - num mod 8 else 0)
      in if protocol = HCI_UART_3WIRE then (if add_pkts \<noteq> 0 then add_pkts - 1 else add_pkts + 7) else 0)"

definition rtb_download_fwc :: "int \<Rightarrow> byte list \<Rightarrow> nat \<Rightarrow> int \<Rightarrow> world \<Rightarrow> (int \<times> world) result" where
  "rtb_download_fwc fd buf buf_size protocol w =
     (let end_idx = fwc_end_idx buf_size;
          lp_len = buf_size mod PATCH_DATA_FIELD_MAX_SIZE;
          add_pkts = fwc_add_pkts protocol (num_of_cmd_sent w) end_idx;
          total_idx = (add_pkts + end_idx) mod 65536;
          w = w\<lparr>total_num := int total_idx\<rparr>;
          lp_len = (if lp_len = 0 then PATCH_DATA_FIELD_MAX_SIZE else lp_len)
      in case (if protocol = HCI_UART_H4 then set_flow_ctrl w else (True, w)) of (ok, w) \<Rightarrow>
        if \<not> ok then Inr (- 1, w)
        else bind_result (fwc_loop (2 ^ 16 + 1) fd buf protocol end_idx total_idx lp_len 0 0 (Some 0) w) (\<lambda>(rc, w).
          if rc < 0 then Inr (rc, w)
          else if protocol = HCI_UART_H4 then h4_hci_reset fd w
          else h5_hci_reset fd w))"

section \<open>The plan of fragments\<close>

text \<open>The index of fragment \<open>i\<close>: 0, 1, \<dots>, 127, 1, 2, \<dots>\<close>

definition frag_index :: "nat \<Rightarrow> nat" where
  "frag_index i = (if i = 0 then 0 else (i - 1) mod 127 + 1)"

text \<open>The fragments of a buffer: full ones, the rest, and as many empty ones as requested.\<close>

function frags_of :: "byte list \<Rightarrow> byte list list" where
  "frags_of bs = (if length bs \<le> PATCH_DATA_FIELD_MAX_SIZE then [bs]
     else take PATCH_DATA_FIELD_MAX_SIZE bs # frags_of (drop PATCH_DATA_FIELD_MAX_SIZE bs))"
  by pat_completeness auto
termination
  by (relation "measure length") (auto simp: PATCH_DATA_FIELD_MAX_SIZE_def)

declare frags_of.simps [simp del]

definition frag_plan :: "byte list \<Rightarrow> nat \<Rightarrow> (byte \<times> byte list) list" where
  "frag_plan bs add_pkts =
     (let data = frags_of bs @ replicate add_pkts [];
          last = length data - 1
      in map (\<lambda>i. (if i = last then word_of_nat (frag_index i) OR 0x80 else word_of_nat (frag_index i), data ! i))
           [0..<length data])"

lemma frags_of_props:
  "concat (frags_of bs) = bs" "f \<in> set (frags_of bs) \<Longrightarrow> length f \<le> PATCH_DATA_FIELD_MAX_SIZE"
  "length (frags_of bs) = (length bs - 1) div PATCH_DATA_FIELD_MAX_SIZE + 1"
proof (induction bs rule: frags_of.induct)
  case (1 bs)
  {
    case 1
    with "1.IH"(1) show ?case by (cases "length bs \<le> PATCH_DATA_FIELD_MAX_SIZE") (simp_all add: frags_of.simps [of bs])
  next
    case 2
    with "1.IH"(2) show ?case by (cases "length bs \<le> PATCH_DATA_FIELD_MAX_SIZE") (auto simp: frags_of.simps [of bs])
  next
    case 3
    show ?case
    proof (cases "length bs \<le> PATCH_DATA_FIELD_MAX_SIZE")
      case False
      then have "length (frags_of bs) = (length bs - PATCH_DATA_FIELD_MAX_SIZE - 1) div PATCH_DATA_FIELD_MAX_SIZE + 2"
        using "1.IH"(3) by (simp add: frags_of.simps [of bs])
      also have "(length bs - PATCH_DATA_FIELD_MAX_SIZE - 1) = (length bs - 1) - PATCH_DATA_FIELD_MAX_SIZE" by simp
      also have "((length bs - 1) - PATCH_DATA_FIELD_MAX_SIZE) div PATCH_DATA_FIELD_MAX_SIZE + 2 =
          (length bs - 1) div PATCH_DATA_FIELD_MAX_SIZE + 1"
        using False by (subst (2) le_div_geq) (auto simp: PATCH_DATA_FIELD_MAX_SIZE_def)
      finally show ?thesis .
    qed (simp add: frags_of.simps [of bs] PATCH_DATA_FIELD_MAX_SIZE_def)
  }
qed

lemma frags_of_nth:
  "i < length (frags_of bs) \<Longrightarrow>
   frags_of bs ! i = take PATCH_DATA_FIELD_MAX_SIZE (drop (i * PATCH_DATA_FIELD_MAX_SIZE) bs)"
proof (induction bs arbitrary: i rule: frags_of.induct)
  case (1 bs)
  show ?case
  proof (cases "length bs \<le> PATCH_DATA_FIELD_MAX_SIZE")
    case False
    with 1 show ?thesis by (cases i) (auto simp: frags_of.simps [of bs] drop_drop add.commute)
  qed (use 1(2) in \<open>simp add: frags_of.simps [of bs]\<close>)
qed

section \<open>The loop sends the plan\<close>

text \<open>Sending a list of fragments over the three-wire transport, stopping at the first failure.\<close>

fun h5_send_frags :: "int \<Rightarrow> (byte \<times> byte list) list \<Rightarrow> world \<Rightarrow> (int \<times> world) result" where
  "h5_send_frags fd [] w = Inr (0, w)"
| "h5_send_frags fd ((index, data) # frags) w =
     bind_result (h5_download_patch fd index (Some data) (length data) w) (\<lambda>(r, w).
       if r < 0 then Inr (- 1, w) else h5_send_frags fd frags w)"

lemma frag_index_bounds: "frag_index i \<le> i" "frag_index i \<le> 127"
proof -
  have "(i - 1) mod 127 \<le> i - 1" "(i - 1) mod 127 < 127" by simp_all
  then show "frag_index i \<le> i" "frag_index i \<le> 127" by (auto simp: frag_index_def)
qed

lemma frag_index_Suc: "frag_index (Suc i) = (if frag_index i = 127 then 1 else frag_index i + 1)"
  by (cases i) (auto simp: frag_index_def mod_Suc)

lemma h5_download_patch_take:
  "len \<le> length bs \<Longrightarrow>
   h5_download_patch fd ix (Some bs) len w = h5_download_patch fd ix (Some (take len bs)) (length (take len bs)) w"
  by (simp add: h5_download_patch_def hci_patch_cmd_def)

lemma h5_download_patch_none:
  "h5_download_patch fd ix None 0 w = h5_download_patch fd ix (Some []) (length []) w"
  by (simp add: h5_download_patch_def hci_patch_cmd_def)

lemma fwc_sizes:
  assumes "0 < buf_size" "end_idx = (buf_size - 1) div PATCH_DATA_FIELD_MAX_SIZE"
    "lp_len = (if buf_size mod PATCH_DATA_FIELD_MAX_SIZE = 0 then PATCH_DATA_FIELD_MAX_SIZE
               else buf_size mod PATCH_DATA_FIELD_MAX_SIZE)"
  shows "end_idx * PATCH_DATA_FIELD_MAX_SIZE + lp_len = buf_size" "0 < lp_len" "lp_len \<le> PATCH_DATA_FIELD_MAX_SIZE"
proof -
  let ?M = PATCH_DATA_FIELD_MAX_SIZE
  have M: "?M = 252" by (rule PATCH_DATA_FIELD_MAX_SIZE_def)
  define k where "k = (buf_size - 1) mod ?M + 1"
  have k: "end_idx * ?M + k = buf_size" "0 < k" "k \<le> ?M"
    using assms(1) div_mult_mod_eq [of "buf_size - 1" ?M] unfolding assms(2) k_def by (auto simp: M)
  then have "buf_size mod ?M = k mod ?M" by (metis mod_mult_self3)
  with k have "lp_len = k" unfolding assms(3) by (cases "k = ?M") auto
  with k show "end_idx * ?M + lp_len = buf_size" "0 < lp_len" "lp_len \<le> ?M" by simp_all
qed

lemma frag_plan_nth:
  assumes "i < length (frags_of bs) + add_pkts"
  shows "frag_plan bs add_pkts ! i =
    (if i = length (frags_of bs) + add_pkts - 1 then word_of_nat (frag_index i) OR 0x80 else word_of_nat (frag_index i),
     if i < length (frags_of bs) then frags_of bs ! i else [])"
  using assms by (simp add: frag_plan_def nth_append Let_def)

lemma length_frag_plan [simp]: "length (frag_plan bs n) = length (frags_of bs) + n"
  by (simp add: frag_plan_def Let_def)

text \<open>One iteration picks the fragment of the plan at its position.\<close>

lemma frag_send_plan:
  assumes bs: "bs = take buf_size buf" "0 < buf_size" "buf_size \<le> length buf"
    and e: "end_idx = (buf_size - 1) div PATCH_DATA_FIELD_MAX_SIZE"
    and lp: "lp_len = (if buf_size mod PATCH_DATA_FIELD_MAX_SIZE = 0 then PATCH_DATA_FIELD_MAX_SIZE
                       else buf_size mod PATCH_DATA_FIELD_MAX_SIZE)"
    and i: "i \<le> end_idx + add_pkts" "i \<le> end_idx \<longrightarrow> pkt_buf = Some (i * PATCH_DATA_FIELD_MAX_SIZE)"
    and ch: "frag_choose i (frag_index i) end_idx (end_idx + add_pkts) lp_len pkt_buf = (curr_idx, pkt_buf', curr_len)"
    and pl: "frag_plan bs add_pkts ! i = (ix, data)"
  shows "curr_idx = ix" "i < end_idx \<Longrightarrow> pkt_buf' = pkt_buf \<and> unat curr_idx < end_idx"
    "h5_download_patch fd curr_idx (map_option (\<lambda>p. drop p buf) pkt_buf') curr_len w =
     h5_download_patch fd ix (Some data) (length data) w"
proof -
  let ?M = PATCH_DATA_FIELD_MAX_SIZE
  have len: "length (frags_of bs) = end_idx + 1" using frags_of_props(3) [of bs] bs e by simp
  have M: "?M = 252" by (rule PATCH_DATA_FIELD_MAX_SIZE_def)
  have ix: "ix = (if i = end_idx + add_pkts then word_of_nat (frag_index i) OR 0x80 else word_of_nat (frag_index i))"
    and data: "data = (if i \<le> end_idx then frags_of bs ! i else [])"
    using pl frag_plan_nth [of i bs add_pkts] i(1) len by auto
  show c: "curr_idx = ix" using ch i(1) unfolding ix frag_choose_def by (auto split: if_splits)
  have fi: "unat (word_of_nat (frag_index i) :: byte) = frag_index i"
    using frag_index_bounds(2) [of i] by (simp add: unsigned_of_nat take_bit_nat_eq_self)
  show "i < end_idx \<Longrightarrow> pkt_buf' = pkt_buf \<and> unat curr_idx < end_idx"
    using ch frag_index_bounds(1) [of i] fi by (auto simp: frag_choose_def)
  note rest = fwc_sizes [OF bs(2) e lp]
  have full: "i < end_idx \<Longrightarrow> i * ?M + ?M \<le> buf_size"
    using rest(1) mult_le_mono1 [of "Suc i" end_idx ?M] by simp
  have nth: "i \<le> end_idx \<Longrightarrow> frags_of bs ! i = take ?M (drop (i * ?M) bs)"
    using frags_of_nth [of i bs] len by simp
  have tk: "take k (drop p bs) = take k (drop p buf)" if "p + k \<le> buf_size" for p k
    using that bs(3) unfolding bs(1) by (simp add: drop_take min_def)
  consider "i < end_idx" | "i = end_idx" | "end_idx < i" by linarith
  then show "h5_download_patch fd curr_idx (map_option (\<lambda>p. drop p buf) pkt_buf') curr_len w =
     h5_download_patch fd ix (Some data) (length data) w"
  proof cases
    case 1
    then have p: "pkt_buf' = Some (i * ?M)" "curr_len = ?M" using ch i(2) by (simp_all add: frag_choose_def)
    have "data = take ?M (drop (i * ?M) buf)" using 1 data nth tk [OF full [OF 1]] by simp
    with h5_download_patch_take [of ?M "drop (i * ?M) buf"] full [OF 1] bs(3) p c show ?thesis by simp
  next
    case 2
    then have p: "pkt_buf' = Some (i * ?M)" "curr_len = lp_len" using ch i(2) by (auto simp: frag_choose_def)
    have "data = take lp_len (drop (i * ?M) bs)" using 2 data nth rest bs by simp
    then have "data = take lp_len (drop (i * ?M) buf)" using tk [of "i * ?M" lp_len] rest 2 by simp
    with h5_download_patch_take [of lp_len "drop (i * ?M) buf"] rest 2 bs(3) p c show ?thesis by simp
  next
    case 3
    then have p: "pkt_buf' = None" "curr_len = 0" using ch by (auto simp: frag_choose_def split: if_splits)
    with 3 data c h5_download_patch_none show ?thesis by simp
  qed
qed

lemma fwc_loop_plan:
  assumes bs: "bs = take buf_size buf" "0 < buf_size" "buf_size \<le> length buf"
    and e: "end_idx = (buf_size - 1) div PATCH_DATA_FIELD_MAX_SIZE"
    and lp: "lp_len = (if buf_size mod PATCH_DATA_FIELD_MAX_SIZE = 0 then PATCH_DATA_FIELD_MAX_SIZE
                       else buf_size mod PATCH_DATA_FIELD_MAX_SIZE)"
    and small: "end_idx + add_pkts < 65535"
  shows "i \<le> Suc (end_idx + add_pkts) \<Longrightarrow> end_idx + add_pkts + 1 - i < fuel \<Longrightarrow>
    (i \<le> end_idx \<longrightarrow> pkt_buf = Some (i * PATCH_DATA_FIELD_MAX_SIZE)) \<Longrightarrow>
    fwc_loop fuel fd buf HCI_UART_3WIRE end_idx (end_idx + add_pkts) lp_len i (frag_index i) pkt_buf w =
    h5_send_frags fd (drop i (frag_plan bs add_pkts)) w"
proof (induction fuel arbitrary: i pkt_buf w)
  case (Suc fuel)
  let ?M = PATCH_DATA_FIELD_MAX_SIZE
  have len: "length (frags_of bs) = end_idx + 1" using frags_of_props(3) [of bs] bs e by simp
  show ?case
  proof (cases "i = Suc (end_idx + add_pkts)")
    case False
    with Suc.prems have i: "i \<le> end_idx + add_pkts" by simp
    obtain curr_idx pkt_buf' curr_len where
        ch: "frag_choose i (frag_index i) end_idx (end_idx + add_pkts) lp_len pkt_buf = (curr_idx, pkt_buf', curr_len)"
      by (cases "frag_choose i (frag_index i) end_idx (end_idx + add_pkts) lp_len pkt_buf")
    obtain ix data where pl: "frag_plan bs add_pkts ! i = (ix, data)" by (cases "frag_plan bs add_pkts ! i")
    note s = frag_send_plan [OF bs e lp i Suc.prems(3) ch pl]
    let ?p = "if unat curr_idx < end_idx then map_option (\<lambda>p. p + ?M) pkt_buf' else pkt_buf'"
    have next_p: "Suc i \<le> end_idx \<longrightarrow> ?p = Some (Suc i * ?M)"
      using s(2) Suc.prems(3) by auto
    have rec: "fwc_loop fuel fd buf HCI_UART_3WIRE end_idx (end_idx + add_pkts) lp_len (Suc i) (frag_index (Suc i)) ?p v =
        h5_send_frags fd (drop (Suc i) (frag_plan bs add_pkts)) v" for v
      by (rule Suc.IH) (use i Suc.prems(2) next_p in auto)
    have idx: "frag_index (Suc i) = (if frag_index i = 0x7f then 1 else frag_index i + 1)"
      by (simp add: frag_index_Suc)
    have "Suc i mod 65536 = Suc i" using i small by simp
    moreover have "drop i (frag_plan bs add_pkts) = (ix, data) # drop (Suc i) (frag_plan bs add_pkts)"
      using pl i len by (simp add: Cons_nth_drop_Suc [symmetric])
    ultimately show ?thesis
      using i s(1,3) rec [unfolded idx] ch
      by (cases "h5_download_patch fd ix (Some data) (length data) w")
         (auto simp: frag_send_def HCI_UART_H4_def HCI_UART_3WIRE_def Let_def)
  qed (simp add: len)
qed simp

section \<open>Sequence numbers\<close>

lemma seq_step: "x < (8 :: byte) \<Longrightarrow> unat ((x + 1) AND 0x07) = (unat x + 1) mod 8"
  by (drule byte_less8_cases) auto

lemma seq_less: "(x + 1) AND 0x07 < (8 :: byte)"
  by (rule byte_and7_less)

text \<open>Sending a list of fragments advances the sequence number by its length.\<close>

lemma h5_send_frags_post:
  assumes "msgq_txseq w < 8"
  shows "returns (\<lambda>(rc, w'). rc \<le> 0 \<and> (rc = 0 \<longrightarrow> msgq_txseq w' < 8 \<and>
      unat (msgq_txseq w') = (unat (msgq_txseq w) + length frags) mod 8 \<and>
      link_steps (link_estab_state w) (link_estab_state w'))) (h5_send_frags fd frags w)"
  using assms
proof (induction frags arbitrary: w)
  case (Cons f frags)
  obtain ix data where f: "f = (ix, data)" by (cases f)
  show ?case
    unfolding f h5_send_frags.simps returns_simps
  proof (rule returns_mono [OF h5_download_patch_post], goal_cases)
    case (1 r)
    obtain rc v where r: "r = (rc, v)" by (cases r)
    show ?case
    proof (cases "rc = 0")
      case True
      with 1 r have v: "msgq_txseq v = (msgq_txseq w + 1) AND 0x07" "link_steps (link_estab_state w) (link_estab_state v)"
        by (simp_all add: frag_post_def)
      then have "msgq_txseq v < 8" "unat (msgq_txseq v) = (unat (msgq_txseq w) + 1) mod 8"
        using seq_step [OF Cons.prems] seq_less by simp_all
      with v(2) show ?thesis
        unfolding r True
        by (auto intro!: returns_mono [OF Cons.IH [of v]] intro: rtranclp_trans) presburger
    qed (use 1 r in \<open>auto simp: frag_post_def\<close>)
  qed
qed (simp add: word_less_nat_alt)

lemma h5_hci_reset_post:
  "returns (\<lambda>(rc, w'). rc \<le> 0 \<and> (rc = 0 \<longrightarrow> msgq_txseq w' = (msgq_txseq w + 1) AND 0x07 \<and>
      cs_opcode (cmd_state w') = HCI_CMD_RESET \<and> cs_state (cmd_state w') = CMD_STATE_SUCCESS)) (h5_hci_reset fd w)"
proof -
  have op: "op_is_cmd OP_HCI_RESET" "op_opcode OP_HCI_RESET = HCI_CMD_RESET"
    by (simp_all add: op_is_cmd_def op_opcode_def op_defs opcode_defs)
  have "returns (\<lambda>(rc, w'). rc \<le> 0 \<and> (rc = 0 \<longrightarrow> msgq_txseq w' = (msgq_txseq w + 1) AND 0x07 \<and>
      cs_opcode (cmd_state w') = HCI_CMD_RESET \<and> cs_state (cmd_state w') = CMD_STATE_SUCCESS))
      (case nskb of None \<Rightarrow> Inr (- 1, v)
       | Some _ \<Rightarrow> start_transmit_wait fd nskb OP_HCI_RESET 1500 1 (await_cmd HCI_CMD_RESET v))"
    if "h5_prepare_pkt w [0x03, 0x0c, 0x00] 3 HCI_COMMAND_PKT = Inr (nskb, v)" for nskb v
  proof (cases nskb)
    case (Some s)
    with that have "msgq_txseq v = (msgq_txseq w + 1) AND 0x07"
      using h5_prepare_pkt_seq [of w _ 3 HCI_COMMAND_PKT s v] by (simp add: h5_pkt_reliable_def pkt_type_defs)
    then show ?thesis
      unfolding Some option.case
      by (intro returns_mono [OF start_transmit_wait_moves])
         (auto simp: tx_moves_def stw_done_def op await_cmd_def)
  qed simp
  then show ?thesis
    unfolding h5_hci_reset_def returns_simps by - (rule returnsI, simp add: split_paired_all)
qed

lemma index_bits:
  assumes "n \<le> 127"
  shows "unat (word_of_nat n AND (0x7f :: byte)) = n" "(word_of_nat n AND (0x80 :: byte)) = 0"
    "unat ((word_of_nat n OR (0x80 :: byte)) AND 0x7f) = n" "(word_of_nat n OR (0x80 :: byte)) AND 0x80 \<noteq> 0"
proof -
  have m: "(0x7f :: byte) = mask 7" "(0x80 :: byte) = push_bit 7 1" by (simp_all add: mask_eq_exp_minus_1)
  have t: "take_bit 7 (word_of_nat n :: byte) = word_of_nat n"
    using assms by (simp add: take_bit_nat_eq_self flip: of_nat_take_bit)
  have u: "unat (word_of_nat n :: byte) = n" using assms by (simp add: unsigned_of_nat take_bit_nat_eq_self)
  show 1: "unat (word_of_nat n AND (0x7f :: byte)) = n"
    unfolding m(1) by (simp only: take_bit_eq_mask [symmetric] t u)
  show "(word_of_nat n AND (0x80 :: byte)) = 0"
    using t by (metis and_exp_eq_0_iff_not_bit bit_take_bit_iff less_irrefl m(2) push_bit_of_1)
  have "take_bit 7 ((word_of_nat n OR 0x80) :: byte) = word_of_nat n"
    by (simp only: take_bit_or t) simp
  then show "unat ((word_of_nat n OR (0x80 :: byte)) AND 0x7f) = n"
    unfolding m(1) by (simp only: take_bit_eq_mask [symmetric] u)
  have "bit ((word_of_nat n OR 0x80) :: byte) 7" by (simp add: bit_or_iff)
  then show "(word_of_nat n OR (0x80 :: byte)) AND 0x80 \<noteq> 0"
    using and_exp_eq_0_iff_not_bit [of "word_of_nat n OR 0x80 :: byte" 7] by simp
qed

section \<open>Properties: firmware download\<close>

text \<open>The bound that keeps the 16-bit loop counter from wrapping; the largest accepted image is 148 KiB.\<close>

definition FWC_MAX :: nat where "FWC_MAX = 252 * 65000"

lemma fwc_small:
  assumes "buf_size \<le> FWC_MAX"
  shows "fwc_end_idx buf_size = (buf_size - 1) div PATCH_DATA_FIELD_MAX_SIZE"
    "fwc_end_idx buf_size + fwc_add_pkts protocol n (fwc_end_idx buf_size) < 65535"
proof -
  have "(buf_size - 1) div 252 \<le> 65000" using assms by (simp add: FWC_MAX_def)
  then show e: "fwc_end_idx buf_size = (buf_size - 1) div PATCH_DATA_FIELD_MAX_SIZE"
    by (simp add: fwc_end_idx_def PATCH_DATA_FIELD_MAX_SIZE_def)
  have "fwc_end_idx buf_size \<le> 65000"
    using \<open>(buf_size - 1) div 252 \<le> 65000\<close> e by (simp add: PATCH_DATA_FIELD_MAX_SIZE_def)
  moreover have "fwc_add_pkts protocol n m \<le> 7" for m
    using mod_less_divisor [of 8 "(unat n + (m + 1)) mod 65536"] by (auto simp: fwc_add_pkts_def Let_def)
  then have "fwc_add_pkts protocol n (fwc_end_idx buf_size) \<le> 7" .
  ultimately show "fwc_end_idx buf_size + fwc_add_pkts protocol n (fwc_end_idx buf_size) < 65535" by linarith
qed

lemma fwc_add_pkts_align: "(unat n + (e + 1) + fwc_add_pkts HCI_UART_3WIRE n e + 1) mod 8 = 0"
proof -
  define q r where "q = (unat n + (e + 1)) div 8" and "r = (unat n + (e + 1)) mod 8"
  have qr: "unat n + (e + 1) = 8 * q + r" "r < 8" by (simp_all add: q_def r_def)
  have "((unat n + (e + 1)) mod 65536) mod 8 = r"
    unfolding r_def by (rule mod_mod_cancel) simp
  then have "fwc_add_pkts HCI_UART_3WIRE n e = 7 - r" using qr(2) by (simp add: fwc_add_pkts_def Let_def)
  with qr have "unat n + (e + 1) + fwc_add_pkts HCI_UART_3WIRE n e + 1 = 8 * (q + 1)" by simp
  then show ?thesis by (metis mod_mult_self1_is_0)
qed

lemma mod8_seq: "((n mod 8 + (e + 1 + a)) mod 8 + 1) mod 8 = (n + (e + 1) + a + 1) mod (8 :: nat)"
proof -
  have "((n mod 8 + (e + 1 + a)) mod 8 + 1) mod 8 = (n mod 8 + ((e + 1) + a + 1)) mod 8"
    by (simp only: mod_add_left_eq add.assoc)
  then show ?thesis by (simp only: mod_add_left_eq add.assoc)
qed

lemma rtb_download_fwc_eq:
  assumes "0 < buf_size" "buf_size \<le> length buf" "buf_size \<le> FWC_MAX"
  shows "rtb_download_fwc fd buf buf_size HCI_UART_3WIRE w =
    (let add_pkts = fwc_add_pkts HCI_UART_3WIRE (num_of_cmd_sent w) (fwc_end_idx buf_size) in
     bind_result (h5_send_frags fd (frag_plan (take buf_size buf) add_pkts)
         (w\<lparr>total_num := int (fwc_end_idx buf_size + add_pkts)\<rparr>))
       (\<lambda>(rc, w). if rc < 0 then Inr (rc, w) else h5_hci_reset fd w))"
proof -
  let ?e = "fwc_end_idx buf_size" and ?a = "fwc_add_pkts HCI_UART_3WIRE (num_of_cmd_sent w) (fwc_end_idx buf_size)"
  note small = fwc_small(1) [OF assms(3)] fwc_small(2) [OF assms(3), of HCI_UART_3WIRE "num_of_cmd_sent w"]
  have t: "(?a + ?e) mod 65536 = ?e + ?a" using small(2) by simp
  let ?lp = "if buf_size mod PATCH_DATA_FIELD_MAX_SIZE = 0 then PATCH_DATA_FIELD_MAX_SIZE
             else buf_size mod PATCH_DATA_FIELD_MAX_SIZE"
  have "fwc_loop (2 ^ 16 + 1) fd buf HCI_UART_3WIRE ?e (?e + ?a) ?lp 0 0 (Some 0) v =
      h5_send_frags fd (frag_plan (take buf_size buf) ?a) v" for v
    using fwc_loop_plan [OF refl assms(1,2) small(1) refl small(2), of 0 "2 ^ 16 + 1" "Some 0" fd v] small(2)
    by (simp add: frag_index_def)
  moreover have "HCI_UART_3WIRE \<noteq> HCI_UART_H4" by (simp add: HCI_UART_3WIRE_def HCI_UART_H4_def)
  ultimately show ?thesis
    unfolding rtb_download_fwc_def Let_def t by (simp only: if_False prod.case not_True_eq_False simp_thms)
qed

text \<open>(C4) Refinement: over the three-wire transport the downloader sends exactly the plan of fragments, in order,
  stops at the first failure, and then resets the controller; the 16-bit loop counter never wraps.\<close>

theorem rtb_download_fwc_sends_plan:
  assumes "0 < buf_size" "buf_size \<le> length buf" "buf_size \<le> FWC_MAX"
  shows "rtb_download_fwc fd buf buf_size HCI_UART_3WIRE w =
    (let add_pkts = fwc_add_pkts HCI_UART_3WIRE (num_of_cmd_sent w) (fwc_end_idx buf_size) in
     bind_result (h5_send_frags fd (frag_plan (take buf_size buf) add_pkts)
         (w\<lparr>total_num := int (fwc_end_idx buf_size + add_pkts)\<rparr>))
       (\<lambda>(rc, w). if rc < 0 then Inr (rc, w) else h5_hci_reset fd w))"
  using assms by (rule rtb_download_fwc_eq)

theorem rtb_download_fwc_sends_plan_witness:
  "rtb_download_fwc 3 (replicate 300 0x55) 300 HCI_UART_3WIRE rtb_zero =
    bind_result (h5_send_frags 3 (frag_plan (take 300 (replicate 300 0x55)) 5) (rtb_zero\<lparr>total_num := 6\<rparr>))
       (\<lambda>(rc, w). if rc < 0 then Inr (rc, w) else h5_hci_reset 3 w)"
  using rtb_download_fwc_sends_plan [of 300 "replicate 300 0x55" 3 rtb_zero]
  by (simp add: FWC_MAX_def fwc_add_pkts_def fwc_end_idx_def PATCH_DATA_FIELD_MAX_SIZE_def rtb_zero_def Let_def)

text \<open>The plan carries the image: its data parts concatenate to exactly the bytes to download, each fits the
  command, the index of fragment \<open>i\<close> is 0, 1, \<dots>, 127, 1, 2, \<dots>, and the last fragment and no other is
  marked with the top bit.\<close>

theorem frag_plan_complete:
  "concat (map snd (frag_plan bs add_pkts)) = bs \<and>
   (\<forall>i < length (frag_plan bs add_pkts). length (snd (frag_plan bs add_pkts ! i)) \<le> PATCH_DATA_FIELD_MAX_SIZE \<and>
      unat (fst (frag_plan bs add_pkts ! i) AND 0x7f) = frag_index i \<and>
      (fst (frag_plan bs add_pkts ! i) AND 0x80 \<noteq> 0 \<longleftrightarrow> Suc i = length (frag_plan bs add_pkts)))"
proof -
  have "map snd (frag_plan bs add_pkts) = frags_of bs @ replicate add_pkts []"
    unfolding frag_plan_def Let_def by (simp add: comp_def) (metis map_nth length_append length_replicate)
  then have "concat (map snd (frag_plan bs add_pkts)) = bs" by (simp add: frags_of_props(1))
  moreover have "length (snd (frag_plan bs add_pkts ! i)) \<le> PATCH_DATA_FIELD_MAX_SIZE \<and>
      unat (fst (frag_plan bs add_pkts ! i) AND 0x7f) = frag_index i \<and>
      (fst (frag_plan bs add_pkts ! i) AND 0x80 \<noteq> 0 \<longleftrightarrow> Suc i = length (frag_plan bs add_pkts))"
    if i: "i < length (frag_plan bs add_pkts)" for i
  proof -
    have len: "length (frags_of bs) = Suc ((length bs - 1) div PATCH_DATA_FIELD_MAX_SIZE)"
      using frags_of_props(3) [of bs] by simp
    have f: "frag_index i \<le> 127" by (rule frag_index_bounds)
    note b = index_bits [OF f]
    have "length (snd (frag_plan bs add_pkts ! i)) \<le> PATCH_DATA_FIELD_MAX_SIZE"
      using i frags_of_props(2) [of "frags_of bs ! i" bs] by (simp add: frag_plan_nth)
    with i b len show ?thesis by (auto simp: frag_plan_nth)
  qed
  ultimately show ?thesis by blast
qed

theorem frag_plan_complete_witness:
  "concat (map snd (frag_plan [0x55] 1)) = [0x55] \<and> fst (frag_plan [0x55] 1 ! 1) AND 0x80 \<noteq> 0"
  using frag_plan_complete [of "[0x55]" 1] frags_of_props(3) [of "[0x55]"]
  by (auto simp: PATCH_DATA_FIELD_MAX_SIZE_def)

text \<open>(C22) After a successful download and reset the transmit sequence number is zero again, which is the purpose of
  the empty fragments, provided that when the download starts the sequence number is the number of answered commands
  modulo 8. That holds when every command before the download was answered; after a vendor or version read whose
  transmission failed, from which the code goes on, the two differ and the final number need not be zero.\<close>

theorem rtb_download_fwc_seq_zero:
  assumes "0 < buf_size" "buf_size \<le> length buf" "buf_size \<le> FWC_MAX"
    and "unat (msgq_txseq w) = unat (num_of_cmd_sent w) mod 8"
    and "rtb_download_fwc fd buf buf_size HCI_UART_3WIRE w = Inr (0, w')"
  shows "msgq_txseq w' = 0"
proof -
  let ?e = "fwc_end_idx buf_size" and ?a = "fwc_add_pkts HCI_UART_3WIRE (num_of_cmd_sent w) (fwc_end_idx buf_size)"
  let ?frags = "frag_plan (take buf_size buf) ?a" and ?w = "w\<lparr>total_num := int (?e + ?a)\<rparr>"
  from assms(5) [unfolded rtb_download_fwc_eq [OF assms(1-3)]] obtain rc v where
    v: "h5_send_frags fd ?frags ?w = Inr (rc, v)" "(if rc < 0 then Inr (rc, v) else h5_hci_reset fd v) = Inr (0, w')"
    by (auto simp: Let_def bind_result_eq_Inr)
  have w8: "msgq_txseq ?w < 8" using assms(4) by (simp add: word_less_nat_alt)
  from returnsD [OF h5_send_frags_post [OF w8] v(1)] v(2)
  have s: "msgq_txseq v < 8" "unat (msgq_txseq v) = (unat (msgq_txseq w) + length ?frags) mod 8"
      "h5_hci_reset fd v = Inr (0, w')"
    by (auto split: if_splits)
  have len: "length ?frags = ?e + 1 + ?a"
    using frags_of_props(3) [of "take buf_size buf"] assms(1,2) fwc_small(1) [OF assms(3)] by simp
  have "(unat (msgq_txseq v) + 1) mod 8 = (unat (num_of_cmd_sent w) + (?e + 1) + ?a + 1) mod 8"
    unfolding s(2) assms(4) len by (rule mod8_seq)
  also have "\<dots> = 0" by (rule fwc_add_pkts_align)
  finally have "(unat (msgq_txseq v) + 1) mod 8 = 0" .
  then have "unat ((msgq_txseq v + 1) AND 0x07) = 0" using seq_step [OF s(1)] by simp
  moreover have "msgq_txseq w' = (msgq_txseq v + 1) AND 0x07" using returnsD [OF h5_hci_reset_post s(3)] by simp
  ultimately show ?thesis by (simp add: unat_eq_0)
qed


text \<open>A controller that echoes the last index and completes the reset.\<close>

definition dl_world :: world where
  "dl_world = rtb_zero\<lparr>link_estab_state := H5_PATCH, num_of_cmd_sent := 6, msgq_txseq := 6, rx_index := - 1,
     polls := [EpEvents [EvSerial [0xc0, 0x00, 0x74, 0x00, 0x8b, 0x0e, 0x05, 0x01, 0x20, 0xfc, 0x00, 0x80, 0xc0]],
               EpEvents [EvSerial [0xc0, 0x00, 0x64, 0x00, 0x9b, 0x0e, 0x04, 0x01, 0x03, 0x0c, 0x00, 0xc0]]]\<rparr>"

lemma dl_world_run: "\<exists>w'. rtb_download_fwc 3 [0x55] 1 HCI_UART_3WIRE dl_world = Inr (0, w')"
proof -
  have "h5_send_frags 3 (frag_plan (take 1 [0x55]) 0) (dl_world\<lparr>total_num := 0\<rparr>) =
      h5_send_frags 3 [(0x80, [0x55])] (dl_world\<lparr>total_num := 0\<rparr>)"
    by (simp add: frag_plan_def frags_of.simps frag_index_def PATCH_DATA_FIELD_MAX_SIZE_def)
  moreover have "fwc_end_idx 1 = 0" "fwc_add_pkts HCI_UART_3WIRE (num_of_cmd_sent dl_world) 0 = 0"
    by (simp_all add: fwc_end_idx_def fwc_add_pkts_def dl_world_def Let_def)
  moreover have "\<exists>w'. bind_result (h5_send_frags 3 [(0x80, [0x55])] (dl_world\<lparr>total_num := 0\<rparr>))
      (\<lambda>(rc, w). if rc < 0 then Inr (rc, w) else h5_hci_reset 3 w) = Inr (0, w')"
    by (simp add: dl_world_def rtb_zero_def h5_eval xfer_eval_defs)
  ultimately show ?thesis
    by (simp add: rtb_download_fwc_eq FWC_MAX_def)
qed

theorem rtb_download_fwc_seq_zero_witness:
  "\<exists>w'. rtb_download_fwc 3 [0x55] 1 HCI_UART_3WIRE dl_world = Inr (0, w') \<and> msgq_txseq w' = 0"
proof -
  obtain w' where "rtb_download_fwc 3 [0x55] 1 HCI_UART_3WIRE dl_world = Inr (0, w')" using dl_world_run by blast
  with rtb_download_fwc_seq_zero [OF _ _ _ _ this] show ?thesis
    by (simp add: FWC_MAX_def dl_world_def)
qed

text \<open>Over the four-wire transport the result of the last fragment is not looked at: when its transfer
  fails, the downloader goes on to the reset and reports the reset's result.\<close>

theorem h4_last_fragment_unchecked:
  assumes "0 < buf_size" "buf_size \<le> PATCH_DATA_FIELD_MAX_SIZE"
    and "set_flow_ctrl (w\<lparr>total_num := 0\<rparr>) = (True, w1)"
    and "h4_download_patch fd 0x80 (Some buf) buf_size w1 = Inr (- 1, w2)"
  shows "rtb_download_fwc fd buf buf_size HCI_UART_H4 w = h4_hci_reset fd w2"
proof -
  have e: "fwc_end_idx buf_size = 0" using assms(1,2) by (simp add: fwc_end_idx_def PATCH_DATA_FIELD_MAX_SIZE_def)
  have a: "fwc_add_pkts HCI_UART_H4 n k = 0" for n k
    by (simp add: fwc_add_pkts_def HCI_UART_H4_def HCI_UART_3WIRE_def Let_def)
  have lp: "(if buf_size mod PATCH_DATA_FIELD_MAX_SIZE = 0 then PATCH_DATA_FIELD_MAX_SIZE
      else buf_size mod PATCH_DATA_FIELD_MAX_SIZE) = buf_size"
    using assms(1,2) by (cases "buf_size = PATCH_DATA_FIELD_MAX_SIZE") auto
  have "fwc_loop (Suc (Suc n)) fd buf HCI_UART_H4 0 0 buf_size 0 0 (Some 0) w1 = Inr (0, w2)" for n
    using assms(4) by (simp add: frag_choose_def frag_send_def Let_def)
  moreover have "2 ^ 16 + 1 = Suc (Suc (2 ^ 16 - 1))" by simp
  ultimately have "fwc_loop (2 ^ 16 + 1) fd buf HCI_UART_H4 0 0 buf_size 0 0 (Some 0) w1 = Inr (0, w2)"
    by (simp only:)
  then show ?thesis
    unfolding rtb_download_fwc_def Let_def e a lp using assms(3) by simp
qed

theorem h4_last_fragment_unchecked_witness:
  "rtb_download_fwc 3 [0xaa, 0xbb] 2 HCI_UART_H4 (rtb_zero\<lparr>polls4 := [PollErr]\<rparr>) =
   h4_hci_reset 3 (rtb_zero\<lparr>tio_applied := tio rtb_zero, polls4 := [],
      wlog := [(3, [0x01, 0x20, 0xfc, 0x03, 0x80, 0xaa, 0xbb])]\<rparr>)"
  by (rule h4_last_fragment_unchecked [where ?w1.0 = "rtb_zero\<lparr>tio_applied := tio rtb_zero, polls4 := [PollErr]\<rparr>"])
     (simp_all add: PATCH_DATA_FIELD_MAX_SIZE_def set_flow_ctrl_def tcsetattr_def rtb_zero_def termios_raw_def
       h4_download_patch_def start_xfer_wait_def write_once_def log_write_def)

end
