(* ===== verification/Fwc_Config.thy ===== *)
theory Fwc_Config
  imports Rtb_State
begin

text \<open>
  The vendor configuration (\<open>rtk_hciattach/rtb_fwc.c\<close>): the binary config file, the extra settings
  given as text, the configured device address, and their combination into the block that is
  downloaded. The linked lists \<open>list_configs\<close> and \<open>list_extracfgs\<close> are lists of items; \<open>malloc\<close> takes
  its outcomes from the script of the \<open>world\<close> record.
\<close>

section \<open>Items and text\<close>

record cfg_list_item =
  ci_offset :: u16
  ci_data :: "byte list"

definition cfg_magic :: "byte list" where "cfg_magic = [0x55, 0xab, 0x23, 0x87]"
definition RTB_CFG_HDR_LEN :: nat where "RTB_CFG_HDR_LEN = 6"
definition BDADDR_STRING_LEN :: nat where "BDADDR_STRING_LEN = 17"
definition EXTRA_CONFIG_FILE :: string where "EXTRA_CONFIG_FILE = ''/opt/rtk_btconfig.txt''"
definition BT_ADDR_FILE :: string where "BT_ADDR_FILE = ''/opt/bdaddr''"
definition BT_CONFIG_DIRECTORY :: string where "BT_CONFIG_DIRECTORY = ''/lib/firmware/rtlbt/''"

text \<open>The pieces \<open>strsep\<close> yields one after the other, empty ones included.\<close>

function strsep_all :: "(byte \<Rightarrow> bool) \<Rightarrow> byte list \<Rightarrow> byte list list" where
  "strsep_all sep bs =
     takeWhile (\<lambda>b. \<not> sep b) bs #
     (case dropWhile (\<lambda>b. \<not> sep b) bs of [] \<Rightarrow> [] | _ # rest \<Rightarrow> strsep_all sep rest)"
  by pat_completeness auto
termination
proof (relation "measure (length \<circ> snd)", goal_cases)
  case (2 sep bs b rest)
  have "length (dropWhile (\<lambda>b. \<not> sep b) bs) \<le> length bs" by (rule length_dropWhile_le)
  with 2 show ?case by simp
qed simp

declare strsep_all.simps [simp del]

text \<open>\<open>strtoul(s, NULL, 16)\<close> with a 64-bit \<open>unsigned long\<close>: white space, a sign, a prefix, digits.\<close>

definition hex_val :: "byte \<Rightarrow> nat option" where
  "hex_val b =
     (if 0x30 \<le> b \<and> b \<le> 0x39 then Some (unat b - 0x30)
      else if 0x41 \<le> b \<and> b \<le> 0x46 then Some (unat b - 0x41 + 10)
      else if 0x61 \<le> b \<and> b \<le> 0x66 then Some (unat b - 0x61 + 10)
      else None)"

definition is_space :: "byte \<Rightarrow> bool" where
  "is_space b \<longleftrightarrow> b = 0x20 \<or> 0x09 \<le> b \<and> b \<le> 0x0d"

fun hex_digits :: "nat \<Rightarrow> byte list \<Rightarrow> nat" where
  "hex_digits acc [] = acc"
| "hex_digits acc (b # bs) = (case hex_val b of None \<Rightarrow> acc | Some d \<Rightarrow> hex_digits (acc * 16 + d) bs)"

definition strtoul16 :: "byte list \<Rightarrow> 64 word" where
  "strtoul16 s =
     (let s = dropWhile is_space s;
          neg = (case s of b # _ \<Rightarrow> b = 0x2d | [] \<Rightarrow> False);
          s = (case s of b # bs \<Rightarrow> if b = 0x2d \<or> b = 0x2b then bs else s | [] \<Rightarrow> s);
          s = (case s of b # c # bs \<Rightarrow> if b = 0x30 \<and> (c = 0x78 \<or> c = 0x58) then bs else s | _ \<Rightarrow> s);
          v = hex_digits 0 s
      in if v \<ge> 2 ^ 64 then - 1 else if neg then - word_of_nat v else word_of_nat v)"

section \<open>Extra settings\<close>

definition line_sep :: "byte \<Rightarrow> bool" where "line_sep b \<longleftrightarrow> b = 0x2c \<or> b = 0x20 \<or> b = 0x09"
definition text_sep :: "byte \<Rightarrow> bool" where "text_sep b \<longleftrightarrow> b = 0x0a \<or> b = 0x0d"

definition line_args :: "byte list \<Rightarrow> byte list list" where
  "line_args buf = take 32 (filter (\<lambda>t. t \<noteq> []) (strsep_all line_sep buf))"

definition line_process :: "byte list \<Rightarrow> cfg_list_item list \<times> world \<Rightarrow> cfg_list_item list \<times> world" where
  "line_process buf st =
     (case st of (extracfgs, w) \<Rightarrow>
      let argv = line_args buf in
      if length argv < 4 then st
      else
        let offset = strtoul16 (argv ! 0) OR push_bit 8 (strtoul16 (argv ! 1));
            l = (ucast (strtoul16 (argv ! 2)) :: byte)
        in
        if l \<noteq> word_of_nat (length argv - 3) then st
        else case next_malloc w of (ok, w) \<Rightarrow>
          if ok then (extracfgs @ [\<lparr>ci_offset = ucast offset,
                 ci_data = map (\<lambda>i. ucast (strtoul16 (argv ! (3 + i)))) [0..<unat l]\<rparr>], w)
          else (extracfgs, w))"

definition config_process :: "byte list \<Rightarrow> cfg_list_item list \<times> world \<Rightarrow> cfg_list_item list \<times> world" where
  "config_process buf st = fold line_process (filter (\<lambda>t. t \<noteq> []) (strsep_all text_sep buf)) st"

text \<open>The text ends at the first zero byte, as a C string.\<close>

definition parse_extra_config :: "string \<Rightarrow> cfg_list_item list \<times> world \<Rightarrow> cfg_list_item list \<times> world" where
  "parse_extra_config path st =
     (case files (snd st) path of
        FOpenFail \<Rightarrow> st
      | FFile _ r \<Rightarrow>
          (case map_option (take 256) r of
             None \<Rightarrow> st
           | Some bs \<Rightarrow>
               if bs = [] then st
               else if length bs > 254 then st
               else config_process (takeWhile (\<lambda>b. b \<noteq> 0) (bs @ [0x0a])) st))"

section \<open>Merging\<close>

text \<open>
  The inner loop for one extra item. The items seen so far are \<open>before @ after\<close>, with the extra item
  between them once it has replaced an item. A shorter extra item updates the item in place and is
  freed (which takes it out of the list again if it had been placed); a longer one takes the
  item's place, and the loop goes on. The result tells whether the extra item was used up.
\<close>

fun merge_scan ::
  "cfg_list_item \<Rightarrow> bool \<Rightarrow> cfg_list_item list \<Rightarrow> cfg_list_item list \<Rightarrow> cfg_list_item list \<Rightarrow> bool \<times> cfg_list_item list" where
  "merge_scan extra placed before after [] =
     (placed, if placed then before @ extra # after else before @ after)"
| "merge_scan extra placed before after (n # rest) =
     (if ci_offset extra = ci_offset n then
        if length (ci_data extra) < length (ci_data n) then
          (True, before @ after @
             n\<lparr>ci_data := ci_data extra @ drop (length (ci_data extra)) (ci_data n)\<rparr> # rest)
        else merge_scan extra True (before @ after) [] rest
      else merge_scan extra placed before (after @ [n]) rest)"

text \<open>The outer loop: the list and the extra items that are left over.\<close>

fun merge_loop :: "cfg_list_item list \<Rightarrow> cfg_list_item list \<Rightarrow> cfg_list_item list \<times> cfg_list_item list" where
  "merge_loop [] head = (head, [])"
| "merge_loop (extra # extras) head =
     (case merge_scan extra False [] [] head of (used, head) \<Rightarrow>
      case merge_loop extras head of (head, left) \<Rightarrow> (head, if used then left else extra # left))"

definition merge_configs :: "cfg_list_item list \<Rightarrow> cfg_list_item list \<Rightarrow> cfg_list_item list" where
  "merge_configs head head2 =
     (if head2 = [] then head
      else if head = [] then head2
      else case merge_loop head2 head of (head, left) \<Rightarrow> head @ left)"

section \<open>The binary format\<close>

text \<open>
  The loop over the entries: \<open>pos\<close> is the entry pointer as an offset into the buffer, \<open>i\<close> the 16-bit
  counter. Reads past the buffer are faults.
\<close>

function parse_entries ::
  "byte list \<Rightarrow> nat \<Rightarrow> nat \<Rightarrow> nat \<Rightarrow> cfg_list_item list \<times> world \<Rightarrow> (cfg_list_item list \<times> world) result" where
  "parse_entries buf cfg_len pos i st =
     (if i < cfg_len then
        if pos + 3 \<le> length buf then
          let elen = unat (buf ! (pos + 2)) in
          case st of (configs, w) \<Rightarrow>
          case next_malloc w of (ok, w) \<Rightarrow>
            if \<not> ok then parse_entries buf cfg_len (pos + (elen + 3)) ((i + (elen + 3)) mod 65536) (configs, w)
            else if pos + 3 + elen \<le> length buf then
              parse_entries buf cfg_len (pos + (elen + 3)) ((i + (elen + 3)) mod 65536)
                (configs @ [\<lparr>ci_offset = le16_of (buf ! pos) (buf ! (pos + 1)),
                            ci_data = take elen (drop (pos + 3) buf)\<rparr>], w)
            else Inl OutOfBounds
        else Inl OutOfBounds
      else Inr st)"
  by pat_completeness auto
termination
  by (relation "measure (\<lambda>(buf, _, pos, _, _). length buf - pos)") auto

declare parse_entries.simps [simp del]

definition rtb_parse_config ::
  "byte list \<Rightarrow> cfg_list_item list \<times> world \<Rightarrow> (int \<times> cfg_list_item list \<times> world) result" where
  "rtb_parse_config cfg_buf st =
     (if length cfg_buf < RTB_CFG_HDR_LEN then Inr (- 1, st)
      else if take 4 cfg_buf \<noteq> cfg_magic then Inr (- 1, st)
      else let cfg_len = unat (le16_of (cfg_buf ! 4) (cfg_buf ! 5)) in
        if cfg_len \<noteq> length cfg_buf - RTB_CFG_HDR_LEN then Inr (- 1, st)
        else bind_result (parse_entries cfg_buf cfg_len RTB_CFG_HDR_LEN 0 st) (\<lambda>st. Inr (0, st)))"

text \<open>The block that is written back: magic, length, and the entries.\<close>

definition cfg_entry_bytes :: "cfg_list_item \<Rightarrow> byte list" where
  "cfg_entry_bytes n = le16_bytes (ci_offset n) @ word_of_nat (length (ci_data n)) # ci_data n"

definition cfg_dlen :: "cfg_list_item list \<Rightarrow> nat" where
  "cfg_dlen items = (\<Sum>n\<leftarrow>items. 3 + length (ci_data n))"

definition cfg_bytes :: "cfg_list_item list \<Rightarrow> byte list" where
  "cfg_bytes items = cfg_magic @ le16_bytes (word_of_nat (cfg_dlen items)) @ concat (map cfg_entry_bytes items)"

section \<open>The device address\<close>

text \<open>Chip types and software identifiers (\<open>rtb_fwc.h\<close>); some values are shared.\<close>

definition CHIP_8852BS :: byte where "CHIP_8852BS = 0"
definition CHIP_8703AS :: byte where "CHIP_8703AS = 1"
definition CHIP_8723CS_CG :: byte where "CHIP_8723CS_CG = 3"
definition CHIP_8723CS_VF :: byte where "CHIP_8723CS_VF = 4"
definition CHIP_8723CS_XX :: byte where "CHIP_8723CS_XX = 5"
definition CHIP_8703BS :: byte where "CHIP_8703BS = 7"
definition CHIP_8725AS :: byte where "CHIP_8725AS = 0x05"
definition CHIP_8852BPE_VR :: byte where "CHIP_8852BPE_VR = 0x06"
definition CHIP_8852BPS :: byte where "CHIP_8852BPS = 0x0A"
definition CHIP_UNKNOWN :: byte where "CHIP_UNKNOWN = 0x00"
definition CHIP_8761AT :: byte where "CHIP_8761AT = 0x1F"
definition CHIP_8761ATF :: byte where "CHIP_8761ATF = 0x2F"
definition CHIP_8761BTC :: byte where "CHIP_8761BTC = 0x3F"
definition CHIP_8761BH4 :: byte where "CHIP_8761BH4 = 0x4F"
definition CHIP_8723BS :: byte where "CHIP_8723BS = 0x5F"
definition CHIP_BEFORE :: byte where "CHIP_BEFORE = 0x6F"
definition CHIP_8822BS :: byte where "CHIP_8822BS = 0x70"
definition CHIP_8723DS :: byte where "CHIP_8723DS = 0x71"
definition CHIP_8821CS :: byte where "CHIP_8821CS = 0x72"
definition CHIP_8822CS :: byte where "CHIP_8822CS = 0x73"
definition CHIP_8761B :: byte where "CHIP_8761B = 0x74"
definition CHIP_8852AS :: byte where "CHIP_8852AS = 0x75"
definition CHIP_8723FS :: byte where "CHIP_8723FS = 0x76"
definition CHIP_8852CS :: byte where "CHIP_8852CS = 0x77"
definition CHIP_8852BP :: byte where "CHIP_8852BP = 0x78"
definition CHIP_8822ES :: byte where "CHIP_8822ES = 0x79"
definition CHIP_8851BS :: byte where "CHIP_8851BS = 0x7A"

lemmas chip_defs = CHIP_8852BS_def CHIP_8703AS_def CHIP_8723CS_CG_def CHIP_8723CS_VF_def
  CHIP_8723CS_XX_def CHIP_8703BS_def CHIP_8725AS_def CHIP_8852BPE_VR_def CHIP_8852BPS_def
  CHIP_UNKNOWN_def CHIP_8761AT_def CHIP_8761ATF_def CHIP_8761BTC_def CHIP_8761BH4_def CHIP_8723BS_def
  CHIP_BEFORE_def CHIP_8822BS_def CHIP_8723DS_def CHIP_8821CS_def CHIP_8822CS_def CHIP_8761B_def
  CHIP_8852AS_def CHIP_8723FS_def CHIP_8852CS_def CHIP_8852BP_def CHIP_8822ES_def CHIP_8851BS_def

definition is_mac :: "byte \<Rightarrow> u16 \<Rightarrow> bool" where
  "is_mac chip ofs =
     (if chip \<in> {CHIP_8822BS, CHIP_8723DS, CHIP_8821CS, CHIP_8723CS_XX, CHIP_8723CS_CG, CHIP_8723CS_VF}
      then ofs = 0x0044
      else if chip \<in> {CHIP_8822CS, CHIP_8761B, CHIP_8852AS, CHIP_8723FS, CHIP_8852BS, CHIP_8852CS, CHIP_8851BS}
      then ofs = 0x0030
      else if chip \<in> {CHIP_8761AT, CHIP_8761ATF, CHIP_8761BTC, CHIP_8723BS}
      then ofs = 0x003c
      else False)"

definition get_mac_offset :: "byte \<Rightarrow> u16" where
  "get_mac_offset chip =
     (if chip \<in> {CHIP_8822BS, CHIP_8723DS, CHIP_8821CS} then 0x0044
      else if chip \<in> {CHIP_8822CS, CHIP_8761B, CHIP_8852AS, CHIP_8723FS, CHIP_8852BS, CHIP_8852CS, CHIP_8851BS}
      then 0x0030
      else if chip \<in> {CHIP_8761AT, CHIP_8761ATF, CHIP_8761BTC, CHIP_8723BS} then 0x003c
      else 0x003c)"

definition is_xdigit :: "byte \<Rightarrow> bool" where "is_xdigit b \<longleftrightarrow> hex_val b \<noteq> None"

fun bachk_loop :: "byte list \<Rightarrow> bool" where
  "bachk_loop [] = True"
| "bachk_loop [a] = False"
| "bachk_loop (a # b # rest) =
     (is_xdigit a \<and> is_xdigit b \<and>
      (case rest of [] \<Rightarrow> True | c # rest \<Rightarrow> c = 0x3a \<and> bachk_loop rest))"

definition bachk :: "byte list \<Rightarrow> bool" where
  "bachk str \<longleftrightarrow> length str = 17 \<and> bachk_loop str"

text \<open>The six bytes, least significant first, and the replacement of a reserved range.\<close>

definition bdaddr_of :: "byte list \<Rightarrow> byte list" where
  "bdaddr_of str =
     (let bdaddr = rev (map (\<lambda>k. ucast (strtoul16 (drop (3 * k) str))) [0..<6]) in
      if bdaddr ! 3 = 0x9e \<and> bdaddr ! 4 = 0x8b \<and> bdaddr ! 5 \<le> 0x3f then bdaddr[3 := 0x00] else bdaddr)"

definition read_bdaddr :: "byte \<Rightarrow> cfg_list_item list \<times> world \<Rightarrow> cfg_list_item list \<times> world" where
  "read_bdaddr chip st =
     (case st of (extracfgs, w) \<Rightarrow>
      case files w BT_ADDR_FILE of
        FFile (Some st_size) (Some bs) \<Rightarrow>
          let tbuf = takeWhile (\<lambda>b. b \<noteq> 0) (take (min st_size BDADDR_STRING_LEN) bs) in
          if \<not> bachk tbuf then st
          else (case next_malloc w of (ok, w) \<Rightarrow>
            if ok then (extracfgs @ [\<lparr>ci_offset = get_mac_offset chip, ci_data = bdaddr_of tbuf\<rparr>], w)
            else (extracfgs, w))
      | _ \<Rightarrow> st)"

section \<open>The configuration as a whole\<close>

text \<open>
  The settings taken from the item at offset \<open>0x000c\<close>. Four bytes are read whatever its length; an
  item shorter than that is followed by the zeroed padding of its structure.
\<close>

definition cfg_apply :: "cfg_list_item \<Rightarrow> world \<Rightarrow> world" where
  "cfg_apply n w =
     (if ci_offset n = 0x000c then
        let d = ci_data n @ [0, 0, 0, 0];
            w = w\<lparr>vendor_baud := le32_of (d ! 0) (d ! 1) (d ! 2) (d ! 3)\<rparr>
        in if length (ci_data n) > 12
           then w\<lparr>uart_flow_ctrl := (if ci_data n ! 12 AND 0x4 \<noteq> 0 then 1 else 0)\<rparr> else w
      else w)"

text \<open>
  The lengths are 16-bit: a configuration that does not fit would be written past the reallocated
  block.
\<close>

definition write_configs :: "cfg_list_item list \<Rightarrow> byte list result" where
  "write_configs items =
     (let config_len = (6 + cfg_dlen items) mod 65536 in
      if length (cfg_bytes items) \<le> config_len then Inr (cfg_bytes items) else Inl OutOfBounds)"

text \<open>Open, \<open>fstat\<close>, allocate and read a file in full; \<open>None\<close> on any failure.\<close>

definition read_file :: "string \<Rightarrow> world \<Rightarrow> byte list option \<times> world" where
  "read_file name w =
     (case next_malloc w of (ok, w) \<Rightarrow>
        if \<not> ok then (None, w)
        else case files w name of
          FFile (Some file_len) r \<Rightarrow>
            (case next_malloc w of (ok, w) \<Rightarrow>
               if \<not> ok then (None, w)
               else case map_option (take file_len) r of
                 None \<Rightarrow> (None, w)
               | Some bs \<Rightarrow> if length bs < file_len then (None, w) else (Some bs, w))
        | _ \<Rightarrow> (None, w))"

definition rtb_read_config :: "string \<Rightarrow> byte \<Rightarrow> world \<Rightarrow> ((byte list option \<times> int) \<times> world) result" where
  "rtb_read_config file chip w =
     (case read_bdaddr chip (parse_extra_config EXTRA_CONFIG_FILE ([], w)) of (extracfgs, w) \<Rightarrow>
      case read_file (BT_CONFIG_DIRECTORY @ file) w of
        (None, w) \<Rightarrow> Inr ((None, 0), w)
      | (Some buf, w) \<Rightarrow>
          bind_result (rtb_parse_config buf ([], w)) (\<lambda>(rc, configs, w).
            if rc < 0 then Inl ExitFailure
            else
              let items = merge_configs configs extracfgs;
                  w = fold cfg_apply items w
              in case next_malloc w of (ok, w) \<Rightarrow>
                if \<not> ok then Inr ((None, 0), w)
                else bind_result (write_configs items) (\<lambda>out. Inr ((Some out, int (length out)), w))))"

end
