(* ===== verification/Fwc_Patch.thy ===== *)
theory Fwc_Patch
  imports Fwc_Config H4_Xfer
begin

text \<open>
  Selection and assembly of the firmware (\<open>rtk_hciattach/rtb_fwc.c\<close>): the tables of chips, the choice
  of the entry for the chip that was found, the two firmware container formats, and the buffer that
  is downloaded. The firmware file is untrusted input of the code, so every read of it is checked
  against its length and a read outside is a fault; offsets are integers because some of them may
  point in front of the buffer.
\<close>

section \<open>Tables\<close>

definition ROM_LMP_NONE :: u16 where "ROM_LMP_NONE = 0x0000"
definition ROM_LMP_8723a :: u16 where "ROM_LMP_8723a = 0x1200"
definition ROM_LMP_8723b :: u16 where "ROM_LMP_8723b = 0x8723"
definition ROM_LMP_8821a :: u16 where "ROM_LMP_8821a = 0x8821"
definition ROM_LMP_8761a :: u16 where "ROM_LMP_8761a = 0x8761"
definition ROM_LMP_8761btc :: u16 where "ROM_LMP_8761btc = 0x8763"
definition ROM_LMP_8703a :: u16 where "ROM_LMP_8703a = 0x87b3"
definition ROM_LMP_8763a :: u16 where "ROM_LMP_8763a = 0x8763"
definition ROM_LMP_8703b :: u16 where "ROM_LMP_8703b = 0x8703"
definition ROM_LMP_8723c :: u16 where "ROM_LMP_8723c = 0x87c3"
definition ROM_LMP_8822b :: u16 where "ROM_LMP_8822b = 0x8822"
definition ROM_LMP_8822c :: u16 where "ROM_LMP_8822c = 0x8822"
definition ROM_LMP_8822e :: u16 where "ROM_LMP_8822e = 0x8822"
definition ROM_LMP_8852a :: u16 where "ROM_LMP_8852a = 0x8852"
definition ROM_LMP_8851b :: u16 where "ROM_LMP_8851b = 0x8851"
definition ROM_LMP_8723cs_xx :: u16 where "ROM_LMP_8723cs_xx = 0x8704"
definition ROM_LMP_8723cs_cg :: u16 where "ROM_LMP_8723cs_cg = 0x8705"
definition ROM_LMP_8723cs_vf :: u16 where "ROM_LMP_8723cs_vf = 0x8706"

lemmas lmp_defs = ROM_LMP_NONE_def ROM_LMP_8723a_def ROM_LMP_8723b_def ROM_LMP_8821a_def ROM_LMP_8761a_def
  ROM_LMP_8761btc_def ROM_LMP_8703a_def ROM_LMP_8763a_def ROM_LMP_8703b_def ROM_LMP_8723c_def ROM_LMP_8822b_def
  ROM_LMP_8822c_def ROM_LMP_8822e_def ROM_LMP_8852a_def ROM_LMP_8851b_def ROM_LMP_8723cs_xx_def
  ROM_LMP_8723cs_cg_def ROM_LMP_8723cs_vf_def

definition RTL_FW_MATCH_CHIP_TYPE :: u32 where "RTL_FW_MATCH_CHIP_TYPE = 1"
definition RTL_FW_MATCH_HCI_VER :: u32 where "RTL_FW_MATCH_HCI_VER = 2"
definition RTL_FW_MATCH_HCI_REV :: u32 where "RTL_FW_MATCH_HCI_REV = 4"

lemmas match_defs = RTL_FW_MATCH_CHIP_TYPE_def RTL_FW_MATCH_HCI_VER_def RTL_FW_MATCH_HCI_REV_def

definition project_id :: "u16 list" where
  "project_id =
     [ROM_LMP_8723a, ROM_LMP_8723b, ROM_LMP_8821a, ROM_LMP_8761a,
      ROM_LMP_8703a, ROM_LMP_8763a, ROM_LMP_8703b, ROM_LMP_8723c, ROM_LMP_8822b, ROM_LMP_8723b,
      ROM_LMP_8821a, ROM_LMP_NONE, ROM_LMP_NONE, ROM_LMP_8822c, ROM_LMP_8761a, ROM_LMP_NONE,
      ROM_LMP_NONE, ROM_LMP_NONE, ROM_LMP_8852a, ROM_LMP_8723b, ROM_LMP_8852a, ROM_LMP_NONE,
      ROM_LMP_NONE, ROM_LMP_NONE, ROM_LMP_NONE, ROM_LMP_8852a, ROM_LMP_NONE, ROM_LMP_NONE,
      ROM_LMP_NONE, ROM_LMP_NONE, ROM_LMP_NONE, ROM_LMP_NONE, ROM_LMP_NONE, ROM_LMP_8822b,
      ROM_LMP_8852a, ROM_LMP_NONE, ROM_LMP_8851b]"

abbreviation pinfo ::
  "u32 \<Rightarrow> byte \<Rightarrow> u16 \<Rightarrow> u16 \<Rightarrow> byte \<Rightarrow> u16 \<Rightarrow> string \<Rightarrow> string \<Rightarrow> string \<Rightarrow> patch_info" where
  "pinfo fl ct lmp pid hv hr pf cf ic \<equiv>
     \<lparr>p_match_flags = fl, p_chip_type = ct, p_lmp_subver = lmp, p_proj_id = pid, p_hci_ver = hv,
      p_hci_rev = hr, p_patch_file = pf, p_config_file = cf, p_ic_name = ic\<rparr>"

definition patch_none :: patch_info where
  "patch_none = pinfo 0 0 0 ROM_LMP_NONE 0 0 ''rtl_none_fw'' ''rtl_none_config'' ''NONE''"

definition h4_patch_table :: "patch_info list" where
  "h4_patch_table =
     [pinfo RTL_FW_MATCH_CHIP_TYPE CHIP_8761AT 0x8761 0xffff 0 0x000a
        ''rtl8761at_fw'' ''rtl8761at_config'' ''RTL8761AT'',
      pinfo RTL_FW_MATCH_CHIP_TYPE CHIP_8761ATF 0x8761 0xffff 0 0x000a
        ''rtl8761atf_fw'' ''rtl8761atf_config'' ''RTL8761ATF'',
      pinfo RTL_FW_MATCH_CHIP_TYPE CHIP_8761BTC 0x8763 0xffff 0 0x000b
        ''rtl8761btc_fw'' ''rtl8761btc_config'' ''RTL8761BTC'',
      pinfo RTL_FW_MATCH_CHIP_TYPE CHIP_8761BH4 0x8761 0xffff 0 0x000b
        ''rtl8761bh4_fw'' ''rtl8761bh4_config'' ''RTL8761BH4'',
      pinfo (RTL_FW_MATCH_HCI_VER OR RTL_FW_MATCH_HCI_REV) CHIP_8723DS ROM_LMP_8723b ROM_LMP_8723b 8 0x000d
        ''rtl8723dsh4_fw'' ''rtl8723dsh4_config'' ''RTL8723DSH4'',
      patch_none]"

definition patch_table :: "patch_info list" where
  "patch_table =
     [pinfo 0 0 ROM_LMP_8723a ROM_LMP_8723a 0 0 ''rtl8723a_fw'' ''rtl8723a_config'' ''RTL8723AS'',
      pinfo RTL_FW_MATCH_HCI_REV CHIP_8821CS ROM_LMP_8821a ROM_LMP_8821a 0 0x000c
        ''rtl8821c_fw'' ''rtl8821c_config'' ''RTL8821CS'',
      pinfo 0 0 ROM_LMP_8821a ROM_LMP_8821a 0 0 ''rtl8821a_fw'' ''rtl8821a_config'' ''RTL8821AS'',
      pinfo (RTL_FW_MATCH_HCI_VER OR RTL_FW_MATCH_HCI_REV) 0 ROM_LMP_8761a ROM_LMP_8761a 0x06 0x000a
        ''rtl8761a_fw'' ''rtl8761a_config'' ''RTL8761ATV'',
      pinfo (RTL_FW_MATCH_CHIP_TYPE OR RTL_FW_MATCH_HCI_VER OR RTL_FW_MATCH_HCI_REV) CHIP_8725AS
        ROM_LMP_8761a ROM_LMP_8761a 0x0a 0x000b ''rtl8725as_fw'' ''rtl8725as_config'' ''RTL8725AS'',
      pinfo (RTL_FW_MATCH_HCI_VER OR RTL_FW_MATCH_HCI_REV) CHIP_8761B ROM_LMP_8761a ROM_LMP_8761a 0x0a 0x000b
        ''rtl8761b_fw'' ''rtl8761b_config'' ''RTL8761BTV'',
      pinfo RTL_FW_MATCH_HCI_REV CHIP_8822BS ROM_LMP_8822b ROM_LMP_8822b 0 0x000b
        ''rtl8822b_fw'' ''rtl8822b_config'' ''RTL8822BS'',
      pinfo RTL_FW_MATCH_HCI_REV CHIP_8822CS ROM_LMP_8822c ROM_LMP_8822c 0 0x000c
        ''rtl8822cs_fw'' ''rtl8822cs_config'' ''RTL8822CS'',
      pinfo (RTL_FW_MATCH_HCI_VER OR RTL_FW_MATCH_HCI_REV) CHIP_8822ES ROM_LMP_8822e ROM_LMP_8822e 0 0x000e
        ''rtl8822es_fw'' ''rtl8822es_config'' ''RTL8822ES'',
      pinfo RTL_FW_MATCH_HCI_REV CHIP_8852AS ROM_LMP_8852a ROM_LMP_8852a 11 0x000a
        ''rtl8852as_fw'' ''rtl8852as_config'' ''RTL8852AS'',
      pinfo (RTL_FW_MATCH_CHIP_TYPE OR RTL_FW_MATCH_HCI_VER OR RTL_FW_MATCH_HCI_REV) CHIP_8852BS
        ROM_LMP_8852a ROM_LMP_8852a 11 0x000b ''rtl8852bs_fw'' ''rtl8852bs_config'' ''RTL8852BS'',
      pinfo (RTL_FW_MATCH_CHIP_TYPE OR RTL_FW_MATCH_HCI_VER OR RTL_FW_MATCH_HCI_REV) CHIP_8852BP
        ROM_LMP_8852a ROM_LMP_8852a 11 0x000b ''rtl8852bps_fw'' ''rtl8852bps_config'' ''RTL8852BP'',
      pinfo RTL_FW_MATCH_HCI_REV CHIP_8852CS ROM_LMP_8852a ROM_LMP_8852a 11 0x000c
        ''rtl8852cs_fw'' ''rtl8852cs_config'' ''RTL8852CS'',
      pinfo RTL_FW_MATCH_HCI_REV CHIP_8851BS ROM_LMP_8851b ROM_LMP_8851b 0x0c 0x000b
        ''rtl8851bs_fw'' ''rtl8851bs_config'' ''RTL8851BS'',
      pinfo RTL_FW_MATCH_CHIP_TYPE CHIP_8703BS ROM_LMP_8703b ROM_LMP_8703b 0 0
        ''rtl8703b_fw'' ''rtl8703b_config'' ''RTL8703BS'',
      pinfo RTL_FW_MATCH_CHIP_TYPE CHIP_8723CS_XX ROM_LMP_8703b ROM_LMP_8723cs_xx 0 0
        ''rtl8723cs_fw'' ''rtl8723cs_config'' ''RTL8723CS_XX'',
      pinfo RTL_FW_MATCH_CHIP_TYPE CHIP_8723CS_CG ROM_LMP_8703b ROM_LMP_8723cs_cg 0 0
        ''rtl8723cs_fw'' ''rtl8723cs_config'' ''RTL8723CS_CG'',
      pinfo RTL_FW_MATCH_CHIP_TYPE CHIP_8723CS_VF ROM_LMP_8703b ROM_LMP_8723cs_vf 0 0
        ''rtl8723cs_fw'' ''rtl8723cs_config'' ''RTL8723CS_VF'',
      pinfo (RTL_FW_MATCH_HCI_VER OR RTL_FW_MATCH_HCI_REV) 0 ROM_LMP_8723b ROM_LMP_8723b 6 0x000b
        ''rtl8723b_fw'' ''rtl8723b_config'' ''RTL8723BS'',
      pinfo (RTL_FW_MATCH_HCI_VER OR RTL_FW_MATCH_HCI_REV) CHIP_8723DS ROM_LMP_8723b ROM_LMP_8723b 8 0x000d
        ''rtl8723d_fw'' ''rtl8723d_config'' ''RTL8723DS'',
      pinfo (RTL_FW_MATCH_HCI_VER OR RTL_FW_MATCH_HCI_REV) CHIP_8723FS ROM_LMP_8723b ROM_LMP_8723b 11 0x000f
        ''rtl8723fs_fw'' ''rtl8723fs_config'' ''RTL8723FS'',
      patch_none]"

definition patch_matches :: "patch_info \<Rightarrow> world \<Rightarrow> bool" where
  "patch_matches n w \<longleftrightarrow>
     \<not> (p_match_flags n AND RTL_FW_MATCH_CHIP_TYPE \<noteq> 0 \<and> p_chip_type n \<noteq> chip_type w) \<and>
     \<not> (p_match_flags n AND RTL_FW_MATCH_HCI_VER \<noteq> 0 \<and> p_hci_ver n \<noteq> hci_ver w) \<and>
     \<not> (p_match_flags n AND RTL_FW_MATCH_HCI_REV \<noteq> 0 \<and> p_hci_rev n \<noteq> hci_rev w) \<and>
     p_lmp_subver n = lmp_subver w"

text \<open>The loop stops at a match or at the entry without subversion; the pointer is never null.\<close>

fun patch_scan :: "patch_info list \<Rightarrow> world \<Rightarrow> patch_info result" where
  "patch_scan [] w = Inl OutOfBounds"
| "patch_scan (n # ns) w =
     (if p_lmp_subver n = 0 then Inr n else if patch_matches n w then Inr n else patch_scan ns w)"

definition get_patch_entry :: "world \<Rightarrow> patch_info result" where
  "get_patch_entry w = patch_scan (if proto w = HCI_UART_3WIRE then patch_table else h4_patch_table) w"

section \<open>Reading the file\<close>

definition FIRMWARE_DIRECTORY :: string where "FIRMWARE_DIRECTORY = ''/lib/firmware/rtlbt/''"

definition rtb_read_firmware :: "world \<Rightarrow> ((byte list option \<times> int) \<times> world) result" where
  "rtb_read_firmware w =
     (case patch_ent w of
        None \<Rightarrow> Inl NullDeref
      | Some e \<Rightarrow>
          (case read_file (FIRMWARE_DIRECTORY @ p_patch_file e) w of
             (None, w) \<Rightarrow> Inr ((None, 0), w)
           | (Some bs, w) \<Rightarrow> Inr ((Some bs, int (length bs)), w)))"

text \<open>Checked access to the buffer of the file.\<close>

definition rd_range :: "byte list \<Rightarrow> int \<Rightarrow> nat \<Rightarrow> byte list result" where
  "rd_range buf p n =
     (if 0 \<le> p \<and> p + int n \<le> int (length buf) then Inr (take n (drop (nat p) buf)) else Inl OutOfBounds)"

definition rd8 :: "byte list \<Rightarrow> int \<Rightarrow> byte result" where
  "rd8 buf p = bind_result (rd_range buf p 1) (\<lambda>b. Inr (b ! 0))"

definition get_unaligned_le16 :: "byte list \<Rightarrow> int \<Rightarrow> u16 result" where
  "get_unaligned_le16 buf p = bind_result (rd_range buf p 2) (\<lambda>b. Inr (le16_of (b ! 0) (b ! 1)))"

definition get_unaligned_le32 :: "byte list \<Rightarrow> int \<Rightarrow> u32 result" where
  "get_unaligned_le32 buf p =
     bind_result (rd_range buf p 4) (\<lambda>b. Inr (le32_of (b ! 0) (b ! 1) (b ! 2) (b ! 3)))"

section \<open>The project identifier\<close>

text \<open>The extension section is read backwards from the end of the file.\<close>

function rtb_get_fw_project_id :: "byte list \<Rightarrow> int \<Rightarrow> byte result" where
  "rtb_get_fw_project_id buf p =
     (case rd8 buf p of Inl e \<Rightarrow> Inl e | Inr opcode \<Rightarrow>
      case rd8 buf (p - 1) of Inl e \<Rightarrow> Inl e | Inr len \<Rightarrow>
      if opcode = 0x00 \<and> len = 1 then rd8 buf (p - 2)
      else
        let p' = p - (int (unat len) + 2) in
        case rd8 buf p' of Inl e \<Rightarrow> Inl e | Inr b \<Rightarrow>
        if b \<noteq> 0xFF then rtb_get_fw_project_id buf p' else Inr 0)"
  by pat_completeness auto
termination
proof (relation "measure (\<lambda>(buf, p). nat (p + 1))", goal_cases)
  case (2 buf p opcode len p' b)
  then have "0 \<le> p" by (auto simp: rd8_def rd_range_def split: if_splits)
  moreover have "0 \<le> uint len" by simp
  ultimately have "p' + 1 < p + 1" "0 < p + 1" using 2(4) by (simp_all only: uint_nat)
  then show ?case by simp
qed simp

declare rtb_get_fw_project_id.simps [simp del]

section \<open>The container with sections\<close>

definition PATCH_SNIPPETS :: u32 where "PATCH_SNIPPETS = 0x01"
definition PATCH_DUMMY_HEADER :: u32 where "PATCH_DUMMY_HEADER = 0x02"
definition PATCH_SECURITY_HEADER :: u32 where "PATCH_SECURITY_HEADER = 0x03"
definition PATCH_OTA_FLAG :: u32 where "PATCH_OTA_FLAG = 0x04"
definition SECTION_HEADER_SIZE :: u32 where "SECTION_HEADER_SIZE = 8"

lemmas section_defs = PATCH_SNIPPETS_def PATCH_DUMMY_HEADER_def PATCH_SECURITY_HEADER_def PATCH_OTA_FLAG_def
  SECTION_HEADER_SIZE_def

text \<open>
  A node of the list: \<open>payload\<close> is the offset into the file. The fields \<open>eco\<close> and \<open>reserve\<close> are never
  used; \<open>key_id\<close> is compared only where it has just been set to the value of \<open>pri\<close>.
\<close>

record patch_node =
  pn_pri :: byte
  pn_len :: u32
  pn_payload :: int

fun insert_queue_sort :: "patch_node \<Rightarrow> patch_node list \<Rightarrow> patch_node list" where
  "insert_queue_sort node [] = [node]"
| "insert_queue_sort node (tmp # rest) =
     (if pn_pri tmp \<ge> pn_pri node then node # tmp # rest else tmp # insert_queue_sort node rest)"

text \<open>The list, \<open>patch_len\<close>, \<open>sec_flag\<close> and the world.\<close>

type_synonym hdr_state = "patch_node list \<times> u32 \<times> bool \<times> world"

fun insert_loop :: "nat \<Rightarrow> byte list \<Rightarrow> u32 \<Rightarrow> int \<Rightarrow> hdr_state \<Rightarrow> (int \<times> hdr_state) result" where
  "insert_loop 0 buf opcode pos st = Inr (0, st)"
| "insert_loop (Suc n) buf opcode pos (nodes, patch_len, sec_flag, w) =
     bind_result (rd8 buf pos) (\<lambda>eco.
     if unat eco = unat (eversion w) + 1 then
       case next_malloc w of (ok, w) \<Rightarrow>
       if \<not> ok then Inr (- 1, nodes, patch_len, sec_flag, w)
       else
         bind_result (rd8 buf (pos + 1)) (\<lambda>pri.
         bind_result (get_unaligned_le32 buf (pos + 4)) (\<lambda>section_len.
         let tmp = \<lparr>pn_pri = pri, pn_len = section_len, pn_payload = pos + 8\<rparr>;
             patch_len = patch_len + section_len;
             pos = pos + uint (8 + section_len)
         in
         if opcode \<noteq> PATCH_SECURITY_HEADER then
           insert_loop n buf opcode pos (insert_queue_sort tmp nodes, patch_len, sec_flag, w)
         else if key_id w = pri \<and> key_id w > 0 then
           insert_loop n buf opcode pos (insert_queue_sort tmp nodes, patch_len, True, w)
         else insert_loop n buf opcode pos (nodes, patch_len, sec_flag, w)))
     else
       bind_result (get_unaligned_le32 buf (pos + 4)) (\<lambda>section_len.
         insert_loop n buf opcode (pos + uint (8 + section_len)) (nodes, patch_len, sec_flag, w)))"

definition insert_patch :: "byte list \<Rightarrow> int \<Rightarrow> u32 \<Rightarrow> hdr_state \<Rightarrow> (int \<times> hdr_state) result" where
  "insert_patch buf section_pos opcode st =
     bind_result (get_unaligned_le16 buf (section_pos + 8)) (\<lambda>numbers.
       insert_loop (unat numbers) buf opcode (section_pos + 12) st)"

text \<open>
  The inner loop that looks for dummy headers when no security header fits: it runs on the same
  counter and the same position as the outer loop. The counter is a \<open>uint16_t\<close> compared with a
  32-bit number of sections, and a section may be given a length that does not advance, so that
  the loops need not end; they get an explicit number of iterations, and \<open>Blocked\<close> means that more
  were needed.
\<close>

fun dummy_loop ::
  "nat \<Rightarrow> byte list \<Rightarrow> u32 \<Rightarrow> nat \<Rightarrow> int \<Rightarrow> u32 \<Rightarrow> hdr_state \<Rightarrow> (int \<times> nat \<times> int \<times> u32 \<times> hdr_state) result" where
  "dummy_loop 0 buf nsec i section_pos slen st = Inl Blocked"
| "dummy_loop (Suc fuel) buf nsec i section_pos slen st =
     (if i < unat nsec then
        bind_result (get_unaligned_le32 buf section_pos) (\<lambda>opcode.
        bind_result (get_unaligned_le32 buf (section_pos + 4)) (\<lambda>slen.
        bind_result (if opcode = PATCH_DUMMY_HEADER then insert_patch buf section_pos PATCH_DUMMY_HEADER st else Inr (0, st))
          (\<lambda>(rc, st).
           if rc \<noteq> 0 then Inr (rc, i, section_pos, slen, st)
           else dummy_loop fuel buf nsec ((i + 1) mod 65536) (section_pos + uint (SECTION_HEADER_SIZE + slen)) slen st)))
      else Inr (0, i, section_pos, slen, st))"

text \<open>
  The flags of \<open>PATCH_OTA_FLAG\<close> are read and not used. Their number is taken from the length field of
  the section and counted with a \<open>uint16_t\<close>; a larger number would never be reached.
\<close>

definition ota_flag :: "byte list \<Rightarrow> int \<Rightarrow> hdr_state \<Rightarrow> (int \<times> hdr_state) result" where
  "ota_flag buf section_pos st =
     (case st of (_, _, _, w) \<Rightarrow>
      bind_result (get_unaligned_le32 buf (section_pos + 4)) (\<lambda>number_of_ota_flag.
      bind_result (rd8 buf (section_pos + 5)) (\<lambda>eco.
        if unat eco = unat (eversion w) + 1 \<and> number_of_ota_flag \<noteq> 0 then
          bind_result (get_unaligned_le32 buf (section_pos + 8)) (\<lambda>_.
            if unat number_of_ota_flag < 65536 then Inr (0, st) else Inl Blocked)
        else Inr (0, st))))"

fun section_loop ::
  "nat \<Rightarrow> byte list \<Rightarrow> byte \<Rightarrow> u32 \<Rightarrow> nat \<Rightarrow> int \<Rightarrow> hdr_state \<Rightarrow> (int \<times> hdr_state) result" where
  "section_loop 0 buf key nsec i section_pos st = Inl Blocked"
| "section_loop (Suc fuel) buf key nsec i section_pos st =
     (if i < unat nsec then
        bind_result (get_unaligned_le32 buf section_pos) (\<lambda>opcode.
        bind_result (get_unaligned_le32 buf (section_pos + 4)) (\<lambda>slen.
        bind_result
          (if opcode = PATCH_SNIPPETS then
             bind_result (insert_patch buf section_pos PATCH_SNIPPETS st) (\<lambda>(rc, st). Inr (rc, i, section_pos, slen, st))
           else if opcode = PATCH_SECURITY_HEADER then
             (if key = 0 then Inr (0, i, section_pos, slen, st)
              else case st of (nodes, patch_len, _, w) \<Rightarrow>
                bind_result (insert_patch buf section_pos PATCH_SECURITY_HEADER (nodes, patch_len, False, w)) (\<lambda>(rc, st).
                  if rc \<noteq> 0 then Inr (rc, i, section_pos, slen, st)
                  else case st of (_, _, sec_flag, _) \<Rightarrow>
                    if sec_flag then Inr (0, i, section_pos, slen, st)
                    else dummy_loop (2 ^ 16 + 1) buf nsec 0 section_pos slen st))
           else if opcode = PATCH_DUMMY_HEADER then
             (if key \<noteq> 0 then Inr (0, i, section_pos, slen, st)
              else bind_result (insert_patch buf section_pos PATCH_DUMMY_HEADER st) (\<lambda>(rc, st). Inr (rc, i, section_pos, slen, st)))
           else if opcode = PATCH_OTA_FLAG then
             bind_result (ota_flag buf section_pos st) (\<lambda>(rc, st). Inr (rc, i, section_pos, slen, st))
           else Inr (0, i, section_pos, slen, st))
          (\<lambda>(rc, i, section_pos, slen, st).
             if rc \<noteq> 0 then Inr (rc, st)
             else section_loop fuel buf key nsec ((i + 1) mod 65536) (section_pos + uint (SECTION_HEADER_SIZE + slen)) st)))
      else Inr (0, st))"

text \<open>The length (zero after a failed allocation) and the list of patches.\<close>

definition rtb_get_patch_header :: "byte list \<Rightarrow> byte \<Rightarrow> world \<Rightarrow> ((u32 \<times> patch_node list) \<times> world) result" where
  "rtb_get_patch_header buf key w =
     bind_result (get_unaligned_le32 buf 16) (\<lambda>nsec.
     bind_result (section_loop (2 ^ 16 + 1) buf key nsec 0 20 ([], 0, False, w)) (\<lambda>(rc, nodes, patch_len, _, w).
       Inr ((if rc \<noteq> 0 then 0 else patch_len, nodes), w)))"

section \<open>The container with a table of patches\<close>

record rtb_patch_entry =
  pe_chip_id :: u16
  pe_patch_len :: u16
  pe_soffset :: u32
  pe_svn_ver :: u32
  pe_coex_ver :: u32

fun entry_scan :: "byte list \<Rightarrow> byte \<Rightarrow> int \<Rightarrow> int \<Rightarrow> int \<Rightarrow> nat \<Rightarrow> rtb_patch_entry option result" where
  "entry_scan buf ever ci pl so 0 = Inr None"
| "entry_scan buf ever ci pl so (Suc n) =
     bind_result (get_unaligned_le16 buf ci) (\<lambda>chip_id.
     if unat chip_id = unat ever + 1 then
       bind_result (get_unaligned_le16 buf pl) (\<lambda>patch_len.
       bind_result (get_unaligned_le32 buf so) (\<lambda>soffset.
       bind_result (get_unaligned_le32 buf (uint soffset + uint patch_len - 8)) (\<lambda>svn_ver.
       bind_result (get_unaligned_le32 buf (uint soffset + uint patch_len - 12)) (\<lambda>coex_ver.
         Inr (Some \<lparr>pe_chip_id = ucast ever + 1, pe_patch_len = patch_len, pe_soffset = soffset,
                    pe_svn_ver = svn_ver, pe_coex_ver = coex_ver\<rparr>)))))
     else entry_scan buf ever (ci + 2) (pl + 2) (so + 4) n)"

definition rtb_get_patch_entry :: "byte list \<Rightarrow> world \<Rightarrow> (rtb_patch_entry option \<times> world) result" where
  "rtb_get_patch_entry buf w =
     (case next_malloc w of (ok, w) \<Rightarrow>
      if \<not> ok then Inr (None, w)
      else
        bind_result (get_unaligned_le16 buf 12) (\<lambda>num.
        bind_result (entry_scan buf (eversion w) 14 (14 + 2 * uint num) (14 + 4 * uint num) (unat num)) (\<lambda>e.
          Inr (e, w))))"

section \<open>The buffer to download\<close>

definition RTK_EPATCH_SIGNATURE :: "byte list" where
  "RTK_EPATCH_SIGNATURE = [0x52, 0x65, 0x61, 0x6C, 0x74, 0x65, 0x63, 0x68]"
definition RTK_EPATCH_SIGNATURE_NEW :: "byte list" where
  "RTK_EPATCH_SIGNATURE_NEW = [0x52, 0x54, 0x42, 0x54, 0x43, 0x6F, 0x72, 0x65]"
definition Extension_Section_SIGNATURE :: "byte list" where
  "Extension_Section_SIGNATURE = [0x51, 0x04, 0xFD, 0x77]"

lemmas signature_defs = RTK_EPATCH_SIGNATURE_def RTK_EPATCH_SIGNATURE_NEW_def Extension_Section_SIGNATURE_def

text \<open>\<open>malloc(len)\<close> with an \<open>int\<close>: a negative length becomes a size that cannot be allocated.\<close>

definition malloc_buf :: "int \<Rightarrow> world \<Rightarrow> byte list option \<times> world" where
  "malloc_buf len w =
     (case next_malloc w of (ok, w) \<Rightarrow> (if ok \<and> 0 \<le> len then Some (map (junk w) [0..<nat len]) else None, w))"

fun copy_nodes :: "byte list \<Rightarrow> patch_node list \<Rightarrow> nat \<Rightarrow> byte list \<Rightarrow> byte list result" where
  "copy_nodes fw [] tmp_len buf = Inr buf"
| "copy_nodes fw (n # ns) tmp_len buf =
     bind_result (rd_range fw (pn_payload n) (unat (pn_len n))) (\<lambda>bs.
     bind_result (buf_store tmp_len bs buf) (\<lambda>buf. copy_nodes fw ns (tmp_len + unat (pn_len n)) buf))"

definition put_config :: "int \<Rightarrow> world \<Rightarrow> byte list \<Rightarrow> byte list result" where
  "put_config len w buf =
     (if config_len w \<noteq> 0 then
        (case config_buf w of
           None \<Rightarrow> Inl NullDeref
         | Some c \<Rightarrow>
             if 0 \<le> config_len w \<and> config_len w \<le> len
             then bind_result (rd_range c 0 (nat (config_len w))) (\<lambda>c. buf_store (nat (len - config_len w)) c buf)
             else Inl OutOfBounds)
      else Inr buf)"

text \<open>Failure: no buffer, length zero, and the download switched off.\<close>

definition no_patch :: "world \<Rightarrow> ((byte list option \<times> int) \<times> world) result" where
  "no_patch w = Inr ((None, 0), w\<lparr>dl_fw_flag := 0\<rparr>)"

definition final_8723a :: "byte list \<Rightarrow> world \<Rightarrow> ((byte list option \<times> int) \<times> world) result" where
  "final_8723a fw w =
     bind_result (rd_range fw 0 8) (\<lambda>sig.
     if sig = RTK_EPATCH_SIGNATURE then no_patch w
     else
       let len = config_len w + fw_len w in
       case malloc_buf len w of
         (None, w) \<Rightarrow> no_patch w
       | (Some buf, w) \<Rightarrow>
           bind_result (get_unaligned_le32 fw (fw_len w - 8)) (\<lambda>_.
           bind_result (get_unaligned_le32 fw (fw_len w - 12)) (\<lambda>_.
           bind_result (rd_range fw 0 (nat (fw_len w))) (\<lambda>bs.
           bind_result (buf_store 0 bs buf) (\<lambda>buf.
           bind_result (put_config len w buf) (\<lambda>buf.
             Inr ((Some buf, len), w\<lparr>dl_fw_flag := 1\<rparr>)))))))"

definition final_sections :: "int \<Rightarrow> byte list \<Rightarrow> world \<Rightarrow> ((byte list option \<times> int) \<times> world) result" where
  "final_sections fd fw w =
     bind_result (rtb_vendor_read fd READ_SEC_PROJ w) (\<lambda>(_, w).
     bind_result (rtb_get_patch_header fw (key_id w) w) (\<lambda>((plen, nodes), w).
     if plen = 0 then no_patch w
     else
       let len = sint plen + config_len w in
       case malloc_buf len w of
         (None, w) \<Rightarrow> no_patch w
       | (Some buf, w) \<Rightarrow>
           bind_result (copy_nodes fw nodes 0 buf) (\<lambda>buf.
           bind_result (put_config len w buf) (\<lambda>buf.
             Inr ((Some buf, len), w\<lparr>dl_fw_flag := 1\<rparr>)))))"

definition final_table :: "byte list \<Rightarrow> world \<Rightarrow> ((byte list option \<times> int) \<times> world) result" where
  "final_table fw w =
     bind_result (rtb_get_patch_entry fw w) (\<lambda>(entry, w).
     case entry of
       None \<Rightarrow> no_patch w
     | Some e \<Rightarrow>
         let plen = uint (pe_patch_len e); len = plen + config_len w in
         (case malloc_buf len w of
            (None, w) \<Rightarrow> no_patch w
          | (Some buf, w) \<Rightarrow>
              bind_result (rd_range fw (uint (pe_soffset e)) (nat plen)) (\<lambda>bs.
              bind_result (buf_store 0 bs buf) (\<lambda>buf.
              bind_result (rd_range fw 8 4) (\<lambda>fw_version.
              bind_result (if plen < 4 then Inl OutOfBounds else buf_store (nat (plen - 4)) fw_version buf) (\<lambda>buf.
              bind_result (put_config len w buf) (\<lambda>buf.
                Inr ((Some buf, len), w\<lparr>dl_fw_flag := 1\<rparr>))))))))"

text \<open>The comparison of the project identifier with the chip.\<close>

definition project_ok :: "byte \<Rightarrow> world \<Rightarrow> bool result" where
  "project_ok proj_id w =
     (if unat proj_id < length project_id then
        if lmp_subver w \<noteq> ROM_LMP_8703b then Inr (lmp_subver w = project_id ! unat proj_id)
        else (case patch_ent w of
                None \<Rightarrow> Inl NullDeref
              | Some e \<Rightarrow> Inr (p_proj_id e = project_id ! unat proj_id))
      else Inl OutOfBounds)"

definition rtb_get_final_patch :: "int \<Rightarrow> int \<Rightarrow> world \<Rightarrow> ((byte list option \<times> int) \<times> world) result" where
  "rtb_get_final_patch fd protocol w =
     (case fw_buf w of
        None \<Rightarrow> Inl NullDeref
      | Some fw \<Rightarrow>
          if protocol = HCI_UART_3WIRE \<and> lmp_subver w = ROM_LMP_8723a then final_8723a fw w
          else
            bind_result (rd_range fw 0 8) (\<lambda>sig.
            if sig \<noteq> RTK_EPATCH_SIGNATURE \<and> sig \<noteq> RTK_EPATCH_SIGNATURE_NEW then no_patch w
            else
              bind_result (rd_range fw (fw_len w - 4) 4) (\<lambda>ext.
              if ext \<noteq> Extension_Section_SIGNATURE then no_patch w
              else
                bind_result (rtb_get_fw_project_id fw (fw_len w - 5)) (\<lambda>proj_id.
                bind_result (project_ok proj_id w) (\<lambda>ok.
                if \<not> ok then no_patch w
                else if sig = RTK_EPATCH_SIGNATURE_NEW then final_sections fd fw w
                else final_table fw w)))))"

end
