(* ===== verification/Fwc_Config_Props.thy ===== *)
theory Fwc_Config_Props
  imports Fwc_Config
begin

text \<open>
  What is proved of the configuration code: the block the tool writes is read back by its own
  parser, merging is an update of the settings by offset, and a device address in text form is
  taken over byte by byte. Three deviations from what comments or sibling functions say are stated
  as theorems too.
\<close>

section \<open>Writing and parsing\<close>

definition items_ok :: "cfg_list_item list \<Rightarrow> bool" where
  "items_ok items \<longleftrightarrow> (\<forall>n \<in> set items. length (ci_data n) < 256)"

lemma items_ok_simps [simp]:
  "items_ok []" "items_ok (n # ns) \<longleftrightarrow> length (ci_data n) < 256 \<and> items_ok ns"
  "items_ok (xs @ ys) \<longleftrightarrow> items_ok xs \<and> items_ok ys"
  by (auto simp: items_ok_def)

lemma cfg_dlen_simps [simp]:
  "cfg_dlen [] = 0" "cfg_dlen (n # ns) = 3 + length (ci_data n) + cfg_dlen ns"
  by (simp_all add: cfg_dlen_def)

lemma length_cfg_entry_bytes [simp]: "length (cfg_entry_bytes n) = 3 + length (ci_data n)"
  by (simp add: cfg_entry_bytes_def)

lemma length_concat_entries: "length (concat (map cfg_entry_bytes items)) = cfg_dlen items"
  by (induction items) simp_all

lemma length_cfg_bytes [simp]: "length (cfg_bytes items) = 6 + cfg_dlen items"
  by (simp add: cfg_bytes_def cfg_magic_def length_concat_entries)

lemma nth_append_at: "(xs @ ys) ! (length xs + i) = ys ! i"
  by (simp add: nth_append)

definition allocs :: "nat \<Rightarrow> world \<Rightarrow> world" where
  "allocs n w = w\<lparr>mallocs := drop n (mallocs w)\<rparr>"

definition alloc_ok :: "world \<Rightarrow> bool" where
  "alloc_ok w \<longleftrightarrow> False \<notin> set (mallocs w)"

lemma next_malloc_allocs: "alloc_ok w \<Longrightarrow> next_malloc w = (True, allocs 1 w)"
  by (cases "mallocs w") (auto simp: next_malloc_eq alloc_ok_def allocs_def)

lemma alloc_ok_allocs [simp]: "alloc_ok w \<Longrightarrow> alloc_ok (allocs n w)"
  using set_drop_subset [of n "mallocs w"] by (auto simp: alloc_ok_def allocs_def)

lemma allocs_allocs [simp]: "allocs m (allocs n w) = allocs (n + m) w" "allocs 0 w = w"
  by (simp_all add: allocs_def add.commute)

lemma parse_entries_written:
  assumes "items_ok items" "alloc_ok w" "length pre + cfg_dlen items = length buf" "buf = pre @ concat (map cfg_entry_bytes items)"
    "i + cfg_dlen items = cfg_len" "cfg_len < 65536"
  shows "parse_entries buf cfg_len (length pre) i (done_items, w) = Inr (done_items @ items, allocs (length items) w)"
  using assms
proof (induction items arbitrary: pre i done_items w)
  case (Cons n ns)
  let ?e = "cfg_entry_bytes n" and ?rest = "concat (map cfg_entry_bytes ns)"
  have buf: "buf = pre @ ?e @ ?rest" using Cons.prems(4) by simp
  have len: "length (ci_data n) < 256" using Cons.prems(1) by simp
  have b: "buf ! length pre = ucast (ci_offset n)" "buf ! (length pre + 1) = ucast (drop_bit 8 (ci_offset n))"
    "buf ! (length pre + 2) = word_of_nat (length (ci_data n))"
    unfolding buf using nth_append_at [of pre "?e @ ?rest" 0]
    by (simp_all add: nth_append_at cfg_entry_bytes_def le16_bytes_def nth_append)
  have u: "unat (word_of_nat (length (ci_data n)) :: byte) = length (ci_data n)"
    using len by (simp add: unsigned_of_nat take_bit_nat_eq_self)
  have d: "take (length (ci_data n)) (drop (length pre + 3) buf) = ci_data n"
    unfolding buf by (simp add: cfg_entry_bytes_def le16_bytes_def)
  have i: "(i + (length (ci_data n) + 3)) mod 65536 = i + (length (ci_data n) + 3)"
    using Cons.prems(5,6) by simp
  have n: "\<lparr>ci_offset = ci_offset n, ci_data = ci_data n\<rparr> = n" by simp
  have step: "parse_entries buf cfg_len (length pre) i (done_items, w) =
      parse_entries buf cfg_len (length (pre @ ?e)) (i + (length (ci_data n) + 3)) (done_items @ [n], allocs 1 w)"
    using Cons.prems(3,5) b u d i
    by (subst parse_entries.simps) (simp add: next_malloc_allocs [OF Cons.prems(2)] Let_def add.commute n)
  have "parse_entries buf cfg_len (length (pre @ ?e)) (i + (length (ci_data n) + 3)) (done_items @ [n], allocs 1 w) =
      Inr ((done_items @ [n]) @ ns, allocs (length ns) (allocs 1 w))"
    by (rule Cons.IH) (use Cons.prems in auto)
  with step show ?case by simp
qed (simp add: parse_entries.simps)

lemma parse_written:
  assumes "items_ok items" "alloc_ok w" "cfg_dlen items < 65536"
  shows "rtb_parse_config (cfg_bytes items) ([], w) = Inr (0, items, allocs (length items) w)"
proof -
  let ?hdr = "cfg_magic @ le16_bytes (word_of_nat (cfg_dlen items))"
  have b: "cfg_bytes items = ?hdr @ concat (map cfg_entry_bytes items)" by (simp add: cfg_bytes_def)
  have h: "length ?hdr = 6" by (simp add: cfg_magic_def)
  have n: "cfg_bytes items ! 4 = ucast (word_of_nat (cfg_dlen items) :: u16)"
    "cfg_bytes items ! 5 = ucast (drop_bit 8 (word_of_nat (cfg_dlen items) :: u16))"
    by (simp_all add: cfg_bytes_def cfg_magic_def le16_bytes_def)
  have "unat (word_of_nat (cfg_dlen items) :: u16) = cfg_dlen items"
    using assms(3) by (simp add: unsigned_of_nat take_bit_nat_eq_self)
  moreover have "take 4 (cfg_bytes items) = cfg_magic" by (simp add: cfg_bytes_def cfg_magic_def)
  moreover have "parse_entries (cfg_bytes items) (cfg_dlen items) (length ?hdr) 0 ([], w) =
      Inr ([] @ items, allocs (length items) w)"
    by (rule parse_entries_written [OF assms(1,2) _ b]) (use assms(3) h in auto)
  ultimately show ?thesis
    using h by (simp add: rtb_parse_config_def RTB_CFG_HDR_LEN_def n)
qed

section \<open>Merging as an update by offset\<close>

definition offsets :: "cfg_list_item list \<Rightarrow> u16 list" where
  "offsets items = map ci_offset items"

definition cfg_lookup :: "cfg_list_item list \<Rightarrow> u16 \<Rightarrow> byte list option" where
  "cfg_lookup items ofs = map_option ci_data (find (\<lambda>n. ci_offset n = ofs) items)"

lemma cfg_lookup_simps [simp]:
  "cfg_lookup [] ofs = None"
  "cfg_lookup (n # ns) ofs = (if ci_offset n = ofs then Some (ci_data n) else cfg_lookup ns ofs)"
  by (simp_all add: cfg_lookup_def)

lemma offsets_simps [simp]: "offsets [] = []" "offsets (n # ns) = ci_offset n # offsets ns"
  "offsets (xs @ ys) = offsets xs @ offsets ys"
  by (simp_all add: offsets_def)

lemma cfg_lookup_append:
  "cfg_lookup (xs @ ys) ofs = (case cfg_lookup xs ofs of None \<Rightarrow> cfg_lookup ys ofs | Some d \<Rightarrow> Some d)"
  by (induction xs) auto

lemma cfg_lookup_None: "cfg_lookup items ofs = None \<longleftrightarrow> ofs \<notin> set (offsets items)"
  by (induction items) auto

text \<open>What an extra setting makes of an existing one.\<close>

definition overlay :: "byte list \<Rightarrow> byte list \<Rightarrow> byte list" where
  "overlay extra d = (if length extra < length d then extra @ drop (length extra) d else extra)"

lemma merge_scan_absent:
  "ci_offset extra \<notin> set (offsets head) \<Longrightarrow>
   merge_scan extra placed before after head =
     (placed, if placed then before @ extra # after @ head else before @ after @ head)"
  by (induction head arbitrary: after) auto

lemma merge_scan_present:
  assumes "distinct (offsets head)" "ci_offset extra \<in> set (offsets head)"
  shows "\<exists>xs n ys. head = xs @ n # ys \<and> ci_offset n = ci_offset extra \<and>
    merge_scan extra False before after head =
      (True, before @ after @ xs @ n\<lparr>ci_data := overlay (ci_data extra) (ci_data n)\<rparr> # ys)"
  using assms
proof (induction head arbitrary: after)
  case (Cons n ns)
  show ?case
  proof (cases "ci_offset n = ci_offset extra")
    case True
    with Cons.prems have abs: "ci_offset extra \<notin> set (offsets ns)" by simp
    have e: "n\<lparr>ci_data := ci_data extra\<rparr> = extra" using True by (cases n; cases extra) simp
    show ?thesis
      by (rule exI [of _ "[]"], rule exI [of _ n], rule exI [of _ ns])
         (use True abs e in \<open>simp add: overlay_def merge_scan_absent\<close>)
  next
    case False
    with Cons.prems Cons.IH [of "after @ [n]"] obtain xs m ys where
      "ns = xs @ m # ys" "ci_offset m = ci_offset extra"
      "merge_scan extra False before (after @ [n]) ns =
        (True, before @ (after @ [n]) @ xs @ m\<lparr>ci_data := overlay (ci_data extra) (ci_data m)\<rparr> # ys)"
      by auto
    with False show ?thesis
      by (intro exI [of _ "n # xs"] exI [of _ m] exI [of _ ys]) simp
  qed
qed simp

text \<open>One extra item: present offsets are overlaid, the others are left alone.\<close>

lemma merge_scan_lookup:
  assumes "distinct (offsets head)" "merge_scan extra False [] [] head = (used, head')"
  shows "distinct (offsets head')" "set (offsets head') = set (offsets head)"
    "used \<longleftrightarrow> ci_offset extra \<in> set (offsets head)"
    "cfg_lookup head' ofs =
       (if ofs = ci_offset extra then map_option (overlay (ci_data extra)) (cfg_lookup head ofs) else cfg_lookup head ofs)"
proof -
  have "distinct (offsets head') \<and> set (offsets head') = set (offsets head) \<and>
      (used \<longleftrightarrow> ci_offset extra \<in> set (offsets head)) \<and>
      cfg_lookup head' ofs =
       (if ofs = ci_offset extra then map_option (overlay (ci_data extra)) (cfg_lookup head ofs) else cfg_lookup head ofs)"
  proof (cases "ci_offset extra \<in> set (offsets head)")
    case True
    then obtain xs n ys where h: "head = xs @ n # ys" "ci_offset n = ci_offset extra"
        "head' = xs @ n\<lparr>ci_data := overlay (ci_data extra) (ci_data n)\<rparr> # ys" used
      using merge_scan_present [OF assms(1), of extra "[]" "[]"] assms(2) by auto
    with assms(1) have "cfg_lookup xs (ci_offset extra) = None" by (simp add: cfg_lookup_None)
    with h assms(1) True show ?thesis
      by (auto simp: cfg_lookup_append split: option.splits)
  next
    case False
    then have "head' = head" "\<not> used" using merge_scan_absent [of extra head False "[]" "[]"] assms(2) by auto
    with False assms(1) show ?thesis by (auto simp: cfg_lookup_None [symmetric])
  qed
  then show "distinct (offsets head')" "set (offsets head') = set (offsets head)"
    "used \<longleftrightarrow> ci_offset extra \<in> set (offsets head)"
    "cfg_lookup head' ofs =
       (if ofs = ci_offset extra then map_option (overlay (ci_data extra)) (cfg_lookup head ofs) else cfg_lookup head ofs)"
    by simp_all
qed

lemma merge_loop_lookup:
  assumes "distinct (offsets head)" "distinct (offsets extras)" "merge_loop extras head = (head', left)"
  shows "distinct (offsets head') \<and> set (offsets head') = set (offsets head) \<and>
    left = filter (\<lambda>n. ci_offset n \<notin> set (offsets head)) extras \<and>
    cfg_lookup head' ofs = (case cfg_lookup extras ofs of None \<Rightarrow> cfg_lookup head ofs
       | Some e \<Rightarrow> map_option (overlay e) (cfg_lookup head ofs))"
  using assms
proof (induction extras arbitrary: head left)
  case (Cons extra extras)
  obtain used h1 where s: "merge_scan extra False [] [] head = (used, h1)"
    by (cases "merge_scan extra False [] [] head")
  obtain left1 where l: "merge_loop extras h1 = (head', left1)" "left = (if used then left1 else extra # left1)"
    using Cons.prems(3) s by (auto split: prod.splits)
  note m = merge_scan_lookup [OF Cons.prems(1) s]
  have ex: "distinct (offsets extras)" "ci_offset extra \<notin> set (offsets extras)" using Cons.prems(2) by simp_all
  from Cons.IH [OF m(1) ex(1) l(1)] have ih: "distinct (offsets head')" "set (offsets head') = set (offsets head)"
    "left1 = filter (\<lambda>n. ci_offset n \<notin> set (offsets head)) extras"
    "cfg_lookup head' ofs = (case cfg_lookup extras ofs of None \<Rightarrow> cfg_lookup h1 ofs
       | Some e \<Rightarrow> map_option (overlay e) (cfg_lookup h1 ofs))"
    using m(2) by simp_all
  have "cfg_lookup extras (ci_offset extra) = None" using ex(2) by (simp add: cfg_lookup_None)
  then show ?case using ih l(2) m(3) m(4) [of ofs] by (auto split: option.splits)
qed simp

lemma cfg_lookup_filter:
  "ofs \<notin> S \<Longrightarrow> cfg_lookup (filter (\<lambda>n. ci_offset n \<notin> S) items) ofs = cfg_lookup items ofs"
  by (induction items) auto

lemma merge_configs_update:
  assumes "distinct (offsets head)" "distinct (offsets extras)"
  shows "cfg_lookup (merge_configs head extras) ofs =
    (case (cfg_lookup extras ofs, cfg_lookup head ofs) of
       (None, d) \<Rightarrow> d | (Some e, None) \<Rightarrow> Some e | (Some e, Some d) \<Rightarrow> Some (overlay e d))"
    and "distinct (offsets (merge_configs head extras))"
proof -
  obtain h l where m: "merge_loop extras head = (h, l)" by (cases "merge_loop extras head")
  note ml = merge_loop_lookup [OF assms m]
  have dis: "distinct (offsets (filter P items))" if "distinct (offsets items)" for P items
    using that by (simp add: offsets_def distinct_map_filter)
  show "cfg_lookup (merge_configs head extras) ofs =
    (case (cfg_lookup extras ofs, cfg_lookup head ofs) of
       (None, d) \<Rightarrow> d | (Some e, None) \<Rightarrow> Some e | (Some e, Some d) \<Rightarrow> Some (overlay e d))"
  proof (cases "extras = [] \<or> head = []")
    case False
    have "cfg_lookup l ofs = cfg_lookup extras ofs" if "cfg_lookup head ofs = None"
      using that ml [of ofs] cfg_lookup_filter [of ofs "set (offsets head)" extras] by (simp add: cfg_lookup_None)
    with False m ml [of ofs] show ?thesis
      by (auto simp: merge_configs_def cfg_lookup_append split: option.splits)
  qed (auto simp: merge_configs_def split: option.splits)
  have "distinct (offsets l)" using ml dis [OF assms(2)] by simp
  moreover have "ci_offset n \<notin> set (offsets h)" if "n \<in> set l" for n using that ml by auto
  then have "set (offsets h) \<inter> set (offsets l) = {}"
    unfolding offsets_def set_map disjoint_iff by (simp add: image_iff) blast
  ultimately show "distinct (offsets (merge_configs head extras))"
    using assms ml m by (auto simp: merge_configs_def)
qed

section \<open>Every producer yields storable items\<close>

lemma line_process_ok: "items_ok (fst st) \<Longrightarrow> items_ok (fst (line_process buf st))"
  using unat_byte_less by (auto simp: line_process_def Let_def split: prod.splits)

lemma config_process_ok: "items_ok (fst st) \<Longrightarrow> items_ok (fst (config_process buf st))"
proof -
  have "items_ok (fst st) \<Longrightarrow> items_ok (fst (fold line_process lines st))" for lines
    by (induction lines arbitrary: st) (simp_all add: line_process_ok)
  then show "items_ok (fst st) \<Longrightarrow> items_ok (fst (config_process buf st))" by (simp add: config_process_def)
qed

lemma parse_extra_config_ok: "items_ok (fst st) \<Longrightarrow> items_ok (fst (parse_extra_config path st))"
  by (auto simp: parse_extra_config_def config_process_ok split: file_ret.splits option.splits)

lemma length_bdaddr_of [simp]: "length (bdaddr_of str) = 6"
  by (simp add: bdaddr_of_def Let_def)

lemma read_bdaddr_ok: "items_ok (fst st) \<Longrightarrow> items_ok (fst (read_bdaddr chip st))"
  by (auto simp: read_bdaddr_def Let_def split: prod.splits file_ret.splits option.splits)

lemma parse_entries_ok:
  "items_ok (fst st) \<Longrightarrow> returns (\<lambda>st'. items_ok (fst st')) (parse_entries buf cfg_len pos i st)"
proof (induction buf cfg_len pos i st rule: parse_entries.induct)
  case (1 buf cfg_len pos i st)
  obtain configs w where st: "st = (configs, w)" by (cases st)
  obtain ok w' where m: "next_malloc w = (ok, w')" by (cases "next_malloc w")
  have "unat (buf ! (pos + 2)) < 256" by (rule unat_byte_less)
  with 1 st m show ?case
    by (subst parse_entries.simps) (auto simp: Let_def)
qed

lemma rtb_parse_config_ok:
  "items_ok (fst st) \<Longrightarrow> returns (\<lambda>(rc, st'). items_ok (fst st')) (rtb_parse_config buf st)"
  by (auto simp: rtb_parse_config_def Let_def intro!: returns_mono [OF parse_entries_ok])

lemma merge_scan_ok:
  "items_ok before \<Longrightarrow> items_ok after \<Longrightarrow> items_ok rest \<Longrightarrow> length (ci_data extra) < 256 \<Longrightarrow>
   items_ok (snd (merge_scan extra placed before after rest))"
  by (induction rest arbitrary: placed before after) auto

lemma merge_loop_ok:
  "items_ok extras \<Longrightarrow> items_ok head \<Longrightarrow>
   items_ok (fst (merge_loop extras head)) \<and> items_ok (snd (merge_loop extras head))"
proof (induction extras arbitrary: head)
  case (Cons extra extras)
  obtain used h1 where s: "merge_scan extra False [] [] head = (used, h1)"
    by (cases "merge_scan extra False [] [] head")
  have "items_ok (snd (merge_scan extra False [] [] head))" using Cons.prems by (intro merge_scan_ok) auto
  then have "items_ok h1" by (simp add: s)
  obtain h l where l: "merge_loop extras h1 = (h, l)" by (cases "merge_loop extras h1")
  from Cons.IH [of h1] Cons.prems \<open>items_ok h1\<close> show ?case by (simp add: s l)
qed simp

lemma merge_configs_ok: "items_ok head \<Longrightarrow> items_ok extras \<Longrightarrow> items_ok (merge_configs head extras)"
  using merge_loop_ok [of extras head] by (auto simp: merge_configs_def split: prod.splits)

lemma write_configs_bytes:
  assumes "write_configs items = Inr out"
  shows "out = cfg_bytes items" "cfg_dlen items < 65536"
proof -
  have "(6 + cfg_dlen items) mod 65536 < 65536" by simp
  with assms show "out = cfg_bytes items" "cfg_dlen items < 65536"
    by (auto simp: write_configs_def Let_def split: if_splits)
qed

section \<open>Addresses in text form\<close>

definition hex_digit :: "nat \<Rightarrow> byte" where
  "hex_digit n = (if n < 10 then word_of_nat (0x30 + n) else word_of_nat (0x41 + n - 10))"

definition hex2 :: "byte \<Rightarrow> byte list" where
  "hex2 b = [hex_digit (unat b div 16), hex_digit (unat b mod 16)]"

text \<open>The usual notation, most significant byte first, of a six-byte address stored least significant first.\<close>

definition addr_str :: "byte list \<Rightarrow> byte list" where
  "addr_str addr = hex2 (addr ! 5) @ concat (map (\<lambda>i. 0x3a # hex2 (addr ! i)) [4, 3, 2, 1, 0])"

lemma hex_digit_props_enum:
  "list_all (\<lambda>n. hex_val (hex_digit n) = Some n \<and> \<not> is_space (hex_digit n) \<and>
     hex_digit n \<notin> {0x2d, 0x2b, 0x78, 0x58, 0x00, 0x3a}) [0..<16]"
  by (simp add: upt_rec hex_digit_def hex_val_def is_space_def)

lemma hex_digit_props:
  assumes "n < 16"
  shows "hex_val (hex_digit n) = Some n" "\<not> is_space (hex_digit n)"
    "hex_digit n \<notin> {0x2d, 0x2b, 0x78, 0x58, 0x00, 0x3a}"
  using hex_digit_props_enum assms unfolding list_all_iff by auto

lemma nibbles: "unat (b :: byte) div 16 < 16" "unat b mod 16 < 16" "unat b div 16 * 16 + unat b mod 16 = unat b"
  using unat_byte_less [of b] by simp_all

lemma strtoul16_hex2:
  assumes "rest = [] \<or> hd rest = 0x3a"
  shows "ucast (strtoul16 (hex2 b @ rest)) = b"
proof -
  let ?h = "hex_digit (unat b div 16)" and ?l = "hex_digit (unat b mod 16)"
  note h = hex_digit_props [OF nibbles(1) [of b]] and l = hex_digit_props [OF nibbles(2) [of b]]
  have colon: "hex_val 0x3a = None" by (simp add: hex_val_def)
  have "hex_digits (unat b) rest = unat b" using assms colon by (cases rest) auto
  then have d: "hex_digits 0 (?h # ?l # rest) = unat b" using h(1) l(1) nibbles(3) [of b] by simp
  have "unat b < 2 ^ 64" using unat_byte_less [of b] by simp
  with h l d have "strtoul16 (hex2 b @ rest) = word_of_nat (unat b)"
    by (simp add: strtoul16_def hex2_def Let_def)
  then show ?thesis by (simp add: unsigned_ucast_eq take_bit_word_eq_self)
qed

lemma length_six_cases: "length xs = 6 \<Longrightarrow> \<exists>a b c d e f. xs = [a, b, c, d, e, f]"
  by (auto simp: length_Suc_conv numeral_eq_Suc)

lemma bachk_addr_str:
  assumes "length addr = 6"
  shows "bachk (addr_str addr)" "0 \<notin> set (addr_str addr)"
proof -
  have x: "is_xdigit (hex_digit (unat (b :: byte) div 16))" "is_xdigit (hex_digit (unat b mod 16))" for b
    using hex_digit_props(1) [OF nibbles(1) [of b]] hex_digit_props(1) [OF nibbles(2) [of b]]
    by (simp_all add: is_xdigit_def)
  have z: "hex_digit (unat (b :: byte) div 16) \<noteq> 0" "hex_digit (unat b mod 16) \<noteq> 0" for b
    using hex_digit_props(3) [OF nibbles(1) [of b]] hex_digit_props(3) [OF nibbles(2) [of b]] by simp_all
  show "bachk (addr_str addr)" by (simp add: bachk_def addr_str_def hex2_def x)
  show "0 \<notin> set (addr_str addr)" using z by (auto simp: addr_str_def hex2_def) 
qed

lemma bdaddr_of_addr_str:
  assumes "length addr = 6"
  shows "bdaddr_of (addr_str addr) =
    (if addr ! 3 = 0x9e \<and> addr ! 4 = 0x8b \<and> addr ! 5 \<le> 0x3f then addr[3 := 0x00] else addr)"
proof -
  obtain a b c d e f where addr: "addr = [a, b, c, d, e, f]" using length_six_cases [OF assms] by blast
  let ?t = "\<lambda>xs. concat (map (\<lambda>x. 0x3a # hex2 x) xs)"
  have s: "addr_str addr = hex2 f @ ?t [e, d, c, b, a]" by (simp add: addr_str_def addr)
  have dr: "drop 3 (hex2 x @ 0x3a # ys) = ys" for x ys by (simp add: hex2_def)
  have d: "drop (3 * 0) (addr_str addr) = hex2 f @ ?t [e, d, c, b, a]" "drop (3 * 1) (addr_str addr) = hex2 e @ ?t [d, c, b, a]"
    "drop (3 * 2) (addr_str addr) = hex2 d @ ?t [c, b, a]" "drop (3 * 3) (addr_str addr) = hex2 c @ ?t [b, a]"
    "drop (3 * 4) (addr_str addr) = hex2 b @ ?t [a]" "drop (3 * 5) (addr_str addr) = hex2 a @ ?t []"
    by (simp_all add: s hex2_def)
  have v: "(ucast (strtoul16 (hex2 x @ ?t xs)) :: byte) = x" for x xs
    by (rule strtoul16_hex2) (cases xs; simp)
  have k: "(ucast (strtoul16 (drop (3 * 0) (addr_str addr))) :: byte) = f"
    "(ucast (strtoul16 (drop (3 * 1) (addr_str addr))) :: byte) = e"
    "(ucast (strtoul16 (drop (3 * 2) (addr_str addr))) :: byte) = d"
    "(ucast (strtoul16 (drop (3 * 3) (addr_str addr))) :: byte) = c"
    "(ucast (strtoul16 (drop (3 * 4) (addr_str addr))) :: byte) = b"
    "(ucast (strtoul16 (drop (3 * 5) (addr_str addr))) :: byte) = a"
    unfolding d by (rule v)+
  have "[0..<6] = [0, 1, 2, 3, 4, 5]" by (simp add: upt_rec)
  then have "map (\<lambda>k. ucast (strtoul16 (drop (3 * k) (addr_str addr)))) [0..<6] = [f, e, d, c, b, a]"
    by (simp only: list.map k)
  then have "rev (map (\<lambda>k. ucast (strtoul16 (drop (3 * k) (addr_str addr)))) [0..<6]) = addr"
    by (simp add: addr)
  then show ?thesis by (simp only: bdaddr_of_def Let_def)
qed

section \<open>Properties: configuration\<close>

text \<open>(C26) Round trip: the block written for any list of settings that fits its 16-bit length is accepted by
  \<open>rtb_parse_config\<close> and yields exactly those settings, in order.\<close>

theorem rtb_parse_config_roundtrip:
  assumes "items_ok items" "alloc_ok w" "cfg_dlen items < 65536"
  shows "rtb_parse_config (cfg_bytes items) ([], w) = Inr (0, items, allocs (length items) w)"
  using assms by (rule parse_written)

theorem rtb_parse_config_roundtrip_witness:
  "rtb_parse_config (cfg_bytes [\<lparr>ci_offset = 0x000c, ci_data = [0x02, 0x80, 0x92, 0x04]\<rparr>]) ([], rtb_zero) =
   Inr (0, [\<lparr>ci_offset = 0x000c, ci_data = [0x02, 0x80, 0x92, 0x04]\<rparr>], allocs 1 rtb_zero)"
  using rtb_parse_config_roundtrip [of "[\<lparr>ci_offset = 0x000c, ci_data = [0x02, 0x80, 0x92, 0x04]\<rparr>]" rtb_zero]
  by (simp add: alloc_ok_def rtb_zero_def)

text \<open>(C6) Refinement: merging the extra settings into the configuration is an update by offset. An extra
  setting that is shorter overwrites the beginning of the existing one, otherwise it replaces it;
  settings with new offsets are added, all others stay, and no offset occurs twice.\<close>

theorem merge_configs_correct:
  assumes "distinct (offsets head)" "distinct (offsets extras)"
  shows "cfg_lookup (merge_configs head extras) ofs =
    (case (cfg_lookup extras ofs, cfg_lookup head ofs) of
       (None, d) \<Rightarrow> d
     | (Some e, None) \<Rightarrow> Some e
     | (Some e, Some d) \<Rightarrow> Some (if length e < length d then e @ drop (length e) d else e)) \<and>
    distinct (offsets (merge_configs head extras))"
  using merge_configs_update [OF assms] by (simp add: overlay_def split: option.splits)

theorem merge_configs_correct_witness:
  "cfg_lookup (merge_configs [\<lparr>ci_offset = 0x0c, ci_data = [1, 2, 3]\<rparr>] [\<lparr>ci_offset = 0x0c, ci_data = [9]\<rparr>]) 0x0c = Some [9, 2, 3]"
  using merge_configs_correct [of "[\<lparr>ci_offset = 0x0c, ci_data = [1, 2, 3]\<rparr>]" "[\<lparr>ci_offset = 0x0c, ci_data = [9]\<rparr>]" "0x0c"]
  by simp

text \<open>Whatever the config file, the extra settings and the address file contain: a configuration that
  \<open>rtb_read_config\<close> hands out is well-formed, its length is the length reported, and the parser reads it back.\<close>

theorem rtb_read_config_wellformed:
  assumes "rtb_read_config file chip w = Inr ((Some out, n), w')" "alloc_ok v"
  shows "n = int (length out) \<and> length out < 65536 + 6 \<and>
    (\<exists>items. rtb_parse_config out ([], v) = Inr (0, items, allocs (length items) v))"
proof -
  obtain ex w0 where ex: "read_bdaddr chip (parse_extra_config EXTRA_CONFIG_FILE ([], w)) = (ex, w0)"
    by (cases "read_bdaddr chip (parse_extra_config EXTRA_CONFIG_FILE ([], w))")
  have exok: "items_ok ex"
    using read_bdaddr_ok [OF parse_extra_config_ok, of "([], w)" chip EXTRA_CONFIG_FILE] ex by simp
  from assms(1) obtain buf w1 rc configs w2 where p: "rtb_parse_config buf ([], w1) = Inr (rc, configs, w2)"
      "write_configs (merge_configs configs ex) = Inr out" "n = int (length out)"
    by (auto simp: rtb_read_config_def ex bind_result_eq_Inr Let_def split: prod.splits option.splits if_splits)
  have "items_ok configs" using returnsD [OF rtb_parse_config_ok p(1)] by simp
  then have ok: "items_ok (merge_configs configs ex)" using exok by (rule merge_configs_ok)
  note wr = write_configs_bytes [OF p(2)]
  show ?thesis using parse_written [OF ok assms(2) wr(2)] wr p(3) by auto
qed

text \<open>A config file with one item, and an extra settings file that overwrites it.\<close>

definition cfg_world :: world where
  "cfg_world = rtb_zero\<lparr>files := (\<lambda>name.
     if name = BT_CONFIG_DIRECTORY @ ''cfg'' then FFile (Some 10) (Some [0x55, 0xab, 0x23, 0x87, 4, 0, 0x30, 0, 1, 7])
     else FOpenFail)\<rparr>"

theorem rtb_read_config_wellformed_witness:
  "\<exists>out n w'. rtb_read_config ''cfg'' CHIP_8822CS cfg_world = Inr ((Some out, n), w') \<and> n = int (length out)"
proof -
  have "rtb_read_config ''cfg'' CHIP_8822CS cfg_world =
      Inr ((Some [0x55, 0xab, 0x23, 0x87, 4, 0, 0x30, 0, 1, 7], 10), cfg_world)"
    by (simp add: rtb_read_config_def parse_extra_config_def read_bdaddr_def read_file_def cfg_world_def rtb_zero_def
        BT_CONFIG_DIRECTORY_def EXTRA_CONFIG_FILE_def BT_ADDR_FILE_def next_malloc_def rtb_parse_config_def
        RTB_CFG_HDR_LEN_def cfg_magic_def le16_of_def parse_entries.simps merge_configs_def cfg_apply_def
        write_configs_def cfg_bytes_def cfg_entry_bytes_def le16_bytes_def Let_def)
  with rtb_read_config_wellformed [OF this, of rtb_zero] show ?thesis by (simp add: alloc_ok_def rtb_zero_def)
qed

text \<open>A device address in the address file becomes the configuration item at the chip's address offset,
  byte by byte and least significant byte first (unless it falls under the reserved-range rule).\<close>

theorem read_bdaddr_correct:
  assumes "files w BT_ADDR_FILE = FFile (Some n) (Some (addr_str addr @ rest))" "17 \<le> n" "length addr = 6"
    and "alloc_ok w" "\<not> (addr ! 3 = 0x9e \<and> addr ! 4 = 0x8b \<and> addr ! 5 \<le> 0x3f)"
  shows "read_bdaddr chip (extras, w) =
    (extras @ [\<lparr>ci_offset = get_mac_offset chip, ci_data = addr\<rparr>], allocs 1 w)"
proof -
  have len: "length (addr_str addr) = 17" by (simp add: addr_str_def hex2_def)
  have "takeWhile (\<lambda>b. b \<noteq> 0) (take (min n BDADDR_STRING_LEN) (addr_str addr @ rest)) = addr_str addr"
    using bachk_addr_str(2) [OF assms(3)] assms(2) len by (auto simp: BDADDR_STRING_LEN_def takeWhile_eq_all_conv)
  then show ?thesis
    using assms bachk_addr_str(1) [OF assms(3)] bdaddr_of_addr_str [OF assms(3)] next_malloc_allocs [OF assms(4)]
    by (auto simp: read_bdaddr_def Let_def)
qed

theorem read_bdaddr_correct_witness:
  "read_bdaddr CHIP_8821CS ([], rtb_zero\<lparr>files := (\<lambda>_. FFile (Some 18) (Some (addr_str [6, 5, 4, 3, 2, 1] @ [0x0a])))\<rparr>) =
   ([\<lparr>ci_offset = 0x0044, ci_data = [6, 5, 4, 3, 2, 1]\<rparr>],
    allocs 1 (rtb_zero\<lparr>files := (\<lambda>_. FFile (Some 18) (Some (addr_str [6, 5, 4, 3, 2, 1] @ [0x0a])))\<rparr>))"
  using read_bdaddr_correct [where addr = "[6, 5, 4, 3, 2, 1]" and n = 18 and rest = "[0x0a]" and chip = CHIP_8821CS
      and extras = "[]" and w = "rtb_zero\<lparr>files := (\<lambda>_. FFile (Some 18) (Some (addr_str [6, 5, 4, 3, 2, 1] @ [0x0a])))\<rparr>"]
  by (simp add: alloc_ok_def rtb_zero_def get_mac_offset_def chip_defs)

text \<open>The reserved lower address part \<open>0x9e8b00\<close> to \<open>0x9e8b3f\<close> is not replaced: the test looks at the upper
  three bytes of the address instead.\<close>

theorem reserved_lap_kept:
  assumes "b0 \<le> 0x3f" "b3 \<noteq> 0x9e"
  shows "bdaddr_of (addr_str [b0, 0x8b, 0x9e, b3, b4, b5]) = [b0, 0x8b, 0x9e, b3, b4, b5]"
  using bdaddr_of_addr_str [of "[b0, 0x8b, 0x9e, b3, b4, b5]"] assms(2) by simp

theorem reserved_lap_kept_witness:
  "bdaddr_of (addr_str [0x10, 0x8b, 0x9e, 0x01, 0x02, 0x03]) = [0x10, 0x8b, 0x9e, 0x01, 0x02, 0x03]"
  by (rule reserved_lap_kept) simp_all

text \<open>The parser trusts the length byte of an entry: a file with consistent total length whose last entry
  claims more data than there is makes it read past the buffer.\<close>

theorem rtb_parse_config_overrun:
  assumes "0 < len" "alloc_ok w"
  shows "rtb_parse_config (cfg_magic @ [3, 0, ofs0, ofs1, len]) ([], w) = Inl OutOfBounds"
  using assms
  by (simp add: rtb_parse_config_def cfg_magic_def RTB_CFG_HDR_LEN_def le16_of_def parse_entries.simps
      next_malloc_allocs word_less_nat_alt)

theorem rtb_parse_config_overrun_witness:
  "rtb_parse_config (cfg_magic @ [3, 0, 0x30, 0x00, 6]) ([], rtb_zero) = Inl OutOfBounds"
  by (rule rtb_parse_config_overrun) (simp_all add: alloc_ok_def rtb_zero_def)

text \<open>The offset at which the address is stored and the offset at which it is expected agree for these chips
  only; for the 8723CS variants the address is stored at \<open>0x003c\<close> but expected at \<open>0x0044\<close>.\<close>

theorem mac_offset_agreement:
  "is_mac chip (get_mac_offset chip) \<longleftrightarrow>
     chip \<in> {CHIP_8822BS, CHIP_8723DS, CHIP_8821CS, CHIP_8822CS, CHIP_8761B, CHIP_8852AS, CHIP_8723FS, CHIP_8852BS,
       CHIP_8852CS, CHIP_8851BS, CHIP_8761AT, CHIP_8761ATF, CHIP_8761BTC, CHIP_8723BS}"
  by (auto simp: is_mac_def get_mac_offset_def chip_defs)

end
