(* ===== verification/Fwc_Patch_Props.thy ===== *)
theory Fwc_Patch_Props
  imports Fwc_Patch Fwc_Config_Props "HOL-Library.Multiset"
begin

text \<open>
  Correctness of the firmware selection: what the two container formats look like as byte strings,
  and that the code extracts from them exactly the patches meant for the chip, in order of
  priority, followed by the configuration.
\<close>

section \<open>Byte strings inside a buffer\<close>

definition seg :: "byte list \<Rightarrow> int \<Rightarrow> byte list \<Rightarrow> bool" where
  "seg buf p xs \<longleftrightarrow> 0 \<le> p \<and> p + int (length xs) \<le> int (length buf) \<and> take (length xs) (drop (nat p) buf) = xs"

lemma segI: "p = int (length pre) \<Longrightarrow> seg (pre @ xs @ post) p xs"
  by (simp add: seg_def)

lemma seg_append: "seg buf p (xs @ ys) \<longleftrightarrow> seg buf p xs \<and> seg buf (p + int (length xs)) ys"
proof -
  have "take (length xs + length ys) (drop (nat p) buf) = xs @ ys \<longleftrightarrow>
      take (length xs) (drop (nat p) buf) = xs \<and> take (length ys) (drop (nat p + length xs) buf) = ys"
    if "nat p + (length xs + length ys) \<le> length buf"
    using that by (simp add: take_add append_eq_append_conv add.commute)
  then show ?thesis
    unfolding seg_def by (auto simp: nat_add_distrib)
qed

lemma seg_Cons: "seg buf p (x # xs) \<longleftrightarrow> seg buf p [x] \<and> seg buf (p + 1) xs"
  using seg_append [of buf p "[x]" xs] by simp

lemma rd_range_at: "seg buf p xs \<Longrightarrow> n = length xs \<Longrightarrow> rd_range buf p n = Inr xs"
  by (simp add: seg_def rd_range_def)

lemma rd8_at: "seg buf p [b] \<Longrightarrow> rd8 buf p = Inr b"
  by (simp add: rd8_def rd_range_at)

lemma le16_at: "seg buf p (le16_bytes x) \<Longrightarrow> get_unaligned_le16 buf p = Inr x"
  by (simp add: get_unaligned_le16_def rd_range_at) (simp add: le16_bytes_def)

lemma le32_at: "seg buf p (le32_bytes x) \<Longrightarrow> get_unaligned_le32 buf p = Inr x"
  by (simp add: get_unaligned_le32_def rd_range_at) (simp add: le32_bytes_def)

text \<open>The same, read backwards from a position.\<close>

fun seg_back :: "byte list \<Rightarrow> int \<Rightarrow> byte list \<Rightarrow> bool" where
  "seg_back buf p [] = True"
| "seg_back buf p (x # xs) = (rd8 buf p = Inr x \<and> seg_back buf (p - 1) xs)"

lemma seg_back_append: "seg_back buf p (xs @ ys) \<longleftrightarrow> seg_back buf p xs \<and> seg_back buf (p - int (length xs)) ys"
  by (induction xs arbitrary: p) (simp_all add: algebra_simps)

lemma seg_back_rev: "seg buf p (rev xs) \<Longrightarrow> seg_back buf (p + int (length xs) - 1) xs"
proof (induction xs arbitrary: p)
  case (Cons x xs)
  from Cons.prems have "seg buf p (rev xs)" "seg buf (p + int (length xs)) [x]" by (simp_all add: seg_append)
  with Cons.IH [of p] show ?case by (simp add: rd8_at algebra_simps)
qed simp

section \<open>The extension section\<close>

text \<open>Its records in reading order: opcode, length, data; \<open>0xFF\<close> ends it.\<close>

definition ext_back :: "(byte \<times> byte list) list \<Rightarrow> byte list" where
  "ext_back es = concat (map (\<lambda>(opcode, d). opcode # word_of_nat (length d) # d) es) @ [0xFF]"

fun first_project :: "(byte \<times> byte list) list \<Rightarrow> byte" where
  "first_project [] = 0"
| "first_project ((opcode, d) # es) = (if opcode = 0 \<and> length d = 1 then d ! 0 else first_project es)"

definition ext_ok :: "(byte \<times> byte list) list \<Rightarrow> bool" where
  "ext_ok es \<longleftrightarrow> es \<noteq> [] \<and> (\<forall>(opcode, d) \<in> set es. opcode \<noteq> 0xFF \<and> length d < 256)"

lemma fw_project_id_ok: "ext_ok es \<Longrightarrow> seg_back buf p (ext_back es) \<Longrightarrow> rtb_get_fw_project_id buf p = Inr (first_project es)"
proof (induction es arbitrary: p)
  case (Cons e es)
  obtain opcode d where e: "e = (opcode, d)" by (cases e)
  let ?l = "word_of_nat (length d) :: byte" and ?p = "p - (int (length d) + 2)"
  from Cons.prems e have d: "length d < 256" "opcode \<noteq> 0xFF" by (simp_all add: ext_ok_def)
  then have l: "unat ?l = length d" by (simp add: unsigned_of_nat take_bit_nat_eq_self)
  from Cons.prems e have b: "rd8 buf p = Inr opcode" "rd8 buf (p - 1) = Inr ?l" "seg_back buf (p - 2) d" "seg_back buf ?p (ext_back es)"
    by (simp_all add: ext_back_def seg_back_append algebra_simps)
  have one: "?l = 1 \<longleftrightarrow> length d = 1"
    using l by (metis unat_1 word_unat_eq_iff)
  show ?case
  proof (cases "opcode = 0 \<and> length d = 1")
    case True
    then obtain x where "d = [x]" by (auto simp: length_Suc_conv)
    with True b e show ?thesis by (subst rtb_get_fw_project_id.simps) simp
  next
    case False
    then have step: "rtb_get_fw_project_id buf p =
        (case rd8 buf ?p of Inl x \<Rightarrow> Inl x | Inr b \<Rightarrow> if b \<noteq> 0xFF then rtb_get_fw_project_id buf ?p else Inr 0)"
      using b one l by (subst rtb_get_fw_project_id.simps) (auto simp: Let_def simp del: of_nat_unat)
    show ?thesis
    proof (cases es)
      case Nil
      then have "rd8 buf ?p = Inr 0xFF" using b(4) by (simp add: ext_back_def)
      with step e False Nil show ?thesis by auto
    next
      case es: (Cons f fs)
      obtain opcode' d' where f: "f = (opcode', d')" by (cases f)
      from es b(4) f have "rd8 buf ?p = Inr opcode'" by (simp add: ext_back_def)
      moreover from Cons.prems f es have "opcode' \<noteq> 0xFF" "ext_ok es" by (auto simp: ext_ok_def)
      ultimately show ?thesis using step e False Cons.IH b(4) by auto
    qed
  qed
qed (simp add: ext_ok_def)

section \<open>The priority queue\<close>

text \<open>What a client of a queue ordered by priority may rely on.\<close>

locale priority_queue =
  fixes ins :: "'a \<Rightarrow> 'a list \<Rightarrow> 'a list" and prio :: "'a \<Rightarrow> 'p :: linorder"
  assumes ins_mset: "mset (ins x q) = add_mset x (mset q)"
    and ins_sorted: "sorted (map prio q) \<Longrightarrow> sorted (map prio (ins x q))"
begin

lemma fold_mset: "mset (fold ins xs q) = mset xs + mset q"
  by (induction xs arbitrary: q) (simp_all add: ins_mset)

lemma fold_sorted: "sorted (map prio q) \<Longrightarrow> sorted (map prio (fold ins xs q))"
  by (induction xs arbitrary: q) (simp_all add: ins_sorted)

lemma fold_queue: "sorted (map prio (fold ins xs [])) \<and> mset (fold ins xs []) = mset xs"
  using fold_sorted [of "[]" xs] fold_mset [of xs "[]"] by simp

end

lemma insert_queue_sort_insort: "insert_queue_sort n q = insort_key pn_pri n q"
  by (induction q) auto

interpretation patch_queue: priority_queue insert_queue_sort pn_pri
  by unfold_locales (simp_all add: insert_queue_sort_insort sorted_insort_key)

section \<open>The container with sections\<close>

text \<open>A patch inside a section, and the sections; \<open>OtherSection\<close> are those that carry no patches.\<close>

record sub_patch =
  sp_eco :: byte
  sp_pri :: byte
  sp_rsv :: u16
  sp_data :: "byte list"

definition sub_bytes :: "sub_patch \<Rightarrow> byte list" where
  "sub_bytes s = [sp_eco s, sp_pri s] @ le16_bytes (sp_rsv s) @ le32_bytes (word_of_nat (length (sp_data s))) @ sp_data s"

datatype fw_section = PatchSection u32 u16 "sub_patch list" | OtherSection u32 "byte list"

fun section_opcode :: "fw_section \<Rightarrow> u32" where
  "section_opcode (PatchSection opc rsv subs) = opc"
| "section_opcode (OtherSection opc body) = opc"

fun section_body :: "fw_section \<Rightarrow> byte list" where
  "section_body (PatchSection opc rsv subs) =
     le16_bytes (word_of_nat (length subs)) @ le16_bytes rsv @ concat (map sub_bytes subs)"
| "section_body (OtherSection opc body) = body"

definition section_bytes :: "fw_section \<Rightarrow> byte list" where
  "section_bytes s = le32_bytes (section_opcode s) @ le32_bytes (word_of_nat (length (section_body s))) @ section_body s"

definition sub_here :: "byte \<Rightarrow> sub_patch \<Rightarrow> bool" where
  "sub_here ever s \<longleftrightarrow> unat (sp_eco s) = unat ever + 1"

definition sub_len_ok :: "sub_patch \<Rightarrow> bool" where
  "sub_len_ok s \<longleftrightarrow> length (sp_data s) + 8 < 2 ^ 32"

text \<open>
  Well-formed sections for a chip revision and key: the lengths fit their fields, and a chip with a
  key finds its own key in every security header.
\<close>

fun section_ok :: "byte \<Rightarrow> byte \<Rightarrow> fw_section \<Rightarrow> bool" where
  "section_ok ever key (PatchSection opc rsv subs) =
     (opc \<in> {PATCH_SNIPPETS, PATCH_DUMMY_HEADER, PATCH_SECURITY_HEADER} \<and> length subs < 65536 \<and>
      length (section_body (PatchSection opc rsv subs)) + 8 < 2 ^ 32 \<and>
      (opc = PATCH_SECURITY_HEADER \<and> key \<noteq> 0 \<longrightarrow>
         filter (sub_here ever) subs \<noteq> [] \<and> (\<forall>s \<in> set (filter (sub_here ever) subs). sp_pri s = key)))"
| "section_ok ever key (OtherSection opc body) =
     (opc \<notin> {PATCH_SNIPPETS, PATCH_DUMMY_HEADER, PATCH_SECURITY_HEADER} \<and> length body + 8 < 2 ^ 32 \<and>
      (opc = PATCH_OTA_FLAG \<longrightarrow> 4 \<le> length body \<and> length body < 65536))"

text \<open>The patches a section contributes.\<close>

fun section_patches :: "byte \<Rightarrow> byte \<Rightarrow> fw_section \<Rightarrow> sub_patch list" where
  "section_patches ever key (PatchSection opc rsv subs) =
     (if opc = PATCH_SNIPPETS \<or> opc = PATCH_SECURITY_HEADER \<and> key \<noteq> 0 \<or> opc = PATCH_DUMMY_HEADER \<and> key = 0
      then filter (sub_here ever) subs else [])"
| "section_patches ever key (OtherSection opc body) = []"

definition holds :: "byte list \<Rightarrow> patch_node \<Rightarrow> sub_patch \<Rightarrow> bool" where
  "holds buf n s \<longleftrightarrow> pn_pri n = sp_pri s \<and> unat (pn_len n) = length (sp_data s) \<and> seg buf (pn_payload n) (sp_data s)"

lemma insert_holds:
  "holds buf n s \<Longrightarrow> list_all2 (holds buf) ns ss \<Longrightarrow> list_all2 (holds buf) (insert_queue_sort n ns) (insort_key sp_pri s ss)"
  by (induction ns arbitrary: ss) (auto simp: list_all2_Cons1 holds_def)

definition sub_total :: "sub_patch list \<Rightarrow> nat" where
  "sub_total ss = (\<Sum>s\<leftarrow>ss. length (sp_data s))"

lemma sub_total_simps [simp]:
  "sub_total [] = 0" "sub_total (s # ss) = length (sp_data s) + sub_total ss" "sub_total (xs @ ys) = sub_total xs + sub_total ys"
  by (simp_all add: sub_total_def)

lemma sub_total_mset: "mset xs = mset ys \<Longrightarrow> sub_total xs = sub_total ys"
proof -
  assume "mset xs = mset ys"
  then have "sum_mset (image_mset (\<lambda>s. length (sp_data s)) (mset xs)) = sum_mset (image_mset (\<lambda>s. length (sp_data s)) (mset ys))"
    by simp
  then show ?thesis unfolding sub_total_def by (simp only: mset_map [symmetric] sum_mset_sum_list)
qed

lemma unat_len32: "n < 2 ^ 32 \<Longrightarrow> unat (word_of_nat n :: u32) = n"
  by (simp add: unsigned_of_nat take_bit_nat_eq_self)

lemma uint_len32: "n + 8 < 2 ^ 32 \<Longrightarrow> uint (8 + word_of_nat n :: u32) = int n + 8"
proof -
  assume a: "n + 8 < 2 ^ 32"
  have "(8 + word_of_nat n :: u32) = word_of_nat (8 + n)" by simp
  then have "unat (8 + word_of_nat n :: u32) = 8 + n" using a unat_len32 [of "8 + n"] by (simp only: add.commute)
  then have "int (unat (8 + word_of_nat n :: u32)) = int (8 + n)" by (simp only:)
  then show ?thesis by simp
qed

text \<open>What the bytes of a patch give to the reads of the loop.\<close>

lemma sub_seg:
  assumes "seg buf pos (sub_bytes s @ rest)" "sub_len_ok s"
  shows "rd8 buf pos = Inr (sp_eco s)" "rd8 buf (pos + 1) = Inr (sp_pri s)"
    "get_unaligned_le32 buf (pos + 4) = Inr (word_of_nat (length (sp_data s)))"
    "holds buf \<lparr>pn_pri = sp_pri s, pn_len = word_of_nat (length (sp_data s)), pn_payload = pos + 8\<rparr> s"
    "seg buf (pos + uint (8 + word_of_nat (length (sp_data s)) :: u32)) rest"
proof -
  have "sub_bytes s @ rest = [sp_eco s] @ [sp_pri s] @ le16_bytes (sp_rsv s) @
      le32_bytes (word_of_nat (length (sp_data s))) @ sp_data s @ rest"
    by (simp add: sub_bytes_def)
  with assms(1) have "seg buf pos ([sp_eco s] @ [sp_pri s] @ le16_bytes (sp_rsv s) @
      le32_bytes (word_of_nat (length (sp_data s))) @ sp_data s @ rest)" by (simp only:)
  then have s: "seg buf pos [sp_eco s]" "seg buf (pos + 1) [sp_pri s]"
    "seg buf (pos + 4) (le32_bytes (word_of_nat (length (sp_data s))))" "seg buf (pos + 8) (sp_data s)"
    "seg buf (pos + (int (length (sp_data s)) + 8)) rest"
    by (simp_all only: seg_append) (simp_all add: algebra_simps)
  then show "rd8 buf pos = Inr (sp_eco s)" "rd8 buf (pos + 1) = Inr (sp_pri s)"
    "get_unaligned_le32 buf (pos + 4) = Inr (word_of_nat (length (sp_data s)))"
    by (simp_all add: rd8_at le32_at)
  from assms(2) have l: "length (sp_data s) + 8 < 2 ^ 32" by (simp add: sub_len_ok_def)
  with s(4) show "holds buf \<lparr>pn_pri = sp_pri s, pn_len = word_of_nat (length (sp_data s)), pn_payload = pos + 8\<rparr> s"
    using unat_len32 [of "length (sp_data s)"] by (simp add: holds_def)
  from s(5) l show "seg buf (pos + uint (8 + word_of_nat (length (sp_data s)) :: u32)) rest"
    by (simp only: uint_len32)
qed

lemma allocs_frame [simp]:
  "eversion (allocs n w) = eversion w" "key_id (allocs n w) = key_id w" "junk (allocs n w) = junk w"
  "config_len (allocs n w) = config_len w" "config_buf (allocs n w) = config_buf w"
  by (simp_all add: allocs_def)

lemma insert_loop_ok:
  assumes "seg buf pos (concat (map sub_bytes subs))" "alloc_ok w" "list_all2 (holds buf) ns ss"
    "\<forall>s \<in> set subs. sub_len_ok s"
    "opc = PATCH_SECURITY_HEADER \<longrightarrow> key_id w \<noteq> 0 \<and> (\<forall>s \<in> set (filter (sub_here (eversion w)) subs). sp_pri s = key_id w)"
  shows "\<exists>ns'. insert_loop (length subs) buf opc pos (ns, pl, sf, w) =
      Inr (0, ns', pl + word_of_nat (sub_total (filter (sub_here (eversion w)) subs)),
        sf \<or> opc = PATCH_SECURITY_HEADER \<and> filter (sub_here (eversion w)) subs \<noteq> [],
        allocs (length (filter (sub_here (eversion w)) subs)) w) \<and>
    list_all2 (holds buf) ns' (fold (insort_key sp_pri) (filter (sub_here (eversion w)) subs) ss)"
  using assms
proof (induction subs arbitrary: pos ns ss pl sf w)
  case (Cons s subs)
  from Cons.prems(1,4) have seg: "seg buf pos (sub_bytes s @ concat (map sub_bytes subs))" "sub_len_ok s" by simp_all
  note r = sub_seg [OF seg]
  let ?n = "\<lparr>pn_pri = sp_pri s, pn_len = word_of_nat (length (sp_data s)), pn_payload = pos + 8\<rparr>"
  show ?case
  proof (cases "sub_here (eversion w) s")
    case True
    let ?w = "allocs 1 w"
    have key: "key_id w = sp_pri s" "0 < sp_pri s" if "opc = PATCH_SECURITY_HEADER"
      using Cons.prems(5) True that by (auto simp: word_neq_0_conv)
    have "\<exists>ns'. insert_loop (length subs) buf opc (pos + uint (8 + word_of_nat (length (sp_data s)) :: u32))
        (insert_queue_sort ?n ns, pl + word_of_nat (length (sp_data s)), sf \<or> opc = PATCH_SECURITY_HEADER, ?w) =
      Inr (0, ns', pl + word_of_nat (length (sp_data s)) + word_of_nat (sub_total (filter (sub_here (eversion ?w)) subs)),
        (sf \<or> opc = PATCH_SECURITY_HEADER) \<or> opc = PATCH_SECURITY_HEADER \<and> filter (sub_here (eversion ?w)) subs \<noteq> [],
        allocs (length (filter (sub_here (eversion ?w)) subs)) ?w) \<and>
      list_all2 (holds buf) ns' (fold (insort_key sp_pri) (filter (sub_here (eversion ?w)) subs) (insort_key sp_pri s ss))"
      by (rule Cons.IH) (use Cons.prems True r(5) insert_holds [OF r(4) Cons.prems(3)] in auto)
    then obtain ns' where ns': "insert_loop (length subs) buf opc (pos + uint (8 + word_of_nat (length (sp_data s)) :: u32))
        (insert_queue_sort ?n ns, pl + word_of_nat (length (sp_data s)), sf \<or> opc = PATCH_SECURITY_HEADER, ?w) =
      Inr (0, ns', pl + word_of_nat (length (sp_data s)) + word_of_nat (sub_total (filter (sub_here (eversion ?w)) subs)),
        (sf \<or> opc = PATCH_SECURITY_HEADER) \<or> opc = PATCH_SECURITY_HEADER \<and> filter (sub_here (eversion ?w)) subs \<noteq> [],
        allocs (length (filter (sub_here (eversion ?w)) subs)) ?w)"
      "list_all2 (holds buf) ns' (fold (insort_key sp_pri) (filter (sub_here (eversion ?w)) subs) (insort_key sp_pri s ss))"
      by blast
    have "insert_loop (length (s # subs)) buf opc pos (ns, pl, sf, w) =
        insert_loop (length subs) buf opc (pos + uint (8 + word_of_nat (length (sp_data s)) :: u32))
        (insert_queue_sort ?n ns, pl + word_of_nat (length (sp_data s)), sf \<or> opc = PATCH_SECURITY_HEADER, ?w)"
      using True key r(1-3) next_malloc_allocs [OF Cons.prems(2)]
      by (cases "opc = PATCH_SECURITY_HEADER") (simp_all add: sub_here_def Let_def)
    with ns' True show ?thesis by (simp add: add.assoc) blast
  next
    case False
    with Cons.prems r Cons.IH [of "pos + uint (8 + word_of_nat (length (sp_data s)) :: u32)" w ns ss pl sf]
    show ?thesis by (simp add: sub_here_def)
  qed
qed simp

lemma insert_patch_ok:
  assumes "seg buf (pos + 8) (section_body (PatchSection opc rsv subs))" "alloc_ok w" "list_all2 (holds buf) ns ss"
    "length subs < 65536" "length (section_body (PatchSection opc rsv subs)) + 8 < 2 ^ 32"
    "opc' = PATCH_SECURITY_HEADER \<longrightarrow> key_id w \<noteq> 0 \<and> (\<forall>s \<in> set (filter (sub_here (eversion w)) subs). sp_pri s = key_id w)"
  shows "\<exists>ns'. insert_patch buf pos opc' (ns, pl, sf, w) =
      Inr (0, ns', pl + word_of_nat (sub_total (filter (sub_here (eversion w)) subs)),
        sf \<or> opc' = PATCH_SECURITY_HEADER \<and> filter (sub_here (eversion w)) subs \<noteq> [],
        allocs (length (filter (sub_here (eversion w)) subs)) w) \<and>
    list_all2 (holds buf) ns' (fold (insort_key sp_pri) (filter (sub_here (eversion w)) subs) ss)"
proof -
  from assms(1) have s: "seg buf (pos + 8) (le16_bytes (word_of_nat (length subs)))"
    "seg buf (pos + 12) (concat (map sub_bytes subs))"
    by (simp_all add: seg_append algebra_simps)
  have n: "unat (word_of_nat (length subs) :: u16) = length subs"
    using assms(4) by (simp add: unsigned_of_nat take_bit_nat_eq_self)
  have "sub_len_ok x" if "x \<in> set subs" for x
  proof -
    have "length (sub_bytes x) \<le> length (concat (map sub_bytes subs))"
      using that by (induction subs) auto
    then show ?thesis using assms(5) by (simp add: sub_len_ok_def sub_bytes_def)
  qed
  with insert_loop_ok [OF s(2) assms(2,3) _ assms(6)] show ?thesis
    using le16_at [OF s(1)] n by (simp add: insert_patch_def)
qed

lemma section_seg:
  assumes "seg buf pos (section_bytes s @ rest)" "length (section_body s) + 8 < 2 ^ 32"
  shows "get_unaligned_le32 buf pos = Inr (section_opcode s)"
    "get_unaligned_le32 buf (pos + 4) = Inr (word_of_nat (length (section_body s)))"
    "seg buf (pos + 8) (section_body s)"
    "seg buf (pos + uint (8 + word_of_nat (length (section_body s)) :: u32)) rest"
proof -
  from assms(1) have s: "seg buf pos (le32_bytes (section_opcode s))"
    "seg buf (pos + 4) (le32_bytes (word_of_nat (length (section_body s))))" "seg buf (pos + 8) (section_body s)"
    "seg buf (pos + (int (length (section_body s)) + 8)) rest"
    unfolding section_bytes_def by (simp_all add: seg_append algebra_simps)
  then show "get_unaligned_le32 buf pos = Inr (section_opcode s)"
    "get_unaligned_le32 buf (pos + 4) = Inr (word_of_nat (length (section_body s)))" "seg buf (pos + 8) (section_body s)"
    by (simp_all add: le32_at)
  from s(4) assms(2) show "seg buf (pos + uint (8 + word_of_nat (length (section_body s)) :: u32)) rest"
    by (simp only: uint_len32)
qed

lemma ota_flag_ok:
  assumes "seg buf pos (section_bytes (OtherSection PATCH_OTA_FLAG body))" "4 \<le> length body" "length body < 65536"
  shows "ota_flag buf pos st = Inr (0, st)"
proof -
  obtain ns pl sf w where st: "st = (ns, pl, sf, w)" by (cases st)
  let ?l = "word_of_nat (length body) :: u32"
  from assms(1) have s: "seg buf (pos + 4) (le32_bytes ?l)" "seg buf (pos + 8) body"
    unfolding section_bytes_def by (simp_all add: seg_append algebra_simps)
  have "le32_bytes ?l = [ucast ?l] @ [ucast (drop_bit 8 ?l)] @ [ucast (drop_bit 16 ?l), ucast (drop_bit 24 ?l)]"
    by (simp add: le32_bytes_def)
  with s(1) have "seg buf (pos + 4 + 1) [ucast (drop_bit 8 ?l)]" by (simp only: seg_append) simp
  then have r: "rd8 buf (pos + 5) = Inr (ucast (drop_bit 8 ?l))" using rd8_at by (simp add: add.assoc)
  have "body = take 4 body @ drop 4 body" by simp
  with s(2) have "seg buf (pos + 8) (take 4 body)" by (metis seg_append)
  then have "rd_range buf (pos + 8) 4 = Inr (take 4 body)" using assms(2) by (intro rd_range_at) simp_all
  moreover have "unat ?l < 65536" using assms(3) unat_len32 [of "length body"] by simp
  ultimately show ?thesis
    using le32_at [OF s(1)] r by (simp add: ota_flag_def st get_unaligned_le32_def [of buf "pos + 8"])
qed

text \<open>One section: the body of the outer loop, up to the advance to the next section.\<close>

lemma section_step:
  assumes "seg buf pos (section_bytes s @ rest)" "section_ok (eversion w) (key_id w) s" "alloc_ok w"
    "list_all2 (holds buf) ns ss" "i < unat nsec"
  shows "\<exists>ns' sf'. section_loop (Suc fuel) buf (key_id w) nsec i pos (ns, pl, sf, w) =
      section_loop fuel buf (key_id w) nsec ((i + 1) mod 65536) (pos + uint (8 + word_of_nat (length (section_body s)) :: u32))
        (ns', pl + word_of_nat (sub_total (section_patches (eversion w) (key_id w) s)), sf',
         allocs (length (section_patches (eversion w) (key_id w) s)) w) \<and>
    list_all2 (holds buf) ns' (fold (insort_key sp_pri) (section_patches (eversion w) (key_id w) s) ss)"
proof -
  have l: "length (section_body s) + 8 < 2 ^ 32" using assms(2) by (cases s) simp_all
  note r = section_seg [OF assms(1) l]
  show ?thesis
  proof (cases s)
    case (PatchSection opc rsv subs)
    let ?f = "filter (sub_here (eversion w)) subs"
    have ok: "length subs < 65536" "opc \<in> {PATCH_SNIPPETS, PATCH_DUMMY_HEADER, PATCH_SECURITY_HEADER}"
      "opc = PATCH_SECURITY_HEADER \<Longrightarrow> key_id w \<noteq> 0 \<Longrightarrow> ?f \<noteq> [] \<and> (\<forall>s \<in> set ?f. sp_pri s = key_id w)"
      using assms(2) PatchSection by simp_all
    note ins = insert_patch_ok [OF r(3) [unfolded PatchSection] assms(3,4) ok(1) l [unfolded PatchSection]]
    from ok(2) consider "opc = PATCH_SNIPPETS" | "opc = PATCH_DUMMY_HEADER" | "opc = PATCH_SECURITY_HEADER" by blast
    then show ?thesis
    proof cases
      case 1
      then obtain ns' where n: "insert_patch buf pos PATCH_SNIPPETS (ns, pl, sf, w) =
          Inr (0, ns', pl + word_of_nat (sub_total ?f), sf, allocs (length ?f) w)"
        "list_all2 (holds buf) ns' (fold (insort_key sp_pri) ?f ss)"
        using ins [of PATCH_SNIPPETS pl sf] by (auto simp: section_defs)
      show ?thesis
        using n 1 r(1,2) assms(5) PatchSection
        by (intro exI [of _ ns'] exI [of _ sf]) (simp add: SECTION_HEADER_SIZE_def)
    next
      case 2
      then obtain ns' where n: "insert_patch buf pos PATCH_DUMMY_HEADER (ns, pl, sf, w) =
          Inr (0, ns', pl + word_of_nat (sub_total ?f), sf, allocs (length ?f) w)"
        "list_all2 (holds buf) ns' (fold (insort_key sp_pri) ?f ss)"
        using ins [of PATCH_DUMMY_HEADER pl sf] by (auto simp: section_defs)
      show ?thesis
        using n 2 r(1,2) assms(4,5) PatchSection
        by (intro exI [of _ "if key_id w = 0 then ns' else ns"] exI [of _ sf]) (simp add: section_defs)
    next
      case 3
      show ?thesis
      proof (cases "key_id w = 0")
        case True
        with 3 show ?thesis using r(1,2) assms(4,5) PatchSection
          by (intro exI [of _ ns] exI [of _ sf]) (simp add: section_defs)
      next
        case False
        with 3 obtain ns' where n: "insert_patch buf pos PATCH_SECURITY_HEADER (ns, pl, False, w) =
            Inr (0, ns', pl + word_of_nat (sub_total ?f), True, allocs (length ?f) w)"
          "list_all2 (holds buf) ns' (fold (insort_key sp_pri) ?f ss)"
          using ins [of PATCH_SECURITY_HEADER pl False] ok(3) by auto
        show ?thesis
          using n 3 False r(1,2) assms(5) PatchSection
          by (intro exI [of _ ns'] exI [of _ True]) (simp add: section_defs)
      qed
    qed
  next
    case (OtherSection opc body)
    have "opc = PATCH_OTA_FLAG \<Longrightarrow> ota_flag buf pos st = Inr (0, st)" for st
      using assms(1,2) OtherSection by (intro ota_flag_ok [of buf pos body]) (auto simp: seg_append)
    then show ?thesis
      using r(1,2) assms(2,4,5) OtherSection
      by (intro exI [of _ ns] exI [of _ sf]) (simp add: SECTION_HEADER_SIZE_def)
  qed
qed

definition all_patches :: "byte \<Rightarrow> byte \<Rightarrow> fw_section list \<Rightarrow> sub_patch list" where
  "all_patches ever key secs = concat (map (section_patches ever key) secs)"

lemma all_patches_Cons [simp]:
  "all_patches ever key [] = []"
  "all_patches ever key (s # secs) = section_patches ever key s @ all_patches ever key secs"
  by (simp_all add: all_patches_def)

lemma section_loop_ok:
  assumes "seg buf pos (concat (map section_bytes secs))" "\<forall>s \<in> set secs. section_ok (eversion w) (key_id w) s"
    "alloc_ok w" "list_all2 (holds buf) ns ss" "i + length secs = unat nsec" "unat nsec < 65536"
  shows "\<exists>ns' sf'. section_loop (Suc (length secs + fuel)) buf (key_id w) nsec i pos (ns, pl, sf, w) =
      Inr (0, ns', pl + word_of_nat (sub_total (all_patches (eversion w) (key_id w) secs)), sf',
        allocs (length (all_patches (eversion w) (key_id w) secs)) w) \<and>
    list_all2 (holds buf) ns' (fold (insort_key sp_pri) (all_patches (eversion w) (key_id w) secs) ss)"
  using assms
proof (induction secs arbitrary: pos ns ss i pl sf w)
  case (Cons s secs)
  let ?p = "section_patches (eversion w) (key_id w) s"
  have seg: "seg buf pos (section_bytes s @ concat (map section_bytes secs))" using Cons.prems(1) by simp
  have ok: "section_ok (eversion w) (key_id w) s" using Cons.prems(2) by simp
  have l: "length (section_body s) + 8 < 2 ^ 32" using ok by (cases s) simp_all
  have i: "i < unat nsec" "(i + 1) mod 65536 = i + 1" using Cons.prems(5,6) by simp_all
  obtain ns' sf' where 1: "section_loop (Suc (Suc (length secs + fuel))) buf (key_id w) nsec i pos (ns, pl, sf, w) =
      section_loop (Suc (length secs + fuel)) buf (key_id w) nsec (i + 1)
        (pos + uint (8 + word_of_nat (length (section_body s)) :: u32))
        (ns', pl + word_of_nat (sub_total ?p), sf', allocs (length ?p) w)"
    "list_all2 (holds buf) ns' (fold (insort_key sp_pri) ?p ss)"
    using section_step [OF seg ok Cons.prems(3,4) i(1), of "Suc (length secs + fuel)" pl sf] unfolding i(2) by blast
  let ?w = "allocs (length ?p) w"
  have "\<exists>ns'' sf''. section_loop (Suc (length secs + fuel)) buf (key_id ?w) nsec (i + 1)
        (pos + uint (8 + word_of_nat (length (section_body s)) :: u32)) (ns', pl + word_of_nat (sub_total ?p), sf', ?w) =
      Inr (0, ns'', pl + word_of_nat (sub_total ?p) + word_of_nat (sub_total (all_patches (eversion ?w) (key_id ?w) secs)), sf'',
        allocs (length (all_patches (eversion ?w) (key_id ?w) secs)) ?w) \<and>
    list_all2 (holds buf) ns'' (fold (insort_key sp_pri) (all_patches (eversion ?w) (key_id ?w) secs) (fold (insort_key sp_pri) ?p ss))"
    by (rule Cons.IH) (use Cons.prems section_seg(4) [OF seg l] 1(2) in simp_all)
  with 1(1) show ?case by (simp add: add.assoc)
qed simp

lemma fold_insort: "fold (insort_key f) xs [] = sort_key f (rev xs)"
  by (simp add: sort_key_def foldr_conv_fold)

lemma patch_header_ok:
  assumes "seg buf 16 (le32_bytes (word_of_nat (length secs)))" "seg buf 20 (concat (map section_bytes secs))"
    "\<forall>s \<in> set secs. section_ok (eversion w) (key_id w) s" "alloc_ok w" "length secs < 65536"
  obtains ns where "rtb_get_patch_header buf (key_id w) w =
      Inr ((word_of_nat (sub_total (all_patches (eversion w) (key_id w) secs)), ns),
        allocs (length (all_patches (eversion w) (key_id w) secs)) w)"
    "list_all2 (holds buf) ns (sort_key sp_pri (rev (all_patches (eversion w) (key_id w) secs)))"
proof -
  have n: "unat (word_of_nat (length secs) :: u32) = length secs" using assms(5) unat_len32 [of "length secs"] by simp
  have fuel: "2 ^ 16 + 1 = Suc (length secs + (2 ^ 16 - length secs))" using assms(5) by simp
  obtain ns sf where "section_loop (2 ^ 16 + 1) buf (key_id w) (word_of_nat (length secs)) 0 20 ([], 0, False, w) =
      Inr (0, ns, word_of_nat (sub_total (all_patches (eversion w) (key_id w) secs)), sf,
        allocs (length (all_patches (eversion w) (key_id w) secs)) w)"
    "list_all2 (holds buf) ns (sort_key sp_pri (rev (all_patches (eversion w) (key_id w) secs)))"
    using section_loop_ok [OF assms(2,3,4), of "[]" "[]" 0 "word_of_nat (length secs)" "2 ^ 16 - length secs" 0 False] n assms(5)
    unfolding fuel fold_insort by auto
  with le32_at [OF assms(1)] that show ?thesis by (simp add: rtb_get_patch_header_def)
qed

section \<open>Copying\<close>

lemma copy_nodes_ok:
  "list_all2 (holds fw) ns ss \<Longrightarrow> k + sub_total ss \<le> length buf \<Longrightarrow>
   copy_nodes fw ns k buf = Inr (take k buf @ concat (map sp_data ss) @ drop (k + sub_total ss) buf)"
proof (induction ns ss arbitrary: k buf rule: list_all2_induct)
  case (Cons n ns s ss)
  let ?l = "length (sp_data s)" and ?buf = "take k buf @ sp_data s @ drop (k + length (sp_data s)) buf"
  from Cons.hyps(1) have n: "unat (pn_len n) = ?l" "rd_range fw (pn_payload n) ?l = Inr (sp_data s)"
    by (simp_all add: holds_def rd_range_at)
  from Cons.prems have "k + ?l + sub_total ss \<le> length ?buf" by simp
  from Cons.IH [OF this] n Cons.prems show ?case by (simp add: buf_store_def ac_simps)
qed simp

lemma put_config_ok:
  assumes "config_buf w = Some c \<and> config_len w = int (length c) \<or> config_buf w = None \<and> config_len w = 0 \<and> c = []"
    and "length buf = n + length c"
  shows "put_config (int n + config_len w) w buf = Inr (take n buf @ c)"
  using assms by (auto simp: put_config_def rd_range_def buf_store_def)

lemma malloc_buf_ok: "alloc_ok w \<Longrightarrow> malloc_buf (int n) w = (Some (map (junk w) [0..<n]), allocs 1 w)"
  by (simp add: malloc_buf_def next_malloc_allocs)

section \<open>The container with a table\<close>

type_synonym table_row = "u16 \<times> u16 \<times> u32"

definition row_matches :: "byte \<Rightarrow> table_row \<Rightarrow> bool" where
  "row_matches ever row \<longleftrightarrow> unat (fst row) = unat ever + 1"

lemma entry_scan_ok:
  assumes "seg buf ci (concat (map (\<lambda>r. le16_bytes (fst r)) rows))"
    "seg buf pl (concat (map (\<lambda>r. le16_bytes (fst (snd r))) rows))"
    "seg buf so (concat (map (\<lambda>r. le32_bytes (snd (snd r))) rows))"
    "find (row_matches ever) rows = Some (chip, plen, off)"
    "seg buf (uint off) patch" "length patch = unat plen" "12 \<le> length patch"
  obtains e where "entry_scan buf ever ci pl so (length rows) = Inr (Some e)" "pe_patch_len e = plen" "pe_soffset e = off"
  using assms
proof (induction rows arbitrary: ci pl so thesis)
  case (Cons row rows)
  obtain c l d where row: "row = (c, l, d)" by (cases row) auto
  from Cons.prems(2-4) row have s: "get_unaligned_le16 buf ci = Inr c" "get_unaligned_le16 buf pl = Inr l"
    "get_unaligned_le32 buf so = Inr d"
    "seg buf (ci + 2) (concat (map (\<lambda>r. le16_bytes (fst r)) rows))"
    "seg buf (pl + 2) (concat (map (\<lambda>r. le16_bytes (fst (snd r))) rows))"
    "seg buf (so + 4) (concat (map (\<lambda>r. le32_bytes (snd (snd r))) rows))"
    by (simp_all add: seg_append le16_at le32_at)
  show ?case
  proof (cases "row_matches ever row")
    case True
    with Cons.prems(5) row have r: "c = chip" "l = plen" "d = off" by simp_all
    have b: "0 \<le> uint off" "uint off + uint plen \<le> int (length buf)" "12 \<le> uint plen"
      using Cons.prems(6-8) unfolding seg_def uint_nat by linarith+
    then obtain x y where "get_unaligned_le32 buf (uint off + uint plen - 8) = Inr x"
      "get_unaligned_le32 buf (uint off + uint plen - 12) = Inr y"
      by (simp add: get_unaligned_le32_def rd_range_def)
    with True s r show ?thesis
      by (intro Cons.prems(1) [of "\<lparr>pe_chip_id = ucast ever + 1, pe_patch_len = plen, pe_soffset = off, pe_svn_ver = x, pe_coex_ver = y\<rparr>"])
        (simp_all add: row row_matches_def)
  next
    case False
    with Cons.prems(5) have f: "find (row_matches ever) rows = Some (chip, plen, off)" by simp
    show ?thesis
    proof (rule Cons.IH [OF _ s(4-6) f Cons.prems(6-8)])
      fix e assume e: "entry_scan buf ever (ci + 2) (pl + 2) (so + 4) (length rows) = Inr (Some e)" "pe_patch_len e = plen" "pe_soffset e = off"
      with False s show thesis by (intro Cons.prems(1) [of e]) (simp_all add: row row_matches_def)
    qed
  qed
qed simp

section \<open>The files and their download buffers\<close>

lemma length_signature:
  "length RTK_EPATCH_SIGNATURE = 8" "length RTK_EPATCH_SIGNATURE_NEW = 8" "length Extension_Section_SIGNATURE = 4"
  by (simp_all add: signature_defs)

definition fw_sections :: "byte list \<Rightarrow> fw_section list \<Rightarrow> (byte \<times> byte list) list \<Rightarrow> byte list" where
  "fw_sections version secs es =
     RTK_EPATCH_SIGNATURE_NEW @ version @ le32_bytes (word_of_nat (length secs)) @ concat (map section_bytes secs) @
     rev (ext_back es) @ Extension_Section_SIGNATURE"

definition fw_table :: "byte list \<Rightarrow> table_row list \<Rightarrow> byte list \<Rightarrow> (byte \<times> byte list) list \<Rightarrow> byte list" where
  "fw_table version rows body es =
     RTK_EPATCH_SIGNATURE @ version @ le16_bytes (word_of_nat (length rows)) @
     concat (map (\<lambda>r. le16_bytes (fst r)) rows) @ concat (map (\<lambda>r. le16_bytes (fst (snd r))) rows) @
     concat (map (\<lambda>r. le32_bytes (snd (snd r))) rows) @ body @ rev (ext_back es) @ Extension_Section_SIGNATURE"

definition has_config :: "world \<Rightarrow> byte list \<Rightarrow> bool" where
  "has_config w c \<longleftrightarrow> config_buf w = Some c \<and> config_len w = int (length c) \<or> config_buf w = None \<and> config_len w = 0 \<and> c = []"

definition fw_loaded :: "byte list \<Rightarrow> world \<Rightarrow> bool" where
  "fw_loaded fw w \<longleftrightarrow> fw_buf w = Some fw \<and> fw_len w = int (length fw)"

text \<open>A file with a known signature and an extension section: the checks pass and the format decides.\<close>

lemma final_patch_dispatch:
  assumes "fw_loaded fw w" "fw = sig @ mid @ rev (ext_back es) @ Extension_Section_SIGNATURE" "ext_ok es"
    "sig = RTK_EPATCH_SIGNATURE \<or> sig = RTK_EPATCH_SIGNATURE_NEW"
    "project_ok (first_project es) w = Inr True" "protocol = HCI_UART_3WIRE \<longrightarrow> lmp_subver w \<noteq> ROM_LMP_8723a"
  shows "rtb_get_final_patch fd protocol w = (if sig = RTK_EPATCH_SIGNATURE_NEW then final_sections fd fw w else final_table fw w)"
proof -
  have sig: "length sig = 8" using assms(4) by (auto simp: signature_defs)
  have l4: "length Extension_Section_SIGNATURE = 4" by (simp add: signature_defs)
  have r1: "rd_range fw 0 8 = Inr sig"
    using segI [of 0 "[]" sig] sig unfolding assms(2) by (intro rd_range_at) simp_all
  have r2: "rd_range fw (fw_len w - 4) 4 = Inr Extension_Section_SIGNATURE"
    using segI [of _ "sig @ mid @ rev (ext_back es)" Extension_Section_SIGNATURE "[]"] assms(1) l4
    unfolding assms(2) fw_loaded_def by (intro rd_range_at) simp_all
  let ?p = "int (length sig + length mid)"
  have "seg fw ?p (rev (ext_back es))"
    using segI [of ?p "sig @ mid"] unfolding assms(2) by simp
  then have "seg_back fw (?p + int (length (ext_back es)) - 1) (ext_back es)" by (rule seg_back_rev)
  moreover have "?p + int (length (ext_back es)) - 1 = fw_len w - 5"
    using assms(1) l4 unfolding assms(2) fw_loaded_def by simp
  ultimately have "rtb_get_fw_project_id fw (fw_len w - 5) = Inr (first_project es)"
    by (intro fw_project_id_ok [OF assms(3)]) (simp only:)
  with assms(1,4,5,6) r1 r2 show ?thesis by (auto simp: rtb_get_final_patch_def fw_loaded_def)
qed

lemma final_sections_ok:
  assumes "fw = fw_sections version secs es" "length version = 8"
    "rtb_vendor_read fd READ_SEC_PROJ w = Inr (r, w')" "has_config w' c" "alloc_ok w'" "length secs < 65536"
    "\<forall>s \<in> set secs. section_ok (eversion w') (key_id w') s"
    "ps = all_patches (eversion w') (key_id w') secs" "sub_total ps \<noteq> 0" "sub_total ps < 2 ^ 31"
  shows "final_sections fd fw w =
    Inr ((Some (concat (map sp_data (sort_key sp_pri (rev ps))) @ c), int (sub_total ps + length c)),
      (allocs (length ps + 1) w')\<lparr>dl_fw_flag := 1\<rparr>)"
proof -
  let ?ss = "sort_key sp_pri (rev ps)" and ?n = "sub_total ps" and ?w = "allocs (length ps) w'"
  have s16: "length (RTK_EPATCH_SIGNATURE_NEW @ version) = 16" using assms(2) by (simp add: signature_defs)
  have "seg fw 16 (le32_bytes (word_of_nat (length secs)) @ concat (map section_bytes secs))"
    using segI [of 16 "RTK_EPATCH_SIGNATURE_NEW @ version" "le32_bytes (word_of_nat (length secs)) @ concat (map section_bytes secs)"] s16
    unfolding assms(1) fw_sections_def by simp
  then have seg: "seg fw 16 (le32_bytes (word_of_nat (length secs)))" "seg fw 20 (concat (map section_bytes secs))"
    by (simp_all add: seg_append)
  obtain ns where h: "rtb_get_patch_header fw (key_id w') w' = Inr ((word_of_nat ?n, ns), ?w)" "list_all2 (holds fw) ns ?ss"
    using patch_header_ok [OF seg assms(7,5,6)] unfolding assms(8) [symmetric] by blast
  have tot: "sub_total ?ss = ?n" by (rule sub_total_mset) simp
  have n: "unat (word_of_nat ?n :: u32) = ?n" using assms(10) unat_len32 [of ?n] by simp
  then have "(word_of_nat ?n :: u32) \<noteq> 0" using assms(9) by (metis unat_0)
  moreover have "sint (word_of_nat ?n :: u32) = int ?n"
    using assms(10) by (simp add: signed_of_nat signed_take_bit_int_eq_self)
  moreover have "has_config ?w c" "config_len w' = int (length c)" "alloc_ok ?w"
    using assms(4,5) by (auto simp: has_config_def)
  ultimately show ?thesis
    using assms(3) h malloc_buf_ok [of ?w "?n + length c"] copy_nodes_ok [OF h(2), of 0 "map (junk ?w) [0..<?n + length c]"]
      put_config_ok [of "allocs 1 ?w" c "concat (map sp_data ?ss) @ drop ?n (map (junk ?w) [0..<?n + length c])" ?n] tot
    by (simp add: final_sections_def has_config_def Let_def sub_total_def length_concat comp_def)
qed

lemma final_table_ok:
  assumes "fw = fw_table version rows body es" "length version = 4" "length rows < 65536" "has_config w c" "alloc_ok w"
    "find (row_matches (eversion w)) rows = Some (chip, plen, off)"
    "seg fw (uint off) patch" "length patch = unat plen" "12 \<le> length patch"
  shows "final_table fw w =
    Inr ((Some (take (length patch - 4) patch @ version @ c), int (length patch + length c)), (allocs 2 w)\<lparr>dl_fw_flag := 1\<rparr>)"
proof -
  let ?n = "length rows"
  let ?mid = "le16_bytes (word_of_nat ?n) @ concat (map (\<lambda>r. le16_bytes (fst r)) rows) @
      concat (map (\<lambda>r. le16_bytes (fst (snd r))) rows) @ concat (map (\<lambda>r. le32_bytes (snd (snd r))) rows)"
  have seg: "seg fw 0 (RTK_EPATCH_SIGNATURE @ version @ ?mid)"
    using segI [of 0 "[]" "RTK_EPATCH_SIGNATURE @ version @ ?mid"] unfolding assms(1) fw_table_def by simp
  have len: "length (concat (map (\<lambda>r. le16_bytes (f r)) rows)) = 2 * ?n" for f :: "table_row \<Rightarrow> u16"
    by (induction rows) simp_all
  have s: "seg fw 8 version" "seg fw 12 (le16_bytes (word_of_nat ?n))"
    "seg fw 14 (concat (map (\<lambda>r. le16_bytes (fst r)) rows))"
    "seg fw (14 + 2 * int ?n) (concat (map (\<lambda>r. le16_bytes (fst (snd r))) rows))"
    "seg fw (14 + 4 * int ?n) (concat (map (\<lambda>r. le32_bytes (snd (snd r))) rows))"
    using seg assms(2) by (simp_all add: seg_append len length_signature algebra_simps)
  have u: "unat (word_of_nat ?n :: u16) = ?n"
    using assms(3) by (simp add: unsigned_of_nat take_bit_nat_eq_self)
  then have u': "uint (word_of_nat ?n :: u16) = int ?n" by (simp only: uint_nat)
  obtain e where e: "entry_scan fw (eversion w) 14 (14 + 2 * int ?n) (14 + 4 * int ?n) ?n = Inr (Some e)"
    "pe_patch_len e = plen" "pe_soffset e = off"
    using entry_scan_ok [OF s(3-5) assms(6-9)] by blast
  have g: "rtb_get_patch_entry fw w = Inr (Some e, allocs 1 w)"
    using e(1) le16_at [OF s(2)] u u' next_malloc_allocs [OF assms(5)] by (simp add: rtb_get_patch_entry_def)
  have p: "uint plen = int (length patch)" using assms(8) by (simp only: uint_nat)
  have r: "rd_range fw (uint off) (length patch) = Inr patch" "rd_range fw 8 4 = Inr version"
    using assms(2,7) s(1) by (simp_all add: rd_range_at)
  have c: "config_len w = int (length c)" using assms(4) by (auto simp: has_config_def)
  show ?thesis
    using g e(2,3) p r c assms(2,9) malloc_buf_ok [OF alloc_ok_allocs [OF assms(5)], of "length patch + length c" 1]
      put_config_ok [of "allocs 2 w" c "take (length patch - 4) patch @ version @ drop (length patch) (map (junk w) [0..<length patch + length c])" "length patch"]
      assms(4)
    by (simp add: final_table_def Let_def buf_store_def has_config_def nat_diff_distrib numeral_2_eq_2)
qed

section \<open>The choice of the entry\<close>

lemma patch_scan_find:
  "\<exists>n \<in> set ns. p_lmp_subver n = 0 \<Longrightarrow>
   \<exists>n. patch_scan ns w = Inr n \<and> find (\<lambda>n. p_lmp_subver n = 0 \<or> patch_matches n w) ns = Some n"
  by (induction ns) auto

section \<open>Properties\<close>

definition wit_secs :: "fw_section list" where
  "wit_secs =
     [PatchSection PATCH_SECURITY_HEADER 0 [\<lparr>sp_eco = 1, sp_pri = 1, sp_rsv = 0, sp_data = [0xa1]\<rparr>],
      PatchSection PATCH_SNIPPETS 0
        [\<lparr>sp_eco = 1, sp_pri = 5, sp_rsv = 0, sp_data = [0xb1, 0xb2]\<rparr>,
         \<lparr>sp_eco = 2, sp_pri = 2, sp_rsv = 0, sp_data = [0xee]\<rparr>,
         \<lparr>sp_eco = 1, sp_pri = 3, sp_rsv = 0, sp_data = [0xc1]\<rparr>],
      OtherSection 9 [0x99]]"

definition wit_ext :: "(byte \<times> byte list) list" where "wit_ext = [(0, [10])]"

definition sec_fw :: "byte list" where "sec_fw = fw_sections [0, 0, 0, 0, 0, 0, 0, 1] wit_secs wit_ext"

text \<open>A chip with key 1: the answer to the read of the key.\<close>

definition sec_world :: world where
  "sec_world = rtb_zero\<lparr>link_estab_state := H5_INIT, lmp_subver := ROM_LMP_8821a, proto := HCI_UART_3WIRE,
     fw_buf := Some sec_fw, fw_len := int (length sec_fw), config_buf := Some [0x55, 0xab], config_len := 2,
     polls := [EpEvents [EvSerial [0xc0, 0x00, 0x74, 0x00, 0x8b, 0x0e, 0x05, 0x01, 0x61, 0xfc, 0x00, 0x01, 0xc0]]]\<rparr>"

lemma sec_world_read:
  "\<exists>w'. rtb_vendor_read 3 READ_SEC_PROJ sec_world = Inr (0, w') \<and> key_id w' = 1 \<and> eversion w' = 0 \<and> mallocs w' = [] \<and>
     config_buf w' = Some [0x55, 0xab] \<and> config_len w' = 2"
  by (simp add: sec_world_def rtb_zero_def rtb_vendor_read_def vendor_read_cmd_def read_class_defs
      h5_init_hci_cc_def h5_init_cc_fields_def h5_eval xfer_eval_defs)


definition table_fw :: "byte list" where
  "table_fw = fw_table [1, 2, 3, 4] [(2, 12, 30), (1, 12, 42)] (replicate 12 0xee @ replicate 8 0xd0 @ [0xd1, 0xd2, 0xd3, 0xd4]) wit_ext"

definition table_world :: world where
  "table_world = rtb_zero\<lparr>lmp_subver := ROM_LMP_8821a, fw_buf := Some table_fw, fw_len := int (length table_fw)\<rparr>"

text \<open>(C5) The download buffer of a firmware file in the format with sections is made of the patches for the chip's revision (with the
  headers its key calls for), in ascending order of priority and later ones first among equals, followed by the configuration; no byte of
  it is left uninitialised. This is for well-formed sections in which, for a chip with a key, every security header has a part for the
  chip's revision and all such parts carry the chip's own key: the fallback to the dummy headers, which the code enters otherwise, is
  excluded, and \<open>foreign_key_skips_patches\<close> below shows that the statement fails there.\<close>

theorem final_patch_sections:
  assumes "fw_loaded (fw_sections version secs es) w" "length version = 8" "ext_ok es"
    "project_ok (first_project es) w = Inr True" "protocol = HCI_UART_3WIRE \<longrightarrow> lmp_subver w \<noteq> ROM_LMP_8723a"
    "rtb_vendor_read fd READ_SEC_PROJ w = Inr (r, w')" "has_config w' c" "alloc_ok w'" "length secs < 65536"
    "\<forall>s \<in> set secs. section_ok (eversion w') (key_id w') s"
    "ps = all_patches (eversion w') (key_id w') secs" "sub_total ps \<noteq> 0" "sub_total ps < 2 ^ 31"
  shows "rtb_get_final_patch fd protocol w =
    Inr ((Some (concat (map sp_data (sort_key sp_pri (rev ps))) @ c), int (sub_total ps + length c)),
      (allocs (length ps + 1) w')\<lparr>dl_fw_flag := 1\<rparr>)"
  using final_patch_dispatch [OF assms(1) _ assms(3) _ assms(4,5), of RTK_EPATCH_SIGNATURE_NEW
      "version @ le32_bytes (word_of_nat (length secs)) @ concat (map section_bytes secs)"]
    final_sections_ok [OF refl assms(2,6-13)]
  by (simp add: fw_sections_def)

theorem final_patch_sections_witness:
  "\<exists>w''. rtb_get_final_patch 3 HCI_UART_3WIRE sec_world = Inr ((Some [0xa1, 0xc1, 0xb1, 0xb2, 0x55, 0xab], 6), w'')"
proof -
  obtain w' where r: "rtb_vendor_read 3 READ_SEC_PROJ sec_world = Inr (0, w')" "key_id w' = 1" "eversion w' = 0"
    "mallocs w' = []" "config_buf w' = Some [0x55, 0xab]" "config_len w' = 2"
    using sec_world_read by blast
  have ps: "all_patches (eversion w') (key_id w') wit_secs =
      [\<lparr>sp_eco = 1, sp_pri = 1, sp_rsv = 0, sp_data = [0xa1]\<rparr>, \<lparr>sp_eco = 1, sp_pri = 5, sp_rsv = 0, sp_data = [0xb1, 0xb2]\<rparr>,
       \<lparr>sp_eco = 1, sp_pri = 3, sp_rsv = 0, sp_data = [0xc1]\<rparr>]"
    by (simp add: wit_secs_def r(2,3) section_defs sub_here_def)
  have ok: "\<forall>s \<in> set wit_secs. section_ok (eversion w') (key_id w') s"
    by (simp add: wit_secs_def r(2,3) section_defs sub_here_def sub_bytes_def)
  have "fw_loaded (fw_sections [0, 0, 0, 0, 0, 0, 0, 1] wit_secs wit_ext) sec_world"
    by (simp add: fw_loaded_def sec_world_def sec_fw_def)
  moreover have "length wit_secs < 65536" "lmp_subver sec_world = ROM_LMP_8821a"
    by (simp_all add: wit_secs_def sec_world_def)
  ultimately show ?thesis
    using final_patch_sections [OF _ _ _ _ _ r(1) _ _ _ ok refl, where c = "[0x55, 0xab]" and protocol = HCI_UART_3WIRE
        and version = "[0, 0, 0, 0, 0, 0, 0, 1]" and es = wit_ext]
    by (simp add: ps r(4-6) has_config_def alloc_ok_def wit_ext_def ext_ok_def project_ok_def project_id_def lmp_defs
        word_le_nat_alt)
qed

text \<open>(C25) The download buffer of a firmware file in the format with a table is the patch of the first row for the chip's revision, with
  its last four bytes replaced by the firmware version, followed by the configuration.\<close>

theorem final_patch_table:
  assumes "fw_loaded (fw_table version rows body es) w" "length version = 4" "ext_ok es"
    "project_ok (first_project es) w = Inr True" "protocol = HCI_UART_3WIRE \<longrightarrow> lmp_subver w \<noteq> ROM_LMP_8723a"
    "length rows < 65536" "has_config w c" "alloc_ok w"
    "find (row_matches (eversion w)) rows = Some (chip, plen, off)"
    "seg (fw_table version rows body es) (uint off) patch" "length patch = unat plen" "12 \<le> length patch"
  shows "rtb_get_final_patch fd protocol w =
    Inr ((Some (take (length patch - 4) patch @ version @ c), int (length patch + length c)), (allocs 2 w)\<lparr>dl_fw_flag := 1\<rparr>)"
proof -
  have "RTK_EPATCH_SIGNATURE \<noteq> RTK_EPATCH_SIGNATURE_NEW" by (simp add: signature_defs)
  then show ?thesis
    using final_patch_dispatch [OF assms(1) _ assms(3) _ assms(4,5), of RTK_EPATCH_SIGNATURE
        "version @ le16_bytes (word_of_nat (length rows)) @ concat (map (\<lambda>r. le16_bytes (fst r)) rows) @
         concat (map (\<lambda>r. le16_bytes (fst (snd r))) rows) @ concat (map (\<lambda>r. le32_bytes (snd (snd r))) rows) @ body"]
      final_table_ok [OF refl assms(2,6-12)]
    by (simp add: fw_table_def)
qed

theorem final_patch_table_witness:
  "rtb_get_final_patch 3 HCI_UART_3WIRE table_world =
     Inr ((Some (replicate 8 0xd0 @ [1, 2, 3, 4]), 12), (allocs 2 table_world)\<lparr>dl_fw_flag := 1\<rparr>)"
proof -
  have "seg table_fw (uint (42 :: u32)) (replicate 8 0xd0 @ [0xd1, 0xd2, 0xd3, 0xd4])"
    using segI [of 42 "RTK_EPATCH_SIGNATURE @ [1, 2, 3, 4] @ le16_bytes 2 @ le16_bytes 2 @ le16_bytes 1 @ le16_bytes 12 @
        le16_bytes 12 @ le32_bytes 30 @ le32_bytes 42 @ replicate 12 0xee" "replicate 8 0xd0 @ [0xd1, 0xd2, 0xd3, 0xd4]"
        "rev (ext_back wit_ext) @ Extension_Section_SIGNATURE"]
    by (simp add: table_fw_def fw_table_def length_signature)
  then have "seg (fw_table [1, 2, 3, 4] [(2, 12, 30), (1, 12, 42)] (replicate 12 0xee @ replicate 8 0xd0 @ [0xd1, 0xd2, 0xd3, 0xd4]) wit_ext)
      (uint (42 :: u32)) (replicate 8 0xd0 @ [0xd1, 0xd2, 0xd3, 0xd4])"
    by (simp only: table_fw_def)
  moreover have "fw_loaded (fw_table [1, 2, 3, 4] [(2, 12, 30), (1, 12, 42)] (replicate 12 0xee @ replicate 8 0xd0 @ [0xd1, 0xd2, 0xd3, 0xd4]) wit_ext) table_world"
    by (simp add: fw_loaded_def table_world_def table_fw_def)
  ultimately show ?thesis
    using final_patch_table [where w = table_world and es = wit_ext and c = "[]" and version = "[1, 2, 3, 4]"
        and rows = "[(2, 12, 30), (1, 12, 42)]" and body = "replicate 12 0xee @ replicate 8 0xd0 @ [0xd1, 0xd2, 0xd3, 0xd4]"
        and chip = 1 and plen = 12 and off = 42 and patch = "replicate 8 0xd0 @ [0xd1, 0xd2, 0xd3, 0xd4]"
        and protocol = HCI_UART_3WIRE and fd = 3]
    by (simp add: has_config_def alloc_ok_def wit_ext_def ext_ok_def project_ok_def project_id_def table_world_def rtb_zero_def
        lmp_defs row_matches_def)
qed

text \<open>The project identifier is that of the first well-formed record with opcode zero in the extension section, or zero.\<close>

theorem fw_project_id_correct:
  assumes "ext_ok es"
  shows "rtb_get_fw_project_id (pre @ rev (ext_back es) @ post) (int (length pre + length (ext_back es)) - 1) = Inr (first_project es)"
proof -
  have "seg (pre @ rev (ext_back es) @ post) (int (length pre)) (rev (ext_back es))" by (rule segI) simp
  then have "seg_back (pre @ rev (ext_back es) @ post) (int (length pre) + int (length (ext_back es)) - 1) (ext_back es)"
    by (rule seg_back_rev)
  then show ?thesis using fw_project_id_ok [OF assms] by simp
qed

theorem fw_project_id_correct_witness:
  "rtb_get_fw_project_id ([1, 2] @ rev (ext_back [(3, [7, 8]), (0, [10])]) @ Extension_Section_SIGNATURE)
     (int (length [1, 2 :: byte] + length (ext_back [(3, [7, 8]), (0, [10])])) - 1) = Inr 10"
  using fw_project_id_correct [of "[(3, [7, 8]), (0, [10])]" "[1, 2]" Extension_Section_SIGNATURE] by (simp add: ext_ok_def)

text \<open>The list of patches is kept sorted by priority, with every patch inserted so far in it exactly once.\<close>

theorem insert_queue_sorted:
  "sorted (map pn_pri (fold insert_queue_sort ns [])) \<and> mset (fold insert_queue_sort ns []) = mset ns"
  by (rule patch_queue.fold_queue)

text \<open>The search for the chip's entry always yields one: the first that matches, or the closing entry \<open>NONE\<close>. The pointer is never
  null, so the error path of the caller is dead and an unknown chip goes on with the file names \<open>rtl_none_fw\<close> and \<open>rtl_none_config\<close>.\<close>

theorem get_patch_entry_total:
  "\<exists>n. get_patch_entry w = Inr n \<and>
     find (\<lambda>n. n = patch_none \<or> patch_matches n w) (if proto w = HCI_UART_3WIRE then patch_table else h4_patch_table) = Some n"
proof -
  let ?t = "if proto w = HCI_UART_3WIRE then patch_table else h4_patch_table"
  have z: "\<forall>n \<in> set ?t. p_lmp_subver n = 0 \<longleftrightarrow> n = patch_none"
    by (simp add: patch_table_def h4_patch_table_def patch_none_def lmp_defs)
  have "find (\<lambda>n. n = patch_none \<or> patch_matches n w) ?t = find (\<lambda>n. p_lmp_subver n = 0 \<or> patch_matches n w) ?t"
    by (rule find_cong) (use z in auto)
  moreover have "\<exists>n \<in> set ?t. p_lmp_subver n = 0"
    by (simp add: patch_table_def h4_patch_table_def patch_none_def lmp_defs)
  ultimately show ?thesis
    using patch_scan_find [of ?t w] by (auto simp: get_patch_entry_def)
qed

text \<open>A chip with a key that finds only security headers for other keys gets no patches at all: the length of the foreign header
  is counted, the search for a dummy header runs over the remaining sections and moves the counter and position of the outer loop past
  their end, and the sections after the header are never looked at. The download buffer then consists of uninitialised memory.\<close>

theorem foreign_key_skips_patches:
  assumes "fw = fw_sections version [PatchSection PATCH_SECURITY_HEADER rsv [s], PatchSection PATCH_SNIPPETS rsv' subs] es"
    "length version = 8" "key_id w \<noteq> 0" "sub_here (eversion w) s" "sp_pri s \<noteq> key_id w" "alloc_ok w"
    "length (sp_data s) + 20 < 2 ^ 32" "length (section_body (PatchSection PATCH_SNIPPETS rsv' subs)) + 8 < 2 ^ 32"
  shows "rtb_get_patch_header fw (key_id w) w = Inr ((word_of_nat (length (sp_data s)), []), allocs 1 w)"
proof -
  let ?h = "PatchSection PATCH_SECURITY_HEADER rsv [s]" and ?t = "PatchSection PATCH_SNIPPETS rsv' subs"
  let ?l = "word_of_nat (length (sp_data s)) :: u32"
  have s16: "length (RTK_EPATCH_SIGNATURE_NEW @ version) = 16" using assms(2) by (simp add: signature_defs)
  have seg: "seg fw 16 (le32_bytes 2)" "seg fw 20 (section_bytes ?h @ section_bytes ?t @ [])"
    using segI [of 16 "RTK_EPATCH_SIGNATURE_NEW @ version" "le32_bytes 2 @ section_bytes ?h @ section_bytes ?t" "rev (ext_back es) @ Extension_Section_SIGNATURE"] s16
    unfolding assms(1) fw_sections_def by (simp_all add: seg_append)
  have lh: "length (section_body ?h) + 8 < 2 ^ 32" using assms(7) by (simp add: sub_bytes_def)
  note h = section_seg [OF seg(2) lh] and t = section_seg [OF section_seg(4) [OF seg(2) lh] assms(8)]
  from h(3) have "seg fw 28 (le16_bytes 1)" "seg fw 32 (sub_bytes s @ [])" by (simp_all add: seg_append)
  note b = le16_at [OF this(1)] sub_seg [OF this(2)]
  have ins: "insert_patch fw 20 PATCH_SECURITY_HEADER ([], 0, False, w) = Inr (0, [], ?l, False, allocs 1 w)"
    using assms(3,4,5,7) b next_malloc_allocs [OF assms(6)]
    by (simp add: insert_patch_def sub_len_ok_def sub_here_def Let_def)
  have dl: "\<exists>pos sl. dummy_loop (Suc (Suc (Suc n))) fw 2 0 20 (word_of_nat (length (section_body ?h))) ([], ?l, False, allocs 1 w) =
      Inr (0, 2, pos, sl, [], ?l, False, allocs 1 w)" for n
    using h(1,2) t(1,2) by (simp add: section_defs)
  from dl [of 65534] obtain pos sl where "dummy_loop 65537 fw 2 0 20 (word_of_nat (length (section_body ?h))) ([], ?l, False, allocs 1 w) =
      Inr (0, 2, pos, sl, [], ?l, False, allocs 1 w)" by auto
  then have "section_loop (Suc (Suc (Suc (Suc n)))) fw (key_id w) 2 0 20 ([], 0, False, w) = Inr (0, [], ?l, False, allocs 1 w)" for n
    using assms(3) h(1,2) t(1,2) ins by (simp add: section_defs)
  moreover have "2 ^ 16 + 1 = Suc (Suc (Suc (Suc 65533)))" by simp
  ultimately have "section_loop (2 ^ 16 + 1) fw (key_id w) 2 0 20 ([], 0, False, w) = Inr (0, [], ?l, False, allocs 1 w)"
    by (simp only:)
  with le32_at [OF seg(1)] show ?thesis by (simp add: rtb_get_patch_header_def)
qed

theorem foreign_key_skips_patches_witness:
  "rtb_get_patch_header
     (fw_sections [0, 0, 0, 0, 0, 0, 0, 1]
        [PatchSection PATCH_SECURITY_HEADER 0 [\<lparr>sp_eco = 1, sp_pri = 2, sp_rsv = 0, sp_data = [0xa1]\<rparr>],
         PatchSection PATCH_SNIPPETS 0 [\<lparr>sp_eco = 1, sp_pri = 5, sp_rsv = 0, sp_data = [0xb1, 0xb2]\<rparr>]] wit_ext)
     1 (rtb_zero\<lparr>key_id := 1\<rparr>) = Inr ((1, []), allocs 1 (rtb_zero\<lparr>key_id := 1\<rparr>))"
  using foreign_key_skips_patches [OF refl, where w = "rtb_zero\<lparr>key_id := 1\<rparr>" and version = "[0, 0, 0, 0, 0, 0, 0, 1]"
      and rsv = 0 and rsv' = 0 and s = "\<lparr>sp_eco = 1, sp_pri = 2, sp_rsv = 0, sp_data = [0xa1]\<rparr>"
      and subs = "[\<lparr>sp_eco = 1, sp_pri = 5, sp_rsv = 0, sp_data = [0xb1, 0xb2]\<rparr>]" and es = wit_ext]
  by (simp add: sub_here_def rtb_zero_def alloc_ok_def sub_bytes_def)

end
