(* ===== verification/Attach.thy ===== *)
theory Attach
  imports Download Fwc_Patch_Props
begin

text \<open>
  The initialisation sequence of the attach tool: speeds and line settings, identification of the chip,
  loading of configuration and firmware, change of the speed, download (\<open>rtb_config\<close>, \<open>rtb_init\<close> of
  \<open>rtk_hciattach/hciattach_rtk.c\<close>), and the set-up of the serial line and its line discipline (\<open>init_uart\<close> of
  \<open>rtk_hciattach/hciattach.c\<close>). \<open>tcdrain\<close>, \<open>tcflush\<close>, \<open>usleep\<close> and printing have no effect in the model. A freed
  buffer is not read again by the code, so the model leaves the fields that still point to it unchanged.
\<close>

section \<open>Speeds\<close>

definition baudrates :: "(u32 \<times> int) list" where
  "baudrates =
     [(0x0252C014, 115200), (0x0252C00A, 230400), (0x05F75004, 921600), (0x00005004, 1000000),
      (0x04928002, 1500000), (0x01128002, 1500000), (0x00005002, 2000000), (0x0000B001, 2500000),
      (0x04928001, 3000000), (0x052A6001, 3500000), (0x00005001, 4000000)]"

fun speed_scan :: "(u32 \<times> int) list \<Rightarrow> u32 \<Rightarrow> int" where
  "speed_scan [] rtb_speed = 115200"
| "speed_scan ((r, u) # bs) rtb_speed = (if r = rtb_speed then u else speed_scan bs rtb_speed)"

definition vendor_speed_to_std :: "u32 \<Rightarrow> int" where
  "vendor_speed_to_std rtb_speed = speed_scan baudrates rtb_speed"

fun vendor_scan :: "(u32 \<times> int) list \<Rightarrow> int \<Rightarrow> u32" where
  "vendor_scan [] speed = 0x701D"
| "vendor_scan ((r, u) # bs) speed = (if u = speed then r else vendor_scan bs speed)"

definition std_speed_to_vendor :: "int \<Rightarrow> u32" where
  "std_speed_to_vendor speed = vendor_scan baudrates speed"

text \<open>The constants \<open>B9600\<close>, \<dots> are represented by their rates.\<close>

definition uart_speed :: "int \<Rightarrow> int" where
  "uart_speed s =
     (if s \<in> {9600, 19200, 38400, 57600, 115200, 230400, 460800, 500000, 576000, 921600, 1000000,
             1152000, 1500000, 2000000, 2500000, 3000000, 3500000, 4000000} then s else 57600)"

text \<open>The speeds are valid, so only \<open>tcsetattr\<close> can fail; its error number is represented by \<open>-1\<close>.\<close>

definition set_speed :: "int \<Rightarrow> world \<Rightarrow> int \<times> world" where
  "set_speed speed w =
     (case tcsetattr (w\<lparr>tio := (tio w)\<lparr>t_ospeed := uart_speed speed, t_ispeed := uart_speed speed\<rparr>\<rparr>) of
        (ok, w) \<Rightarrow> (if ok then 0 else - 1, w))"

section \<open>Configuration of the controller\<close>

datatype cfg_path = CfgFail | ChangeBaud | GoOn

text \<open>The chip types of the four-wire transport, from the versions read.\<close>

definition h4_chip_id :: "world \<Rightarrow> cfg_path \<times> world" where
  "h4_chip_id w =
     (if lmp_subver w = ROM_LMP_8761btc then
        (ChangeBaud, w\<lparr>chip_type := CHIP_8761BTC, uart_flow_ctrl := 1, vendor_baud := std_speed_to_vendor 1500000\<rparr>)
      else if lmp_subver w = ROM_LMP_8761a then
        (GoOn,
         if hci_rev w = 0x000b then w\<lparr>chip_type := CHIP_8761BH4\<rparr>
         else if hci_rev w = 0x000a then
           w\<lparr>chip_type := (if eversion w = 3 then CHIP_8761ATF else if eversion w = 2 then CHIP_8761AT else CHIP_UNKNOWN)\<rparr>
         else w)
      else if lmp_subver w = ROM_LMP_8723b then
        if hci_ver w = 0x08 \<and> hci_rev w = 0x000d then (GoOn, w\<lparr>chip_type := CHIP_8723DS\<rparr>)
        else if hci_ver w = 0x06 \<and> hci_rev w = 0x000b then (GoOn, w\<lparr>chip_type := CHIP_8723BS\<rparr>)
        else (CfgFail, w)
      else (GoOn, w))"

definition rtb_identify :: "int \<Rightarrow> int \<Rightarrow> world \<Rightarrow> (cfg_path \<times> world) result" where
  "rtb_identify fd protocol w =
     (if protocol = HCI_UART_3WIRE then
        bind_result (check_fw_chip_ver fd w) (\<lambda>(_, w).
        bind_result (rtb_read_eversion fd w) (\<lambda>w. Inr (GoOn, w)))
      else
        bind_result (h4_read_local_ver fd w) (\<lambda>(_, w).
        bind_result (h4_vendor_read_rom_ver fd w) (\<lambda>(_, w). Inr (h4_chip_id w))))"

definition rtb_read_chip_type :: "int \<Rightarrow> int \<Rightarrow> world \<Rightarrow> world result" where
  "rtb_read_chip_type fd protocol w =
     bind_result
       (if lmp_subver w = ROM_LMP_8761a then
          if protocol = HCI_UART_3WIRE then rtb_vendor_read fd READ_CHIP_TYPE w else Inr (0, w)
        else if lmp_subver w = ROM_LMP_8703b \<or> lmp_subver w = ROM_LMP_8852a then rtb_vendor_read fd READ_CHIP_TYPE w
        else Inr (0, w))
       (\<lambda>(_, w).
        let w = (if chip_type w = CHIP_8852BPE_VR \<or> chip_type w = CHIP_8852BPS then w\<lparr>chip_type := CHIP_8852BP\<rparr> else w)
        in Inr (if chip_type w = CHIP_8852BP then w\<lparr>eversion := chip_ver w\<rparr> else w))"

text \<open>
  The entry, the configuration and the firmware, combined into \<open>total_buf\<close>; the number is the return value of
  \<open>rtb_config\<close> on an early return.
\<close>

definition rtb_load :: "int \<Rightarrow> int \<Rightarrow> world \<Rightarrow> ((int + patch_info) \<times> world) result" where
  "rtb_load fd protocol w =
     bind_result (get_patch_entry w) (\<lambda>ent.
     let w = w\<lparr>patch_ent := Some ent\<rparr> in
     bind_result (rtb_read_config (p_config_file ent) (p_chip_type ent) w) (\<lambda>((cfg, clen), w).
     let w = w\<lparr>config_buf := cfg, config_len := (if cfg = None then 0 else clen)\<rparr> in
     bind_result (rtb_read_firmware w) (\<lambda>((fw, flen), w).
     case fw of
       None \<Rightarrow>
         Inr (Inl (- 1), w\<lparr>fw_buf := None, fw_len := 0, config_buf := None, config_len := (if config_buf w = None then config_len w else 0)\<rparr>)
     | Some bs \<Rightarrow>
         let w = w\<lparr>fw_buf := Some bs, fw_len := flen\<rparr> in
         bind_result (rtb_get_final_patch fd protocol w) (\<lambda>((buf, len), w).
         let w = w\<lparr>total_buf := buf, total_len := len, config_buf := None, fw_buf := None, fw_len := 0\<rparr> in
         if buf = None then Inl ExitFailure else Inr (Inr ent, w)))))"

definition max_patch_size :: "byte \<Rightarrow> int" where
  "max_patch_size chip =
     (if chip = CHIP_8822BS then 25 * 1024
      else if chip \<in> {CHIP_8821CS, CHIP_8723DS, CHIP_8822CS, CHIP_8761B, CHIP_8725AS} then 40 * 1024
      else if chip = CHIP_8852AS then 0x114D0 + 529
      else if chip = CHIP_8723FS then 0xC4Cf + 529
      else if chip \<in> {CHIP_8852BS, CHIP_8852BP} then 0x104D0 + 529
      else if chip = CHIP_8852CS then 0x130D0 + 529
      else if chip = CHIP_8822ES then 0x24620 + 529
      else if chip = CHIP_8851BS then 0x10050 + 529
      else 24 * 1024)"

text \<open>The parity setting of the RTL8723DS on four wires: whether the call of \<open>tcsetattr\<close> succeeded.\<close>

definition set_h4_parity :: "world \<Rightarrow> bool \<times> world" where
  "set_h4_parity w =
     (if chip_type w = CHIP_8723DS \<and> proto w = HCI_UART_H4 \<and> parenb w \<noteq> 0
      then tcsetattr (w\<lparr>tio := (tio w)\<lparr>t_parenb := True, t_parodd := (pareven w = 0)\<rparr>\<rparr>)
      else (True, w))"

text \<open>The label \<open>change_baud\<close>: whether the code goes on to the download.\<close>

definition change_baud :: "int \<Rightarrow> int \<Rightarrow> int \<Rightarrow> world \<Rightarrow> (bool \<times> world) result" where
  "change_baud fd protocol speed w =
     (if vendor_baud w = 0 then Inr (True, w\<lparr>vendor_baud := std_speed_to_vendor speed\<rparr>)
      else
        let w = w\<lparr>final_speed := vendor_speed_to_std (vendor_baud w)\<rparr> in
        if final_speed w = 115200 then Inr (True, w)
        else
          bind_result
            (if protocol = HCI_UART_3WIRE then h5_vendor_change_speed fd (vendor_baud w) w
             else h4_vendor_change_speed fd (vendor_baud w) w)
            (\<lambda>(_, w).
             case set_speed (if final_speed w \<noteq> 0 then final_speed w else speed) w of (rc, w) \<Rightarrow> Inr (rc = 0, w)))"

definition start_download :: "int \<Rightarrow> int \<Rightarrow> world \<Rightarrow> (int \<times> world) result" where
  "start_download fd protocol w =
     (if chip_type w = CHIP_8761BTC then Inr (0, w)
      else if total_len w > 0 \<and> dl_fw_flag w \<noteq> 0 then
        (case total_buf w of
           None \<Rightarrow> Inl NullDeref
         | Some buf \<Rightarrow>
             bind_result (rtb_download_fwc fd buf (nat (total_len w)) protocol (w\<lparr>link_estab_state := H5_PATCH, rx_index := - 1\<rparr>))
               (\<lambda>(ret, w). Inr (if ret < 0 then ret else 0, w)))
      else Inr (0, w))"

definition finish_config :: "int \<Rightarrow> int \<Rightarrow> int \<Rightarrow> world \<Rightarrow> (int \<times> world) result" where
  "finish_config fd protocol speed w =
     bind_result (change_baud fd protocol speed w) (\<lambda>(ok, w).
       if ok then start_download fd protocol w else Inr (- 1, w))"

definition rtb_config :: "int \<Rightarrow> int \<Rightarrow> int \<Rightarrow> world \<Rightarrow> (int \<times> world) result" where
  "rtb_config fd protocol speed w =
     bind_result (rtb_identify fd protocol (w\<lparr>proto := protocol\<rparr>)) (\<lambda>(path, w).
     case path of
       CfgFail \<Rightarrow> Inr (- 1, w)
     | ChangeBaud \<Rightarrow> finish_config fd protocol speed w
     | GoOn \<Rightarrow>
         bind_result (rtb_read_chip_type fd protocol w) (\<lambda>w.
         bind_result (rtb_load fd protocol w) (\<lambda>(r, w).
         case r of
           Inl rc \<Rightarrow> Inr (rc, w)
         | Inr ent \<Rightarrow>
             if total_len w > max_patch_size (p_chip_type ent) then Inr (- 1, w)
             else case set_h4_parity w of (ok, w) \<Rightarrow>
               if ok then finish_config fd protocol speed w else Inr (- 1, w))))"

section \<open>Initialisation\<close>

text \<open>\<open>memset(&rtb_cfg, 0, sizeof(rtb_cfg))\<close> leaves the environment alone.\<close>

definition rtb_clear :: "world \<Rightarrow> world" where
  "rtb_clear w = rtb_zero\<lparr>mallocs := mallocs w, wlog := wlog w, wr_rets := wr_rets w, polls := polls w, polls4 := polls4 w,
     tcsets := tcsets w, tio := tio w, tio_applied := tio_applied w, armed := armed w, files := files w, junk := junk w\<rparr>"

text \<open>
  What the remaining system calls answer: \<open>epoll_create\<close> and \<open>timerfd_create\<close> (\<open>-1\<close> on failure), whether the two calls of
  \<open>epoll_ctl\<close> succeed, \<open>open\<close> of the device, whether \<open>tcgetattr\<close> succeeds and what it returns, and whether the
  calls of \<open>ioctl\<close> succeed.
\<close>

record sys =
  sys_epoll :: int
  sys_ctl :: "bool \<times> bool"
  sys_timer :: int
  sys_open :: int
  sys_tcget :: "termios option"
  sys_ldisc :: bool
  sys_flags :: bool
  sys_proto :: bool

definition rtb_init :: "sys \<Rightarrow> int \<Rightarrow> int \<Rightarrow> int \<Rightarrow> world \<Rightarrow> (int \<times> world) result" where
  "rtb_init os fd protocol speed w =
     (let w = (rtb_clear w)\<lparr>serial_fd := fd, dl_fw_flag := 1, epollfd := sys_epoll os\<rparr> in
      if epollfd w = - 1 then Inl ExitFailure
      else if \<not> fst (sys_ctl os) then Inl ExitFailure
      else
        let w = w\<lparr>timerfd := sys_timer os\<rparr> in
        if timerfd w = - 1 then Inr (- 1, w)
        else if timerfd w > 0 \<and> \<not> snd (sys_ctl os) then Inl ExitFailure
        else
          bind_result (if protocol = HCI_UART_3WIRE then rtb_init_h5 fd w else Inr (0, w)) (\<lambda>(rc, w).
          if rc < 0 then Inr (- 1, w)
          else bind_result (rtb_config fd protocol speed w) (\<lambda>(result, w). Inr (result, w\<lparr>timerfd := - 1\<rparr>))))"

definition rtb_post :: "int \<Rightarrow> int \<Rightarrow> world \<Rightarrow> int" where
  "rtb_post fd protocol w = 0"

section \<open>The serial line\<close>

definition FLOW_CTL :: nat where "FLOW_CTL = 0x0001"
definition N_HCI :: int where "N_HCI = 15"

text \<open>
  A kind of device; \<open>u_realtek\<close> tells whether its functions \<open>init\<close> and \<open>post\<close> are those of the Realtek chips or null.
  The address is never used.
\<close>

record uart_t =
  u_type :: string
  u_m_id :: int
  u_p_id :: int
  u_proto :: int
  u_init_speed :: int
  u_speed :: int
  u_flags :: nat
  u_pm :: int
  u_realtek :: bool

definition uart :: "uart_t list" where
  "uart =
     [\<lparr>u_type = ''any'', u_m_id = 0, u_p_id = 0, u_proto = HCI_UART_H4, u_init_speed = 115200, u_speed = 115200,
       u_flags = FLOW_CTL, u_pm = 0, u_realtek = False\<rparr>,
      \<lparr>u_type = ''rtk_h4'', u_m_id = 0, u_p_id = 0, u_proto = HCI_UART_H4, u_init_speed = 115200, u_speed = 115200,
       u_flags = 0, u_pm = 0, u_realtek = True\<rparr>,
      \<lparr>u_type = ''rtk_h5'', u_m_id = 0, u_p_id = 0, u_proto = HCI_UART_3WIRE, u_init_speed = 115200, u_speed = 115200,
       u_flags = 0, u_pm = 0, u_realtek = True\<rparr>]"

definition get_by_id :: "int \<Rightarrow> int \<Rightarrow> uart_t option" where
  "get_by_id m_id p_id = find (\<lambda>u. u_m_id u = m_id \<and> u_p_id u = p_id) uart"

definition get_by_type :: "string \<Rightarrow> uart_t option" where
  "get_by_type ty = find (\<lambda>u. u_type u = ty) uart"

datatype ioctl_call = TIOCSETD int | HCIUARTSETFLAGS nat | HCIUARTSETPROTO int

definition realtek_init :: "sys \<Rightarrow> int \<Rightarrow> uart_t \<Rightarrow> world \<Rightarrow> (int \<times> world) result" where
  "realtek_init os fd u w = rtb_init os fd (u_proto u) (u_speed u) w"

definition realtek_post :: "int \<Rightarrow> uart_t \<Rightarrow> world \<Rightarrow> int" where
  "realtek_post fd u w = rtb_post fd (u_proto u) w"

text \<open>The tail of \<open>init_uart\<close>: the line discipline, the flags and the protocol, with the calls made, each together with
  the state it was made in.\<close>

definition attach_ldisc :: "sys \<Rightarrow> int \<Rightarrow> uart_t \<Rightarrow> bool \<Rightarrow> world \<Rightarrow> int \<times> (ioctl_call \<times> world) list \<times> world" where
  "attach_ldisc os fd u raw w =
     (let flags = (if raw then 1 else 0); c1 = [(TIOCSETD N_HCI, w)];
          c2 = (if flags \<noteq> 0 then c1 @ [(HCIUARTSETFLAGS flags, w)] else c1); c3 = c2 @ [(HCIUARTSETPROTO (u_proto u), w)]
      in if \<not> sys_ldisc os then (- 1, c1, w)
         else if flags \<noteq> 0 \<and> \<not> sys_flags os then (- 1, c2, w)
         else if \<not> sys_proto os then (- 1, c3, w)
         else if u_realtek u \<and> realtek_post fd u w < 0 then (- 1, c3, w)
         else (fd, c3, w))"

definition init_uart :: "sys \<Rightarrow> uart_t \<Rightarrow> bool \<Rightarrow> world \<Rightarrow> (int \<times> (ioctl_call \<times> world) list \<times> world) result" where
  "init_uart os u raw w =
     (let fd = sys_open os in
      if fd < 0 then Inr (- 1, [], w)
      else case sys_tcget os of
        None \<Rightarrow> Inr (- 1, [], w)
      | Some ti \<Rightarrow>
          let w = w\<lparr>tio := ti\<lparr>t_raw := True, t_parenb := False, t_clocal := True, t_crtscts := (u_flags u mod 2 = 1)\<rparr>\<rparr> in
          case tcsetattr w of (ok, w) \<Rightarrow>
          if \<not> ok then Inr (- 1, [], w)
          else case set_speed (u_init_speed u) w of (rc, w) \<Rightarrow>
          if rc < 0 then Inr (- 1, [], w)
          else
            bind_result (if u_realtek u then realtek_init os fd u w else Inr (0, w)) (\<lambda>(rc, w).
              if rc < 0 then Inr (- 1, [], w) else Inr (attach_ldisc os fd u raw w)))"

end
