(* ===== verification/H5_Active.thy ===== *)
theory H5_Active
  imports Download
begin

text \<open>
  The end of the download: a successful reset leaves the link in the state \<open>H5_ACTIVE\<close>. The argument needs an
  invariant that survives everything the receiver and the event loop do; what such an invariant has to satisfy is
  stated as a locale, so that the passage through the receive loop is proved once.
\<close>

section \<open>Invariants of the receiver\<close>

text \<open>
  A predicate on the link state, the outstanding command and the buffer to download that the two packet handlers
  keep. Everything else the receiver and the transmitter change is outside these fields.
\<close>

definition host_view :: "world \<Rightarrow> h5_link_state \<times> cmd_state_t \<times> byte list option \<times> int \<times> byte" where
  "host_view w = (link_estab_state w, cmd_state w, total_buf w, total_len w, dl_fw_flag w)"

locale rx_invariant =
  fixes I :: "world \<Rightarrow> bool"
  assumes depends: "host_view w' = host_view w \<Longrightarrow> I w \<Longrightarrow> I w'"
    and frame: "I w \<Longrightarrow> returns I (hci_recv_frame skb w)"
    and internal: "I w \<Longrightarrow> returns I (h5_handle_internal_rx skb w)"
begin

lemma upd [simp]:
  "I w \<Longrightarrow> I (w\<lparr>rx_state := st\<rparr>)" "I w \<Longrightarrow> I (w\<lparr>rx_count := n\<rparr>)" "I w \<Longrightarrow> I (w\<lparr>rx_skb := p\<rparr>)"
  "I w \<Longrightarrow> I (w\<lparr>rx_esc_state := e\<rparr>)" "I w \<Longrightarrow> I (w\<lparr>message_crc := c\<rparr>)" "I w \<Longrightarrow> I (w\<lparr>mallocs := m\<rparr>)"
  "I w \<Longrightarrow> I (w\<lparr>is_txack_req := a\<rparr>)" "I w \<Longrightarrow> I (w\<lparr>rxack := a\<rparr>)" "I w \<Longrightarrow> I (w\<lparr>rxseq_txack := a\<rparr>)"
  "I w \<Longrightarrow> I (w\<lparr>wlog := l\<rparr>)" "I w \<Longrightarrow> I (w\<lparr>wr_rets := rs\<rparr>)" "I w \<Longrightarrow> I (w\<lparr>polls := ps\<rparr>)" "I w \<Longrightarrow> I (w\<lparr>armed := k\<rparr>)"
  by (rule depends; simp add: host_view_def)+

lemma deliver: "I w \<Longrightarrow> returns I (h5_rx_deliver skb h1 w)"
  by (auto simp: h5_rx_deliver_def Let_def frame internal intro!: returnsI dest: returnsD [OF frame] returnsD [OF internal])

lemma ack: "I w \<Longrightarrow> returns I (h5_rx_ack w)"
proof -
  assume i: "I w"
  have "I w'" if "rtb_send_ack fd w = Inr w'" for fd w'
  proof (rule depends [OF _ i])
    show "host_view w' = host_view w" by (subst rtb_send_ack_world [OF that]) (simp add: host_view_def)
  qed
  with i show ?thesis by (auto simp: h5_rx_ack_def intro!: returnsI)
qed

lemma complete: "I w \<Longrightarrow> returns I (h5_complete_rx_pkt w)"
proof (rule returnsI)
  fix w' assume i: "I w" and "h5_complete_rx_pkt w = Inr w'"
  then obtain skb h0 h1 w1 w2 where w: "h5_rx_deliver skb h1 (h5_rx_bookkeep h0 w) = Inr w1"
      "h5_rx_ack w1 = Inr w2" "h5_rx_release w2 = Inr w'"
    by (auto simp: h5_complete_rx_pkt_def bind_result_eq_Inr)
  from i have "I (h5_rx_bookkeep h0 w)" by (simp add: h5_rx_bookkeep_def Let_def)
  then have "I w1" using returnsD [OF deliver w(1)] by simp
  then have "I w2" using returnsD [OF ack w(2)] by simp
  with w(3) show "I w'" by (auto simp: h5_rx_release_def bind_result_eq_Inr)
qed

lemma drop_rx: "I w \<Longrightarrow> returns I (h5_drop_rx w)"
  by (simp add: h5_drop_rx_def returnsI)

lemma hdr: "I w \<Longrightarrow> returns I (h5_recv_hdr w)"
  by (auto simp: h5_recv_hdr_def h5_drop_rx_def intro!: returnsI)

lemma crc: "I w \<Longrightarrow> returns I (h5_recv_crc w)"
  by (auto simp: h5_recv_crc_def drop_rx complete intro!: returnsI dest: returnsD [OF drop_rx] returnsD [OF complete, rotated])

lemma unslip: "I w \<Longrightarrow> returns I (h5_unslip_one_byte w b)"
  by (auto simp: h5_unslip_one_byte_def rx_store_byte_def Let_def intro!: returnsI split: h5_rx_esc_state.splits)

lemma start: "I w \<Longrightarrow> I (snd (h5_recv_start w))"
  by (simp add: h5_recv_start_def next_malloc_eq Let_def split: option.splits)

lemma iter: "I w \<Longrightarrow> returns (\<lambda>(act, w'). I w') (h5_recv_iter w b)"
  using start [of w] unslip [of w b] hdr [of w] crc [of w] complete [of w]
  by (cases "rx_state w") (auto simp: h5_recv_iter_def split_def intro!: returnsI dest: returnsD)

lemma recv: "I w \<Longrightarrow> returns I (h5_recv w bs)"
proof (induction w bs rule: h5_recv.induct)
  case (2 w b bs)
  show ?case
  proof (subst h5_recv.simps(2), unfold returns_simps, rule returnsI)
    fix r assume r: "h5_recv_iter w b = Inr r"
    with iter [OF 2(3)] have "I (snd r)" by (metis returnsD split_beta)
    with 2(1,2) [OF r] show "returns I (case r of (act, w') \<Rightarrow>
        case act of RxConsume \<Rightarrow> h5_recv w' bs | RxKeep \<Rightarrow> h5_recv w' (b # bs) | RxReturn \<Rightarrow> Inr w')"
      by (cases r; cases "fst r") auto
  qed
qed simp

lemma writev: "I w \<Longrightarrow> I (snd (writev_loop fd bs w))"
  by (simp add: writev_loop_def split: prod.splits)

lemma events: "I w \<Longrightarrow> returns (\<lambda>(r, n, w'). I w') (stw_events fd pkt msec evs retry w)"
proof (induction fd pkt msec evs retry w rule: stw_events.induct)
  case (2 fd pkt msec bs evs retry w)
  show ?case
  proof (cases "bs = []")
    case False
    have "returns (\<lambda>(r, n, w'). I w') (stw_events fd pkt msec evs retry x)" if "h5_recv w (take 128 bs) = Inr x" for x
      using 2(2) [OF False that] returnsD [OF recv [OF 2(3)] that] .
    with False show ?thesis by (cases "h5_recv w (take 128 bs)") auto
  qed (use 2 in simp)
next
  case (6 fd pkt msec ok evs retry w)
  obtain err v where v: "writev_loop fd pkt w = (err, v)" by (cases "writev_loop fd pkt w")
  with 6 writev [OF 6(2), of fd pkt] show ?case by (auto simp: timeout_set_def)
qed simp_all

lemma loop: "I w \<Longrightarrow> returns (\<lambda>(rc, w'). I w') (stw_loop fd pkt op msec ps retry w)"
proof (induction ps arbitrary: retry w)
  case (Cons p ps)
  show ?case
  proof (cases p)
    case (EpEvents evs)
    have "I (w\<lparr>polls := ps\<rparr>)" using Cons.prems by simp
    then show ?thesis
      unfolding EpEvents stw_loop.simps returns_simps
      by (rule returns_mono [OF events]) (auto simp: timeout_set_def Cons.IH split: option.splits)
  qed simp
qed simp

lemma transmit: "I w \<Longrightarrow> returns (\<lambda>(rc, w'). I w') (start_transmit_wait fd skb op msec retry w)"
  using writev [of w fd]
  by (auto simp: start_transmit_wait_def timeout_arm_def timeout_set_def Let_def split_def intro!: loop [unfolded split_def] split: option.splits)

end

section \<open>The link is active after the reset\<close>

text \<open>From the download on, a completed reset means that the link has become active.\<close>

definition reset_active :: "world \<Rightarrow> bool" where
  "reset_active w \<longleftrightarrow> link_estab_state w \<in> {H5_PATCH, H5_HCI_RESET, H5_ACTIVE} \<and>
     (cs_opcode (cmd_state w) = HCI_CMD_RESET \<and> cs_state (cmd_state w) = CMD_STATE_SUCCESS \<longrightarrow> link_estab_state w = H5_ACTIVE)"

lemma reset_active_post: "reset_active w \<Longrightarrow> link_estab_state w = H5_HCI_RESET \<Longrightarrow> returns reset_active (h5_post_hci_cc skb w)"
  by (auto simp: h5_post_hci_cc_def h5_cc_prefix_def reset_active_def Let_def intro!: returnsI split: option.splits)

interpretation reset_active: rx_invariant reset_active
proof (unfold_locales, goal_cases)
  case (2 w skb)
  then consider "link_estab_state w = H5_PATCH" | "link_estab_state w = H5_HCI_RESET" | "link_estab_state w = H5_ACTIVE"
    by (auto simp: reset_active_def)
  then show ?case
  proof cases
    case 1
    with 2 show ?thesis
      by (cases "skb_data skb 0"; cases "skb_data skb 6") (auto simp: hci_recv_frame_def reset_active_def Let_def)
  next
    case 2
    with \<open>reset_active w\<close> reset_active_post show ?thesis
      by (cases "skb_data skb 0") (auto simp: hci_recv_frame_def)
  qed (use 2 in \<open>simp add: hci_recv_frame_def\<close>)
next
  case (3 w skb)
  then show ?case by (auto simp: h5_handle_internal_rx_def reset_active_def split: h5_link_state.splits)
qed (simp add: reset_active_def host_view_def)

lemma link_steps_patch: "link_steps s s' \<Longrightarrow> s = H5_PATCH \<Longrightarrow> s' \<in> {H5_PATCH, H5_HCI_RESET, H5_ACTIVE}"
  by (induction rule: rtranclp_induct) (auto simp: link_step_iff)

lemma reset_makes_active:
  assumes "link_estab_state v \<in> {H5_PATCH, H5_HCI_RESET, H5_ACTIVE}" "h5_hci_reset fd v = Inr (0, w')"
  shows "link_estab_state w' = H5_ACTIVE"
proof -
  from assms(2) obtain s v1 where v1: "h5_prepare_pkt v [0x03, 0x0c, 0x00] 3 HCI_COMMAND_PKT = Inr (Some s, v1)"
    "start_transmit_wait fd (Some s) OP_HCI_RESET 1500 1 (await_cmd HCI_CMD_RESET v1) = Inr (0, w')"
    by (auto simp: h5_hci_reset_def bind_result_eq_Inr split: option.splits)
  have "link_estab_state v1 = link_estab_state v" by (subst h5_prepare_pkt_world [OF v1(1)]) simp
  with assms(1) have "reset_active (await_cmd HCI_CMD_RESET v1)"
    by (simp add: reset_active_def await_cmd_def CMD_STATE_UNKNOWN_def CMD_STATE_SUCCESS_def)
  then have "reset_active w'" using returnsD [OF reset_active.transmit v1(2)] by simp
  then show ?thesis using returnsD [OF h5_hci_reset_post assms(2)] by (simp add: reset_active_def)
qed

lemma h5_send_frags_link:
  "returns (\<lambda>(rc, w'). rc = 0 \<longrightarrow> link_steps (link_estab_state w) (link_estab_state w')) (h5_send_frags fd frags w)"
proof (induction frags arbitrary: w)
  case (Cons f frags)
  obtain ix data where f: "f = (ix, data)" by (cases f)
  show ?case
    unfolding f h5_send_frags.simps returns_simps
  proof (rule returns_mono [OF h5_download_patch_post], goal_cases)
    case (1 r)
    obtain rc v where r: "r = (rc, v)" by (cases r)
    with 1 show ?case
      by (auto simp: frag_post_def intro!: returns_mono [OF Cons.IH [of v]] intro: rtranclp_trans)
  qed
qed simp

lemma h5_send_frags_rc: "h5_send_frags fd frags w = Inr (rc, v) \<Longrightarrow> rc \<le> 0"
  by (induction fd frags w rule: h5_send_frags.induct) (auto simp: bind_result_eq_Inr split: if_splits)

lemma download_makes_active:
  assumes "0 < buf_size" "buf_size \<le> length buf" "buf_size \<le> FWC_MAX" "link_estab_state w = H5_PATCH"
    and "rtb_download_fwc fd buf buf_size HCI_UART_3WIRE w = Inr (0, w')"
  shows "link_estab_state w' = H5_ACTIVE"
proof -
  let ?e = "fwc_end_idx buf_size" and ?a = "fwc_add_pkts HCI_UART_3WIRE (num_of_cmd_sent w) (fwc_end_idx buf_size)"
  let ?w = "w\<lparr>total_num := int (?e + ?a)\<rparr>"
  from assms(5) [unfolded rtb_download_fwc_eq [OF assms(1-3)]] obtain rc v where
    v: "h5_send_frags fd (frag_plan (take buf_size buf) ?a) ?w = Inr (rc, v)"
      "(if rc < 0 then Inr (rc, v) else h5_hci_reset fd v) = Inr (0, w')"
    by (auto simp: Let_def bind_result_eq_Inr)
  from returnsD [OF h5_send_frags_link v(1)] h5_send_frags_rc [OF v(1)] v(2)
  have "link_steps (link_estab_state w) (link_estab_state v)" "h5_hci_reset fd v = Inr (0, w')" by (auto split: if_splits)
  with reset_makes_active link_steps_patch assms(4) show ?thesis by blast
qed

section \<open>The buffer survives an exchange\<close>

lemma total_view_frame:
  assumes "(total_buf w, total_len w, dl_fw_flag w) = x"
  shows "returns (\<lambda>w. (total_buf w, total_len w, dl_fw_flag w) = x) (hci_recv_frame skb w)"
  using assms
  by (auto simp: hci_recv_frame_def h5_init_hci_cc_def h5_init_cc_fields_def h5_post_hci_cc_def Let_def
      intro!: returnsI split: h5_link_state.splits option.splits if_splits dest!: bind_result_eq_Inr [THEN iffD1])

lemma total_view_internal:
  assumes "(total_buf w, total_len w, dl_fw_flag w) = x"
  shows "returns (\<lambda>w. (total_buf w, total_len w, dl_fw_flag w) = x) (h5_handle_internal_rx skb w)"
proof -
  have "(total_buf w', total_len w', dl_fw_flag w') = x" if "rtb_send_ack (serial_fd w) w = Inr w'" for w'
    using assms by (subst (1 2 3) rtb_send_ack_world [OF that]) simp
  with assms show ?thesis
    by (auto simp: h5_handle_internal_rx_def log_write_def Let_def
        intro!: returnsI split: h5_link_state.splits if_splits dest!: bind_result_eq_Inr [THEN iffD1])
qed

interpretation total_view: rx_invariant "\<lambda>w. (total_buf w, total_len w, dl_fw_flag w) = x" for x
  by unfold_locales (auto simp: host_view_def total_view_frame total_view_internal)

lemma h5_vendor_change_speed_total:
  "h5_vendor_change_speed fd b w = Inr (rc, w') \<Longrightarrow>
   (total_buf w', total_len w', dl_fw_flag w') = (total_buf w, total_len w, dl_fw_flag w)"
proof -
  assume h: "h5_vendor_change_speed fd b w = Inr (rc, w')"
  then obtain s v where v: "h5_prepare_pkt w ([0x17, 0xfc, 4] @ le32_bytes b) 7 HCI_COMMAND_PKT = Inr (s, v)"
    by (auto simp: h5_vendor_change_speed_def bind_result_eq_Inr)
  have t: "(total_buf v, total_len v, dl_fw_flag v) = (total_buf w, total_len w, dl_fw_flag w)"
    by (subst (1 2 3) h5_prepare_pkt_world [OF v]) simp
  show ?thesis
  proof (cases s)
    case None
    with h v t show ?thesis by (simp add: h5_vendor_change_speed_def)
  next
    case (Some sk)
    with h v obtain r where "start_transmit_wait fd s OP_SET_BAUD 1000 0 (await_cmd HCI_VENDOR_CHANGE_BAUD v) = Inr (r, w')"
      by (auto simp: h5_vendor_change_speed_def bind_result_eq_Inr split: if_splits)
    from returnsD [OF total_view.transmit [OF refl] this] t show ?thesis by (simp add: await_cmd_def)
  qed
qed

end
