(* ===== verification/Attach_Props.thy ===== *)
theory Attach_Props
  imports Attach H5_Active
begin

text \<open>
  Properties of the initialisation sequence as a whole: the buffer that is downloaded is within the limits of the
  downloader, a successful initialisation leaves an active link, and the line discipline is set only after it.
\<close>

section \<open>The download buffer\<close>

lemma buf_store_length: "buf_store p bs buf = Inr b \<Longrightarrow> length b = length buf"
  by (auto simp: buf_store_def split: if_splits)

lemma copy_nodes_length: "copy_nodes fw ns k buf = Inr b \<Longrightarrow> length b = length buf"
  by (induction fw ns k buf rule: copy_nodes.induct) (fastforce simp: bind_result_eq_Inr dest: buf_store_length)+

lemma put_config_post:
  "put_config len w buf = Inr b \<Longrightarrow>
   length b = length buf \<and> (config_len w = 0 \<or> 0 < config_len w \<and> config_len w \<le> len)"
  by (auto simp: put_config_def bind_result_eq_Inr dest!: buf_store_length split: if_splits option.splits)

lemma malloc_buf_post:
  "malloc_buf len w = (Some b, w') \<Longrightarrow> int (length b) = len \<and> config_len w' = config_len w \<and> fw_len w' = fw_len w"
  by (auto simp: malloc_buf_def next_malloc_eq split: if_splits)

definition patch_post :: "(byte list option \<times> int) \<times> world \<Rightarrow> bool" where
  "patch_post = (\<lambda>((buf, len), w). \<forall>b. buf = Some b \<longrightarrow> int (length b) = len \<and> 0 < len \<and> dl_fw_flag w = 1)"

lemma no_patch_post: "returns patch_post (no_patch w)"
  by (simp add: no_patch_def patch_post_def)

lemma final_8723a_post: "returns patch_post (final_8723a fw w)"
  unfolding final_8723a_def Let_def
  by (auto simp: no_patch_post patch_post_def get_unaligned_le32_def rd_range_def bind_result_eq_Inr
      intro!: returnsI split: prod.splits option.splits if_splits
      dest!: malloc_buf_post put_config_post buf_store_length returnsD [OF no_patch_post])

lemma final_sections_post: "returns patch_post (final_sections fd fw w)"
proof (rule returnsI)
  fix r assume r: "final_sections fd fw w = Inr r"
  then obtain k w0 plen nodes w1 where a: "rtb_vendor_read fd READ_SEC_PROJ w = Inr (k, w0)"
    "rtb_get_patch_header fw (key_id w0) w0 = Inr ((plen, nodes), w1)"
    by (auto simp: final_sections_def bind_result_eq_Inr)
  note h = r [unfolded final_sections_def a bind_result_Inr prod.case Let_def]
  obtain b w2 where m: "malloc_buf (sint plen + config_len w1) w1 = (b, w2)"
    by (cases "malloc_buf (sint plen + config_len w1) w1")
  show "patch_post r"
  proof (cases "plen = 0 \<or> b = None")
    case True
    with h m show ?thesis by (auto split: if_splits dest: returnsD [OF no_patch_post])
  next
    case False
    then obtain buf b1 b2 where b: "b = Some buf" "copy_nodes fw nodes 0 buf = Inr b1"
      "put_config (sint plen + config_len w1) w2 b1 = Inr b2" "r = ((Some b2, sint plen + config_len w1), w2\<lparr>dl_fw_flag := 1\<rparr>)"
      using h m by (auto simp: bind_result_eq_Inr)
    have l: "int (length b2) = sint plen + config_len w1"
      using malloc_buf_post [of _ w1 buf w2] m b(1) copy_nodes_length [OF b(2)] put_config_post [OF b(3)] by simp
    moreover have "sint plen + config_len w1 \<noteq> 0"
      using put_config_post [OF b(3)] malloc_buf_post [of _ w1 buf w2] m b(1) False
      by (auto simp: signed_eq_0_iff)
    ultimately show ?thesis using b(4) by (simp add: patch_post_def)
  qed
qed

lemma final_table_post: "returns patch_post (final_table fw w)"
  unfolding final_table_def Let_def
  by (auto simp: no_patch_post patch_post_def bind_result_eq_Inr
      intro!: returnsI split: prod.splits option.splits if_splits
      dest!: malloc_buf_post put_config_post buf_store_length returnsD [OF no_patch_post])

lemma final_patch_post: "returns patch_post (rtb_get_final_patch fd protocol w)"
  by (auto simp: rtb_get_final_patch_def no_patch_post final_8723a_post final_sections_post final_table_post
      intro!: returnsI split: option.splits if_splits
      dest: returnsD [OF no_patch_post] returnsD [OF final_8723a_post] returnsD [OF final_sections_post] returnsD [OF final_table_post])

section \<open>The sequence as a whole\<close>

definition loaded :: "world \<Rightarrow> bool" where
  "loaded w \<longleftrightarrow> (\<exists>b. total_buf w = Some b \<and> total_len w = int (length b) \<and> 0 < total_len w \<and> dl_fw_flag w = 1)"

lemma loaded_view: "(total_buf w', total_len w', dl_fw_flag w') = (total_buf w, total_len w, dl_fw_flag w) \<Longrightarrow> loaded w' = loaded w"
  by (simp add: loaded_def)

lemma rtb_load_post: "rtb_load fd protocol w = Inr (Inr ent, w') \<Longrightarrow> loaded w'"
proof -
  assume "rtb_load fd protocol w = Inr (Inr ent, w')"
  then obtain v buf len v' where "rtb_get_final_patch fd protocol v = Inr ((buf, len), v')" "buf \<noteq> None"
    "w' = v'\<lparr>total_buf := buf, total_len := len, config_buf := None, fw_buf := None, fw_len := 0\<rparr>"
    by (auto simp: rtb_load_def Let_def bind_result_eq_Inr split: option.splits if_splits)
  with returnsD [OF final_patch_post this(1)] show ?thesis by (auto simp: loaded_def patch_post_def)
qed

lemma rtb_load_fail: "rtb_load fd protocol w = Inr (Inl rc, w') \<Longrightarrow> rc = - 1"
  by (auto simp: rtb_load_def Let_def bind_result_eq_Inr split: option.splits if_splits)

lemma tcsetattr_frame: "tcsetattr w = (ok, w') \<Longrightarrow> loaded w' = loaded w \<and> total_len w' = total_len w \<and> chip_type w' = chip_type w"
  by (auto simp: tcsetattr_def loaded_def split: list.splits if_splits)

lemma change_baud_loaded:
  assumes "change_baud fd HCI_UART_3WIRE speed w = Inr (ok, w')" "loaded w"
  shows "loaded w' \<and> total_len w' = total_len w"
proof -
  let ?w = "w\<lparr>final_speed := vendor_speed_to_std (vendor_baud w)\<rparr>"
  have l: "loaded ?w" using assms(2) by (simp add: loaded_def)
  consider "vendor_baud w = 0 \<or> vendor_speed_to_std (vendor_baud w) = 115200"
    | rc v where "h5_vendor_change_speed fd (vendor_baud w) ?w = Inr (rc, v)"
        "(case set_speed (if final_speed v \<noteq> 0 then final_speed v else speed) v of (rc, w) \<Rightarrow> Inr (rc = 0, w)) = (Inr (ok, w') :: (bool \<times> world) result)"
    using assms(1) by (auto simp: change_baud_def Let_def bind_result_eq_Inr split: if_splits)
  then show ?thesis
  proof cases
    case 1
    with assms show ?thesis by (auto simp: change_baud_def Let_def loaded_def split: if_splits)
  next
    case 2
    from h5_vendor_change_speed_total [OF 2(1)] l have "loaded v" "total_len v = total_len w" by (auto simp: loaded_def)
    with 2(2) show ?thesis by (auto simp: set_speed_def loaded_def split: prod.splits dest!: tcsetattr_frame)
  qed
qed

lemma start_download_active:
  assumes "start_download fd HCI_UART_3WIRE w = Inr (0, w')" "loaded w" "total_len w \<le> int FWC_MAX"
  shows "link_estab_state w' = H5_ACTIVE \<or> chip_type w' = CHIP_8761BTC"
proof (cases "chip_type w = CHIP_8761BTC")
  case True
  with assms(1) show ?thesis by (simp add: start_download_def)
next
  case False
  let ?w = "w\<lparr>link_estab_state := H5_PATCH, rx_index := - 1\<rparr>"
  from assms(2) obtain b where b: "total_buf w = Some b" "total_len w = int (length b)" "0 < total_len w" "dl_fw_flag w = 1"
    by (auto simp: loaded_def)
  with False assms(1) obtain ret where r: "rtb_download_fwc fd b (nat (total_len w)) HCI_UART_3WIRE ?w = Inr (ret, w')" "\<not> ret < 0"
    by (auto simp: start_download_def bind_result_eq_Inr split: if_splits)
  have s: "0 < nat (total_len w)" "nat (total_len w) \<le> length b" "nat (total_len w) \<le> FWC_MAX"
    using b assms(3) by auto
  from r(1) have "ret \<le> 0"
    unfolding rtb_download_fwc_eq [OF s]
    by (auto simp: Let_def bind_result_eq_Inr split: if_splits dest: h5_send_frags_rc returnsD [OF h5_hci_reset_post])
  with r download_makes_active [OF s, of ?w fd w'] show ?thesis by simp
qed

lemma max_patch_size_bound: "max_patch_size chip \<le> int FWC_MAX"
  by (simp add: max_patch_size_def FWC_MAX_def)

lemma rtb_config_active:
  assumes "rtb_config fd HCI_UART_3WIRE speed w = Inr (0, w')"
  shows "link_estab_state w' = H5_ACTIVE \<or> chip_type w' = CHIP_8761BTC"
proof -
  from assms obtain w2 r w3 where r: "rtb_load fd HCI_UART_3WIRE w2 = Inr (r, w3)"
    "(case r of Inl rc \<Rightarrow> Inr (rc, w3)
      | Inr ent \<Rightarrow> if total_len w3 > max_patch_size (p_chip_type ent) then Inr (- 1, w3)
          else case set_h4_parity w3 of (ok, w) \<Rightarrow> if ok then finish_config fd HCI_UART_3WIRE speed w else Inr (- 1, w)) = Inr (0, w')"
    unfolding rtb_config_def rtb_identify_def by (auto simp: bind_result_eq_Inr)
  then obtain ent where ent: "r = Inr ent" using rtb_load_fail by (cases r) fastforce+
  obtain ok w4 where p: "set_h4_parity w3 = (ok, w4)" by (cases "set_h4_parity w3")
  have l: "rtb_load fd HCI_UART_3WIRE w2 = Inr (Inr ent, w3)" "total_len w3 \<le> max_patch_size (p_chip_type ent)"
    "set_h4_parity w3 = (ok, w4)" "finish_config fd HCI_UART_3WIRE speed w4 = Inr (0, w')"
    using r ent p by (auto split: if_splits)
  have "loaded w4" "total_len w4 = total_len w3"
    using rtb_load_post [OF l(1)] l(3) by (auto simp: set_h4_parity_def loaded_def split: if_splits dest!: tcsetattr_frame)
  moreover from l(4) obtain w5 where c: "change_baud fd HCI_UART_3WIRE speed w4 = Inr (True, w5)"
    "start_download fd HCI_UART_3WIRE w5 = Inr (0, w')"
    by (auto simp: finish_config_def bind_result_eq_Inr split: if_splits)
  ultimately have "loaded w5" "total_len w5 = total_len w3" using change_baud_loaded [OF c(1)] by auto
  with start_download_active [OF c(2)] l(2) max_patch_size_bound [of "p_chip_type ent"] show ?thesis by simp
qed

lemma rtb_config_rc:
  assumes "rtb_config fd HCI_UART_3WIRE speed w = Inr (rc, w')"
  shows "rc \<le> 0"
proof -
  have sd: "rc \<le> 0" if "start_download fd HCI_UART_3WIRE v = Inr (rc, w')" for v
    using that by (auto simp: start_download_def bind_result_eq_Inr split: if_splits option.splits)
  have fin: "rc \<le> 0" if "finish_config fd HCI_UART_3WIRE speed v = Inr (rc, w')" for v
    using that by (auto simp: finish_config_def bind_result_eq_Inr split: if_splits dest: sd)
  from assms obtain w2 r w3 where r: "rtb_load fd HCI_UART_3WIRE w2 = Inr (r, w3)"
    "(case r of Inl rc \<Rightarrow> Inr (rc, w3)
      | Inr ent \<Rightarrow> if total_len w3 > max_patch_size (p_chip_type ent) then Inr (- 1, w3)
          else case set_h4_parity w3 of (ok, w) \<Rightarrow> if ok then finish_config fd HCI_UART_3WIRE speed w else Inr (- 1, w)) = Inr (rc, w')"
    unfolding rtb_config_def rtb_identify_def by (auto simp: bind_result_eq_Inr)
  then show ?thesis
    by (auto dest: rtb_load_fail fin split: sum.splits if_splits prod.splits)
qed

definition ldisc_calls :: "uart_t \<Rightarrow> bool \<Rightarrow> ioctl_call list" where
  "ldisc_calls u raw = [TIOCSETD N_HCI] @ (if raw then [HCIUARTSETFLAGS 1] else []) @ [HCIUARTSETPROTO (u_proto u)]"

lemma attach_ldisc_outcome:
  "attach_ldisc os fd u raw w = (n, calls, w') \<Longrightarrow>
   w' = w \<and> map snd calls = replicate (length calls) w \<and>
   (if sys_ldisc os \<and> (raw \<longrightarrow> sys_flags os) \<and> sys_proto os
     then n = fd \<and> map fst calls = ldisc_calls u raw
     else n = - 1 \<and> calls \<noteq> [] \<and> (\<exists>rest. ldisc_calls u raw = map fst calls @ rest))"
  by (auto simp: attach_ldisc_def ldisc_calls_def realtek_post_def rtb_post_def Let_def split: if_splits)

section \<open>Properties\<close>

text \<open>Every entry of the speed table survives the translation in both directions, and the line can be set to its speed.\<close>

theorem speeds_consistent:
  "list_all (\<lambda>(r, u). vendor_speed_to_std r = u \<and> vendor_speed_to_std (std_speed_to_vendor u) = u \<and> uart_speed u = u) baudrates"
  by (simp add: baudrates_def vendor_speed_to_std_def std_speed_to_vendor_def uart_speed_def)

text \<open>The chip of this package: over three wires a controller with subversion \<open>0x8821\<close> and revision \<open>0x000c\<close> gets the RTL8821CS
  entry, although the RTL8821AS entry would match it too, with its address at offset \<open>0x0044\<close> and at most 40 KB of firmware.\<close>

theorem rtl8821cs_entry:
  "\<exists>e. get_patch_entry (w\<lparr>proto := HCI_UART_3WIRE, lmp_subver := 0x8821, hci_rev := 0x000c\<rparr>) = Inr e \<and> p_ic_name e = ''RTL8821CS'' \<and>
     p_patch_file e = ''rtl8821c_fw'' \<and> get_mac_offset (p_chip_type e) = 0x0044 \<and> max_patch_size (p_chip_type e) = 40 * 1024"
  by (simp add: get_patch_entry_def patch_table_def patch_matches_def match_defs lmp_defs get_mac_offset_def max_patch_size_def chip_defs)

text \<open>The entry of the RTL8723BS leaves its chip type at zero, which is also the code of the RTL8852BS: its address goes to offset
  \<open>0x0030\<close> instead of the default \<open>0x003c\<close>, and the size limit is that of the larger chip.\<close>

theorem chip_type_zero_is_8852bs:
  "\<exists>e. get_patch_entry (w\<lparr>proto := HCI_UART_3WIRE, lmp_subver := 0x8723, hci_ver := 6, hci_rev := 0x000b\<rparr>) = Inr e \<and>
     p_ic_name e = ''RTL8723BS'' \<and> get_mac_offset (p_chip_type e) = 0x0030 \<and> get_mac_offset CHIP_8723BS = 0x003c \<and>
     max_patch_size (p_chip_type e) = max_patch_size CHIP_8852BS"
  by (simp add: get_patch_entry_def patch_table_def patch_matches_def match_defs lmp_defs get_mac_offset_def max_patch_size_def chip_defs)

text \<open>(C28) A successful attach of an H5 controller sets the line discipline, the flags if asked for, and the protocol, in this order,
  and each of these calls is made in a state in which the download has ended with a completed reset and an active link; the exception
  is a chip of type \<open>CHIP_8761BTC\<close>, which the tool never downloads to. The descriptor returned is the one of the opened line.\<close>

theorem init_uart_active:
  assumes "init_uart os u raw w = Inr (n, calls, w')" "0 \<le> n" "u_realtek u" "u_proto u = HCI_UART_3WIRE"
  shows "map fst calls = ldisc_calls u raw \<and>
    list_all (\<lambda>v. link_estab_state v = H5_ACTIVE \<or> chip_type v = CHIP_8761BTC) (map snd calls) \<and>
    (link_estab_state w' = H5_ACTIVE \<or> chip_type w' = CHIP_8761BTC) \<and> n = sys_open os"
proof -
  from assms obtain v rc v' where i: "rtb_init os (sys_open os) HCI_UART_3WIRE (u_speed u) v = Inr (rc, v')" "\<not> rc < 0"
    "attach_ldisc os (sys_open os) u raw v' = (n, calls, w')"
    by (auto simp: init_uart_def realtek_init_def Let_def bind_result_eq_Inr split: if_splits option.splits prod.splits)
  from i(1,2) obtain v1 v2 where c: "rtb_config (sys_open os) HCI_UART_3WIRE (u_speed u) v1 = Inr (rc, v2)" "v' = v2\<lparr>timerfd := - 1\<rparr>"
    by (auto simp: rtb_init_def Let_def bind_result_eq_Inr split: if_splits)
  with rtb_config_rc [OF c(1)] i(2) have "rc = 0" by simp
  with rtb_config_active c have "link_estab_state v' = H5_ACTIVE \<or> chip_type v' = CHIP_8761BTC" by auto
  with attach_ldisc_outcome [OF i(3)] assms(2) show ?thesis
    by (cases "sys_ldisc os \<and> (raw \<longrightarrow> sys_flags os) \<and> sys_proto os") (simp_all add: list_all_iff)
qed

end
