(* ===== verification/Attach_Run.thy ===== *)
theory Attach_Run
  imports Attach_Props
begin

text \<open>
  A complete run of the attach tool on concrete bytes: a controller answers the link establishment, the three version commands, four
  fragments and the reset; the firmware file is the small one of the previous theories. The run is evaluated stage by stage and shows that
  the hypotheses of the end-to-end property can be met.
\<close>

section \<open>The script of the controller\<close>

definition att_files :: "string \<Rightarrow> file_ret" where
  "att_files f = (if f = ''/lib/firmware/rtlbt/rtl8821c_fw'' then FFile (Some 62) (Some table_fw) else FOpenFail)"

definition att_dl :: "ep_ret list" where
  "att_dl =
     [EpEvents [EvSerial [0xc0, 0x00, 0x74, 0x00, 0x8b, 0x0e, 0x05, 0x01, 0x20, 0xfc, 0x00, 0x00, 0xc0]],
      EpEvents [EvSerial [0xc0, 0x00, 0x74, 0x00, 0x8b, 0x0e, 0x05, 0x01, 0x20, 0xfc, 0x00, 0x01, 0xc0]],
      EpEvents [EvSerial [0xc0, 0x00, 0x74, 0x00, 0x8b, 0x0e, 0x05, 0x01, 0x20, 0xfc, 0x00, 0x02, 0xc0]],
      EpEvents [EvSerial [0xc0, 0x00, 0x74, 0x00, 0x8b, 0x0e, 0x05, 0x01, 0x20, 0xfc, 0x00, 0x83, 0xc0]],
      EpEvents [EvSerial [0xc0, 0x00, 0x64, 0x00, 0x9b, 0x0e, 0x04, 0x01, 0x03, 0x0c, 0x00, 0xc0]]]"

definition att_id :: "ep_ret list" where
  "att_id =
     [EpEvents [EvSerial [0xc0, 0x00, 0x84, 0x00, 0x7b, 0x0e, 0x06, 0x01, 0x61, 0xfc, 0x00, 0x21, 0x88, 0xc0]],
      EpEvents [EvSerial [0xc0, 0x00, 0xe4, 0x00, 0x1b, 0x0e, 0x0c, 0x01, 0x01, 0x10, 0x00, 0x08, 0x0c, 0x00, 0x08, 0x5d, 0x00, 0x21, 0x88, 0xc0]],
      EpEvents [EvSerial [0xc0, 0x00, 0x74, 0x00, 0x8b, 0x0e, 0x05, 0x01, 0x6d, 0xfc, 0x00, 0x00, 0xc0]]]"

definition att_link :: "ep_ret list" where
  "att_link = [EpEvents [EvSerial [0xc0, 0x00, 0x2f, 0x00, 0xd0, 0x02, 0x7d, 0xc0]],
     EpEvents [EvSerial [0xc0, 0x00, 0x3f, 0x00, 0xdb, 0xdc, 0x04, 0x7b, 0x04, 0xc0]]]"

definition att_line :: termios where "att_line = termios_raw\<lparr>t_ospeed := 115200, t_ispeed := 115200\<rparr>"

definition att_world :: world where
  "att_world = rtb_zero\<lparr>tio := att_line, tio_applied := att_line, serial_fd := 3, dl_fw_flag := 1, epollfd := 5, timerfd := 6, files := att_files, polls := att_link @ att_id @ att_dl\<rparr>"

section \<open>The stages\<close>

definition att_tio :: termios where "att_tio = att_line\<lparr>t_parenb := True\<rparr>"

definition att_w1 :: world where
  "att_w1 = att_world\<lparr>link_estab_state := H5_INIT, tio := att_tio, tio_applied := att_tio, rx_state := H5_W4_PKT_START,
     polls := att_id @ att_dl\<rparr>"

lemma att_link: "\<exists>l c. rtb_init_h5 3 att_world = Inr (0, att_w1\<lparr>wlog := l, message_crc := c\<rparr>)"
  by (simp add: att_world_def att_w1_def att_tio_def att_line_def termios_raw_def att_link_def rtb_zero_def rtb_init_h5_def link_pkt_defs h5_handle_internal_rx_def rtb_send_ack_def log_write_def h5_eval xfer_eval_defs)

definition att_w2 :: world where
  "att_w2 = att_w1\<lparr>lmp_subver := 0x8821, hci_rev := 0x000c, hci_ver := 8, eversion := 0, num_of_cmd_sent := 3, msgq_txseq := 3,
     proto := HCI_UART_3WIRE, cmd_state := \<lparr>cs_opcode = HCI_VENDOR_READ_ROM_VER, cs_subopcode = READ_LMP_SUB_VERSION, cs_state = CMD_STATE_SUCCESS\<rparr>, polls := att_dl\<rparr>"

lemma att_identify:
  "\<exists>l c. rtb_identify 3 HCI_UART_3WIRE (att_w1\<lparr>wlog := l0, message_crc := c0, proto := HCI_UART_3WIRE\<rparr>) = Inr (GoOn, att_w2\<lparr>wlog := l, message_crc := c\<rparr>)"
  by (simp add: att_world_def att_w1_def att_w2_def att_tio_def att_line_def termios_raw_def att_id_def rtb_zero_def rtb_identify_def check_fw_chip_ver_def
      rtb_vendor_read_def vendor_read_cmd_def rtb_read_local_version_def rtb_read_eversion_def read_class_defs
      h5_init_hci_cc_def h5_init_cc_fields_def h5_eval xfer_eval_defs)


lemma table_fw_seg: "seg table_fw (uint (42 :: u32)) (replicate 8 0xd0 @ [0xd1, 0xd2, 0xd3, 0xd4])"
  using segI [of 42 "RTK_EPATCH_SIGNATURE @ [1, 2, 3, 4] @ le16_bytes 2 @ le16_bytes 2 @ le16_bytes 1 @ le16_bytes 12 @
      le16_bytes 12 @ le32_bytes 30 @ le32_bytes 42 @ replicate 12 0xee" "replicate 8 0xd0 @ [0xd1, 0xd2, 0xd3, 0xd4]"
      "rev (ext_back wit_ext) @ Extension_Section_SIGNATURE"]
  by (simp add: table_fw_def fw_table_def length_signature)

lemma length_table_fw: "length table_fw = 62"
  by (simp add: table_fw_def fw_table_def length_signature ext_back_def wit_ext_def)

lemma table_fw_final:
  assumes "fw_buf w = Some table_fw" "fw_len w = 62" "eversion w = 0" "lmp_subver w = ROM_LMP_8821a" "config_buf w = None" "config_len w = 0"
    "mallocs w = []"
  shows "rtb_get_final_patch fd HCI_UART_3WIRE w = Inr ((Some (replicate 8 0xd0 @ [1, 2, 3, 4]), 12), w\<lparr>dl_fw_flag := 1\<rparr>)"
proof -
  let ?body = "replicate 12 0xee @ replicate 8 0xd0 @ [0xd1, 0xd2, 0xd3, 0xd4]"
  let ?mid = "[1, 2, 3, 4] @ le16_bytes 2 @ le16_bytes 2 @ le16_bytes 1 @ le16_bytes 12 @ le16_bytes 12 @ le32_bytes 30 @ le32_bytes 42 @ ?body"
  have f: "fw_loaded table_fw w" "table_fw = RTK_EPATCH_SIGNATURE @ ?mid @ rev (ext_back wit_ext) @ Extension_Section_SIGNATURE"
    "ext_ok wit_ext" "project_ok (first_project wit_ext) w = Inr True" "HCI_UART_3WIRE = HCI_UART_3WIRE \<longrightarrow> lmp_subver w \<noteq> ROM_LMP_8723a"
    using assms by (simp_all add: fw_loaded_def length_table_fw table_fw_def fw_table_def wit_ext_def ext_ok_def project_ok_def project_id_def lmp_defs length_signature ext_back_def)
  have "RTK_EPATCH_SIGNATURE \<noteq> RTK_EPATCH_SIGNATURE_NEW" by (simp add: signature_defs)
  then have "rtb_get_final_patch fd HCI_UART_3WIRE w = final_table table_fw w"
    using final_patch_dispatch [OF f(1,2,3) _ f(4,5)] by simp
  also have "\<dots> = Inr ((Some (replicate 8 0xd0 @ [1, 2, 3, 4]), 12), (allocs 2 w)\<lparr>dl_fw_flag := 1\<rparr>)"
    using final_table_ok [of table_fw "[1, 2, 3, 4]" "[(2, 12, 30), (1, 12, 42)]" ?body wit_ext w "[]" 1 12 42
        "replicate 8 0xd0 @ [0xd1, 0xd2, 0xd3, 0xd4]"] table_fw_seg assms
    by (simp add: table_fw_def has_config_def alloc_ok_def row_matches_def)
  also have "allocs 2 w = w" using assms(7) by (simp add: allocs_def)
  finally show ?thesis .
qed

definition att_ent :: patch_info where
  "att_ent = pinfo RTL_FW_MATCH_HCI_REV CHIP_8821CS ROM_LMP_8821a ROM_LMP_8821a 0 0x000c ''rtl8821c_fw'' ''rtl8821c_config'' ''RTL8821CS''"

definition att_buf :: "byte list" where
  "att_buf = [0xd0, 0xd0, 0xd0, 0xd0, 0xd0, 0xd0, 0xd0, 0xd0, 1, 2, 3, 4]"

definition att_w3 :: world where
  "att_w3 = att_w2\<lparr>patch_ent := Some att_ent, total_buf := Some att_buf, total_len := 12\<rparr>"

lemma att_entry: "get_patch_entry (att_w2\<lparr>wlog := l, message_crc := c\<rparr>) = Inr att_ent"
  by (simp add: get_patch_entry_def patch_table_def patch_matches_def match_defs lmp_defs att_w2_def att_ent_def chip_defs)

lemma att_load:
  "rtb_load 3 HCI_UART_3WIRE (att_w2\<lparr>wlog := l, message_crc := c\<rparr>) = Inr (Inr att_ent, att_w3\<lparr>wlog := l, message_crc := c\<rparr>)"
proof -
  let ?w = "att_w2\<lparr>wlog := l, message_crc := c, patch_ent := Some att_ent\<rparr>"
  have cfg: "rtb_read_config (p_config_file att_ent) (p_chip_type att_ent) ?w = Inr ((None, 0), ?w)"
    by (simp add: rtb_read_config_def read_bdaddr_def parse_extra_config_def read_file_def next_malloc_def att_w2_def att_w1_def
        att_world_def att_files_def rtb_zero_def EXTRA_CONFIG_FILE_def BT_ADDR_FILE_def BT_CONFIG_DIRECTORY_def att_ent_def)
  have fw: "rtb_read_firmware (?w\<lparr>config_buf := None, config_len := 0\<rparr>) = Inr ((Some table_fw, 62), ?w\<lparr>config_buf := None, config_len := 0\<rparr>)"
    by (simp add: rtb_read_firmware_def read_file_def next_malloc_def att_w2_def att_w1_def
        att_world_def att_files_def rtb_zero_def FIRMWARE_DIRECTORY_def att_ent_def length_table_fw)
  have "rtb_get_final_patch 3 HCI_UART_3WIRE (?w\<lparr>config_buf := None, config_len := 0, fw_buf := Some table_fw, fw_len := 62\<rparr>) =
      Inr ((Some (replicate 8 0xd0 @ [1, 2, 3, 4]), 12), ?w\<lparr>config_buf := None, config_len := 0, fw_buf := Some table_fw, fw_len := 62, dl_fw_flag := 1\<rparr>)"
    using table_fw_final [of "?w\<lparr>config_buf := None, config_len := 0, fw_buf := Some table_fw, fw_len := 62\<rparr>"]
    by (simp add: att_w2_def att_w1_def att_world_def rtb_zero_def lmp_defs)
  with cfg fw show ?thesis
    by (simp add: rtb_load_def att_entry Let_def att_w3_def att_buf_def)
       (simp add: att_w2_def att_w1_def att_world_def rtb_zero_def numeral_eq_Suc)
qed

lemma att_download:
  "\<exists>w'. start_download 3 HCI_UART_3WIRE (att_w3\<lparr>wlog := l, message_crc := c, vendor_baud := b\<rparr>) = Inr (0, w')"
proof -
  let ?w = "att_w3\<lparr>wlog := l, message_crc := c, vendor_baud := b, link_estab_state := H5_PATCH, rx_index := - 1\<rparr>"
  have plan: "frag_plan (take 12 att_buf) 3 = [(0, att_buf), (1, []), (2, []), (0x83, [])]"
    by (simp add: frag_plan_def frags_of.simps frag_index_def PATCH_DATA_FIELD_MAX_SIZE_def att_buf_def upt_rec)
  have e: "fwc_end_idx 12 = 0" "fwc_add_pkts HCI_UART_3WIRE (num_of_cmd_sent ?w) 0 = 3"
    by (simp_all add: fwc_end_idx_def PATCH_DATA_FIELD_MAX_SIZE_def fwc_add_pkts_def att_w3_def att_w2_def Let_def)
  have "\<exists>w'. bind_result (h5_send_frags 3 [(0, att_buf), (1, []), (2, []), (0x83, [])] (?w\<lparr>total_num := 3\<rparr>))
      (\<lambda>(rc, w). if rc < 0 then Inr (rc, w) else h5_hci_reset 3 w) = Inr (0, w')"
    by (simp add: att_w3_def att_w2_def att_w1_def att_world_def att_buf_def att_dl_def rtb_zero_def h5_eval xfer_eval_defs)
  then have "\<exists>w'. rtb_download_fwc 3 att_buf 12 HCI_UART_3WIRE ?w = Inr (0, w')"
    using e plan
    by (subst rtb_download_fwc_eq) (simp_all add: FWC_MAX_def att_buf_def [THEN arg_cong [where f = length]] Let_def)
  then show ?thesis
    by (auto simp: start_download_def att_w3_def att_w2_def att_w1_def att_world_def rtb_zero_def chip_defs)
qed


definition att_sys :: sys where
  "att_sys = \<lparr>sys_epoll = 5, sys_ctl = (True, True), sys_timer = 6, sys_open = 3, sys_tcget = Some termios_raw, sys_ldisc = True,
     sys_flags = True, sys_proto = True\<rparr>"

definition att_uart :: uart_t where "att_uart = uart ! 2"

lemma att_start:
  "sys_open att_sys = 3" "sys_tcget att_sys = Some termios_raw"
  "tcsetattr (rtb_zero\<lparr>files := f, polls := p, tio := termios_raw\<lparr>t_raw := True, t_parenb := False, t_clocal := True, t_crtscts := False\<rparr>\<rparr>) =
     (True, rtb_zero\<lparr>files := f, polls := p\<rparr>)"
  "set_speed 115200 (rtb_zero\<lparr>files := f, polls := p\<rparr>) = (0, rtb_zero\<lparr>files := f, polls := p, tio := att_line, tio_applied := att_line\<rparr>)"
  "attach_ldisc att_sys 3 u False w = (3, map (\<lambda>c. (c, w)) (ldisc_calls u False), w)"
  by (simp_all add: att_sys_def tcsetattr_def rtb_zero_def termios_raw_def set_speed_def uart_speed_def att_line_def attach_ldisc_def
      ldisc_calls_def realtek_post_def rtb_post_def Let_def)

lemma att_run:
  "\<exists>w'. init_uart att_sys att_uart False (rtb_zero\<lparr>files := att_files, polls := att_link @ att_id @ att_dl\<rparr>) =
     Inr (3, map (\<lambda>c. (c, w')) (ldisc_calls att_uart False), w')"
proof -
  obtain l c where 1: "rtb_init_h5 3 att_world = Inr (0, att_w1\<lparr>wlog := l, message_crc := c\<rparr>)" using att_link by blast
  obtain l' c' where 2: "rtb_identify 3 HCI_UART_3WIRE (att_w1\<lparr>wlog := l, message_crc := c, proto := HCI_UART_3WIRE\<rparr>) =
      Inr (GoOn, att_w2\<lparr>wlog := l', message_crc := c'\<rparr>)" using att_identify by blast
  have 3: "rtb_read_chip_type 3 HCI_UART_3WIRE (att_w2\<lparr>wlog := l', message_crc := c'\<rparr>) = Inr (att_w2\<lparr>wlog := l', message_crc := c'\<rparr>)"
    by (simp add: rtb_read_chip_type_def att_w2_def att_w1_def att_world_def rtb_zero_def lmp_defs chip_defs)
  obtain w' where 4: "start_download 3 HCI_UART_3WIRE (att_w3\<lparr>wlog := l', message_crc := c', vendor_baud := std_speed_to_vendor 115200\<rparr>) = Inr (0, w')"
    using att_download by blast
  have 5: "rtb_config 3 HCI_UART_3WIRE 115200 (att_w1\<lparr>wlog := l, message_crc := c\<rparr>) = Inr (0, w')"
    using 2 3 4 att_load
    by (simp add: rtb_config_def finish_config_def change_baud_def set_h4_parity_def)
       (simp add: att_w3_def att_ent_def max_patch_size_def chip_defs att_w2_def att_w1_def att_world_def rtb_zero_def)
  let ?v = "rtb_zero\<lparr>files := att_files, polls := att_link @ att_id @ att_dl, tio := att_line, tio_applied := att_line\<rparr>"
  have "(rtb_clear ?v)\<lparr>serial_fd := 3, dl_fw_flag := 1, epollfd := 5, timerfd := 6\<rparr> = att_world"
    by (simp add: rtb_clear_def att_world_def rtb_zero_def)
  with 1 5 have "rtb_init att_sys 3 HCI_UART_3WIRE 115200 ?v = Inr (0, w'\<lparr>timerfd := - 1\<rparr>)"
    by (simp add: rtb_init_def att_sys_def Let_def) (simp add: att_world_def)
  then show ?thesis
    using att_start
    by (simp add: init_uart_def Let_def att_uart_def uart_def realtek_init_def)
qed

theorem init_uart_active_witness:
  "\<exists>w'. init_uart att_sys att_uart False (rtb_zero\<lparr>files := att_files, polls := att_link @ att_id @ att_dl\<rparr>) =
     Inr (3, map (\<lambda>c. (c, w')) (ldisc_calls att_uart False), w') \<and>
    list_all (\<lambda>v. link_estab_state v = H5_ACTIVE \<or> chip_type v = CHIP_8761BTC) (map snd (map (\<lambda>c. (c, w')) (ldisc_calls att_uart False)))"
proof -
  obtain w' where r: "init_uart att_sys att_uart False (rtb_zero\<lparr>files := att_files, polls := att_link @ att_id @ att_dl\<rparr>) =
      Inr (3, map (\<lambda>c. (c, w')) (ldisc_calls att_uart False), w')" using att_run by blast
  moreover have "u_realtek att_uart" "u_proto att_uart = HCI_UART_3WIRE" by (simp_all add: att_uart_def uart_def)
  ultimately show ?thesis using init_uart_active [OF r] r by auto
qed

end
