(* ===== verification/Attach_Main.thy ===== *)
theory Attach_Main
  imports Attach_Run
begin

text \<open>
  The program around the attach: options and operands, the rounds of attaching, waiting for the end of the
  line and recovering (\<open>main\<close> and \<open>reset_bluetooth\<close> of \<open>rtk_hciattach/hciattach.c\<close>). What \<open>getopt\<close> yields is an
  input: the options with their arguments (a question mark for one it does not know) and the operands.
\<close>

section \<open>Options\<close>

record main_opts =
  mo_detach :: bool
  mo_printpid :: bool
  mo_raw :: bool
  mo_break :: bool
  mo_to :: int
  mo_init_speed :: int

definition main_opts_zero :: main_opts where
  "main_opts_zero = \<lparr>mo_detach = True, mo_printpid = False, mo_raw = False, mo_break = False, mo_to = 10, mo_init_speed = 0\<rparr>"

text \<open>Numbers that do not fit are outside of what \<open>atoi\<close> defines; the model has unbounded numbers.\<close>

fun digits_value :: "int \<Rightarrow> string \<Rightarrow> int" where
  "digits_value acc [] = acc"
| "digits_value acc (c # cs) = (if c \<in> set ''0123456789'' then digits_value (acc * 10 + (of_char c - 48)) cs else acc)"

definition c_space :: "char \<Rightarrow> bool" where
  "c_space c \<longleftrightarrow> c = CHR '' '' \<or> 9 \<le> (of_char c :: nat) \<and> (of_char c :: nat) \<le> 13"

definition atoi :: "string \<Rightarrow> int" where
  "atoi s =
     (case dropWhile c_space s of [] \<Rightarrow> 0
      | c # cs \<Rightarrow> if c = CHR ''-'' then - digits_value 0 cs else if c = CHR ''+'' then digits_value 0 cs else digits_value 0 (c # cs))"

text \<open>The loop over the options; \<open>Inl\<close> the exit status.\<close>

fun main_options :: "(char \<times> string) list \<Rightarrow> main_opts \<Rightarrow> int + main_opts" where
  "main_options [] mo = Inr mo"
| "main_options ((opt, optarg) # opts) mo =
     (if opt = CHR ''b'' then main_options opts (mo\<lparr>mo_break := True\<rparr>)
      else if opt = CHR ''n'' then main_options opts (mo\<lparr>mo_detach := False\<rparr>)
      else if opt = CHR ''p'' then main_options opts (mo\<lparr>mo_printpid := True\<rparr>)
      else if opt = CHR ''t'' then main_options opts (mo\<lparr>mo_to := atoi optarg\<rparr>)
      else if opt = CHR ''s'' then main_options opts (mo\<lparr>mo_init_speed := atoi optarg\<rparr>)
      else if opt = CHR ''l'' then Inl 0
      else if opt = CHR ''r'' then main_options opts (mo\<lparr>mo_raw := True\<rparr>)
      else Inl 1)"

section \<open>Operands\<close>

definition PATH_MAX :: nat where "PATH_MAX = 4096"
definition ENABLE_PM :: int where "ENABLE_PM = 1"
definition DISABLE_PM :: int where "DISABLE_PM = 0"

definition dev_path :: "string \<Rightarrow> string option" where
  "dev_path opt =
     (let dev = (if CHR ''/'' \<notin> set opt then ''/dev/'' else []) in
      if length opt > PATH_MAX - (length dev + 1) then None else Some (dev @ opt))"

text \<open>
  The conversion \<open>%x\<close>, and \<open>sscanf\<close> with the format \<open>"%x,%x"\<close>; a number that is not converted keeps the
  contents of its variable.
\<close>

definition xdigit_value :: "char \<Rightarrow> int option" where
  "xdigit_value c =
     (let v = of_char c :: int in
      if 48 \<le> v \<and> v \<le> 57 then Some (v - 48) else if 65 \<le> v \<and> v \<le> 70 then Some (v - 55)
      else if 97 \<le> v \<and> v \<le> 102 then Some (v - 87) else None)"

fun xdigits_value :: "int \<Rightarrow> string \<Rightarrow> int \<times> string" where
  "xdigits_value acc [] = (acc, [])"
| "xdigits_value acc (c # cs) = (case xdigit_value c of None \<Rightarrow> (acc, c # cs) | Some d \<Rightarrow> xdigits_value (acc * 16 + d) cs)"

definition scan_x :: "string \<Rightarrow> (int \<times> string) option" where
  "scan_x s =
     (let s = dropWhile c_space s;
          neg = (s \<noteq> [] \<and> hd s = CHR ''-'');
          s = (if s \<noteq> [] \<and> (hd s = CHR ''-'' \<or> hd s = CHR ''+'') then tl s else s);
          s = (if 2 < length s \<and> hd s = CHR ''0'' \<and> (s ! 1 = CHR ''x'' \<or> s ! 1 = CHR ''X'') then drop 2 s else s)
      in if s = [] \<or> xdigit_value (hd s) = None then None
         else case xdigits_value 0 s of (v, rest) \<Rightarrow> Some (if neg then - v else v, rest))"

definition sscanf_ids :: "string \<Rightarrow> int \<Rightarrow> int \<Rightarrow> int \<times> int" where
  "sscanf_ids s m_id p_id =
     (case scan_x s of None \<Rightarrow> (m_id, p_id)
      | Some (m_id, rest) \<Rightarrow>
          if rest \<noteq> [] \<and> hd rest = CHR '','' then
            (case scan_x (tl rest) of None \<Rightarrow> (m_id, p_id) | Some (p_id, _) \<Rightarrow> (m_id, p_id))
          else (m_id, p_id))"

record main_args =
  ma_dev :: string
  ma_u :: "uart_t option"
  ma_bdaddr :: "string option"

text \<open>
  The body of the loop over the operands; \<open>Inl (Some n)\<close>: the program exits, \<open>Inl None\<close>: it follows the null pointer \<open>u\<close>.
  The last two arguments are the contents of the uninitialised identifiers.
\<close>

definition set_uart :: "(uart_t \<Rightarrow> uart_t) \<Rightarrow> main_args \<Rightarrow> int option + main_args" where
  "set_uart f ma = (case ma_u ma of None \<Rightarrow> Inl None | Some u \<Rightarrow> Inr (ma\<lparr>ma_u := Some (f u)\<rparr>))"

definition main_operand :: "int \<Rightarrow> int \<Rightarrow> nat \<Rightarrow> string \<Rightarrow> main_args \<Rightarrow> int option + main_args" where
  "main_operand m0 p0 n arg ma =
     (if n = 0 then (case dev_path arg of None \<Rightarrow> Inl (Some 1) | Some dev \<Rightarrow> Inr (ma\<lparr>ma_dev := dev\<rparr>))
      else if n = 1 then
        let u = (if CHR '','' \<in> set arg then case sscanf_ids arg m0 p0 of (m_id, p_id) \<Rightarrow> get_by_id m_id p_id else get_by_type arg)
        in if u = None then Inl (Some 1) else Inr (ma\<lparr>ma_u := u\<rparr>)
      else if n = 2 then set_uart (\<lambda>u. u\<lparr>u_speed := atoi arg\<rparr>) ma
      else if n = 3 then
        set_uart (\<lambda>u. u\<lparr>u_flags := (if arg = ''flow'' then u_flags u OR FLOW_CTL else 2 * (u_flags u div 2))\<rparr>) ma
      else if n = 4 then set_uart (\<lambda>u. u\<lparr>u_pm := (if arg = ''sleep'' then ENABLE_PM else DISABLE_PM)\<rparr>) ma
      else if n = 5 then (if ma_u ma = None then Inl None else Inr (ma\<lparr>ma_bdaddr := Some arg\<rparr>))
      else Inr ma)"

fun operand_loop :: "int \<Rightarrow> int \<Rightarrow> nat \<Rightarrow> string list \<Rightarrow> main_args \<Rightarrow> int option + main_args" where
  "operand_loop m0 p0 n [] ma = Inr ma"
| "operand_loop m0 p0 n (arg # args) ma =
     (case main_operand m0 p0 n arg ma of Inl e \<Rightarrow> Inl e | Inr ma \<Rightarrow> operand_loop m0 p0 (Suc n) args ma)"

definition main_operands :: "int \<Rightarrow> int \<Rightarrow> string list \<Rightarrow> int option + main_args" where
  "main_operands m0 p0 args =
     (if length args < 2 then Inl (Some 1)
      else case operand_loop m0 p0 0 args \<lparr>ma_dev = [], ma_u = None, ma_bdaddr = None\<rparr> of Inl e \<Rightarrow> Inl e
        | Inr ma \<Rightarrow> if ma_u ma = None then Inl (Some 1) else Inr ma)"

section \<open>Rounds\<close>

text \<open>
  \<open>reset_bluetooth\<close>: what \<open>open\<close> and the two calls of \<open>write\<close> return, the result and what was written.
\<close>

definition reset_bluetooth :: "int \<Rightarrow> int \<Rightarrow> int \<Rightarrow> int \<times> string list" where
  "reset_bluetooth fd w0 w1 =
     (if fd < 0 then (- 1, [])
      else if w0 \<noteq> 2 then (- 1, [''0''])
      else if w1 \<noteq> 2 then (- 1, [''0'', ''1''])
      else (0, [''0'', ''1'']))"

definition POLLERR :: u16 where "POLLERR = 0x008"
definition POLLHUP :: u16 where "POLLHUP = 0x010"
definition N_TTY :: int where "N_TTY = 0"

text \<open>
  One call of \<open>ppoll\<close>: its result, whether the error is \<open>EINTR\<close>, the events it stores, and whether a signal
  handler set \<open>__io_canceled\<close> meanwhile.
\<close>

record ppoll_ret =
  pp_err :: int
  pp_eintr :: bool
  pp_revents :: u16
  pp_term :: bool

text \<open>What the environment does in one round.\<close>

record round =
  rd_sys :: sys
  rd_world :: world
  rd_alarm :: bool
  rd_term :: bool
  rd_fork :: int
  rd_polls :: "ppoll_ret list"
  rd_restore :: bool
  rd_rfkill :: "int \<times> int \<times> int"

text \<open>
  The state that survives a round: the device kind, the flag \<open>__io_canceled\<close>, the field \<open>p.revents\<close>, the open descriptors, the
  calls of \<open>ioctl\<close> and what was written to the radio switch.
\<close>

record main_st =
  ms_u :: uart_t
  ms_canceled :: bool
  ms_revents :: u16
  ms_fds :: "int list"
  ms_ioctls :: "ioctl_call list"
  ms_rfkill :: "string list"

text \<open>The waiting loop; \<open>None\<close>: it is still waiting after the given calls.\<close>

fun wait_loop :: "bool \<Rightarrow> u16 \<Rightarrow> ppoll_ret list \<Rightarrow> (bool \<times> u16) option" where
  "wait_loop canceled revents [] = (if canceled then Some (canceled, revents) else None)"
| "wait_loop canceled revents (p # ps) =
     (if canceled then Some (canceled, revents)
      else
        let canceled = pp_term p; revents = (if pp_err p < 0 then 0 else pp_revents p) in
        if pp_err p < 0 \<and> pp_eintr p then wait_loop canceled revents ps
        else if pp_err p \<noteq> 0 then Some (canceled, revents)
        else wait_loop canceled revents ps)"

text \<open>How a round ends: the process ends (as the parent of a fork or not), waits for ever, starts again, or faults.\<close>

datatype main_out = Ended int main_st | Parent int | Waits main_st | Again main_st | Faulted fault

definition after_wait :: "round \<Rightarrow> main_st \<Rightarrow> main_out" where
  "after_wait r ms =
     (let ms = ms\<lparr>ms_ioctls := ms_ioctls ms @ [TIOCSETD N_TTY]\<rparr> in
      if \<not> rd_restore r then Ended 1 ms
      else if ms_revents ms AND (POLLERR OR POLLHUP) \<noteq> 0 then
        case rd_rfkill r of (fd, w0, w1) \<Rightarrow> Again (ms\<lparr>ms_rfkill := ms_rfkill ms @ snd (reset_bluetooth fd w0 w1)\<rparr>)
      else Ended 0 ms)"

definition main_wait :: "main_opts \<Rightarrow> int \<Rightarrow> round \<Rightarrow> main_st \<Rightarrow> main_out" where
  "main_wait mo n r ms =
     (if mo_detach mo \<and> rd_fork r \<noteq> 0 then Parent 0
      else
        let ms = ms\<lparr>ms_fds := (if mo_detach mo then filter (\<lambda>i. \<not> (0 \<le> i \<and> i < 20) \<or> i = n) (ms_fds ms) else ms_fds ms)\<rparr>
        in case wait_loop (ms_canceled ms) (ms_revents ms) (rd_polls r) of None \<Rightarrow> Waits ms
           | Some (canceled, revents) \<Rightarrow> after_wait r (ms\<lparr>ms_canceled := canceled, ms_revents := revents\<rparr>))"

definition main_round :: "main_opts \<Rightarrow> round \<Rightarrow> main_st \<Rightarrow> main_out" where
  "main_round mo r ms =
     (let ms = (if mo_init_speed mo \<noteq> 0 then ms\<lparr>ms_u := (ms_u ms)\<lparr>u_init_speed := mo_init_speed mo\<rparr>\<rparr> else ms) in
      if rd_alarm r \<and> mo_to mo \<noteq> 0 then Ended 1 ms
      else case init_uart (rd_sys r) (ms_u ms) (mo_raw mo) (rd_world r) of Inl f \<Rightarrow> Faulted f
        | Inr (n, calls, w) \<Rightarrow>
            let ms = ms\<lparr>ms_ioctls := ms_ioctls ms @ map fst calls\<rparr> in
            if n < 0 then Ended 1 ms
            else main_wait mo n r (ms\<lparr>ms_canceled := (ms_canceled ms \<or> rd_term r), ms_fds := n # ms_fds ms\<rparr>))"

fun main_rounds :: "main_opts \<Rightarrow> round list \<Rightarrow> main_st \<Rightarrow> main_out" where
  "main_rounds mo [] ms = Again ms"
| "main_rounds mo (r # rs) ms = (case main_round mo r ms of Again ms \<Rightarrow> main_rounds mo rs ms | out \<Rightarrow> out)"

text \<open>The whole program; \<open>rev0\<close> is what the uninitialised \<open>p.revents\<close> contains.\<close>

definition main :: "(char \<times> string) list \<Rightarrow> string list \<Rightarrow> int \<Rightarrow> int \<Rightarrow> u16 \<Rightarrow> round list \<Rightarrow> main_out" where
  "main opts args m0 p0 rev0 rs =
     (let ms0 = (\<lambda>u. \<lparr>ms_u = u, ms_canceled = False, ms_revents = rev0, ms_fds = [], ms_ioctls = [], ms_rfkill = []\<rparr>);
          none = ms0 (hd uart) in
      case main_options opts main_opts_zero of Inl rc \<Rightarrow> Ended rc none
      | Inr mo \<Rightarrow>
          (case main_operands m0 p0 args of Inl None \<Rightarrow> Faulted NullDeref
           | Inl (Some rc) \<Rightarrow> Ended rc none
           | Inr ma \<Rightarrow> main_rounds mo rs (ms0 (the (ma_u ma)))))"

section \<open>Operands are well-formed\<close>

definition uart_kind :: "uart_t \<Rightarrow> bool" where
  "uart_kind u \<longleftrightarrow> u_flags u < 2 \<and>
     (\<exists>v \<in> set uart. u_type u = u_type v \<and> u_m_id u = u_m_id v \<and> u_p_id u = u_p_id v \<and> u_proto u = u_proto v \<and> u_realtek u = u_realtek v)"

definition args_ok :: "nat \<Rightarrow> main_args \<Rightarrow> bool" where
  "args_ok n ma \<longleftrightarrow> (n \<noteq> 0 \<longrightarrow> length (ma_dev ma) < PATH_MAX \<and> CHR ''/'' \<in> set (ma_dev ma)) \<and>
     (case ma_u ma of None \<Rightarrow> n < 2 | Some u \<Rightarrow> uart_kind u)"

lemma dev_path_ok: "dev_path opt = Some dev \<Longrightarrow> length dev < PATH_MAX \<and> CHR ''/'' \<in> set dev"
  by (cases "CHR ''/'' \<in> set opt") (auto simp: dev_path_def Let_def PATH_MAX_def split: if_splits)

lemma uart_kind_table: "u \<in> set uart \<Longrightarrow> uart_kind u"
  by (auto simp: uart_kind_def uart_def FLOW_CTL_def)

lemma found_kind: "get_by_id m_id p_id = Some u \<Longrightarrow> uart_kind u" "get_by_type ty = Some u \<Longrightarrow> uart_kind u"
  by (auto simp: get_by_id_def get_by_type_def find_Some_iff intro: uart_kind_table)

lemma kind_updates:
  assumes "uart_kind u"
  shows "uart_kind (u\<lparr>u_speed := x\<rparr>)" "uart_kind (u\<lparr>u_pm := y\<rparr>)" "f < 2 \<Longrightarrow> uart_kind (u\<lparr>u_flags := f\<rparr>)"
  using assms by (simp_all add: uart_kind_def)

lemma flags_kind: "n < 2 \<Longrightarrow> n OR FLOW_CTL < 2" "n < 2 \<Longrightarrow> 2 * (n div 2) < 2" for n :: nat
  by (auto simp: FLOW_CTL_def less_2_cases_iff)

lemma set_uart_ok:
  assumes "args_ok n ma" "2 \<le> n" "\<And>u. uart_kind u \<Longrightarrow> uart_kind (f u)"
  shows "\<exists>ma'. set_uart f ma = Inr ma' \<and> args_ok (Suc n) ma'"
  using assms by (cases "ma_u ma") (auto simp: set_uart_def args_ok_def)

lemma operand_ok:
  assumes "args_ok n ma" "ma_u ma = None \<longleftrightarrow> n < 2"
  shows "case main_operand m0 p0 n arg ma of Inl e \<Rightarrow> e = Some 1 | Inr ma' \<Rightarrow> args_ok (Suc n) ma' \<and> (ma_u ma' = None \<longleftrightarrow> Suc n < 2)"
proof -
  consider "n = 0" | "n = 1" | "2 \<le> n" by linarith
  then show ?thesis
  proof cases
    case 1
    with assms dev_path_ok [of arg] show ?thesis by (auto simp: main_operand_def args_ok_def split: option.split)
  next
    case 2
    with assms found_kind show ?thesis by (auto simp: main_operand_def args_ok_def Let_def split: prod.split)
  next
    case 3
    then obtain u where u: "ma_u ma = Some u" using assms(2) by auto
    with assms(1) 3 have "uart_kind u" "length (ma_dev ma) < PATH_MAX" "CHR ''/'' \<in> set (ma_dev ma)" by (auto simp: args_ok_def)
    with 3 u kind_updates [of u] flags_kind [of "u_flags u"] show ?thesis
      by (auto simp: main_operand_def set_uart_def args_ok_def uart_kind_def)
  qed
qed

lemma operand_loop_ok:
  assumes "args_ok n ma" "ma_u ma = None \<longleftrightarrow> n < 2"
  shows "case operand_loop m0 p0 n args ma of Inl e \<Rightarrow> e = Some 1
    | Inr ma' \<Rightarrow> args_ok (n + length args) ma' \<and> (ma_u ma' = None \<longleftrightarrow> n + length args < 2)"
  using assms
proof (induction args arbitrary: n ma)
  case (Cons arg args)
  note step = operand_ok [OF Cons.prems, of m0 p0 arg]
  show ?case
  proof (cases "main_operand m0 p0 n arg ma")
    case (Inr ma1)
    with step have "args_ok (Suc n) ma1" "ma_u ma1 = None \<longleftrightarrow> Suc n < 2" by simp_all
    from Cons.IH [OF this] show ?thesis by (simp add: Inr split: sum.splits)
  qed (use step in simp)
qed simp

text \<open>(C35) The operands are rejected with status 1 or yield a device path that fits its buffer and names a directory, and one of the
  known kinds of device, of which only speed, flow control and power management were changed. The null pointer is never followed.\<close>

theorem main_operands_typed:
  "case main_operands m0 p0 args of Inl e \<Rightarrow> e = Some 1
   | Inr ma \<Rightarrow> length (ma_dev ma) < PATH_MAX \<and> CHR ''/'' \<in> set (ma_dev ma) \<and> (\<exists>u. ma_u ma = Some u \<and> uart_kind u)"
proof (cases "length args < 2")
  case False
  have "args_ok 0 \<lparr>ma_dev = [], ma_u = None, ma_bdaddr = None\<rparr>" by (simp add: args_ok_def)
  from operand_loop_ok [OF this, where args = args and ?m0.0 = m0 and ?p0.0 = p0] False show ?thesis
    by (auto simp: main_operands_def args_ok_def split: sum.splits option.splits)
qed (simp add: main_operands_def)

section \<open>Rounds end with the line restored\<close>

lemma init_uart_calls: "init_uart os u raw w = Inr (n, calls, w') \<Longrightarrow> 0 \<le> n \<Longrightarrow> map fst calls = ldisc_calls u raw"
  by (auto simp: init_uart_def Let_def bind_result_eq_Inr split: if_splits option.splits prod.splits dest!: attach_ldisc_outcome)

text \<open>What a round leaves of the state: the kind of the device, and one attach with its restoration.\<close>

lemma main_round_again:
  assumes "main_round mo r ms = Again ms'"
  shows "u_proto (ms_u ms') = u_proto (ms_u ms)"
    "ms_ioctls ms' = ms_ioctls ms @ ldisc_calls (ms_u ms) (mo_raw mo) @ [TIOCSETD N_TTY]"
  using assms
  by (auto simp: main_round_def main_wait_def after_wait_def Let_def ldisc_calls_def dest!: init_uart_calls
      split: if_splits sum.splits prod.splits option.splits)

lemma main_round_ended:
  assumes "main_round mo r ms = Ended 0 ms'"
  shows "ms_ioctls ms' = ms_ioctls ms @ ldisc_calls (ms_u ms) (mo_raw mo) @ [TIOCSETD N_TTY]"
    "ms_revents ms' AND (POLLERR OR POLLHUP) = 0"
  using assms
  by (auto simp: main_round_def main_wait_def after_wait_def Let_def ldisc_calls_def dest!: init_uart_calls
      split: if_splits sum.splits prod.splits option.splits)

lemma ldisc_calls_proto: "u_proto u = u_proto v \<Longrightarrow> ldisc_calls u raw = ldisc_calls v raw"
  by (simp add: ldisc_calls_def)

lemma main_rounds_restore:
  assumes "main_rounds mo rs ms = Ended 0 ms'"
  shows "\<exists>k. ms_ioctls ms' = ms_ioctls ms @ concat (replicate (Suc k) (ldisc_calls (ms_u ms) (mo_raw mo) @ [TIOCSETD N_TTY])) \<and>
    ms_revents ms' AND (POLLERR OR POLLHUP) = 0"
  using assms
proof (induction rs arbitrary: ms)
  case (Cons r rs)
  show ?case
  proof (cases "main_round mo r ms")
    case (Ended rc ms1)
    with Cons.prems main_round_ended [of mo r ms] show ?thesis by (intro exI [of _ 0]) auto
  next
    case (Again ms1)
    note a = main_round_again [OF Again]
    from Cons.IH [of ms1] Cons.prems Again obtain k where
      "ms_ioctls ms' = ms_ioctls ms1 @ concat (replicate (Suc k) (ldisc_calls (ms_u ms1) (mo_raw mo) @ [TIOCSETD N_TTY]))"
      "ms_revents ms' AND (POLLERR OR POLLHUP) = 0" by auto
    then show ?thesis by (intro exI [of _ "Suc k"]) (simp add: a ldisc_calls_proto [OF a(1)])
  qed (use Cons.prems in simp_all)
qed simp

text \<open>(C36) When the process that waits on the line ends with status 0, the line is as it was: every attach of the line discipline was
  followed by the restoration of the terminal's, and the last wait ended without an error or hang-up of the line. The process that
  returns 0 without waiting, the parent of the detached one (and the process whose \<open>fork\<close> failed), is not covered: it restores nothing.\<close>

theorem main_restores_line:
  assumes "main opts args m0 p0 rev0 rs = Ended 0 ms'" "main_options opts main_opts_zero = Inr mo" "main_operands m0 p0 args = Inr ma"
  shows "\<exists>k. ms_ioctls ms' = concat (replicate (Suc k) (ldisc_calls (the (ma_u ma)) (mo_raw mo) @ [TIOCSETD N_TTY])) \<and>
    ms_revents ms' AND (POLLERR OR POLLHUP) = 0"
  using main_rounds_restore [of mo rs] assms by (fastforce simp: main_def Let_def)

section \<open>Ending while recovering\<close>

definition main_u :: "main_opts \<Rightarrow> uart_t \<Rightarrow> uart_t" where
  "main_u mo u = (if mo_init_speed mo \<noteq> 0 then u\<lparr>u_init_speed := mo_init_speed mo\<rparr> else u)"

text \<open>A round in which everything succeeds.\<close>

definition good_round :: "main_opts \<Rightarrow> uart_t \<Rightarrow> round \<Rightarrow> bool" where
  "good_round mo u r \<longleftrightarrow> \<not> rd_alarm r \<and> rd_restore r \<and>
     (\<exists>n calls w. 0 \<le> n \<and> init_uart (rd_sys r) (main_u mo u) (mo_raw mo) (rd_world r) = Inr (n, calls, w))"

lemma main_u_idem [simp]: "main_u mo (main_u mo u) = main_u mo u"
  by (simp add: main_u_def)

lemma good_round_u [simp]: "good_round mo (main_u mo u) r = good_round mo u r"
  by (simp add: good_round_def)

lemma wait_canceled: "wait_loop True revents ps = Some (True, revents)"
  by (cases ps) simp_all

lemma canceled_round:
  assumes "good_round mo (ms_u ms) r" "ms_canceled ms" "ms_revents ms AND (POLLERR OR POLLHUP) \<noteq> 0" "\<not> mo_detach mo"
  shows "\<exists>ms'. main_round mo r ms = Again ms' \<and> ms_u ms' = main_u mo (ms_u ms) \<and> ms_canceled ms' \<and> ms_revents ms' = ms_revents ms \<and>
    length (ms_fds ms') = Suc (length (ms_fds ms))"
proof -
  from assms(1) obtain n calls w where r: "\<not> rd_alarm r" "rd_restore r" "0 \<le> n"
    "init_uart (rd_sys r) (main_u mo (ms_u ms)) (mo_raw mo) (rd_world r) = Inr (n, calls, w)"
    by (auto simp: good_round_def)
  have u: "(if mo_init_speed mo \<noteq> 0 then ms\<lparr>ms_u := (ms_u ms)\<lparr>u_init_speed := mo_init_speed mo\<rparr>\<rparr> else ms) = ms\<lparr>ms_u := main_u mo (ms_u ms)\<rparr>"
    by (simp add: main_u_def)
  show ?thesis
    unfolding main_round_def u using r assms(2-4)
    by (cases "rd_rfkill r") (simp add: main_wait_def after_wait_def wait_canceled Let_def)
qed

text \<open>(C37) With option \<open>-n\<close>, so that the program does not detach, a termination signal that arrives while a recovery is under way does
  not end it: as long as every attach and restoration succeeds, the wait is skipped, the events that caused the recovery are still
  stored, and it recovers again and again, each time leaving a descriptor open.\<close>

theorem terminated_recovery_repeats:
  assumes "ms_canceled ms" "ms_revents ms AND (POLLERR OR POLLHUP) \<noteq> 0" "\<not> mo_detach mo" "\<forall>r \<in> set rs. good_round mo (ms_u ms) r"
  shows "\<exists>ms'. main_rounds mo rs ms = Again ms' \<and> ms_canceled ms' \<and> length (ms_fds ms') = length (ms_fds ms) + length rs"
  using assms
proof (induction rs arbitrary: ms)
  case (Cons r rs)
  then obtain ms1 where "main_round mo r ms = Again ms1" "ms_u ms1 = main_u mo (ms_u ms)" "ms_canceled ms1"
      "ms_revents ms1 = ms_revents ms" "length (ms_fds ms1) = Suc (length (ms_fds ms))"
    using canceled_round [of mo ms r] by auto
  with Cons.IH [of ms1] Cons.prems show ?case by auto
qed simp

section \<open>Examples\<close>

definition ex_round :: "ppoll_ret list \<Rightarrow> round" where
  "ex_round ps = \<lparr>rd_sys = att_sys, rd_world = rtb_zero\<lparr>files := att_files, polls := att_link @ att_id @ att_dl\<rparr>, rd_alarm = False,
     rd_term = False, rd_fork = 0, rd_polls = ps, rd_restore = True, rd_rfkill = (4, 2, 2)\<rparr>"

definition ex_hup :: ppoll_ret where "ex_hup = \<lparr>pp_err = 1, pp_eintr = False, pp_revents = POLLHUP, pp_term = False\<rparr>"
definition ex_term :: ppoll_ret where "ex_term = \<lparr>pp_err = - 1, pp_eintr = True, pp_revents = 0, pp_term = True\<rparr>"

definition ex_mo :: main_opts where "ex_mo = main_opts_zero\<lparr>mo_detach := False\<rparr>"

lemma ex_round_good: "good_round ex_mo att_uart (ex_round ps)"
  using att_run by (auto simp: good_round_def main_u_def ex_mo_def main_opts_zero_def ex_round_def intro!: exI [of _ 3])

theorem terminated_recovery_repeats_witness:
  "\<exists>ms'. main_rounds ex_mo (replicate 5 (ex_round [ex_hup])) \<lparr>ms_u = att_uart, ms_canceled = True, ms_revents = POLLHUP, ms_fds = [3],
      ms_ioctls = [], ms_rfkill = []\<rparr> = Again ms' \<and> ms_canceled ms' \<and> length (ms_fds ms') = 6"
  using terminated_recovery_repeats [of "\<lparr>ms_u = att_uart, ms_canceled = True, ms_revents = POLLHUP, ms_fds = [3], ms_ioctls = [], ms_rfkill = []\<rparr>"
      ex_mo "replicate 5 (ex_round [ex_hup])"] ex_round_good
  by (simp add: POLLHUP_def POLLERR_def ex_mo_def main_opts_zero_def)

text \<open>A hang-up and a recovery, then a signal.\<close>

lemma ex_main_run:
  "\<exists>ms'. main [(CHR ''n'', [])] [''ttyS1'', ''rtk_h5''] 0 0 0 [ex_round [ex_hup], ex_round [ex_term]] = Ended 0 ms'"
  using att_run
  by (auto simp: main_def main_operands_def main_operand_def dev_path_def PATH_MAX_def get_by_type_def uart_def main_opts_zero_def Let_def
      main_round_def main_wait_def after_wait_def ex_round_def ex_hup_def ex_term_def POLLHUP_def POLLERR_def att_uart_def)

theorem main_restores_line_witness:
  "\<exists>ms' k. main [(CHR ''n'', [])] [''ttyS1'', ''rtk_h5''] 0 0 0 [ex_round [ex_hup], ex_round [ex_term]] = Ended 0 ms' \<and>
    ms_ioctls ms' = concat (replicate (Suc k) (ldisc_calls att_uart False @ [TIOCSETD N_TTY])) \<and> ms_revents ms' AND (POLLERR OR POLLHUP) = 0"
proof -
  obtain ms' where r: "main [(CHR ''n'', [])] [''ttyS1'', ''rtk_h5''] 0 0 0 [ex_round [ex_hup], ex_round [ex_term]] = Ended 0 ms'"
    using ex_main_run by blast
  have mo: "main_options [(CHR ''n'', [])] main_opts_zero = Inr ex_mo" by (simp add: ex_mo_def)
  have ma: "main_operands 0 0 [''ttyS1'', ''rtk_h5''] = Inr \<lparr>ma_dev = ''/dev/ttyS1'', ma_u = Some att_uart, ma_bdaddr = None\<rparr>"
    by (simp add: main_operands_def main_operand_def dev_path_def PATH_MAX_def get_by_type_def uart_def att_uart_def Let_def)
  from main_restores_line [OF r mo ma] r show ?thesis by (simp add: ex_mo_def main_opts_zero_def)
qed

end
