(* ===== verification/List_Head.thy ===== *)
theory List_Head
  imports Fwc_Patch
begin

text \<open>
  The circular doubly linked lists of \<open>rtk_hciattach/rtb_fwc.c\<close> in an explicit heap, and their refinement to the lists that the rest of
  the development computes with. An address that was freed is not alive any more; every access tests it.
\<close>

section \<open>The heap\<close>

record heap =
  hp_next :: "nat \<Rightarrow> nat"
  hp_prev :: "nat \<Rightarrow> nat"
  hp_alive :: "nat \<Rightarrow> bool"

definition ld_next :: "nat \<Rightarrow> heap \<Rightarrow> nat result" where
  "ld_next a h = (if hp_alive h a then Inr (hp_next h a) else Inl UseAfterFree)"

definition ld_prev :: "nat \<Rightarrow> heap \<Rightarrow> nat result" where
  "ld_prev a h = (if hp_alive h a then Inr (hp_prev h a) else Inl UseAfterFree)"

definition st_next :: "nat \<Rightarrow> nat \<Rightarrow> heap \<Rightarrow> heap result" where
  "st_next a v h = (if hp_alive h a then Inr (h\<lparr>hp_next := (hp_next h)(a := v)\<rparr>) else Inl UseAfterFree)"

definition st_prev :: "nat \<Rightarrow> nat \<Rightarrow> heap \<Rightarrow> heap result" where
  "st_prev a v h = (if hp_alive h a then Inr (h\<lparr>hp_prev := (hp_prev h)(a := v)\<rparr>) else Inl UseAfterFree)"

definition free_node :: "nat \<Rightarrow> heap \<Rightarrow> heap result" where
  "free_node a h = (if hp_alive h a then Inr (h\<lparr>hp_alive := (hp_alive h)(a := False)\<rparr>) else Inl UseAfterFree)"

lemmas heap_ops = ld_next_def ld_prev_def st_next_def st_prev_def free_node_def

section \<open>Operations\<close>

definition INIT_LIST_HEAD :: "nat \<Rightarrow> heap \<Rightarrow> heap result" where
  "INIT_LIST_HEAD l h = bind_result (st_next l l h) (st_prev l l)"

definition list_empty :: "nat \<Rightarrow> heap \<Rightarrow> bool result" where
  "list_empty l h = bind_result (ld_next l h) (\<lambda>n. Inr (n = l))"

text \<open>\<open>__list_add\<close>, \<open>__list_del\<close> and \<open>__list_splice\<close>.\<close>

definition list_add_between :: "nat \<Rightarrow> nat \<Rightarrow> nat \<Rightarrow> heap \<Rightarrow> heap result" where
  "list_add_between new prev next h =
     bind_result (st_prev next new h) (\<lambda>h. bind_result (st_next new next h) (\<lambda>h.
     bind_result (st_prev new prev h) (\<lambda>h. st_next prev new h)))"

definition list_add_tail :: "nat \<Rightarrow> nat \<Rightarrow> heap \<Rightarrow> heap result" where
  "list_add_tail new l h = bind_result (ld_prev l h) (\<lambda>p. list_add_between new p l h)"

definition list_del_between :: "nat \<Rightarrow> nat \<Rightarrow> heap \<Rightarrow> heap result" where
  "list_del_between prev next h = bind_result (st_prev next prev h) (\<lambda>h. st_next prev next h)"

definition list_del_entry :: "nat \<Rightarrow> heap \<Rightarrow> heap result" where
  "list_del_entry a h = bind_result (ld_prev a h) (\<lambda>p. bind_result (ld_next a h) (\<lambda>n. list_del_between p n h))"

definition list_del_init :: "nat \<Rightarrow> heap \<Rightarrow> heap result" where
  "list_del_init a h = bind_result (list_del_entry a h) (INIT_LIST_HEAD a)"

definition LIST_POISON1 :: nat where "LIST_POISON1 = 0x00100100"
definition LIST_POISON2 :: nat where "LIST_POISON2 = 0x00200200"

definition list_del :: "nat \<Rightarrow> heap \<Rightarrow> heap result" where
  "list_del a h = bind_result (list_del_entry a h) (\<lambda>h. bind_result (st_next a LIST_POISON1 h) (st_prev a LIST_POISON2))"

definition list_splice_between :: "nat \<Rightarrow> nat \<Rightarrow> nat \<Rightarrow> heap \<Rightarrow> heap result" where
  "list_splice_between m prev next h =
     bind_result (ld_next m h) (\<lambda>first. bind_result (ld_prev m h) (\<lambda>last.
     bind_result (st_prev first prev h) (\<lambda>h. bind_result (st_next prev first h) (\<lambda>h.
     bind_result (st_next last next h) (\<lambda>h. st_prev next last h)))))"

definition list_splice_tail :: "nat \<Rightarrow> nat \<Rightarrow> heap \<Rightarrow> heap result" where
  "list_splice_tail m l h =
     bind_result (list_empty m h) (\<lambda>e. if \<not> e then bind_result (ld_prev l h) (\<lambda>p. list_splice_between m p l h) else Inr h)"

text \<open>The new node takes the place of the old one; the second and the last assignment read the pointer just written.\<close>

definition list_replace :: "nat \<Rightarrow> nat \<Rightarrow> heap \<Rightarrow> heap result" where
  "list_replace old new h =
     bind_result (ld_next old h) (\<lambda>n. bind_result (st_next new n h) (\<lambda>h.
     bind_result (ld_next new h) (\<lambda>n. bind_result (st_prev n new h) (\<lambda>h.
     bind_result (ld_prev old h) (\<lambda>p. bind_result (st_prev new p h) (\<lambda>h.
     bind_result (ld_prev new h) (\<lambda>p. st_next p new h)))))))"

definition list_replace_init :: "nat \<Rightarrow> nat \<Rightarrow> heap \<Rightarrow> heap result" where
  "list_replace_init old new h = bind_result (list_replace old new h) (INIT_LIST_HEAD old)"

text \<open>
  \<open>config_lists_free\<close>: the loop over the first list, with the next position read before the body; \<open>None\<close>: the loop does not end.
\<close>

partial_function (option) free_loop :: "nat \<Rightarrow> nat \<Rightarrow> nat \<Rightarrow> heap \<Rightarrow> heap result option" where
  "free_loop l pos n h =
     (if pos = l then Some (Inr h)
      else case bind_result (list_del pos h) (free_node pos) of Inl e \<Rightarrow> Some (Inl e)
        | Inr h \<Rightarrow> (case ld_next n h of Inl e \<Rightarrow> Some (Inl e) | Inr n' \<Rightarrow> free_loop l n n' h))"

declare free_loop.simps [code]

definition config_lists_free :: "nat \<Rightarrow> nat \<Rightarrow> heap \<Rightarrow> heap result option" where
  "config_lists_free configs extracfgs h =
     (case bind_result (list_empty extracfgs h) (\<lambda>e. if \<not> e then list_splice_tail extracfgs configs h else Inr h) of Inl e \<Rightarrow> Some (Inl e)
      | Inr h \<Rightarrow>
          (case bind_result (ld_next configs h) (\<lambda>pos. bind_result (ld_next pos h) (\<lambda>n. Inr (pos, n))) of Inl e \<Rightarrow> Some (Inl e)
           | Inr (pos, n) \<Rightarrow>
               Option.bind (free_loop configs pos n h) (\<lambda>r. Some (bind_result r (\<lambda>h.
                 bind_result (INIT_LIST_HEAD configs h) (INIT_LIST_HEAD extracfgs))))))"

text \<open>
  The search and the insertion of \<open>insert_queue_sort\<close>; \<open>d\<close> gives the contents of a node. The loop reads the next position before its
  body, as \<open>list_for_each_safe\<close> does.
\<close>

partial_function (option) sort_position :: "(nat \<Rightarrow> patch_node) \<Rightarrow> nat \<Rightarrow> byte \<Rightarrow> nat \<Rightarrow> nat \<Rightarrow> heap \<Rightarrow> nat result option" where
  "sort_position d l pri pos n h =
     (if pos = l then Some (Inr pos)
      else if pn_pri (d pos) \<ge> pri then Some (Inr pos)
      else case ld_next n h of Inl e \<Rightarrow> Some (Inl e) | Inr n' \<Rightarrow> sort_position d l pri n n' h)"

declare sort_position.simps [code]

definition insert_queue_sort_ptr :: "(nat \<Rightarrow> patch_node) \<Rightarrow> nat \<Rightarrow> nat \<Rightarrow> heap \<Rightarrow> heap result option" where
  "insert_queue_sort_ptr d l node h =
     (case bind_result (ld_next l h) (\<lambda>pos. bind_result (ld_next pos h) (\<lambda>n. Inr (pos, n))) of Inl e \<Rightarrow> Some (Inl e)
      | Inr (pos, n) \<Rightarrow> Option.bind (sort_position d l (pn_pri (d node)) pos n h) (\<lambda>r. Some (bind_result r (\<lambda>pos.
          bind_result (ld_prev pos h) (\<lambda>p. list_add_between node p pos h)))))"

section \<open>Representation\<close>

fun chain :: "heap \<Rightarrow> nat list \<Rightarrow> bool" where
  "chain h (a # b # r) \<longleftrightarrow> hp_next h a = b \<and> hp_prev h b = a \<and> chain h (b # r)"
| "chain h _ \<longleftrightarrow> True"

definition list_rep :: "heap \<Rightarrow> nat \<Rightarrow> nat list \<Rightarrow> bool" where
  "list_rep h l xs \<longleftrightarrow> distinct (l # xs) \<and> (\<forall>a \<in> set (l # xs). hp_alive h a) \<and> chain h (l # xs @ [l])"

lemma chain_append: "chain h (xs @ y # ys) \<longleftrightarrow> chain h (xs @ [y]) \<and> chain h (y # ys)"
proof (induction xs)
  case (Cons x xs)
  then show ?case by (cases xs) auto
qed simp

lemma chain_frame:
  "chain h zs \<Longrightarrow> \<forall>a \<in> set (butlast zs). hp_next h' a = hp_next h a \<Longrightarrow> \<forall>a \<in> set (tl zs). hp_prev h' a = hp_prev h a \<Longrightarrow> chain h' zs"
  by (induction h zs rule: chain.induct) auto

lemma chain_Cons: "zs \<noteq> [] \<Longrightarrow> chain h (a # zs) \<longleftrightarrow> hp_next h a = hd zs \<and> hp_prev h (hd zs) = a \<and> chain h zs"
  by (cases zs) simp_all

text \<open>The last node before a position and the first one after it.\<close>

lemma chain_split:
  "chain h (l # xs @ ys @ [l]) \<longleftrightarrow>
     chain h (l # xs) \<and> hp_next h (last (l # xs)) = hd (ys @ [l]) \<and> hp_prev h (hd (ys @ [l])) = last (l # xs) \<and> chain h (ys @ [l])"
proof -
  have e: "l # xs @ ys @ [l] = butlast (l # xs) @ last (l # xs) # hd (ys @ [l]) # tl (ys @ [l])"
    by (metis append_Cons append_assoc append_butlast_last_id append_is_Nil_conv list.collapse list.discI append_Nil)
  have l: "butlast (l # xs) @ [last (l # xs)] = l # xs" by (rule append_butlast_last_id) simp
  have c: "hd (ys @ [l]) # tl (ys @ [l]) = ys @ [l]" by simp
  show ?thesis unfolding e chain_append [of h "butlast (l # xs)" "last (l # xs)"] l c by (simp add: chain_Cons)
qed

lemma rep_cut:
  assumes "list_rep h l (xs @ ys)"
  shows "chain h (l # xs)" "chain h (ys @ [l])" "hp_next h (last (l # xs)) = hd (ys @ [l])" "hp_prev h (hd (ys @ [l])) = last (l # xs)"
    "hp_alive h (last (l # xs))" "hp_alive h (hd (ys @ [l]))"
proof -
  from assms show "chain h (l # xs)" "chain h (ys @ [l])" "hp_next h (last (l # xs)) = hd (ys @ [l])" "hp_prev h (hd (ys @ [l])) = last (l # xs)"
    by (simp_all only: list_rep_def append_assoc chain_split)
  have "last (l # xs) \<in> set (l # xs)" by (rule last_in_set) simp
  with assms show "hp_alive h (last (l # xs))" by (auto simp: list_rep_def)
  show "hp_alive h (hd (ys @ [l]))" using assms by (cases ys) (auto simp: list_rep_def)
qed

text \<open>Joining two pieces after their ends were changed.\<close>

lemma rep_join:
  assumes "distinct (l # xs @ ys)" "\<forall>a \<in> set (l # xs @ ys). hp_alive h a" "chain h (l # xs)" "chain h (ys @ [l])"
    "hp_next h (last (l # xs)) = hd (ys @ [l])" "hp_prev h (hd (ys @ [l])) = last (l # xs)"
  shows "list_rep h l (xs @ ys)"
  using assms by (simp only: list_rep_def append_assoc chain_split)

text \<open>Other lists are not affected by changes of nodes they do not contain.\<close>

lemma rep_frame:
  assumes "list_rep h m zs" "\<forall>a \<in> set (m # zs). hp_next h' a = hp_next h a \<and> hp_prev h' a = hp_prev h a \<and> hp_alive h' a"
  shows "list_rep h' m zs"
  unfolding list_rep_def
proof (intro conjI)
  show "chain h' (m # zs @ [m])"
    by (rule chain_frame [of h]) (use assms in \<open>auto simp: list_rep_def butlast_append\<close>)
qed (use assms in \<open>auto simp: list_rep_def\<close>)

section \<open>Single operations\<close>

text \<open>Outside of the given nodes nothing changes; no node is freed.\<close>

definition only_links :: "nat set \<Rightarrow> heap \<Rightarrow> heap \<Rightarrow> bool" where
  "only_links A h h' \<longleftrightarrow> hp_alive h' = hp_alive h \<and> (\<forall>a. a \<notin> A \<longrightarrow> hp_next h' a = hp_next h a \<and> hp_prev h' a = hp_prev h a)"

lemma only_links_rep: "only_links A h h' \<Longrightarrow> list_rep h m zs \<Longrightarrow> set (m # zs) \<inter> A = {} \<Longrightarrow> list_rep h' m zs"
  by (rule rep_frame) (auto simp: only_links_def list_rep_def)

lemma INIT_ok: "hp_alive h l \<Longrightarrow> \<exists>h'. INIT_LIST_HEAD l h = Inr h' \<and> list_rep h' l [] \<and> only_links {l} h h'"
  by (auto simp: INIT_LIST_HEAD_def heap_ops list_rep_def only_links_def)

lemma list_empty_ok: "list_rep h l xs \<Longrightarrow> list_empty l h = Inr (xs = [])"
  by (cases xs) (auto simp: list_empty_def heap_ops list_rep_def)

lemma last_notin_butlast: "distinct zs \<Longrightarrow> zs \<noteq> [] \<Longrightarrow> last zs \<notin> set (butlast zs)"
  by (induction zs rule: rev_induct) simp_all

lemma add_between_ok:
  assumes rep: "list_rep h l (xs @ ys)" and n: "hp_alive h n" "n \<notin> set (l # xs @ ys)"
  shows "\<exists>h'. list_add_between n (last (l # xs)) (hd (ys @ [l])) h = Inr h' \<and> list_rep h' l (xs @ n # ys) \<and> only_links (set (n # l # xs @ ys)) h h'"
proof -
  define q p where "q = last (l # xs)" and "p = hd (ys @ [l])"
  note cut = rep_cut [OF rep, folded q_def p_def]
  have d: "distinct (l # xs @ ys)" using rep by (simp add: list_rep_def)
  have q: "q \<in> set (l # xs)" unfolding q_def by (rule last_in_set) simp
  have p: "p \<in> set (ys @ [l])" unfolding p_def by (rule hd_in_set) simp
  define h' where "h' = h\<lparr>hp_prev := ((hp_prev h)(p := n))(n := q), hp_next := ((hp_next h)(n := p))(q := n)\<rparr>"
  have "list_add_between n q p h = Inr h'"
    using cut(5,6) n(1) by (simp add: list_add_between_def heap_ops h'_def)
  moreover have "chain h' (l # xs)"
  proof (rule chain_frame [OF cut(1)])
    have "q \<notin> set (butlast (l # xs))" unfolding q_def by (rule last_notin_butlast) (use d in auto)
    then show "\<forall>a \<in> set (butlast (l # xs)). hp_next h' a = hp_next h a"
      using n(2) by (auto simp: h'_def dest: in_set_butlastD)
    show "\<forall>a \<in> set (tl (l # xs)). hp_prev h' a = hp_prev h a" using n(2) d p by (auto simp: h'_def)
  qed
  moreover have "chain h' (ys @ [l])"
  proof (rule chain_frame [OF cut(2)])
    show "\<forall>a \<in> set (butlast (ys @ [l])). hp_next h' a = hp_next h a" using n(2) d q by (auto simp: h'_def)
    show "\<forall>a \<in> set (tl (ys @ [l])). hp_prev h' a = hp_prev h a" using n(2) d by (cases ys) (auto simp: h'_def p_def)
  qed
  moreover have "p \<noteq> n" "q \<noteq> n" using p q n(2) by auto
  then have "hp_next h' q = n" "hp_prev h' n = q" "hp_next h' n = p" "hp_prev h' p = n" by (simp_all add: h'_def)
  ultimately have "list_rep h' l (xs @ n # ys)"
  proof (intro rep_join)
    show "distinct (l # xs @ n # ys)" using d n(2) by auto
    show "\<forall>a \<in> set (l # xs @ n # ys). hp_alive h' a" using rep n(1) by (auto simp: list_rep_def h'_def)
    show "chain h' ((n # ys) @ [l])"
      using \<open>chain h' (ys @ [l])\<close> \<open>hp_next h' n = p\<close> \<open>hp_prev h' p = n\<close> by (simp add: chain_Cons p_def)
  qed (simp_all add: q_def)
  moreover have "only_links (set (n # l # xs @ ys)) h h'" using p q by (auto simp: only_links_def h'_def)
  ultimately show ?thesis using \<open>list_add_between n q p h = Inr h'\<close> by (auto simp: q_def p_def)
qed

lemma add_tail_ok:
  assumes "list_rep h l xs" "hp_alive h n" "n \<notin> set (l # xs)"
  shows "\<exists>h'. list_add_tail n l h = Inr h' \<and> list_rep h' l (xs @ [n]) \<and> only_links (set (n # l # xs)) h h'"
proof -
  have rep: "list_rep h l (xs @ [])" using assms(1) by simp
  from rep_cut [OF rep] have "ld_prev l h = Inr (last (l # xs))" by (simp add: heap_ops)
  with add_between_ok [OF rep assms(2)] assms(3) show ?thesis by (simp add: list_add_tail_def)
qed

text \<open>Replacing a node: the new one stands in its place, and the old one is a list of its own.\<close>

lemma replace_init_ok:
  assumes rep: "list_rep h l (xs @ a # ys)" and n: "hp_alive h n" "n \<notin> set (l # xs @ a # ys)"
  shows "\<exists>h'. list_replace_init a n h = Inr h' \<and> list_rep h' l (xs @ n # ys) \<and> list_rep h' a [] \<and>
    only_links (set (n # a # l # xs @ ys)) h h'"
proof -
  define q p where "q = last (l # xs)" and "p = hd (ys @ [l])"
  note cut = rep_cut [OF rep, folded q_def]
  have rest: "hp_next h a = p" "hp_prev h p = a" "chain h (ys @ [l])" using cut(2) by (simp_all add: chain_Cons p_def)
  have ap: "hp_next h q = a" "hp_prev h a = q" "hp_alive h q" "hp_alive h a" using cut(3-6) by simp_all
  have d: "distinct (l # xs @ a # ys)" using rep by (simp add: list_rep_def)
  have q: "q \<in> set (l # xs)" unfolding q_def by (rule last_in_set) simp
  have p: "p \<in> set (ys @ [l])" unfolding p_def by (rule hd_in_set) simp
  have alive: "hp_alive h p" using p rep by (auto simp: list_rep_def)
  have ne: "p \<noteq> a" "q \<noteq> a" "p \<noteq> n" "q \<noteq> n" "a \<noteq> n" using p q d n(2) by auto
  define h' where "h' = h\<lparr>hp_prev := (hp_prev h)(p := n, n := q, a := a), hp_next := (hp_next h)(n := p, q := n, a := a)\<rparr>"
  have run: "list_replace_init a n h = Inr h'"
    using n(1) ap alive rest ne
    by (simp add: list_replace_init_def list_replace_def INIT_LIST_HEAD_def heap_ops h'_def)
  have "chain h' (l # xs)"
  proof (rule chain_frame [OF cut(1)])
    have "q \<notin> set (butlast (l # xs))" unfolding q_def by (rule last_notin_butlast) (use d in auto)
    then show "\<forall>x \<in> set (butlast (l # xs)). hp_next h' x = hp_next h x"
      using n(2) d by (auto simp: h'_def dest: in_set_butlastD)
    show "\<forall>x \<in> set (tl (l # xs)). hp_prev h' x = hp_prev h x" using n(2) d p by (auto simp: h'_def)
  qed
  moreover have end_chain: "chain h' (ys @ [l])"
  proof (rule chain_frame [OF rest(3)])
    show "\<forall>x \<in> set (butlast (ys @ [l])). hp_next h' x = hp_next h x" using n(2) d q by (auto simp: h'_def)
    show "\<forall>x \<in> set (tl (ys @ [l])). hp_prev h' x = hp_prev h x" using n(2) d by (cases ys) (auto simp: h'_def p_def)
  qed
  moreover have links: "hp_next h' q = n" "hp_prev h' n = q" "hp_next h' n = p" "hp_prev h' p = n" using ne by (simp_all add: h'_def)
  ultimately have "list_rep h' l (xs @ n # ys)"
  proof (intro rep_join)
    show "distinct (l # xs @ n # ys)" using d n(2) by auto
    show "\<forall>x \<in> set (l # xs @ n # ys). hp_alive h' x" using rep n(1) by (auto simp: list_rep_def h'_def)
    show "chain h' ((n # ys) @ [l])" using end_chain links by (simp add: chain_Cons p_def)
  qed (simp_all add: q_def)
  moreover have "list_rep h' a []" using ap(4) by (simp add: list_rep_def h'_def)
  moreover have "only_links (set (n # a # l # xs @ ys)) h h'" using p q by (auto simp: only_links_def h'_def)
  ultimately show ?thesis using run by blast
qed

text \<open>Removing a node closes the gap; the node keeps its own links.\<close>

lemma del_entry_ok:
  assumes rep: "list_rep h l (xs @ a # ys)"
  shows "\<exists>h'. list_del_entry a h = Inr h' \<and> list_rep h' l (xs @ ys) \<and> only_links (set (l # xs @ ys)) h h'"
proof -
  define q p where "q = last (l # xs)" and "p = hd (ys @ [l])"
  note cut = rep_cut [OF rep, folded q_def]
  have rest: "hp_next h a = p" "hp_prev h p = a" "chain h (ys @ [l])" using cut(2) by (simp_all add: chain_Cons p_def)
  have d: "distinct (l # xs @ a # ys)" using rep by (simp add: list_rep_def)
  have q: "q \<in> set (l # xs)" unfolding q_def by (rule last_in_set) simp
  have p: "p \<in> set (ys @ [l])" unfolding p_def by (rule hd_in_set) simp
  have alive: "hp_alive h a" "hp_alive h q" "hp_alive h p" using rep q p by (auto simp: list_rep_def)
  define h' where "h' = h\<lparr>hp_prev := (hp_prev h)(p := q), hp_next := (hp_next h)(q := p)\<rparr>"
  have op: "list_del_entry a h = Inr h'"
    using alive cut(4) rest(1) by (simp add: list_del_entry_def list_del_between_def heap_ops h'_def)
  have c1: "chain h' (l # xs)"
  proof (rule chain_frame [OF cut(1)])
    have "q \<notin> set (butlast (l # xs))" unfolding q_def by (rule last_notin_butlast) (use d in auto)
    then show "\<forall>a \<in> set (butlast (l # xs)). hp_next h' a = hp_next h a" by (auto simp: h'_def)
    show "\<forall>a \<in> set (tl (l # xs)). hp_prev h' a = hp_prev h a" using d p by (auto simp: h'_def)
  qed
  have c2: "chain h' (ys @ [l])"
  proof (rule chain_frame [OF rest(3)])
    show "\<forall>a \<in> set (butlast (ys @ [l])). hp_next h' a = hp_next h a" using d q by (auto simp: h'_def)
    show "\<forall>a \<in> set (tl (ys @ [l])). hp_prev h' a = hp_prev h a" using d by (cases ys) (auto simp: h'_def p_def)
  qed
  have "list_rep h' l (xs @ ys)"
  proof (rule rep_join [OF _ _ c1 c2])
    show "\<forall>a \<in> set (l # xs @ ys). hp_alive h' a" using rep by (auto simp: list_rep_def h'_def)
  qed (use d in \<open>auto simp: h'_def q_def p_def\<close>)
  moreover have "only_links (set (l # xs @ ys)) h h'" using p q by (auto simp: only_links_def h'_def)
  ultimately show ?thesis using op by blast
qed

lemma del_ok:
  assumes rep: "list_rep h l (xs @ a # ys)"
  shows "\<exists>h'. list_del a h = Inr h' \<and> list_rep h' l (xs @ ys) \<and> only_links (set (l # xs @ a # ys)) h h'"
proof -
  from del_entry_ok [OF rep] obtain h1 where h1: "list_del_entry a h = Inr h1" "list_rep h1 l (xs @ ys)" "only_links (set (l # xs @ ys)) h h1"
    by blast
  have a: "hp_alive h1 a" "a \<notin> set (l # xs @ ys)" using rep h1(3) by (auto simp: list_rep_def only_links_def)
  let ?h = "h1\<lparr>hp_next := (hp_next h1)(a := LIST_POISON1), hp_prev := (hp_prev h1)(a := LIST_POISON2)\<rparr>"
  have "list_del a h = Inr ?h" using h1(1) a(1) by (simp add: list_del_def heap_ops)
  moreover have "list_rep ?h l (xs @ ys)"
    by (rule rep_frame [OF h1(2)]) (use a h1(2) in \<open>auto simp: list_rep_def\<close>)
  ultimately show ?thesis using h1(3) by (auto simp: only_links_def)
qed

text \<open>Appending another list; its head keeps stale links.\<close>

lemma splice_tail_ok:
  assumes rep: "list_rep h l xs" "list_rep h m ys" and dis: "set (l # xs) \<inter> set (m # ys) = {}"
  shows "\<exists>h'. list_splice_tail m l h = Inr h' \<and> list_rep h' l (xs @ ys) \<and> only_links (set (l # xs @ ys)) h h'"
proof (cases "ys = []")
  case True
  with rep list_empty_ok [OF rep(2)] show ?thesis by (auto simp: list_splice_tail_def only_links_def)
next
  case False
  define q f e where "q = last (l # xs)" and "f = hd ys" and "e = last ys"
  have xl: "chain h (l # xs)" "hp_next h q = l" "hp_prev h l = q" "hp_alive h q" "hp_alive h l"
    using rep_cut [of h l xs "[]"] rep(1) by (simp_all add: q_def)
  have ym: "chain h (ys @ [m])" "hp_next h m = f" using rep_cut [of h m "[]" ys] rep(2) False by (simp_all add: f_def)
  have ye: "chain h (m # ys)" "hp_prev h m = e" using rep_cut [of h m ys "[]"] rep(2) False by (simp_all add: e_def)
  have cy: "chain h ys" using ye(1) False by (simp add: chain_Cons)
  have fe: "f \<in> set ys" "e \<in> set ys" "q \<in> set (l # xs)" 
    using False last_in_set [of "l # xs"] by (simp_all add: f_def e_def q_def del: last.simps)
  have alive: "hp_alive h m" "hp_alive h f" "hp_alive h e" using rep(2) fe by (auto simp: list_rep_def)
  have d: "distinct (l # xs @ ys)" using rep dis by (auto simp: list_rep_def)
  define h' where "h' = h\<lparr>hp_prev := ((hp_prev h)(f := q))(l := e), hp_next := ((hp_next h)(q := f))(e := l)\<rparr>"
  have op: "list_splice_tail m l h = Inr h'"
    using list_empty_ok [OF rep(2)] False xl ym(2) ye(2) alive
    by (simp add: list_splice_tail_def list_splice_between_def heap_ops h'_def)
  have c1: "chain h' (l # xs)"
  proof (rule chain_frame [OF xl(1)])
    have "q \<notin> set (butlast (l # xs))" unfolding q_def by (rule last_notin_butlast) (use d in auto)
    then show "\<forall>a \<in> set (butlast (l # xs)). hp_next h' a = hp_next h a" using fe d by (auto simp: h'_def dest: in_set_butlastD split: if_splits)
    show "\<forall>a \<in> set (tl (l # xs)). hp_prev h' a = hp_prev h a" using d fe by (auto simp: h'_def)
  qed
  have c2: "chain h' ys"
  proof (rule chain_frame [OF cy])
    have "e \<notin> set (butlast ys)" unfolding e_def by (rule last_notin_butlast) (use d False in auto)
    then show "\<forall>a \<in> set (butlast ys). hp_next h' a = hp_next h a" using fe d by (auto simp: h'_def dest: in_set_butlastD)
    show "\<forall>a \<in> set (tl ys). hp_prev h' a = hp_prev h a" using d by (cases ys) (auto simp: h'_def f_def)
  qed
  have links: "hp_next h' q = f" "hp_prev h' f = q" "hp_next h' e = l" "hp_prev h' l = e" using d fe by (auto simp: h'_def)
  have "chain h' (butlast ys @ [e])" using c2 False by (simp add: e_def)
  then have "chain h' (butlast ys @ e # [l])" using chain_append [of h' "butlast ys" e "[l]"] links by simp
  moreover have "butlast ys @ e # [l] = ys @ [l]" using append_butlast_last_id [OF False] by (metis append.assoc append_Cons append_Nil e_def)
  ultimately have c3: "chain h' (ys @ [l])" by simp
  have "list_rep h' l (xs @ ys)"
  proof (rule rep_join [OF d _ c1 c3])
    show "\<forall>a \<in> set (l # xs @ ys). hp_alive h' a" using rep by (auto simp: list_rep_def h'_def)
  qed (use links False in \<open>simp_all add: q_def f_def\<close>)
  moreover have "only_links (set (l # xs @ ys)) h h'" using fe by (auto simp: only_links_def h'_def)
  ultimately show ?thesis using op by blast
qed

section \<open>Freeing a configuration\<close>

lemma free_loop_ok:
  assumes "list_rep h l xs"
  shows "\<exists>h'. free_loop l (hd (xs @ [l])) (hp_next h (hd (xs @ [l]))) h = Some (Inr h') \<and> list_rep h' l [] \<and>
    hp_alive h' = (\<lambda>a. hp_alive h a \<and> a \<notin> set xs) \<and>
    (\<forall>a. a \<notin> set (l # xs) \<longrightarrow> hp_next h' a = hp_next h a \<and> hp_prev h' a = hp_prev h a)"
  using assms
proof (induction xs arbitrary: h)
  case Nil
  then show ?case by (subst free_loop.simps) simp
next
  case (Cons a xs)
  from del_ok [of h l "[]" a xs] Cons.prems obtain h1 where h1: "list_del a h = Inr h1" "list_rep h1 l xs" "only_links (set (l # a # xs)) h h1"
    by auto
  let ?h = "h1\<lparr>hp_alive := (hp_alive h1)(a := False)\<rparr>" and ?n = "hd (xs @ [l])"
  have a: "a \<noteq> l" "a \<notin> set xs" "hp_alive h a" "hp_next h a = ?n" using Cons.prems by (auto simp: list_rep_def chain_Cons)
  have rep: "list_rep ?h l xs" by (rule rep_frame [OF h1(2)]) (use a h1(2) in \<open>auto simp: list_rep_def\<close>)
  have "hp_alive ?h ?n" using rep_cut(6) [of ?h l "[]" xs] rep by simp
  moreover have "bind_result (list_del a h) (free_node a) = Inr ?h" using h1(1,3) a(3) by (simp add: free_node_def only_links_def)
  moreover have "?n \<noteq> a" using a(1,2) by (cases xs) auto
  ultimately have "free_loop l a (hp_next h a) h = free_loop l ?n (hp_next ?h ?n) ?h"
    using a(1,4) by (subst free_loop.simps) (simp add: ld_next_def)
  with Cons.IH [OF rep] h1(3) show ?case by (auto simp: only_links_def)
qed

text \<open>(C38) Freeing the two lists of a configuration ends without touching freed memory: every entry of both lists is freed, both lists are
  empty and well linked, and the other nodes of the heap are as before.\<close>

theorem config_lists_free_ok:
  assumes "list_rep h configs xs" "list_rep h extracfgs ys" "set (configs # xs) \<inter> set (extracfgs # ys) = {}"
  shows "\<exists>h'. config_lists_free configs extracfgs h = Some (Inr h') \<and> list_rep h' configs [] \<and> list_rep h' extracfgs [] \<and>
    (\<forall>a. hp_alive h' a \<longleftrightarrow> hp_alive h a \<and> a \<notin> set (xs @ ys)) \<and>
    (\<forall>a. a \<notin> {configs, extracfgs} \<union> set (xs @ ys) \<longrightarrow> hp_next h' a = hp_next h a \<and> hp_prev h' a = hp_prev h a)"
proof -
  from splice_tail_ok [OF assms] obtain h1 where h1: "list_splice_tail extracfgs configs h = Inr h1" "list_rep h1 configs (xs @ ys)"
      "only_links (set (configs # xs @ ys)) h h1" by blast
  have splice: "bind_result (list_empty extracfgs h) (\<lambda>e. if \<not> e then list_splice_tail extracfgs configs h else Inr h) = Inr h1"
    using list_empty_ok [OF assms(2)] h1(1) by (cases "ys = []") (simp_all add: list_splice_tail_def)
  let ?p = "hd ((xs @ ys) @ [configs])"
  have p: "hp_next h1 configs = ?p" "hp_alive h1 ?p" "hp_alive h1 configs"
    using rep_cut [of h1 configs "[]" "xs @ ys"] h1(2) by simp_all
  from free_loop_ok [OF h1(2)] obtain h2 where h2: "free_loop configs ?p (hp_next h1 ?p) h1 = Some (Inr h2)" "list_rep h2 configs []"
      "hp_alive h2 = (\<lambda>a. hp_alive h1 a \<and> a \<notin> set (xs @ ys))"
      "\<forall>a. a \<notin> set (configs # xs @ ys) \<longrightarrow> hp_next h2 a = hp_next h1 a \<and> hp_prev h2 a = hp_prev h1 a" by blast
  have alive: "hp_alive h2 configs" "hp_alive h2 extracfgs" using assms h1(3) h2(2,3) by (auto simp: list_rep_def only_links_def)
  from INIT_ok [OF alive(1)] obtain h3 where h3: "INIT_LIST_HEAD configs h2 = Inr h3" "list_rep h3 configs []" "only_links {configs} h2 h3" by blast
  have "hp_alive h3 extracfgs" using h3(3) alive(2) by (simp add: only_links_def)
  from INIT_ok [OF this] obtain h4 where h4: "INIT_LIST_HEAD extracfgs h3 = Inr h4" "list_rep h4 extracfgs []" "only_links {extracfgs} h3 h4" by blast
  have "config_lists_free configs extracfgs h = Some (Inr h4)"
    using splice p h2(1) h3(1) h4(1) by (simp add: config_lists_free_def ld_next_def)
  moreover have "list_rep h4 configs []" by (rule only_links_rep [OF h4(3) h3(2)]) (use assms(3) in auto)
  ultimately show ?thesis using h4 h3(3) h2(3,4) h1(3) by (auto simp: only_links_def)
qed

section \<open>Sorted insertion\<close>

lemma sort_position_ok:
  assumes "chain h (xs @ [l])" "\<forall>a \<in> set xs. hp_alive h a \<and> a \<noteq> l" "hp_alive h l"
  shows "sort_position d l pri (hd (xs @ [l])) (hp_next h (hd (xs @ [l]))) h =
    Some (Inr (hd (dropWhile (\<lambda>a. pn_pri (d a) < pri) xs @ [l])))"
  using assms
proof (induction xs)
  case (Cons a xs)
  then have "hp_next h a = hd (xs @ [l])" "chain h (xs @ [l])" by (simp_all add: chain_Cons)
  moreover have "hp_alive h (hd (xs @ [l]))" using Cons.prems by (cases xs) auto
  ultimately show ?case using Cons by (subst sort_position.simps) (auto simp: ld_next_def not_le)
qed (simp add: sort_position.simps)

lemma insert_queue_sort_split:
  "insert_queue_sort x (map d xs) =
     map d (takeWhile (\<lambda>a. pn_pri (d a) < pn_pri x) xs) @ x # map d (dropWhile (\<lambda>a. pn_pri (d a) < pn_pri x) xs)"
  by (induction xs) auto

text \<open>(C39) The insertion into the linked list of patches refines the insertion into a list: it returns, and the linked list then holds the
  nodes in the order of \<open>insert_queue_sort\<close>.\<close>

theorem insert_queue_sort_refines:
  assumes "list_rep h l xs" "hp_alive h node" "node \<notin> set (l # xs)"
  shows "\<exists>h' xs'. insert_queue_sort_ptr d l node h = Some (Inr h') \<and> list_rep h' l xs' \<and>
    map d xs' = insert_queue_sort (d node) (map d xs) \<and> set xs' = insert node (set xs)"
proof -
  define as bs where "as = takeWhile (\<lambda>a. pn_pri (d a) < pn_pri (d node)) xs" and "bs = dropWhile (\<lambda>a. pn_pri (d a) < pn_pri (d node)) xs"
  have xs: "xs = as @ bs" by (simp add: as_def bs_def)
  note cut = rep_cut [of h l "[]" xs] rep_cut [of h l as bs]
  have start: "ld_next l h = Inr (hd (xs @ [l]))" "ld_next (hd (xs @ [l])) h = Inr (hp_next h (hd (xs @ [l])))"
    using cut(3,5,6) assms(1) by (simp_all add: ld_next_def)
  have "sort_position d l (pn_pri (d node)) (hd (xs @ [l])) (hp_next h (hd (xs @ [l]))) h = Some (Inr (hd (bs @ [l])))"
    unfolding bs_def by (rule sort_position_ok) (use cut(2) assms(1) in \<open>auto simp: list_rep_def\<close>)
  moreover have "ld_prev (hd (bs @ [l])) h = Inr (last (l # as))" using cut(10,12) assms(1) xs by (simp add: ld_prev_def)
  moreover obtain h' where "list_add_between node (last (l # as)) (hd (bs @ [l])) h = Inr h'" "list_rep h' l (as @ node # bs)"
    using add_between_ok [of h l as bs node] assms xs by auto
  ultimately have "insert_queue_sort_ptr d l node h = Some (Inr h')" "list_rep h' l (as @ node # bs)"
    by (simp_all add: insert_queue_sort_ptr_def start)
  moreover have "map d (as @ node # bs) = insert_queue_sort (d node) (map d xs)"
    by (simp add: insert_queue_sort_split as_def bs_def)
  ultimately show ?thesis using xs by (intro exI [of _ h'] exI [of _ "as @ node # bs"]) auto
qed

section \<open>Lists as a store of sequences\<close>

text \<open>What a client that only appends relies on.\<close>

locale sequence_store =
  fixes rep :: "'h \<Rightarrow> 'l \<Rightarrow> 'a list \<Rightarrow> bool" and add :: "'a \<Rightarrow> 'l \<Rightarrow> 'h \<Rightarrow> 'h result" and free :: "'h \<Rightarrow> 'l \<Rightarrow> 'a \<Rightarrow> bool"
  assumes add_rep: "rep h l xs \<Longrightarrow> free h l x \<Longrightarrow> x \<notin> set xs \<Longrightarrow> \<exists>h'. add x l h = Inr h' \<and> rep h' l (xs @ [x]) \<and> free h' = free h"
begin

fun add_all :: "'a list \<Rightarrow> 'l \<Rightarrow> 'h \<Rightarrow> 'h result" where
  "add_all [] l h = Inr h"
| "add_all (x # xs) l h = bind_result (add x l h) (add_all xs l)"

lemma add_all_rep:
  "rep h l xs \<Longrightarrow> \<forall>y \<in> set ys. free h l y \<Longrightarrow> distinct (xs @ ys) \<Longrightarrow>
     \<exists>h'. add_all ys l h = Inr h' \<and> rep h' l (xs @ ys) \<and> free h' = free h"
proof (induction ys arbitrary: h xs)
  case (Cons y ys)
  then obtain h1 where "add y l h = Inr h1" "rep h1 l (xs @ [y])" "free h1 = free h" using add_rep [of h l xs y] by auto
  with Cons.IH [of h1 "xs @ [y]"] Cons.prems show ?case by simp
qed simp

end

interpretation linked: sequence_store list_rep list_add_tail "\<lambda>h l a. hp_alive h a \<and> a \<noteq> l"
proof
  fix h l xs x
  assume "list_rep h l xs" "hp_alive h x \<and> x \<noteq> l" "x \<notin> set xs"
  with add_tail_ok [of h l xs x] show "\<exists>h'. list_add_tail x l h = Inr h' \<and> list_rep h' l (xs @ [x]) \<and>
      (\<lambda>l a. hp_alive h' a \<and> a \<noteq> l) = (\<lambda>l a. hp_alive h a \<and> a \<noteq> l)"
    by (auto simp: only_links_def)
qed

section \<open>Examples\<close>

text \<open>Two lists, with heads 0 and 1, of which the first has the nodes 2 and 3 and the second the node 4.\<close>

definition ex_heap0 :: heap where
  "ex_heap0 = \<lparr>hp_next = (\<lambda>a. a), hp_prev = (\<lambda>a. a), hp_alive = (\<lambda>a. a < 6)\<rparr>"

lemma ex_heap:
  obtains h where "list_rep h 0 [2, 3]" "list_rep h 1 [4]" "hp_alive h = (\<lambda>a. a < 6)"
proof -
  have r: "list_rep ex_heap0 0 []" "list_rep ex_heap0 1 []" by (simp_all add: ex_heap0_def list_rep_def)
  have "\<exists>h. bind_result (list_add_tail 2 0 ex_heap0) (\<lambda>h. bind_result (list_add_tail 3 0 h) (list_add_tail 4 1)) = Inr h \<and>
      list_rep h 0 [2, 3] \<and> list_rep h 1 [4] \<and> hp_alive h = (\<lambda>a. a < 6)"
    by (simp add: list_add_tail_def list_add_between_def heap_ops ex_heap0_def list_rep_def)
  then show thesis using that by blast
qed

theorem config_lists_free_ok_witness:
  "\<exists>h h'. list_rep h 0 [2, 3] \<and> list_rep h 1 [4] \<and> config_lists_free 0 1 h = Some (Inr h') \<and> list_rep h' 0 [] \<and> list_rep h' 1 [] \<and>
    (\<forall>a. hp_alive h' a \<longleftrightarrow> hp_alive h a \<and> a \<notin> set ([2, 3] @ [4])) \<and>
    (\<forall>a. a \<notin> {0, 1} \<union> set ([2, 3] @ [4]) \<longrightarrow> hp_next h' a = hp_next h a \<and> hp_prev h' a = hp_prev h a)"
proof -
  obtain h where h: "list_rep h 0 [2, 3]" "list_rep h 1 [4]" by (rule ex_heap)
  have "set [0, 2, 3] \<inter> set [1, 4 :: nat] = {}" by simp
  from config_lists_free_ok [OF h this] h show ?thesis by blast
qed

definition ex_node :: "nat \<Rightarrow> patch_node" where
  "ex_node a = \<lparr>pn_pri = word_of_nat a, pn_len = 4, pn_payload = 0\<rparr>"

theorem insert_queue_sort_refines_witness:
  "\<exists>h h' xs'. list_rep h 0 [2, 3] \<and> insert_queue_sort_ptr ex_node 0 5 h = Some (Inr h') \<and> list_rep h' 0 xs' \<and>
    map ex_node xs' = insert_queue_sort (ex_node 5) (map ex_node [2, 3]) \<and> set xs' = insert 5 (set [2, 3])"
proof -
  have r: "list_rep ex_heap0 0 []" by (simp add: ex_heap0_def list_rep_def)
  obtain h where h: "list_rep h 0 [2, 3]" "(\<lambda>l a. hp_alive h a \<and> a \<noteq> l) = (\<lambda>l a. hp_alive ex_heap0 a \<and> a \<noteq> l)"
    using linked.add_all_rep [OF r, of "[2, 3]"] by (auto simp: ex_heap0_def)
  have "hp_alive h 5" using fun_cong [OF fun_cong [OF h(2), of 0], of 5] by (simp add: ex_heap0_def)
  moreover have "5 \<notin> set [0, 2, 3 :: nat]" by simp
  ultimately show ?thesis using insert_queue_sort_refines [OF h(1), of 5 ex_node] h(1) by blast
qed

end
