(* ===== verification/Kernel_Skb.thy ===== *)
theory Kernel_Skb
  imports Slip
begin

text \<open>
  The socket buffers of the Linux kernel as the UART drivers use them (\<open>hci_rtk_h5.c\<close>, \<open>hci_h4.c\<close>,
  \<open>hci_ldisc.c\<close>): a buffer holds its data bytes, the room behind them and the packet type of its
  control block. Writing past the room (\<open>skb_over_panic\<close>) and reading past the data are the fault
  \<open>OutOfBounds\<close>. A queue (\<open>struct sk_buff_head\<close>) is the list of its buffers. Calls out of a driver
  are recorded, in order, as \<open>upcall\<close>s.
\<close>

section \<open>Buffers\<close>

record kskb =
  kpkt_type :: nat
  kdata :: "byte list"
  ktailroom :: nat

definition kalloc_skb :: "nat \<Rightarrow> kskb" where
  "kalloc_skb n = \<lparr>kpkt_type = 0, kdata = [], ktailroom = n\<rparr>"

text \<open>\<open>memcpy(skb_put(skb, n), src, n)\<close>, \<open>skb->data[i]\<close>, \<open>skb_trim\<close> and \<open>skb_pull\<close>.\<close>

definition kskb_put :: "kskb \<Rightarrow> byte list \<Rightarrow> kskb result" where
  "kskb_put skb bs =
     (if length bs \<le> ktailroom skb
      then Inr (skb\<lparr>kdata := kdata skb @ bs, ktailroom := ktailroom skb - length bs\<rparr>)
      else Inl OutOfBounds)"

definition kskb_at :: "kskb \<Rightarrow> nat \<Rightarrow> byte result" where
  "kskb_at skb i = (if i < length (kdata skb) then Inr (kdata skb ! i) else Inl OutOfBounds)"

definition kskb_trim :: "kskb \<Rightarrow> nat \<Rightarrow> kskb" where
  "kskb_trim skb n =
     (if n < length (kdata skb)
      then skb\<lparr>kdata := take n (kdata skb), ktailroom := ktailroom skb + (length (kdata skb) - n)\<rparr>
      else skb)"

definition kskb_pull :: "kskb \<Rightarrow> nat \<Rightarrow> kskb" where
  "kskb_pull skb n = (if n \<le> length (kdata skb) then skb\<lparr>kdata := drop n (kdata skb)\<rparr> else skb)"

text \<open>A pointer to a buffer, and \<open>kfree_skb\<close>, which accepts \<open>NULL\<close>.\<close>

datatype kskb_ptr = KNull | KFreed | KLive kskb

definition kderef :: "kskb_ptr \<Rightarrow> kskb result" where
  "kderef p = (case p of KNull \<Rightarrow> Inl NullDeref | KFreed \<Rightarrow> Inl UseAfterFree | KLive skb \<Rightarrow> Inr skb)"

definition kfree_skb :: "kskb_ptr \<Rightarrow> kskb_ptr result" where
  "kfree_skb p = (case p of KNull \<Rightarrow> Inr KNull | KFreed \<Rightarrow> Inl UseAfterFree | KLive _ \<Rightarrow> Inr KFreed)"

lemma kptr_simps [simp]:
  "kderef (KLive skb) = Inr skb" "kderef KNull = Inl NullDeref" "kderef KFreed = Inl UseAfterFree"
  "kfree_skb (KLive skb) = Inr KFreed" "kfree_skb KNull = Inr KNull" "kfree_skb KFreed = Inl UseAfterFree"
  by (simp_all add: kderef_def kfree_skb_def)

lemma kskb_at_nth [simp]: "i < length (kdata skb) \<Longrightarrow> kskb_at skb i = Inr (kdata skb ! i)"
  by (simp add: kskb_at_def)

text \<open>
  Whether an allocation succeeds is decided by the environment: a list of outcomes, consumed in
  order; when it is used up, allocations succeed.
\<close>

definition next_alloc :: "bool list \<Rightarrow> bool \<times> bool list" where
  "next_alloc bs = (bs = [] \<or> hd bs, tl bs)"

section \<open>Calls out of a driver\<close>

text \<open>
  \<open>hci_uart_tx_wakeup\<close>, the two hooks of the coexistence module, and \<open>hci_recv_frame\<close>, which hands
  the buffer to the host stack.
\<close>

datatype upcall = TxWakeup | ParseEvent "byte list" | ParseL2capRx "byte list" | RecvFrame kskb

text \<open>The buffers handed to the host stack, and what they carry.\<close>

fun frames_up :: "upcall list \<Rightarrow> kskb list" where
  "frames_up [] = []"
| "frames_up (RecvFrame skb # us) = skb # frames_up us"
| "frames_up (_ # us) = frames_up us"

lemma frames_up_append [simp]: "frames_up (us @ vs) = frames_up us @ frames_up vs"
  by (induction us rule: frames_up.induct) auto

text \<open>The calls that concern the coexistence module.\<close>

fun coex_hook :: "upcall \<Rightarrow> bool" where
  "coex_hook (ParseEvent _) = True"
| "coex_hook (ParseL2capRx _) = True"
| "coex_hook _ = False"

definition hooks_up :: "upcall list \<Rightarrow> upcall list" where
  "hooks_up us = filter coex_hook us"

lemma hooks_up_append [simp]: "hooks_up (us @ vs) = hooks_up us @ hooks_up vs"
  by (simp add: hooks_up_def)

lemma hooks_up_simps [simp]: "hooks_up [] = []" "hooks_up (u # us) = (if coex_hook u then u # hooks_up us else hooks_up us)"
  by (simp_all add: hooks_up_def)

definition skb_msg :: "kskb \<Rightarrow> nat \<times> byte list" where
  "skb_msg skb = (kpkt_type skb, kdata skb)"

section \<open>A buffer is a byte sink\<close>

interpretation kskb_sink: byte_sink kskb_put kdata ktailroom "\<lambda>_. True"
  by unfold_locales (simp add: kskb_put_def)

end
