(* ===== verification/Kernel_H5.thy ===== *)
theory Kernel_H5
  imports Kernel_Skb H5_Tx
begin

text \<open>
  The three-wire protocol of the kernel driver (\<open>hci_rtk_h5.c\<close>): the structure \<open>h5_struct\<close>, packet
  construction, the transmit window with its queues, acknowledgement and retransmission, and the
  receiver. The retransmission work is the flag \<open>k_retrans\<close> (pending or not); spin locks only
  serialise the operations, which are atomic here. Fields \<open>k_allocs\<close> and \<open>k_out\<close> belong to the
  environment: the outcomes of coming allocations and the calls made so far.
\<close>

section \<open>Constants and state\<close>

definition H5_TXWINSIZE :: nat where "H5_TXWINSIZE = 4"
definition H5_LE_PKT :: nat where "H5_LE_PKT = 0x0F"
definition txcrc :: nat where "txcrc = 1"

lemmas kpkt_defs = pkt_type_defs H5_LE_PKT_def

record h5_struct =
  k_unack :: "kskb list"
  k_rel :: "kskb list"
  k_unrel :: "kskb list"
  k_rx_count :: "64 word"
  k_rx_skb :: kskb_ptr
  k_retrans :: bool
  k_rx_state :: h5_rx_state
  k_rx_esc_state :: h5_rx_esc_state
  k_message_crc :: u16
  k_use_crc :: byte
  k_rxack :: byte
  k_rxseq_txack :: byte
  k_txack_req :: byte
  k_msgq_txseq :: byte
  k_allocs :: "bool list"
  k_out :: "upcall list"

definition kh5_upcall :: "upcall \<Rightarrow> h5_struct \<Rightarrow> h5_struct" where
  "kh5_upcall u h5 = h5\<lparr>k_out := k_out h5 @ [u]\<rparr>"

section \<open>Checksum and stuffing\<close>

definition kcrc_table :: "u16 list" where
  "kcrc_table =
     [0x0000, 0x1081, 0x2102, 0x3183, 0x4204, 0x5285, 0x6306, 0x7387,
      0x8408, 0x9489, 0xa50a, 0xb58b, 0xc60c, 0xd68d, 0xe70e, 0xf78f]"

definition KH5_CRC_INIT :: u16 where "KH5_CRC_INIT = 0xffff"

definition kh5_crc_update :: "u16 \<Rightarrow> byte \<Rightarrow> u16" where
  "kh5_crc_update crc d =
     (let reg = crc;
          reg = drop_bit 4 reg XOR kcrc_table ! unat ((reg XOR ucast d) AND 0x000f);
          reg = drop_bit 4 reg XOR kcrc_table ! unat ((reg XOR ucast (drop_bit 4 d)) AND 0x000f)
      in reg)"

definition kh5_slip_msgdelim :: "kskb \<Rightarrow> kskb result" where
  "kh5_slip_msgdelim skb = kskb_put skb [0xc0]"

definition kh5_slip_one_byte :: "kskb \<Rightarrow> byte \<Rightarrow> kskb result" where
  "kh5_slip_one_byte skb c =
     (if c = 0xc0 then kskb_put skb [0xdb, 0xdc]
      else if c = 0xdb then kskb_put skb [0xdb, 0xdd]
      else if c = 0x11 then kskb_put skb [0xdb, 0xde]
      else if c = 0x13 then kskb_put skb [0xdb, 0xdf]
      else kskb_put skb [c])"

section \<open>Sending\<close>

definition h5_enqueue :: "kskb \<Rightarrow> h5_struct \<Rightarrow> h5_struct" where
  "h5_enqueue skb h5 =
     (let t = kpkt_type skb in
      if length (kdata skb) > 0xFFF then h5
      else if t = HCI_ACLDATA_PKT \<or> t = HCI_COMMAND_PKT then h5\<lparr>k_rel := k_rel h5 @ [skb]\<rparr>
      else if t = HCI_SCODATA_PKT then h5\<lparr>k_unrel := k_unrel h5 @ [skb]\<rparr>
      else if t = H5_LE_PKT \<or> t = H5_ACK_PKT \<or> t = H5_VDRSPEC_PKT then h5\<lparr>k_unrel := k_unrel h5 @ [skb]\<rparr>
      else h5)"

text \<open>The \<open>switch\<close> on the packet type: channel number and whether the channel is reliable.\<close>

definition kh5_chan :: "nat \<Rightarrow> (byte \<times> bool) option" where
  "kh5_chan t =
     (if t = HCI_ACLDATA_PKT then Some (2, True)
      else if t = HCI_COMMAND_PKT then Some (1, True)
      else if t = HCI_EVENT_PKT then Some (4, True)
      else if t = HCI_SCODATA_PKT then Some (3, False)
      else if t = H5_LE_PKT then Some (15, False)
      else if t = H5_ACK_PKT then Some (0, False)
      else if t = H5_VDRSPEC_PKT then Some (14, False)
      else None)"

definition kh5_header :: "bool \<Rightarrow> byte \<Rightarrow> byte \<Rightarrow> bool \<Rightarrow> nat \<Rightarrow> byte \<Rightarrow> byte list" where
  "kh5_header rel txack txseq crc len chan =
     (let hdr0 = push_bit 3 txack;
          hdr0 = (if rel then hdr0 OR (0x80 + txseq) else hdr0);
          hdr0 = (if crc then hdr0 OR 0x40 else hdr0);
          hdr1 = push_bit 4 (word_of_nat len) OR chan;
          hdr2 = word_of_nat (len div 16);
          hdr3 = NOT (hdr0 + hdr1 + hdr2)
      in [hdr0, hdr1, hdr2, hdr3])"

definition kh5_encode_byte :: "bool \<Rightarrow> byte \<Rightarrow> kskb \<times> u16 \<Rightarrow> (kskb \<times> u16) result" where
  "kh5_encode_byte crc_on c st =
     (case st of (nskb, crc) \<Rightarrow>
        bind_result (kh5_slip_one_byte nskb c)
          (\<lambda>nskb. Inr (nskb, if crc_on then kh5_crc_update crc c else crc)))"

definition kh5_encode_crc :: "bool \<Rightarrow> kskb \<Rightarrow> u16 \<Rightarrow> kskb result" where
  "kh5_encode_crc crc_on nskb crc =
     (if crc_on then
        let crc = bit_rev16 crc in
        bind_result (kh5_slip_one_byte nskb (ucast (drop_bit 8 crc AND 0x00ff)))
          (\<lambda>nskb. kh5_slip_one_byte nskb (ucast (crc AND 0x00ff)))
      else Inr nskb)"

text \<open>
  Called with the data and length of one buffer, or with no data; \<open>None\<close> is the result \<open>NULL\<close>.
\<close>

definition kh5_prepare_pkt :: "h5_struct \<Rightarrow> byte list \<Rightarrow> nat \<Rightarrow> (kskb option \<times> h5_struct) result" where
  "kh5_prepare_pkt h5 data pkt_type =
     (case kh5_chan pkt_type of None \<Rightarrow> Inr (None, h5)
      | Some (chan, rel) \<Rightarrow>
          (case next_alloc (k_allocs h5) of (ok, al) \<Rightarrow>
           let h5 = h5\<lparr>k_allocs := al\<rparr>; len = length data in
           if \<not> ok then Inr (None, h5)
           else
             let nskb = (kalloc_skb ((len + 6) * 2 + 2))\<lparr>kpkt_type := pkt_type\<rparr> in
             bind_result (kh5_slip_msgdelim nskb) (\<lambda>nskb.
             let crc_on = (k_use_crc h5 \<noteq> 0);
                 hdr = kh5_header rel (k_rxseq_txack h5) (k_msgq_txseq h5) crc_on len chan;
                 h5 = h5\<lparr>k_txack_req := 0\<rparr>;
                 h5 = (if rel then h5\<lparr>k_msgq_txseq := (k_msgq_txseq h5 + 1) AND 0x07\<rparr> else h5)
             in
             bind_result (res_fold (kh5_encode_byte crc_on) hdr (nskb, KH5_CRC_INIT)) (\<lambda>st.
             bind_result (res_fold (kh5_encode_byte crc_on) data st) (\<lambda>(nskb, crc).
             bind_result (kh5_encode_crc crc_on nskb crc) (\<lambda>nskb.
             bind_result (kh5_slip_msgdelim nskb) (\<lambda>nskb. Inr (Some nskb, h5))))))))"

text \<open>The three parts of \<open>h5_dequeue\<close>: an unreliable packet, a reliable one, a pure acknowledgement.\<close>

definition kh5_dequeue_unrel :: "h5_struct \<Rightarrow> (kskb option \<times> h5_struct) result" where
  "kh5_dequeue_unrel h5 =
     (case k_unrel h5 of [] \<Rightarrow> Inr (None, h5)
      | skb # q \<Rightarrow>
          bind_result (kh5_prepare_pkt (h5\<lparr>k_unrel := q\<rparr>) (kdata skb) (kpkt_type skb)) (\<lambda>(nskb, h5).
            case nskb of Some _ \<Rightarrow> Inr (nskb, h5)
            | None \<Rightarrow> Inr (None, h5\<lparr>k_unrel := skb # k_unrel h5\<rparr>)))"

definition kh5_dequeue_rel :: "h5_struct \<Rightarrow> (kskb option \<times> h5_struct) result" where
  "kh5_dequeue_rel h5 =
     (if length (k_unack h5) < H5_TXWINSIZE then
        (case k_rel h5 of [] \<Rightarrow> Inr (None, h5)
         | skb # q \<Rightarrow>
             bind_result (kh5_prepare_pkt (h5\<lparr>k_rel := q\<rparr>) (kdata skb) (kpkt_type skb)) (\<lambda>(nskb, h5).
               case nskb of Some _ \<Rightarrow> Inr (nskb, h5\<lparr>k_unack := k_unack h5 @ [skb], k_retrans := True\<rparr>)
               | None \<Rightarrow> Inr (None, h5\<lparr>k_rel := skb # k_rel h5\<rparr>)))
      else Inr (None, h5))"

definition h5_dequeue :: "h5_struct \<Rightarrow> (kskb option \<times> h5_struct) result" where
  "h5_dequeue h5 =
     bind_result (kh5_dequeue_unrel h5) (\<lambda>(r, h5).
       case r of Some _ \<Rightarrow> Inr (r, h5)
       | None \<Rightarrow>
           bind_result (kh5_dequeue_rel h5) (\<lambda>(r, h5).
             case r of Some _ \<Rightarrow> Inr (r, h5)
             | None \<Rightarrow>
                 if k_txack_req h5 \<noteq> 0 then kh5_prepare_pkt h5 [] H5_ACK_PKT else Inr (None, h5)))"

definition h5_flush :: "h5_struct \<Rightarrow> h5_struct" where "h5_flush h5 = h5"

section \<open>Acknowledgement and retransmission\<close>

text \<open>The \<open>while\<close> loop of \<open>h5_pkt_cull\<close>: how many of the oldest packets are acknowledged.\<close>

fun cull_count :: "nat \<Rightarrow> byte \<Rightarrow> byte \<Rightarrow> nat" where
  "cull_count 0 ack seqno = 0"
| "cull_count (Suc n) ack seqno =
     (if ack = seqno then Suc n else cull_count n ack ((seqno - 1) AND 0x07))"

definition h5_pkt_cull :: "h5_struct \<Rightarrow> h5_struct" where
  "h5_pkt_cull h5 =
     (let n = cull_count (length (k_unack h5)) (k_rxack h5) (k_msgq_txseq h5);
          h5 = h5\<lparr>k_unack := drop n (k_unack h5)\<rparr>
      in if k_unack h5 = [] then h5\<lparr>k_retrans := False\<rparr> else h5)"

text \<open>The retransmission: the newest packet first, each back to the head of the reliable queue.\<close>

function requeue_loop :: "h5_struct \<Rightarrow> h5_struct" where
  "requeue_loop h5 =
     (if k_unack h5 = [] then h5
      else requeue_loop (h5\<lparr>k_unack := butlast (k_unack h5), k_rel := last (k_unack h5) # k_rel h5,
                           k_msgq_txseq := (k_msgq_txseq h5 - 1) AND 0x07\<rparr>))"
  by pat_completeness auto
termination
  by (relation "measure (length \<circ> k_unack)") auto

declare requeue_loop.simps [simp del]

definition h5_timed_event :: "h5_struct \<Rightarrow> h5_struct" where
  "h5_timed_event h5 = kh5_upcall TxWakeup (requeue_loop (h5\<lparr>k_retrans := False\<rparr>))"

section \<open>Receiving\<close>

text \<open>Append one decoded byte, feed it to the checksum where that is due, and count it.\<close>

definition kh5_store_byte :: "byte \<Rightarrow> h5_struct \<Rightarrow> h5_struct result" where
  "kh5_store_byte c h5 =
     bind_result (kderef (k_rx_skb h5)) (\<lambda>skb.
     bind_result (kskb_put skb [c]) (\<lambda>skb.
     bind_result (kskb_at skb 0) (\<lambda>d0.
       Inr (h5\<lparr>k_rx_skb := KLive skb,
               k_message_crc := (if d0 AND 0x40 \<noteq> 0 \<and> k_rx_state h5 \<noteq> H5_W4_CRC
                                 then kh5_crc_update (k_message_crc h5) c else k_message_crc h5),
               k_rx_esc_state := H5_ESCSTATE_NOESC, k_rx_count := k_rx_count h5 - 1\<rparr>))))"

definition kh5_unslip_one_byte :: "h5_struct \<Rightarrow> byte \<Rightarrow> h5_struct result" where
  "kh5_unslip_one_byte h5 b =
     (case k_rx_esc_state h5 of
        H5_ESCSTATE_NOESC \<Rightarrow>
          if b = 0xdb then Inr (h5\<lparr>k_rx_esc_state := H5_ESCSTATE_ESC\<rparr>) else kh5_store_byte b h5
      | H5_ESCSTATE_ESC \<Rightarrow>
          if b = 0xdc then kh5_store_byte 0xc0 h5
          else if b = 0xdd then kh5_store_byte 0xdb h5
          else if b = 0xde then kh5_store_byte 0x11 h5
          else if b = 0xdf then kh5_store_byte 0x13 h5
          else bind_result (kfree_skb (k_rx_skb h5)) (\<lambda>_.
                 Inr (h5\<lparr>k_rx_skb := KNull, k_rx_state := H5_W4_PKT_DELIMITER, k_rx_count := 0\<rparr>)))"

text \<open>The chain of tests that classifies a complete packet: its packet type, or \<open>None\<close> when it is not passed up.\<close>

definition kh5_classify :: "byte \<Rightarrow> byte \<Rightarrow> nat option" where
  "kh5_classify d0 d1 =
     (let chan = d1 AND 0x0f; rel = (d0 AND 0x80 \<noteq> 0) in
      if chan = 2 \<and> rel then Some HCI_ACLDATA_PKT
      else if chan = 4 \<and> rel then Some HCI_EVENT_PKT
      else if chan = 3 then Some HCI_SCODATA_PKT
      else if chan = 15 \<and> \<not> rel then None
      else if chan = 1 \<and> rel then Some HCI_COMMAND_PKT
      else if chan = 14 then Some H5_VDRSPEC_PKT
      else None)"

text \<open>The hooks of the coexistence module and the hand-over to the host stack.\<close>

definition kh5_pass_up :: "kskb \<Rightarrow> h5_struct \<Rightarrow> h5_struct" where
  "kh5_pass_up skb h5 =
     (let h5 = (if kpkt_type skb = HCI_EVENT_PKT then kh5_upcall (ParseEvent (kdata skb)) h5 else h5);
          h5 = (if kpkt_type skb = HCI_ACLDATA_PKT then kh5_upcall (ParseL2capRx (kdata skb)) h5 else h5)
      in kh5_upcall (RecvFrame skb) h5)"

text \<open>Sequence and acknowledgement numbers of a complete packet.\<close>

definition kh5_bookkeep :: "byte \<Rightarrow> h5_struct \<Rightarrow> h5_struct" where
  "kh5_bookkeep d0 h5 =
     (let h5 = (if d0 AND 0x80 \<noteq> 0
                then h5\<lparr>k_rxseq_txack := (k_rxseq_txack h5 + 1) mod 0x8, k_txack_req := 1\<rparr> else h5)
      in h5\<lparr>k_rxack := drop_bit 3 d0 AND 0x07\<rparr>)"

definition kh5_complete_rx_pkt :: "h5_struct \<Rightarrow> h5_struct result" where
  "kh5_complete_rx_pkt h5 =
     bind_result (kderef (k_rx_skb h5)) (\<lambda>skb.
     bind_result (kskb_at skb 0) (\<lambda>d0.
     bind_result (kskb_at skb 1) (\<lambda>d1.
       let h5 = kh5_upcall TxWakeup (h5_pkt_cull (kh5_bookkeep d0 h5));
           h5 = (case kh5_classify d0 d1 of None \<Rightarrow> h5
                 | Some t \<Rightarrow> kh5_pass_up ((kskb_pull skb 4)\<lparr>kpkt_type := t\<rparr>) h5)
       in Inr (h5\<lparr>k_rx_state := H5_W4_PKT_DELIMITER, k_rx_skb := KNull\<rparr>))))"

definition bscp_get_crc :: "h5_struct \<Rightarrow> u16 result" where
  "bscp_get_crc h5 =
     bind_result (kderef (k_rx_skb h5)) (\<lambda>skb.
       let n = length (kdata skb) in
       if n < 2 then Inl OutOfBounds
       else bind_result (kskb_at skb (n - 2)) (\<lambda>hi. bind_result (kskb_at skb (n - 1)) (\<lambda>lo.
              Inr (ucast lo OR push_bit 8 (ucast hi)))))"

text \<open>The branches of the loop that give up a packet: the buffer is freed, its pointer kept.\<close>

definition kh5_drop_rx :: "h5_struct \<Rightarrow> h5_struct result" where
  "kh5_drop_rx h5 =
     bind_result (kfree_skb (k_rx_skb h5)) (\<lambda>p.
       Inr (h5\<lparr>k_rx_skb := p, k_rx_state := H5_W4_PKT_DELIMITER, k_rx_count := 0\<rparr>))"

definition kh5_recv_hdr :: "h5_struct \<Rightarrow> h5_struct result" where
  "kh5_recv_hdr h5 =
     bind_result (kderef (k_rx_skb h5)) (\<lambda>skb.
     bind_result (kskb_at skb 0) (\<lambda>d0.
     bind_result (kskb_at skb 1) (\<lambda>d1.
     bind_result (kskb_at skb 2) (\<lambda>d2.
     bind_result (kskb_at skb 3) (\<lambda>d3.
       if NOT (d0 + d1 + d2) \<noteq> d3 then kh5_drop_rx h5
       else if d0 AND 0x80 \<noteq> 0 \<and> d0 AND 0x07 \<noteq> k_rxseq_txack h5 then
         kh5_drop_rx (kh5_upcall TxWakeup (h5\<lparr>k_txack_req := 1\<rparr>))
       else Inr (h5\<lparr>k_rx_state := H5_W4_DATA,
                    k_rx_count := word_of_nat (unat (drop_bit 4 d1) + unat d2 * 16)\<rparr>))))))"

definition kh5_recv_data :: "h5_struct \<Rightarrow> h5_struct result" where
  "kh5_recv_data h5 =
     bind_result (kderef (k_rx_skb h5)) (\<lambda>skb.
     bind_result (kskb_at skb 0) (\<lambda>d0.
       if d0 AND 0x40 \<noteq> 0 then Inr (h5\<lparr>k_rx_state := H5_W4_CRC, k_rx_count := 2\<rparr>)
       else kh5_complete_rx_pkt h5))"

definition kh5_recv_crc :: "h5_struct \<Rightarrow> h5_struct result" where
  "kh5_recv_crc h5 =
     bind_result (bscp_get_crc h5) (\<lambda>crc.
       if bit_rev16 (k_message_crc h5) \<noteq> crc then kh5_drop_rx h5
       else bind_result (kderef (k_rx_skb h5)) (\<lambda>skb.
         kh5_complete_rx_pkt (h5\<lparr>k_rx_skb := KLive (kskb_trim skb (length (kdata skb) - 2))\<rparr>)))"

text \<open>What an iteration does with the current byte: consume it, look at it again, or leave the function.\<close>

datatype krx_action = KRxConsume | KRxKeep | KRxReturn

definition kh5_recv_start :: "h5_struct \<Rightarrow> krx_action \<times> h5_struct" where
  "kh5_recv_start h5 =
     (let h5 = h5\<lparr>k_rx_state := H5_W4_HDR, k_rx_count := 4, k_rx_esc_state := H5_ESCSTATE_NOESC,
                  k_message_crc := KH5_CRC_INIT\<rparr>
      in case next_alloc (k_allocs h5) of (ok, al) \<Rightarrow>
        if \<not> ok then
          (KRxReturn, h5\<lparr>k_allocs := al, k_rx_skb := KNull, k_rx_state := H5_W4_PKT_DELIMITER, k_rx_count := 0\<rparr>)
        else (KRxKeep, h5\<lparr>k_allocs := al, k_rx_skb := KLive (kalloc_skb 0x1005)\<rparr>))"

definition kh5_recv_iter :: "h5_struct \<Rightarrow> byte \<Rightarrow> (krx_action \<times> h5_struct) result" where
  "kh5_recv_iter h5 b =
     (if k_rx_count h5 \<noteq> 0 then
        (if b = 0xc0 then
           bind_result (kfree_skb (k_rx_skb h5)) (\<lambda>p.
             Inr (KRxConsume, h5\<lparr>k_rx_skb := p, k_rx_state := H5_W4_PKT_START, k_rx_count := 0\<rparr>))
         else bind_result (kh5_unslip_one_byte h5 b) (\<lambda>h5. Inr (KRxConsume, h5)))
      else
        (case k_rx_state h5 of
           H5_W4_HDR \<Rightarrow> bind_result (kh5_recv_hdr h5) (\<lambda>h5. Inr (KRxKeep, h5))
         | H5_W4_DATA \<Rightarrow> bind_result (kh5_recv_data h5) (\<lambda>h5. Inr (KRxKeep, h5))
         | H5_W4_CRC \<Rightarrow> bind_result (kh5_recv_crc h5) (\<lambda>h5. Inr (KRxKeep, h5))
         | H5_W4_PKT_DELIMITER \<Rightarrow>
             Inr (KRxConsume, if b = 0xc0 then h5\<lparr>k_rx_state := H5_W4_PKT_START\<rparr> else h5)
         | H5_W4_PKT_START \<Rightarrow>
             if b = 0xc0 then Inr (KRxConsume, h5) else Inr (kh5_recv_start h5)))"

text \<open>Each iteration that keeps the byte moves to a state of lower rank.\<close>

definition krx_rank :: "h5_struct \<Rightarrow> nat" where
  "krx_rank h5 =
     (if k_rx_count h5 \<noteq> 0 then 0
      else case k_rx_state h5 of H5_W4_HDR \<Rightarrow> 4 | H5_W4_DATA \<Rightarrow> 3 | H5_W4_CRC \<Rightarrow> 2
           | H5_W4_PKT_START \<Rightarrow> 1 | H5_W4_PKT_DELIMITER \<Rightarrow> 1)"

lemma kh5_complete_state: "kh5_complete_rx_pkt h5 = Inr h5' \<Longrightarrow> k_rx_state h5' = H5_W4_PKT_DELIMITER"
  by (auto simp: kh5_complete_rx_pkt_def bind_result_eq_Inr Let_def)

lemma kh5_drop_state: "kh5_drop_rx h5 = Inr h5' \<Longrightarrow> k_rx_state h5' = H5_W4_PKT_DELIMITER"
  by (auto simp: kh5_drop_rx_def bind_result_eq_Inr)

lemma krx_rank_delim: "k_rx_state h5 = H5_W4_PKT_DELIMITER \<Longrightarrow> krx_rank h5 < 2"
  by (simp add: krx_rank_def)

lemma kh5_recv_hdr_rank: "kh5_recv_hdr h5 = Inr h5' \<Longrightarrow> krx_rank h5' < 4"
  by (auto simp: kh5_recv_hdr_def bind_result_eq_Inr krx_rank_def dest!: kh5_drop_state split: if_splits)

lemma kh5_recv_data_rank: "kh5_recv_data h5 = Inr h5' \<Longrightarrow> krx_rank h5' < 3"
  by (auto simp: kh5_recv_data_def bind_result_eq_Inr krx_rank_def dest!: kh5_complete_state split: if_splits)

lemma kh5_recv_crc_rank: "kh5_recv_crc h5 = Inr h5' \<Longrightarrow> krx_rank h5' < 2"
  by (auto simp: kh5_recv_crc_def bind_result_eq_Inr split: if_splits
      dest: kh5_drop_state kh5_complete_state intro: krx_rank_delim)

lemma kh5_recv_iter_rank: "kh5_recv_iter h5 b = Inr (KRxKeep, h5') \<Longrightarrow> krx_rank h5' < krx_rank h5"
  by (cases "k_rx_state h5")
     (auto simp: kh5_recv_iter_def bind_result_eq_Inr krx_rank_def [of h5] kh5_recv_start_def next_alloc_def Let_def
        split: if_splits dest!: kh5_recv_hdr_rank kh5_recv_data_rank kh5_recv_crc_rank simp: krx_rank_def)

text \<open>The return value of the C function is 0 on every path: the bytes not consumed are dropped.\<close>

function kh5_recv :: "h5_struct \<Rightarrow> byte list \<Rightarrow> h5_struct result" where
  "kh5_recv h5 [] = Inr h5"
| "kh5_recv h5 (b # bs) =
     bind_result (kh5_recv_iter h5 b) (\<lambda>(act, h5').
       case act of KRxConsume \<Rightarrow> kh5_recv h5' bs | KRxKeep \<Rightarrow> kh5_recv h5' (b # bs) | KRxReturn \<Rightarrow> Inr h5')"
  by pat_completeness auto
termination
  by (relation "measures [length \<circ> snd, krx_rank \<circ> fst]") (auto dest: kh5_recv_iter_rank)

section \<open>Opening and closing\<close>

definition h5_zero :: h5_struct where
  "h5_zero =
     \<lparr>k_unack = [], k_rel = [], k_unrel = [], k_rx_count = 0, k_rx_skb = KNull, k_retrans = False,
      k_rx_state = H5_W4_PKT_DELIMITER, k_rx_esc_state = H5_ESCSTATE_NOESC, k_message_crc = 0, k_use_crc = 0,
      k_rxack = 0, k_rxseq_txack = 0, k_txack_req = 0, k_msgq_txseq = 0, k_allocs = [], k_out = []\<rparr>"

text \<open>\<open>None\<close> is the result \<open>-ENOMEM\<close>; the argument holds the outcomes of the allocations.\<close>

definition h5_open :: "bool list \<Rightarrow> h5_struct option" where
  "h5_open allocs =
     (case next_alloc allocs of (ok, al) \<Rightarrow>
        if \<not> ok then None
        else Some (h5_zero\<lparr>k_allocs := al, k_rx_state := H5_W4_PKT_DELIMITER,
                           k_use_crc := (if txcrc \<noteq> 0 then 1 else 0)\<rparr>))"

text \<open>Closing stops the retransmission and frees the queued buffers: the result is what is freed.\<close>

definition h5_close :: "h5_struct \<Rightarrow> kskb list" where
  "h5_close h5 = k_unack h5 @ k_rel h5 @ k_unrel h5"

end
