(* ===== verification/Kernel_H5_Props.thy ===== *)
theory Kernel_H5_Props
  imports Kernel_H5
begin

text \<open>
  What the parts of the kernel's three-wire protocol do: the frame a packet becomes, how the receiver
  runs through a frame, and the invariant under which no sequence of received bytes causes a memory
  fault. The two-sided theorems are in \<open>Kernel_Link\<close>.
\<close>

section \<open>The same wire format as the attach tool\<close>

lemma kh5_crc_update_eq [simp]: "kh5_crc_update = h5_crc_update"
  by (simp add: fun_eq_iff kh5_crc_update_def h5_crc_update_def kcrc_table_def crc_table_def)

lemma KH5_CRC_INIT_eq [simp]: "KH5_CRC_INIT = H5_CRC_INIT"
  by (simp add: KH5_CRC_INIT_def H5_CRC_INIT_def)

lemma kh5_slip_one_byte_eq: "kh5_slip_one_byte skb c = kskb_put skb (slip_byte c)"
  by (simp add: kh5_slip_one_byte_def slip_byte_def)

lemma kh5_header_eq: "kh5_header rel a s crc len (word_of_nat t) = h5_tx_header rel a s crc len t"
  by (simp add: kh5_header_def h5_tx_header_def)

lemma length_kh5_header [simp]: "length (kh5_header rel a s crc len chan) = 4"
  by (simp add: kh5_header_def Let_def)

lemma kskb_put_type: "kskb_put skb bs = Inr skb' \<Longrightarrow> kpkt_type skb' = kpkt_type skb"
  by (auto simp: kskb_put_def split: if_splits)

text \<open>The encoding loops leave the stuffed bytes, and their room is always sufficient.\<close>

lemma kencode_bytes:
  assumes "2 * length bs \<le> ktailroom skb"
  shows "\<exists>skb'. res_fold (\<lambda>c s. kh5_slip_one_byte s c) bs skb = Inr skb' \<and> kdata skb' = kdata skb @ slip bs \<and>
    ktailroom skb - 2 * length bs \<le> ktailroom skb' \<and> kpkt_type skb' = kpkt_type skb"
  using assms
proof (induction bs arbitrary: skb)
  case (Cons c bs)
  have c: "length (slip_byte c) \<le> 2" by (rule length_slip_byte)
  let ?s = "skb\<lparr>kdata := kdata skb @ slip_byte c, ktailroom := ktailroom skb - length (slip_byte c)\<rparr>"
  from Cons.prems c have p: "kh5_slip_one_byte skb c = Inr ?s"
    by (simp add: kh5_slip_one_byte_eq kskb_put_def)
  from Cons.prems c Cons.IH [of ?s] p show ?case by fastforce
qed simp

lemma kencode_pair:
  "res_fold (kh5_encode_byte on) bs (skb, crc) =
     bind_result (res_fold (\<lambda>c s. kh5_slip_one_byte s c) bs skb) (\<lambda>s. Inr (s, if on then h5_crc crc bs else crc))"
  by (induction bs arbitrary: skb crc) (auto simp: kh5_encode_byte_def bind_result_def split: sum.splits)

lemma kencode_crc:
  "kh5_encode_crc on nskb (if on then h5_crc H5_CRC_INIT bs else c) =
     res_fold (\<lambda>c s. kh5_slip_one_byte s c) (crc_trailer on bs) nskb"
  by (simp add: kh5_encode_crc_def crc_trailer_def Let_def bind_result_def split: sum.splits)

lemma kencode_frame:
  assumes "kdata skb = [0xc0]" "2 * length bs + 5 \<le> ktailroom skb"
  shows "\<exists>skb'. bind_result (res_fold (kh5_encode_byte on) bs (skb, KH5_CRC_INIT)) (\<lambda>(nskb, crc).
      bind_result (kh5_encode_crc on nskb crc) kh5_slip_msgdelim) = Inr skb' \<and>
      kdata skb' = h5_frame on bs \<and> kpkt_type skb' = kpkt_type skb"
proof -
  from assms kencode_bytes [of bs skb] obtain s1 where s1:
      "res_fold (\<lambda>c s. kh5_slip_one_byte s c) bs skb = Inr s1" "kdata s1 = 0xc0 # slip bs" "5 \<le> ktailroom s1"
      "kpkt_type s1 = kpkt_type skb"
    by auto
  from s1(3) kencode_bytes [of "crc_trailer on bs" s1] length_crc_trailer [of on bs] obtain s2 where s2:
      "res_fold (\<lambda>c s. kh5_slip_one_byte s c) (crc_trailer on bs) s1 = Inr s2"
      "kdata s2 = kdata s1 @ slip (crc_trailer on bs)" "1 \<le> ktailroom s2" "kpkt_type s2 = kpkt_type s1"
    by force
  with s1 show ?thesis
    by (simp add: kencode_pair kencode_crc kh5_slip_msgdelim_def kskb_put_def h5_frame_def)
qed

text \<open>A packet of a known type becomes a frame, if there is memory for it.\<close>

definition kframe :: "h5_struct \<Rightarrow> byte list \<Rightarrow> byte \<Rightarrow> bool \<Rightarrow> byte list" where
  "kframe h5 data chan rel =
     h5_frame (k_use_crc h5 \<noteq> 0)
       (kh5_header rel (k_rxseq_txack h5) (k_msgq_txseq h5) (k_use_crc h5 \<noteq> 0) (length data) chan @ data)"

definition kprepared :: "h5_struct \<Rightarrow> bool \<Rightarrow> h5_struct" where
  "kprepared h5 rel =
     h5\<lparr>k_allocs := tl (k_allocs h5), k_txack_req := 0,
        k_msgq_txseq := (if rel then (k_msgq_txseq h5 + 1) AND 0x07 else k_msgq_txseq h5)\<rparr>"

lemma kh5_prepare_pkt_frame:
  assumes "kh5_chan t = Some (chan, rel)" "fst (next_alloc (k_allocs h5))"
  obtains nskb where "kh5_prepare_pkt h5 data t = Inr (Some nskb, kprepared h5 rel)"
    "kdata nskb = kframe h5 data chan rel" "kpkt_type nskb = t"
proof -
  let ?on = "k_use_crc h5 \<noteq> 0" and ?room = "(length data + 6) * 2 + 2"
  let ?hdr = "kh5_header rel (k_rxseq_txack h5) (k_msgq_txseq h5) ?on (length data) chan"
  let ?s = "\<lparr>kpkt_type = t, kdata = [0xc0], ktailroom = ?room - 1\<rparr>"
  have d: "kh5_slip_msgdelim ((kalloc_skb ?room)\<lparr>kpkt_type := t\<rparr>) = Inr ?s"
    by (simp add: kh5_slip_msgdelim_def kskb_put_def kalloc_skb_def)
  obtain nskb where n: "bind_result (res_fold (kh5_encode_byte ?on) (?hdr @ data) (?s, KH5_CRC_INIT)) (\<lambda>(nskb, crc).
      bind_result (kh5_encode_crc ?on nskb crc) kh5_slip_msgdelim) = Inr nskb"
      "kdata nskb = h5_frame ?on (?hdr @ data)" "kpkt_type nskb = t"
    using kencode_frame [of ?s "?hdr @ data" ?on] by auto
  then have "kh5_prepare_pkt h5 data t = Inr (Some nskb, kprepared h5 rel)"
    using assms d
    by (auto simp: kh5_prepare_pkt_def next_alloc_def Let_def res_fold_append bind_result_assoc bind_result_eq_Inr
        split_def kprepared_def)
  with n that show thesis by (simp add: kframe_def)
qed

lemma kh5_prepare_pkt_fail:
  "kh5_chan t = Some (chan, rel) \<Longrightarrow> \<not> fst (next_alloc (k_allocs h5)) \<Longrightarrow>
   kh5_prepare_pkt h5 data t = Inr (None, h5\<lparr>k_allocs := tl (k_allocs h5)\<rparr>)"
  by (simp add: kh5_prepare_pkt_def next_alloc_def Let_def)

text \<open>Every outcome of \<open>h5_prepare_pkt\<close>.\<close>

lemma kh5_prepare_pkt_cases:
  obtains (unknown) "kh5_chan t = None" "kh5_prepare_pkt h5 data t = Inr (None, h5)"
  | (nomem) chan rel where "kh5_chan t = Some (chan, rel)"
      "kh5_prepare_pkt h5 data t = Inr (None, h5\<lparr>k_allocs := tl (k_allocs h5)\<rparr>)"
  | (frame) chan rel nskb where "kh5_chan t = Some (chan, rel)"
      "kh5_prepare_pkt h5 data t = Inr (Some nskb, kprepared h5 rel)"
      "kdata nskb = kframe h5 data chan rel" "kpkt_type nskb = t"
proof (cases "kh5_chan t")
  case None
  then show thesis by (intro unknown) (simp_all add: kh5_prepare_pkt_def)
next
  case (Some p)
  then obtain chan rel where p: "kh5_chan t = Some (chan, rel)" by (cases p) simp
  show thesis
  proof (cases "fst (next_alloc (k_allocs h5))")
    case True
    from kh5_prepare_pkt_frame [OF p True, of data] frame [OF p] show thesis by blast
  next
    case False
    with p show thesis by (intro nomem) (simp_all add: kh5_prepare_pkt_fail)
  qed
qed

section \<open>Sequence numbers as counters\<close>

text \<open>The three-bit sequence number of the \<open>n\<close>-th packet.\<close>

definition seq8 :: "nat \<Rightarrow> byte" where
  "seq8 n = word_of_nat (n mod 8)"

lemma seq8_less [simp]: "seq8 n < 8"
  by (simp add: seq8_def word_less_nat_alt unsigned_of_nat take_bit_nat_eq_self)

lemma unat_seq8 [simp]: "unat (seq8 n) = n mod 8"
  by (simp add: seq8_def unsigned_of_nat take_bit_nat_eq_self)

lemma seq8_eq_iff [simp]: "seq8 m = seq8 n \<longleftrightarrow> m mod 8 = n mod 8"
  by (metis unat_seq8 seq8_def)

lemma seq8_of_less: "x < 8 \<Longrightarrow> x = seq8 (unat x)"
  by (simp add: seq8_def word_less_nat_alt)

text \<open>Stepping the counter up and down, in the three ways the code does it.\<close>

lemma mod8_enum: "n mod 8 \<in> {0, 1, 2, 3, 4, 5, 6, 7 :: nat}"
  by auto

lemma seq8_step:
  "(seq8 n + 1) AND 0x07 = seq8 (Suc n)" "(seq8 n + 1) mod 8 = seq8 (Suc n)"
  "(seq8 (Suc n) - 1) AND 0x07 = seq8 n"
  using mod8_enum [of n] unfolding seq8_def mod_Suc by (elim insertE emptyE; simp)+

text \<open>Counters that are close together have the same number only if they are equal.\<close>

lemma seq8_close: "seq8 m = seq8 n \<Longrightarrow> m < n + 8 \<Longrightarrow> n < m + 8 \<Longrightarrow> m = n"
proof (induction m n rule: linorder_wlog)
  case (le a b)
  then have "8 dvd b - a" by (simp add: mod_eq_dvd_iff_nat [symmetric])
  with le show ?case by (auto dest: dvd_imp_le)
qed simp

section \<open>Acknowledgement and retransmission\<close>

lemma cull_count_le: "cull_count n a s \<le> n"
  by (induction n a s rule: cull_count.induct) auto

text \<open>
  With the packets \<open>b\<close> to \<open>b + k - 1\<close> outstanding, an acknowledgement of everything before \<open>a\<close>
  removes exactly these; a number outside the window removes nothing.
\<close>

lemma cull_count_exact:
  assumes "b \<le> a" "a < b + 8" "k < 8"
  shows "cull_count k (seq8 a) (seq8 (b + k)) = (if a \<le> b + k then a - b else 0)"
  using assms(3)
proof (induction k)
  case (Suc k)
  show ?case
  proof (cases "a = b + Suc k")
    case False
    then have "seq8 a \<noteq> seq8 (b + Suc k)"
      using seq8_close [of a "b + Suc k"] assms(1,2) Suc.prems by linarith
    with False Suc show ?thesis by (auto simp: seq8_step simp del: seq8_eq_iff)
  qed simp
qed (use assms in simp)

lemma h5_pkt_cull_eq:
  "h5_pkt_cull h5 =
     (let q = drop (cull_count (length (k_unack h5)) (k_rxack h5) (k_msgq_txseq h5)) (k_unack h5)
      in h5\<lparr>k_unack := q, k_retrans := (q \<noteq> [] \<and> k_retrans h5)\<rparr>)"
  by (simp add: h5_pkt_cull_def Let_def)

lemma requeue_loop_eq:
  "k_msgq_txseq h5 = seq8 (b + length (k_unack h5)) \<Longrightarrow>
   requeue_loop h5 = h5\<lparr>k_unack := [], k_rel := k_unack h5 @ k_rel h5, k_msgq_txseq := seq8 b\<rparr>"
proof (induction h5 rule: requeue_loop.induct)
  case (1 h5)
  show ?case
  proof (cases "k_unack h5 = []")
    case True
    with 1(2) show ?thesis by (simp add: requeue_loop.simps [of h5])
  next
    case False
    then obtain q x where q: "k_unack h5 = q @ [x]" by (cases "k_unack h5" rule: rev_cases) auto
    with 1(1) [OF False] 1(2) show ?thesis
      by (subst requeue_loop.simps) (simp add: seq8_step)
  qed
qed

section \<open>The receiver running through a frame\<close>

text \<open>A receiver that has stored the bytes \<open>xs\<close> of a packet and waits for \<open>n\<close> more.\<close>

definition krx_at :: "h5_struct \<Rightarrow> h5_rx_state \<Rightarrow> byte list \<Rightarrow> nat \<Rightarrow> u16 \<Rightarrow> h5_struct" where
  "krx_at h5 st xs n crc =
     h5\<lparr>k_rx_state := st, k_rx_count := word_of_nat n, k_rx_esc_state := H5_ESCSTATE_NOESC, k_message_crc := crc,
        k_rx_skb := KLive \<lparr>kpkt_type = 0, kdata = xs, ktailroom = 0x1005 - length xs\<rparr>\<rparr>"

definition krx_crc :: "h5_rx_state \<Rightarrow> byte \<Rightarrow> u16 \<Rightarrow> byte list \<Rightarrow> u16" where
  "krx_crc st d0 crc cs = (if d0 AND 0x40 \<noteq> 0 \<and> st \<noteq> H5_W4_CRC then h5_crc crc cs else crc)"

lemma krx_count_pos: "n < 2 ^ 64 \<Longrightarrow> (word_of_nat n :: 64 word) = 0 \<longleftrightarrow> n = 0"
  by (auto simp: word_of_nat_eq_0_iff dest: dvd_imp_le)

lemma word64_dec: "(word_of_nat (Suc n) :: 64 word) - 1 = word_of_nat n"
  by simp

lemma kstore_at:
  assumes "length xs < 0x1005"
  shows "kh5_store_byte c (krx_at h5 st xs (Suc n) crc) =
    Inr (krx_at h5 st (xs @ [c]) n (krx_crc st (hd (xs @ [c])) crc [c]))"
proof -
  have "(xs @ [c]) ! 0 = hd (xs @ [c])" by (simp add: hd_conv_nth)
  with assms show ?thesis
    by (simp add: kh5_store_byte_def krx_at_def kskb_put_def krx_crc_def word64_dec del: of_nat_Suc)
qed

lemma kh5_recv_Cons_consume:
  "kh5_recv_iter h5 b = Inr (KRxConsume, h5') \<Longrightarrow> kh5_recv h5 (b # bs) = kh5_recv h5' bs"
  by simp

lemma kh5_recv_feed1:
  assumes "length xs < 0x1005" "Suc n < 2 ^ 64"
  shows "kh5_recv (krx_at h5 st xs (Suc n) crc) (slip_byte c @ bs) =
    kh5_recv (krx_at h5 st (xs @ [c]) n (krx_crc st (hd (xs @ [c])) crc [c])) bs"
proof -
  let ?h = "krx_at h5 st xs (Suc n) crc" and ?h' = "krx_at h5 st (xs @ [c]) n (krx_crc st (hd (xs @ [c])) crc [c])"
  have cnt: "k_rx_count ?h \<noteq> 0" using assms(2) krx_count_pos [of "Suc n"] by (simp add: krx_at_def del: of_nat_Suc)
  have esc: "k_rx_esc_state ?h = H5_ESCSTATE_NOESC" by (simp add: krx_at_def)
  note st = kstore_at [OF assms(1)]
  show ?thesis
  proof (cases c rule: slip_byte_cases)
    case plain
    with cnt esc have "kh5_recv_iter ?h c = Inr (KRxConsume, ?h')"
      by (simp add: kh5_recv_iter_def kh5_unslip_one_byte_def st)
    with plain show ?thesis by simp
  next
    case (escaped e)
    let ?he = "?h\<lparr>k_rx_esc_state := H5_ESCSTATE_ESC\<rparr>"
    have "kh5_store_byte c ?he = kh5_store_byte c ?h" for c
      by (simp add: kh5_store_byte_def krx_at_def cong: if_cong)
    with escaped cnt st have "kh5_recv_iter ?he e = Inr (KRxConsume, ?h')"
      by (auto simp: kh5_recv_iter_def kh5_unslip_one_byte_def unescape_def split: if_splits)
    moreover from cnt esc have "kh5_recv_iter ?h 0xdb = Inr (KRxConsume, ?he)"
      by (simp add: kh5_recv_iter_def kh5_unslip_one_byte_def)
    ultimately show ?thesis using escaped by simp
  qed
qed

lemma krx_crc_append: "krx_crc st d0 (krx_crc st d0 crc [c]) cs = krx_crc st d0 crc (c # cs)"
  by (simp add: krx_crc_def)

lemma kh5_recv_feed:
  assumes "length xs + length cs \<le> 0x1005" "n + length cs < 2 ^ 64" "xs @ cs = d0 # ds"
  shows "kh5_recv (krx_at h5 st xs (n + length cs) crc) (slip cs @ bs) =
    kh5_recv (krx_at h5 st (xs @ cs) n (krx_crc st d0 crc cs)) bs"
  using assms
proof (induction cs arbitrary: xs crc)
  case Nil
  then show ?case by (simp add: krx_crc_def)
next
  case (Cons c cs)
  have hd: "hd (xs @ [c]) = d0" using Cons.prems(3) by (cases xs) auto
  from Cons.prems kh5_recv_feed1 [of xs "n + length cs" h5 st crc c "slip cs @ bs"]
  have "kh5_recv (krx_at h5 st xs (n + length (c # cs)) crc) (slip (c # cs) @ bs) =
      kh5_recv (krx_at h5 st (xs @ [c]) (n + length cs) (krx_crc st d0 crc [c])) (slip cs @ bs)"
    by (simp add: hd)
  also have "\<dots> = kh5_recv (krx_at h5 st ((xs @ [c]) @ cs) n (krx_crc st d0 (krx_crc st d0 crc [c]) cs)) bs"
    by (rule Cons.IH) (use Cons.prems in simp_all)
  finally show ?case by (simp add: krx_crc_append)
qed

text \<open>Between packets: the opening delimiter and the first byte allocate a buffer, or end the call.\<close>

definition krx_idle :: "h5_struct \<Rightarrow> bool" where
  "krx_idle h5 \<longleftrightarrow> k_rx_count h5 = 0 \<and> k_rx_state h5 \<in> {H5_W4_PKT_DELIMITER, H5_W4_PKT_START}"

lemma kh5_recv_keep:
  "bs \<noteq> [] \<Longrightarrow> (\<And>b. kh5_recv_iter h5 b = bind_result m (\<lambda>h5. Inr (KRxKeep, h5))) \<Longrightarrow>
   kh5_recv h5 bs = bind_result m (\<lambda>h5. kh5_recv h5 bs)"
  by (cases bs; cases m) auto

lemma kh5_recv_open:
  assumes "krx_idle h5" "b \<noteq> 0xc0" "fst (next_alloc (k_allocs h5))"
  shows "kh5_recv h5 (0xc0 # b # bs) =
    kh5_recv (krx_at (h5\<lparr>k_allocs := tl (k_allocs h5)\<rparr>) H5_W4_HDR [] 4 H5_CRC_INIT) (b # bs)"
proof -
  let ?h = "h5\<lparr>k_rx_state := H5_W4_PKT_START\<rparr>"
  let ?s = "krx_at (h5\<lparr>k_allocs := tl (k_allocs h5)\<rparr>) H5_W4_HDR [] 4 H5_CRC_INIT"
  from assms(1) have "kh5_recv h5 (0xc0 # b # bs) = kh5_recv ?h (b # bs)"
    by (intro kh5_recv_Cons_consume) (auto simp: kh5_recv_iter_def krx_idle_def)
  moreover from assms have "kh5_recv_iter ?h b = Inr (KRxKeep, ?s)"
    by (auto simp: kh5_recv_iter_def kh5_recv_start_def next_alloc_def krx_idle_def krx_at_def kalloc_skb_def Let_def)
  ultimately show ?thesis by simp
qed

lemma kh5_recv_open_fail:
  assumes "krx_idle h5" "b \<noteq> 0xc0" "\<not> fst (next_alloc (k_allocs h5))"
  shows "kh5_recv h5 (0xc0 # b # bs) =
    Inr (h5\<lparr>k_allocs := tl (k_allocs h5), k_rx_state := H5_W4_PKT_DELIMITER, k_rx_count := 0, k_rx_skb := KNull,
            k_rx_esc_state := H5_ESCSTATE_NOESC, k_message_crc := H5_CRC_INIT\<rparr>)"
proof -
  let ?h = "h5\<lparr>k_rx_state := H5_W4_PKT_START\<rparr>"
  from assms(1) have "kh5_recv h5 (0xc0 # b # bs) = kh5_recv ?h (b # bs)"
    by (intro kh5_recv_Cons_consume) (auto simp: kh5_recv_iter_def krx_idle_def)
  with assms show ?thesis
    by (auto simp: kh5_recv_iter_def kh5_recv_start_def next_alloc_def krx_idle_def Let_def)
qed

text \<open>Bytes without a delimiter are skipped while the receiver waits for one.\<close>

lemma kh5_recv_skip:
  "k_rx_state h5 = H5_W4_PKT_DELIMITER \<Longrightarrow> k_rx_count h5 = 0 \<Longrightarrow> 0xc0 \<notin> set cs \<Longrightarrow>
   kh5_recv h5 (cs @ [0xc0]) = Inr (h5\<lparr>k_rx_state := H5_W4_PKT_START\<rparr>)"
  by (induction cs) (auto simp: kh5_recv_iter_def)

declare kh5_recv.simps(2) [simp del]

section \<open>A whole frame\<close>

text \<open>The state apart from the position inside a packet.\<close>

definition kcore :: "h5_struct \<Rightarrow> h5_struct" where
  "kcore h5 =
     h5\<lparr>k_rx_count := 0, k_rx_skb := KNull, k_rx_state := H5_W4_PKT_DELIMITER, k_rx_esc_state := H5_ESCSTATE_NOESC,
        k_message_crc := 0, k_allocs := []\<rparr>"

text \<open>What a packet with an accepted header does to the state.\<close>

definition kh5_accept :: "byte \<Rightarrow> byte \<Rightarrow> byte list \<Rightarrow> h5_struct \<Rightarrow> h5_struct" where
  "kh5_accept d0 d1 data h5 =
     (let h5 = kh5_upcall TxWakeup (h5_pkt_cull (kh5_bookkeep d0 h5)) in
      case kh5_classify d0 d1 of None \<Rightarrow> h5
      | Some t \<Rightarrow> kh5_pass_up \<lparr>kpkt_type = t, kdata = data, ktailroom = 0x1001 - length data\<rparr> h5)"

lemma kh5_accept_frame [simp]:
  "k_rx_count (kh5_accept d0 d1 data h5) = k_rx_count h5" "k_rel (kh5_accept d0 d1 data h5) = k_rel h5"
  "k_unrel (kh5_accept d0 d1 data h5) = k_unrel h5" "k_msgq_txseq (kh5_accept d0 d1 data h5) = k_msgq_txseq h5"
  "k_use_crc (kh5_accept d0 d1 data h5) = k_use_crc h5" "k_allocs (kh5_accept d0 d1 data h5) = k_allocs h5"
  by (auto simp: kh5_accept_def kh5_pass_up_def kh5_upcall_def h5_pkt_cull_def kh5_bookkeep_def Let_def split: option.splits)

lemma kcore_accept: "kcore (kh5_accept d0 d1 data h5) = kh5_accept d0 d1 data (kcore h5)"
  by (auto simp: kh5_accept_def kh5_pass_up_def kh5_upcall_def h5_pkt_cull_eq kh5_bookkeep_def kcore_def Let_def
      split: option.splits)

lemma kcore_krx_at [simp]: "kcore (krx_at h5 st xs n crc) = kcore h5"
  by (simp add: kcore_def krx_at_def)

lemma kcore_updates [simp]:
  "kcore (h5\<lparr>k_rx_state := st\<rparr>) = kcore h5" "kcore (h5\<lparr>k_rx_skb := p\<rparr>) = kcore h5"
  "kcore (h5\<lparr>k_rx_count := n\<rparr>) = kcore h5" "kcore (h5\<lparr>k_allocs := al\<rparr>) = kcore h5"
  "kcore (h5\<lparr>k_rx_esc_state := e\<rparr>) = kcore h5" "kcore (h5\<lparr>k_message_crc := c\<rparr>) = kcore h5"
  "kcore (h5\<lparr>k_txack_req := r\<rparr>) = (kcore h5)\<lparr>k_txack_req := r\<rparr>" "kcore (kcore h5) = kcore h5"
  "kcore (kh5_upcall u h5) = kh5_upcall u (kcore h5)"
  by (simp_all add: kcore_def kh5_upcall_def)

lemma krx_at_krx_at [simp]: "krx_at (krx_at h5 st xs n crc) st' xs' n' crc' = krx_at h5 st' xs' n' crc'"
  by (simp add: krx_at_def)

text \<open>A complete packet: the position is reset, and the rest is the accepted packet.\<close>

lemma kh5_complete_at:
  assumes "length data < 0x1000"
  shows "\<exists>h5'. kh5_complete_rx_pkt (krx_at h5 st (h0 # h1 # h2 # h3 # data) 0 crc) = Inr h5' \<and>
    k_rx_state h5' = H5_W4_PKT_DELIMITER \<and> k_rx_count h5' = 0 \<and> kcore h5' = kh5_accept h0 h1 data (kcore h5)"
proof -
  let ?h = "krx_at h5 st (h0 # h1 # h2 # h3 # data) 0 crc"
  have "kh5_complete_rx_pkt ?h =
      Inr ((kh5_accept h0 h1 data ?h)\<lparr>k_rx_state := H5_W4_PKT_DELIMITER, k_rx_skb := KNull\<rparr>)"
    using assms by (simp add: kh5_complete_rx_pkt_def kh5_accept_def krx_at_def kskb_pull_def kskb_at_def Let_def
        split: option.splits)
  then show ?thesis by (simp add: kcore_accept) (simp add: krx_at_def)
qed

lemma kh5_recv_finish:
  "k_rx_state h5 = H5_W4_PKT_DELIMITER \<Longrightarrow> k_rx_count h5 = 0 \<Longrightarrow>
   \<exists>h5'. kh5_recv h5 [0xc0] = Inr h5' \<and> krx_idle h5' \<and> kcore h5' = kcore h5"
  using kh5_recv_skip [of h5 "[]"] by (simp add: krx_idle_def)

lemma kh5_complete_finish:
  assumes "length data < 0x1000"
  shows "\<exists>h5'. bind_result (kh5_complete_rx_pkt (krx_at h5 st (h0 # h1 # h2 # h3 # data) 0 crc)) (\<lambda>h5. kh5_recv h5 [0xc0])
      = Inr h5' \<and> krx_idle h5' \<and> kcore h5' = kh5_accept h0 h1 data (kcore h5)"
  using kh5_complete_at [OF assms, of h5 st h0 h1 h2 h3 crc] kh5_recv_finish by fastforce

text \<open>After the payload: with a checksum two more bytes are read and compared.\<close>

lemma kh5_recv_tail:
  fixes h0 h1 h2 h3 :: byte
  assumes "length data < 0x1000" and on: "on = (h0 AND 0x40 \<noteq> 0)"
  defines "pkt \<equiv> h0 # h1 # h2 # h3 # data"
  shows "\<exists>h5'. kh5_recv (krx_at h5 H5_W4_DATA pkt 0 (krx_crc H5_W4_DATA h0 H5_CRC_INIT pkt))
      (slip (crc_trailer on pkt) @ [0xc0]) = Inr h5' \<and> krx_idle h5' \<and> kcore h5' = kh5_accept h0 h1 data (kcore h5)"
proof (cases on)
  case False
  let ?h = "krx_at h5 H5_W4_DATA pkt 0 (krx_crc H5_W4_DATA h0 H5_CRC_INIT pkt)"
  from False on have "kh5_recv_iter ?h b = bind_result (kh5_complete_rx_pkt ?h) (\<lambda>h5. Inr (KRxKeep, h5))" for b
    by (simp add: kh5_recv_iter_def krx_at_def kh5_recv_data_def pkt_def kskb_at_def)
  from kh5_recv_keep [OF _ this, of "[0xc0]"] False kh5_complete_finish [OF assms(1)] show ?thesis
    by (simp add: crc_trailer_def pkt_def)
next
  case True
  let ?crc = "h5_crc H5_CRC_INIT pkt" and ?n = "length pkt"
  let ?h = "krx_at h5 H5_W4_DATA pkt 0 ?crc"
  obtain t0 t1 where t: "crc_trailer on pkt = [t0, t1]" "le16_of t1 t0 = bit_rev16 ?crc"
    using True by (simp add: crc_trailer_def Let_def)
  let ?c = "krx_at h5 H5_W4_CRC pkt (0 + length [t0, t1]) ?crc" and ?w = "krx_at h5 H5_W4_CRC (pkt @ [t0, t1]) 0 ?crc"
  from True on have "kh5_recv_iter ?h b = bind_result (Inr ?c) (\<lambda>h5. Inr (KRxKeep, h5))" for b
    by (simp add: kh5_recv_iter_def krx_at_def kh5_recv_data_def pkt_def kskb_at_def)
  from kh5_recv_keep [OF _ this, of "slip [t0, t1] @ [0xc0]"]
  have 1: "kh5_recv ?h (slip [t0, t1] @ [0xc0]) = kh5_recv ?c (slip [t0, t1] @ [0xc0])" by simp
  have 2: "kh5_recv ?c (slip [t0, t1] @ [0xc0]) = kh5_recv ?w [0xc0]"
    using kh5_recv_feed [of pkt "[t0, t1]" 0 h0 "h1 # h2 # h3 # data @ [t0, t1]" h5 H5_W4_CRC ?crc "[0xc0]"] assms(1)
    by (simp add: pkt_def krx_crc_def)
  have "bscp_get_crc ?w = Inr (bit_rev16 ?crc)"
    using t(2) by (simp add: bscp_get_crc_def krx_at_def kskb_at_def nth_append le16_of_or Let_def)
  moreover have "?w\<lparr>k_rx_skb := KLive (kskb_trim \<lparr>kpkt_type = 0, kdata = pkt @ [t0, t1],
      ktailroom = 0x1005 - length (pkt @ [t0, t1])\<rparr> ?n)\<rparr> = krx_at h5 H5_W4_CRC pkt 0 ?crc"
    using assms(1) by (simp add: krx_at_def kskb_trim_def pkt_def)
  ultimately have "kh5_recv_crc ?w = kh5_complete_rx_pkt (krx_at h5 H5_W4_CRC pkt 0 ?crc)"
    by (simp add: kh5_recv_crc_def) (simp add: krx_at_def)
  then have "kh5_recv_iter ?w b = bind_result (kh5_complete_rx_pkt (krx_at h5 H5_W4_CRC pkt 0 ?crc))
      (\<lambda>h5. Inr (KRxKeep, h5))" for b
    by (simp add: kh5_recv_iter_def) (simp add: krx_at_def)
  from kh5_recv_keep [OF _ this, of "[0xc0]"] kh5_complete_finish [OF assms(1)]
  have "\<exists>h5'. kh5_recv ?w [0xc0] = Inr h5' \<and> krx_idle h5' \<and> kcore h5' = kh5_accept h0 h1 data (kcore h5)"
    by (simp add: pkt_def)
  with 1 2 t(1) on True show ?thesis by (simp add: krx_crc_def)
qed

text \<open>The header decides: a reliable packet out of sequence is dropped and an acknowledgement requested.\<close>

definition kout_of_order :: "h5_struct \<Rightarrow> byte \<Rightarrow> bool" where
  "kout_of_order h5 h0 \<longleftrightarrow> h0 AND 0x80 \<noteq> 0 \<and> h0 AND 0x07 \<noteq> k_rxseq_txack h5"

lemma kout_of_order_allocs [simp]: "kout_of_order (h5\<lparr>k_allocs := al\<rparr>) h0 = kout_of_order h5 h0"
  by (simp add: kout_of_order_def)

lemma kh5_recv_hdr_at:
  assumes "NOT (h0 + h1 + h2) = h3"
  shows "kh5_recv_hdr (krx_at h5 H5_W4_HDR [h0, h1, h2, h3] 0 crc) =
    Inr (if kout_of_order h5 h0
         then (kh5_upcall TxWakeup ((krx_at h5 H5_W4_HDR [h0, h1, h2, h3] 0 crc)\<lparr>k_txack_req := 1\<rparr>))
                \<lparr>k_rx_skb := KFreed, k_rx_state := H5_W4_PKT_DELIMITER, k_rx_count := 0\<rparr>
         else krx_at h5 H5_W4_DATA [h0, h1, h2, h3] (H5_HDR_LEN h1 h2) crc)"
  using assms
  by (simp add: kh5_recv_hdr_def krx_at_def kskb_at_def kout_of_order_def kh5_drop_rx_def kh5_upcall_def H5_HDR_LEN_def
      numeral_2_eq_2 numeral_3_eq_3)

lemma slip_nonempty_cases:
  assumes "bs \<noteq> []"
  obtains b rest where "slip bs = b # rest" "b \<noteq> 0xc0"
proof (cases bs)
  case (Cons c cs)
  then show thesis by (cases c rule: slip_byte_cases) (auto intro: that)
qed (use assms in simp)

lemma kh5_recv_frame:
  fixes h0 h1 h2 h3 :: byte
  assumes idle: "krx_idle h5" "fst (next_alloc (k_allocs h5))"
    and hdr: "NOT (h0 + h1 + h2) = h3" "H5_HDR_LEN h1 h2 = length data" "length data < 0x1000"
    and on: "on = (h0 AND 0x40 \<noteq> 0)"
  shows "\<exists>h5'. kh5_recv h5 (h5_frame on (h0 # h1 # h2 # h3 # data)) = Inr h5' \<and> krx_idle h5' \<and>
    kcore h5' = (if kout_of_order h5 h0 then kh5_upcall TxWakeup ((kcore h5)\<lparr>k_txack_req := 1\<rparr>)
                 else kh5_accept h0 h1 data (kcore h5))"
proof -
  let ?H = "[h0, h1, h2, h3]" and ?g = "h5\<lparr>k_allocs := tl (k_allocs h5)\<rparr>"
  let ?pkt = "?H @ data" and ?crc = "krx_crc H5_W4_HDR h0 H5_CRC_INIT ?H"
  let ?t = "crc_trailer on ?pkt"
  let ?R = "slip data @ slip ?t @ [0xc0]"
  obtain b rest where b: "slip ?H = b # rest" "b \<noteq> 0xc0" by (rule slip_nonempty_cases [of ?H]) simp
  have four: "0 + length ?H = 4" by simp
  from kh5_recv_open [OF idle(1) b(2) idle(2), of "rest @ ?R"]
  have 1: "kh5_recv h5 (0xc0 # slip ?H @ ?R) = kh5_recv (krx_at ?g H5_W4_HDR [] (0 + length ?H) H5_CRC_INIT) (slip ?H @ ?R)"
    unfolding b(1) four by simp
  have 2: "kh5_recv (krx_at ?g H5_W4_HDR [] (0 + length ?H) H5_CRC_INIT) (slip ?H @ ?R) =
      kh5_recv (krx_at ?g H5_W4_HDR ?H 0 ?crc) ?R"
    using kh5_recv_feed [of "[]" ?H 0 h0 "[h1, h2, h3]" ?g H5_W4_HDR H5_CRC_INIT ?R] by simp
  have "kh5_recv_iter (krx_at ?g H5_W4_HDR ?H 0 ?crc) b =
      bind_result (kh5_recv_hdr (krx_at ?g H5_W4_HDR ?H 0 ?crc)) (\<lambda>h5. Inr (KRxKeep, h5))" for b
    by (simp add: kh5_recv_iter_def) (simp add: krx_at_def)
  from kh5_recv_keep [OF _ this, of ?R]
  have 3: "kh5_recv (krx_at ?g H5_W4_HDR ?H 0 ?crc) ?R =
      bind_result (kh5_recv_hdr (krx_at ?g H5_W4_HDR ?H 0 ?crc)) (\<lambda>h5. kh5_recv h5 ?R)"
    by simp
  have frame: "h5_frame on (h0 # h1 # h2 # h3 # data) = 0xc0 # slip ?H @ ?R" by (simp add: h5_frame_def)
  show ?thesis
  proof (cases "kout_of_order h5 h0")
    case True
    let ?d = "(kh5_upcall TxWakeup ((krx_at ?g H5_W4_HDR ?H 0 ?crc)\<lparr>k_txack_req := 1\<rparr>))
                \<lparr>k_rx_skb := KFreed, k_rx_state := H5_W4_PKT_DELIMITER, k_rx_count := 0\<rparr>"
    have "0xc0 \<notin> set (slip (data @ ?t))" using slip_clean [of "data @ ?t"] by blast
    with kh5_recv_skip [of ?d "slip (data @ ?t)"] have "kh5_recv ?d ?R = Inr (?d\<lparr>k_rx_state := H5_W4_PKT_START\<rparr>)"
      by simp
    with True show ?thesis
      by (simp only: frame 1 2 3 kh5_recv_hdr_at [OF hdr(1)]) (simp add: krx_idle_def)
  next
    case False
    have "krx_crc H5_W4_DATA h0 ?crc data = krx_crc H5_W4_DATA h0 H5_CRC_INIT ?pkt"
      by (simp add: krx_crc_def)
    with kh5_recv_feed [of ?H data 0 h0 "[h1, h2, h3] @ data" ?g H5_W4_DATA ?crc "slip ?t @ [0xc0]"] hdr(3)
    have "kh5_recv (krx_at ?g H5_W4_DATA ?H (length data) ?crc) ?R =
        kh5_recv (krx_at ?g H5_W4_DATA ?pkt 0 (krx_crc H5_W4_DATA h0 H5_CRC_INIT ?pkt)) (slip ?t @ [0xc0])"
      by simp
    with False kh5_recv_tail [OF hdr(3) on, of ?g h1 h2 h3] show ?thesis
      by (simp only: frame 1 2 3 kh5_recv_hdr_at [OF hdr(1)]) (simp add: hdr(2))
  qed
qed

end
