(* ===== verification/Kernel_Link.thy ===== *)
theory Kernel_Link
  imports Kernel_H5_Props
begin

text \<open>
  Reliable delivery of the kernel's three-wire protocol: two endpoints that run the code of
  \<open>hci_rtk_h5.c\<close>, joined by two serial lines that keep the order of frames but may lose any of
  them. Every packet accepted by \<open>h5_enqueue\<close> for a reliable channel is delivered at most once and
  in order, whatever the interleaving of sending, receiving, losing and timing out.
\<close>

section \<open>Packets on the line\<close>

text \<open>A packet with its counters before they are cut to three bits.\<close>

record apkt =
  ap_rel :: bool
  ap_ack :: nat
  ap_seq :: nat
  ap_crc :: bool
  ap_type :: nat
  ap_data :: "byte list"

definition apkt_bytes :: "apkt \<Rightarrow> byte list" where
  "apkt_bytes p =
     h5_frame (ap_crc p) (kh5_header (ap_rel p) (seq8 (ap_ack p)) (seq8 (ap_seq p)) (ap_crc p) (length (ap_data p))
       (word_of_nat (ap_type p)) @ ap_data p)"

definition apkt_ok :: "apkt \<Rightarrow> bool" where
  "apkt_ok p \<longleftrightarrow> kh5_chan (ap_type p) = Some (word_of_nat (ap_type p), ap_rel p) \<and> length (ap_data p) < 0x1000"

lemma kh5_chan_type: "kh5_chan t = Some (c, r) \<Longrightarrow> c = word_of_nat t \<and> t < 16"
  by (auto simp: kh5_chan_def kpkt_defs split: if_splits)

text \<open>The fields a receiver reads from the first two header bytes.\<close>

lemma kheader0:
  fixes rel crc :: bool
  assumes "a < (8 :: byte)" "s < (8 :: byte)"
  defines "h \<equiv> (let h = push_bit 3 a; h = (if rel then h OR (0x80 + s) else h)
                in if crc then h OR 0x40 else h)"
  shows "h AND 0x80 \<noteq> 0 \<longleftrightarrow> rel" "h AND 0x40 \<noteq> 0 \<longleftrightarrow> crc" "drop_bit 3 h AND 0x07 = a" "rel \<Longrightarrow> h AND 0x07 = s"
  using byte_less8_cases [OF assms(1)] byte_less8_cases [OF assms(2)]
  unfolding h_def Let_def
  by (elim insertE; force)+

lemma kheader_fields:
  assumes "t < 16" "len < 4096"
  obtains h0 h1 h2 h3 where "kh5_header rel (seq8 a) (seq8 s) on len (word_of_nat t) = [h0, h1, h2, h3]"
    "NOT (h0 + h1 + h2) = h3" "H5_HDR_LEN h1 h2 = len" "h0 AND 0x80 \<noteq> 0 \<longleftrightarrow> rel" "h0 AND 0x40 \<noteq> 0 \<longleftrightarrow> on"
    "drop_bit 3 h0 AND 0x07 = seq8 a" "rel \<longrightarrow> h0 AND 0x07 = seq8 s" "h1 AND 0x0f = word_of_nat t"
proof -
  let ?h0 = "let h = push_bit 3 (seq8 a); h = (if rel then h OR (0x80 + seq8 s) else h) in if on then h OR 0x40 else h"
  let ?h1 = "push_bit 4 (word_of_nat len) OR word_of_nat t :: byte" and ?h2 = "word_of_nat (len div 16) :: byte"
  have "kh5_header rel (seq8 a) (seq8 s) on len (word_of_nat t) = [?h0, ?h1, ?h2, NOT (?h0 + ?h1 + ?h2)]"
    by (simp only: kh5_header_def Let_def)
  from that [OF this refl hdr_len [OF assms] kheader0(1-3) [OF seq8_less seq8_less]
      impI [OF kheader0(4) [OF seq8_less seq8_less]]]
    hdr1_type [OF assms(1), of len] show thesis
    by (simp only: H5_HDR_PKT_TYPE_def)
qed

section \<open>One packet received\<close>

text \<open>The message of a reliable packet that is passed up.\<close>

definition reliable_type :: "nat \<Rightarrow> bool" where
  "reliable_type t \<longleftrightarrow> t = HCI_ACLDATA_PKT \<or> t = HCI_COMMAND_PKT \<or> t = HCI_EVENT_PKT"

definition delivered :: "h5_struct \<Rightarrow> (nat \<times> byte list) list" where
  "delivered h5 = map skb_msg (filter (\<lambda>skb. reliable_type (kpkt_type skb)) (frames_up (k_out h5)))"

lemma kh5_classify_type:
  assumes "kh5_chan t = Some (word_of_nat t, rel)" "h0 AND 0x80 \<noteq> 0 \<longleftrightarrow> rel" "h1 AND 0x0f = word_of_nat t"
  shows "if rel then kh5_classify h0 h1 = Some t \<and> reliable_type t
         else case kh5_classify h0 h1 of None \<Rightarrow> True | Some t' \<Rightarrow> t' = t \<and> \<not> reliable_type t"
  using assms by (auto simp: kh5_chan_def kh5_classify_def kpkt_defs reliable_type_def Let_def split: if_splits)

lemma kcore_fields [simp]:
  "k_unack (kcore h5) = k_unack h5" "k_rel (kcore h5) = k_rel h5" "k_unrel (kcore h5) = k_unrel h5"
  "k_retrans (kcore h5) = k_retrans h5" "k_use_crc (kcore h5) = k_use_crc h5" "k_rxack (kcore h5) = k_rxack h5"
  "k_rxseq_txack (kcore h5) = k_rxseq_txack h5" "k_txack_req (kcore h5) = k_txack_req h5"
  "k_msgq_txseq (kcore h5) = k_msgq_txseq h5" "k_out (kcore h5) = k_out h5" "delivered (kcore h5) = delivered h5"
  by (simp_all add: kcore_def delivered_def)

text \<open>Equal cores agree in every field that is not about the position in a packet.\<close>

lemma kcore_eqD:
  assumes "kcore h = kcore g"
  shows "k_unack h = k_unack g" "k_rel h = k_rel g" "k_unrel h = k_unrel g" "k_retrans h = k_retrans g"
    "k_use_crc h = k_use_crc g" "k_rxseq_txack h = k_rxseq_txack g" "k_msgq_txseq h = k_msgq_txseq g"
    "delivered h = delivered g"
  by (metis kcore_fields assms)+

lemma delivered_upcall [simp]: "delivered (kh5_upcall TxWakeup h5) = delivered h5"
  by (simp add: delivered_def kh5_upcall_def)

lemma delivered_updates [simp]:
  "delivered (h5\<lparr>k_txack_req := r\<rparr>) = delivered h5" "delivered (h5\<lparr>k_unack := q\<rparr>) = delivered h5"
  "delivered (h5\<lparr>k_rel := q\<rparr>) = delivered h5" "delivered (h5\<lparr>k_unrel := q\<rparr>) = delivered h5"
  "delivered (h5\<lparr>k_retrans := b\<rparr>) = delivered h5" "delivered (h5\<lparr>k_allocs := al\<rparr>) = delivered h5"
  "delivered (h5\<lparr>k_msgq_txseq := n\<rparr>) = delivered h5"
  by (simp_all add: delivered_def)

lemma kh5_upcall_fields [simp]:
  "k_unack (kh5_upcall u h5) = k_unack h5" "k_rel (kh5_upcall u h5) = k_rel h5" "k_unrel (kh5_upcall u h5) = k_unrel h5"
  "k_retrans (kh5_upcall u h5) = k_retrans h5" "k_use_crc (kh5_upcall u h5) = k_use_crc h5"
  "k_rxseq_txack (kh5_upcall u h5) = k_rxseq_txack h5" "k_msgq_txseq (kh5_upcall u h5) = k_msgq_txseq h5"
  "k_rx_count (kh5_upcall u h5) = k_rx_count h5" "k_rx_state (kh5_upcall u h5) = k_rx_state h5"
  by (simp_all add: kh5_upcall_def)

lemma kh5_pass_up_delivered:
  "delivered (kh5_pass_up skb h5) = delivered h5 @ (if reliable_type (kpkt_type skb) then [skb_msg skb] else [])"
  by (simp add: kh5_pass_up_def kh5_upcall_def delivered_def Let_def)

lemma delivered_cull [simp]: "delivered (h5_pkt_cull h5) = delivered h5" "delivered (kh5_bookkeep d h5) = delivered h5"
  by (simp_all add: delivered_def h5_pkt_cull_def kh5_bookkeep_def Let_def)

text \<open>The state after an accepted packet.\<close>

definition cull_to :: "h5_struct \<Rightarrow> nat \<Rightarrow> kskb list" where
  "cull_to h5 a = drop (cull_count (length (k_unack h5)) (seq8 a) (k_msgq_txseq h5)) (k_unack h5)"

lemma cull_to_Nil [simp]: "k_unack h5 = [] \<Longrightarrow> cull_to h5 a = []"
  by (simp add: cull_to_def)

definition rx_accepted :: "h5_struct \<Rightarrow> apkt \<Rightarrow> h5_struct \<Rightarrow> bool" where
  "rx_accepted h5 p h5' \<longleftrightarrow> (ap_rel p \<longrightarrow> k_rxseq_txack h5 = seq8 (ap_seq p)) \<and>
     k_unack h5' = cull_to h5 (ap_ack p) \<and> k_retrans h5' = (cull_to h5 (ap_ack p) \<noteq> [] \<and> k_retrans h5) \<and>
     k_rxseq_txack h5' = (if ap_rel p then (k_rxseq_txack h5 + 1) mod 8 else k_rxseq_txack h5) \<and>
     delivered h5' = delivered h5 @ (if ap_rel p then [(ap_type p, ap_data p)] else [])"

definition rx_ignored :: "h5_struct \<Rightarrow> h5_struct \<Rightarrow> bool" where
  "rx_ignored h5 h5' \<longleftrightarrow> k_unack h5' = k_unack h5 \<and> k_retrans h5' = k_retrans h5 \<and>
     k_rxseq_txack h5' = k_rxseq_txack h5 \<and> delivered h5' = delivered h5"

definition same_tx :: "h5_struct \<Rightarrow> h5_struct \<Rightarrow> bool" where
  "same_tx h5 h5' \<longleftrightarrow> k_rel h5' = k_rel h5 \<and> k_unrel h5' = k_unrel h5 \<and> k_msgq_txseq h5' = k_msgq_txseq h5 \<and>
     k_use_crc h5' = k_use_crc h5"

lemma kh5_accept_accepted:
  assumes p: "kh5_chan (ap_type p) = Some (word_of_nat (ap_type p), ap_rel p)"
    and h: "h0 AND 0x80 \<noteq> 0 \<longleftrightarrow> ap_rel p" "drop_bit 3 h0 AND 0x07 = seq8 (ap_ack p)" "h1 AND 0x0f = word_of_nat (ap_type p)"
    and seq: "\<not> kout_of_order h5 h0" "ap_rel p \<Longrightarrow> h0 AND 0x07 = seq8 (ap_seq p)"
  shows "rx_accepted h5 p (kh5_accept h0 h1 (ap_data p) h5)"
proof -
  let ?h = "kh5_upcall TxWakeup (h5_pkt_cull (kh5_bookkeep h0 h5))"
  have "rx_accepted h5 p (if ap_rel p then ?h\<lparr>k_out := k_out ?h @ [RecvFrame \<lparr>kpkt_type = ap_type p, kdata = ap_data p,
      ktailroom = 0\<rparr>]\<rparr> else ?h)" if "ap_rel p \<longrightarrow> reliable_type (ap_type p)"
    using h seq that
    by (auto simp: rx_accepted_def kout_of_order_def delivered_def skb_msg_def kh5_upcall_def h5_pkt_cull_eq kh5_bookkeep_def
        cull_to_def Let_def)
  with kh5_classify_type [OF p h(1,3)] show ?thesis
    by (auto simp: rx_accepted_def kh5_accept_def kh5_pass_up_delivered kh5_pass_up_def kh5_upcall_def Let_def
        delivered_def skb_msg_def split: if_splits option.splits)
qed

lemma kh5_recv_apkt:
  assumes idle: "krx_idle h5" and ok: "apkt_ok p"
  obtains h5' where "kh5_recv h5 (apkt_bytes p) = Inr h5'" "krx_idle h5'" "same_tx h5 h5'"
    "rx_ignored h5 h5' \<or> rx_accepted h5 p h5'"
    "fst (next_alloc (k_allocs h5)) \<Longrightarrow> ap_rel p \<longrightarrow> k_rxseq_txack h5 = seq8 (ap_seq p) \<Longrightarrow> rx_accepted h5 p h5'"
proof -
  from ok have t: "kh5_chan (ap_type p) = Some (word_of_nat (ap_type p), ap_rel p)" "ap_type p < 16"
      "length (ap_data p) < 4096"
    by (auto simp: apkt_ok_def dest: kh5_chan_type)
  obtain h0 h1 h2 h3 where h: "kh5_header (ap_rel p) (seq8 (ap_ack p)) (seq8 (ap_seq p))
      (ap_crc p) (length (ap_data p)) (word_of_nat (ap_type p)) = [h0, h1, h2, h3]"
      "NOT (h0 + h1 + h2) = h3" "H5_HDR_LEN h1 h2 = length (ap_data p)" "h0 AND 0x80 \<noteq> 0 \<longleftrightarrow> ap_rel p"
      "h0 AND 0x40 \<noteq> 0 \<longleftrightarrow> ap_crc p" "drop_bit 3 h0 AND 0x07 = seq8 (ap_ack p)"
      "ap_rel p \<longrightarrow> h0 AND 0x07 = seq8 (ap_seq p)" "h1 AND 0x0f = word_of_nat (ap_type p)"
    by (rule kheader_fields [OF t(2,3), of "ap_rel p" "ap_ack p" "ap_seq p" "ap_crc p"])
  have bytes: "apkt_bytes p = h5_frame (ap_crc p) (h0 # h1 # h2 # h3 # ap_data p)"
    by (simp add: apkt_bytes_def h(1))
  show thesis
  proof (cases "fst (next_alloc (k_allocs h5))")
    case False
    obtain b rest where b: "slip (h0 # h1 # h2 # h3 # ap_data p) = b # rest" "b \<noteq> 0xc0"
      by (rule slip_nonempty_cases [of "h0 # h1 # h2 # h3 # ap_data p"]) simp
    have tail: "apkt_bytes p = 0xc0 # b # rest @ slip (crc_trailer (ap_crc p) (h0 # h1 # h2 # h3 # ap_data p)) @ [0xc0]"
      unfolding bytes h5_frame_def slip_simps(3) b(1) by simp
    show thesis
      by (rule that, simp only: tail, rule kh5_recv_open_fail [OF idle b(2) False])
         (use False in \<open>simp_all add: krx_idle_def same_tx_def rx_ignored_def delivered_def\<close>)
  next
    case True
    from kh5_recv_frame [OF idle True h(2,3) _ h(5) [symmetric]] t(3) obtain h5' where
      r: "kh5_recv h5 (apkt_bytes p) = Inr h5'" "krx_idle h5'"
        "kcore h5' = (if kout_of_order h5 h0 then kh5_upcall TxWakeup ((kcore h5)\<lparr>k_txack_req := 1\<rparr>)
                      else kh5_accept h0 h1 (ap_data p) (kcore h5))"
      by (auto simp: bytes)
    show thesis
    proof (rule that [OF r(1,2)])
      from r(3) have "kcore h5' = kcore (if kout_of_order h5 h0 then kh5_upcall TxWakeup (h5\<lparr>k_txack_req := 1\<rparr>)
          else kh5_accept h0 h1 (ap_data p) h5)"
        by (simp add: kcore_accept)
      note D = kcore_eqD [OF this]
      show "same_tx h5 h5'" using D by (simp add: same_tx_def)
      have "rx_accepted h5 p (kh5_accept h0 h1 (ap_data p) h5)" if "\<not> kout_of_order h5 h0"
        by (rule kh5_accept_accepted [OF t(1) h(4,6,8) that]) (use h(7) in blast)
      with D show "rx_ignored h5 h5' \<or> rx_accepted h5 p h5'" and
        "ap_rel p \<longrightarrow> k_rxseq_txack h5 = seq8 (ap_seq p) \<Longrightarrow> rx_accepted h5 p h5'"
        using h(4,7) by (auto simp: rx_ignored_def rx_accepted_def kout_of_order_def)
    qed
  qed
qed

section \<open>One packet sent\<close>

text \<open>The queues hold what \<open>h5_enqueue\<close> accepts.\<close>

definition queued_ok :: "bool \<Rightarrow> kskb \<Rightarrow> bool" where
  "queued_ok rel skb \<longleftrightarrow>
     kh5_chan (kpkt_type skb) = Some (word_of_nat (kpkt_type skb), rel) \<and> length (kdata skb) < 0x1000"

definition queues_ok :: "h5_struct \<Rightarrow> bool" where
  "queues_ok h5 \<longleftrightarrow> list_all (queued_ok True) (k_unack h5 @ k_rel h5) \<and> list_all (queued_ok False) (k_unrel h5) \<and>
     length (k_unack h5) \<le> H5_TXWINSIZE"

definition to_apkt :: "h5_struct \<Rightarrow> bool \<Rightarrow> nat \<Rightarrow> nat \<Rightarrow> nat \<Rightarrow> byte list \<Rightarrow> apkt" where
  "to_apkt h5 rel n m t data =
     \<lparr>ap_rel = rel, ap_ack = n, ap_seq = m, ap_crc = (k_use_crc h5 \<noteq> 0), ap_type = t, ap_data = data\<rparr>"

lemma kframe_apkt:
  "k_rxseq_txack h5 = seq8 n \<Longrightarrow> k_msgq_txseq h5 = seq8 m \<Longrightarrow>
   kframe h5 data (word_of_nat t) rel = apkt_bytes (to_apkt h5 rel n m t data)"
  by (simp add: kframe_def apkt_bytes_def to_apkt_def)

text \<open>The state after an attempt to send that changes nothing but the supply of memory.\<close>

definition alloc_only :: "h5_struct \<Rightarrow> h5_struct \<Rightarrow> bool" where
  "alloc_only h5 h5' \<longleftrightarrow> h5' = h5\<lparr>k_allocs := k_allocs h5'\<rparr>"

lemma kh5_prepare_queued:
  assumes "queued_ok rel skb"
  obtains (nomem) h5' where "kh5_prepare_pkt h5 (kdata skb) (kpkt_type skb) = Inr (None, h5')" "alloc_only h5 h5'"
  | (frame) nskb where "kh5_prepare_pkt h5 (kdata skb) (kpkt_type skb) = Inr (Some nskb, kprepared h5 rel)"
      "kdata nskb = kframe h5 (kdata skb) (word_of_nat (kpkt_type skb)) rel"
  using assms
  by (rule_tac kh5_prepare_pkt_cases [of "kpkt_type skb" h5 "kdata skb"]) (auto simp: queued_ok_def alloc_only_def)

lemma kframe_allocs [simp]:
  "kframe (h5\<lparr>k_allocs := al\<rparr>) d c r = kframe h5 d c r" "kframe (h5\<lparr>k_rel := q\<rparr>) d c r = kframe h5 d c r"
  "kframe (h5\<lparr>k_unrel := q\<rparr>) d c r = kframe h5 d c r"
  by (simp_all add: kframe_def)

lemma alloc_onlyE:
  assumes "alloc_only h5 h5'"
  obtains al where "h5' = h5\<lparr>k_allocs := al\<rparr>"
  using assms unfolding alloc_only_def by blast

lemma alloc_onlyI [simp]: "alloc_only h5 (h5\<lparr>k_allocs := al\<rparr>)" "alloc_only h5 h5"
  by (simp_all add: alloc_only_def)

lemma kh5_dequeue_unrel_cases:
  assumes "list_all (queued_ok False) (k_unrel h5)"
  obtains (none) al where "kh5_dequeue_unrel h5 = Inr (None, h5\<lparr>k_allocs := al\<rparr>)"
  | (some) skb q nskb where "k_unrel h5 = skb # q"
      "kh5_dequeue_unrel h5 = Inr (Some nskb, (kprepared h5 False)\<lparr>k_unrel := q\<rparr>)"
      "kdata nskb = kframe h5 (kdata skb) (word_of_nat (kpkt_type skb)) False"
proof (cases "k_unrel h5")
  case Nil
  then show thesis using none [of "k_allocs h5"] by (simp add: kh5_dequeue_unrel_def)
next
  case (Cons skb q)
  with assms have "queued_ok False skb" by simp
  then show thesis
  proof (cases rule: kh5_prepare_queued [of False skb "h5\<lparr>k_unrel := q\<rparr>"])
    case (nomem h5')
    then obtain al where al: "h5' = h5\<lparr>k_unrel := q, k_allocs := al\<rparr>" by (auto elim: alloc_onlyE)
    have "h5\<lparr>k_allocs := al, k_unrel := skb # q\<rparr> = h5\<lparr>k_allocs := al\<rparr>" using Cons by (cases h5) simp
    with Cons nomem(1) al show thesis by (intro none [of al]) (simp add: kh5_dequeue_unrel_def)
  next
    case (frame nskb)
    with Cons show thesis by (intro some) (auto simp: kh5_dequeue_unrel_def kprepared_def)
  qed
qed

lemma kh5_dequeue_rel_cases:
  assumes "list_all (queued_ok True) (k_rel h5)"
  obtains (none) al where "kh5_dequeue_rel h5 = Inr (None, h5\<lparr>k_allocs := al\<rparr>)"
  | (some) skb q nskb where "length (k_unack h5) < H5_TXWINSIZE" "k_rel h5 = skb # q"
      "kh5_dequeue_rel h5 = Inr (Some nskb, (kprepared h5 True)\<lparr>k_rel := q, k_unack := k_unack h5 @ [skb], k_retrans := True\<rparr>)"
      "kdata nskb = kframe h5 (kdata skb) (word_of_nat (kpkt_type skb)) True"
proof (cases "length (k_unack h5) < H5_TXWINSIZE \<and> k_rel h5 \<noteq> []")
  case False
  then show thesis using none [of "k_allocs h5"] by (auto simp: kh5_dequeue_rel_def)
next
  case True
  then obtain skb q where q: "k_rel h5 = skb # q" by (cases "k_rel h5") auto
  with assms have "queued_ok True skb" by simp
  then show thesis
  proof (cases rule: kh5_prepare_queued [of True skb "h5\<lparr>k_rel := q\<rparr>"])
    case (nomem h5')
    then obtain al where al: "h5' = h5\<lparr>k_rel := q, k_allocs := al\<rparr>" by (auto elim: alloc_onlyE)
    have "h5\<lparr>k_allocs := al, k_rel := skb # q\<rparr> = h5\<lparr>k_allocs := al\<rparr>" using q by (cases h5) simp
    with q True nomem(1) al show thesis by (intro none [of al]) (simp add: kh5_dequeue_rel_def)
  next
    case (frame nskb)
    with q True show thesis by (intro some) (auto simp: kh5_dequeue_rel_def kprepared_def)
  qed
qed

lemma kh5_prepare_ack_cases:
  obtains (none) al where "kh5_prepare_pkt h5 [] H5_ACK_PKT = Inr (None, h5\<lparr>k_allocs := al\<rparr>)"
  | (some) nskb where "kh5_prepare_pkt h5 [] H5_ACK_PKT = Inr (Some nskb, kprepared h5 False)"
      "kdata nskb = kframe h5 [] (word_of_nat H5_ACK_PKT) False"
proof -
  have "queued_ok False \<lparr>kpkt_type = H5_ACK_PKT, kdata = [], ktailroom = 0\<rparr>"
    by (simp add: queued_ok_def kh5_chan_def kpkt_defs)
  then show thesis
    by (rule kh5_prepare_queued [where ?h5.0 = h5]) (auto elim!: alloc_onlyE intro: none some)
qed

text \<open>Every outcome of \<open>h5_dequeue\<close>: unreliable packets first, then the window, then a bare acknowledgement.\<close>

lemma h5_dequeue_cases:
  assumes ok: "queues_ok h5"
  obtains (quiet) al where "h5_dequeue h5 = Inr (None, h5\<lparr>k_allocs := al\<rparr>)"
  | (unrel) skb q nskb where "k_unrel h5 = skb # q"
      "h5_dequeue h5 = Inr (Some nskb, (kprepared h5 False)\<lparr>k_unrel := q\<rparr>)"
      "kdata nskb = kframe h5 (kdata skb) (word_of_nat (kpkt_type skb)) False"
  | (rel) skb q nskb al where "length (k_unack h5) < H5_TXWINSIZE" "k_rel h5 = skb # q"
      "h5_dequeue h5 = Inr (Some nskb,
         (kprepared (h5\<lparr>k_allocs := al\<rparr>) True)\<lparr>k_rel := q, k_unack := k_unack h5 @ [skb], k_retrans := True\<rparr>)"
      "kdata nskb = kframe h5 (kdata skb) (word_of_nat (kpkt_type skb)) True"
  | (ack) nskb al where "k_txack_req h5 \<noteq> 0"
      "h5_dequeue h5 = Inr (Some nskb, kprepared (h5\<lparr>k_allocs := al\<rparr>) False)"
      "kdata nskb = kframe h5 [] (word_of_nat H5_ACK_PKT) False"
proof -
  from ok have u: "list_all (queued_ok False) (k_unrel h5)" by (simp add: queues_ok_def)
  from ok have r: "list_all (queued_ok True) (k_rel (h5\<lparr>k_allocs := al\<rparr>))" for al by (simp add: queues_ok_def)
  show thesis
  proof (cases rule: kh5_dequeue_unrel_cases [OF u])
    case (2 skb q nskb)
    then show thesis by (intro unrel) (simp_all add: h5_dequeue_def)
  next
    case (1 al)
    let ?h = "h5\<lparr>k_allocs := al\<rparr>"
    note un = 1
    show thesis
    proof (cases rule: kh5_dequeue_rel_cases [OF r [of al]])
      case (2 skb q nskb)
      with un show thesis by (intro rel) (simp_all add: h5_dequeue_def)
    next
      case (1 al')
      let ?k = "h5\<lparr>k_allocs := al'\<rparr>"
      from un 1
      have d: "h5_dequeue h5 = (if k_txack_req h5 \<noteq> 0 then kh5_prepare_pkt ?k [] H5_ACK_PKT else Inr (None, ?k))"
        by (simp add: h5_dequeue_def)
      show thesis
      proof (cases "k_txack_req h5 = 0")
        case True
        show thesis by (rule quiet) (simp add: d True)
      next
        case False
        show thesis
          by (rule kh5_prepare_ack_cases [where ?h5.0 = ?k])
             (rule quiet, simp add: d False, rule ack [OF False], simp_all add: d False)
      qed
    qed
  qed
qed

section \<open>Two endpoints and the lines between them\<close>

text \<open>
  The ends are named by truth values; \<open>n_line x\<close> holds the frames end \<open>x\<close> has written and the
  other end has not read, \<open>n_sent x\<close> the messages end \<open>x\<close> accepted for its reliable channels.
\<close>

record net =
  n_end :: "bool \<Rightarrow> h5_struct"
  n_line :: "bool \<Rightarrow> byte list list"
  n_sent :: "bool \<Rightarrow> (nat \<times> byte list) list"

definition accepted_msg :: "kskb \<Rightarrow> (nat \<times> byte list) list" where
  "accepted_msg skb =
     (if length (kdata skb) \<le> 0xFFF \<and> (kpkt_type skb = HCI_ACLDATA_PKT \<or> kpkt_type skb = HCI_COMMAND_PKT)
      then [skb_msg skb] else [])"

inductive net_step :: "net \<Rightarrow> net \<Rightarrow> bool" where
  enqueue: "net_step s (s\<lparr>n_end := (n_end s)(x := h5_enqueue skb (n_end s x)),
                         n_sent := (n_sent s)(x := n_sent s x @ accepted_msg skb)\<rparr>)"
| dequeue: "h5_dequeue (n_end s x) = Inr (r, h) \<Longrightarrow>
    net_step s (s\<lparr>n_end := (n_end s)(x := h),
                  n_line := (n_line s)(x := n_line s x @ (case r of None \<Rightarrow> [] | Some nskb \<Rightarrow> [kdata nskb]))\<rparr>)"
| lose: "n_line s x = l1 @ f # l2 \<Longrightarrow> net_step s (s\<lparr>n_line := (n_line s)(x := l1 @ l2)\<rparr>)"
| receive: "n_line s x = f # l \<Longrightarrow> kh5_recv (n_end s (\<not> x)) f = Inr h \<Longrightarrow>
    net_step s (s\<lparr>n_end := (n_end s)((\<not> x) := h), n_line := (n_line s)(x := l)\<rparr>)"
| timeout: "k_retrans (n_end s x) \<Longrightarrow> net_step s (s\<lparr>n_end := (n_end s)(x := h5_timed_event (n_end s x))\<rparr>)"

inductive net_reach :: "net \<Rightarrow> bool" where
  start: "h5_open al1 = Some h1 \<Longrightarrow> h5_open al2 = Some h2 \<Longrightarrow>
    net_reach \<lparr>n_end = (\<lambda>x. if x then h1 else h2), n_line = (\<lambda>_. []), n_sent = (\<lambda>_. [])\<rparr>"
| step: "net_reach s \<Longrightarrow> net_step s t \<Longrightarrow> net_reach t"

section \<open>The invariant\<close>

text \<open>
  \<open>base\<close> counts the packets an end has removed from its queue as acknowledged. An end keeps the
  rest of its messages in order; the other end has delivered at least the acknowledged ones and at
  most a window more; a packet on the line is at most a window old.
\<close>

definition end_inv :: "h5_struct \<Rightarrow> (nat \<times> byte list) list \<Rightarrow> nat \<Rightarrow> bool" where
  "end_inv h sent base \<longleftrightarrow> queues_ok h \<and> krx_idle h \<and> k_rxseq_txack h = seq8 (length (delivered h)) \<and>
     k_msgq_txseq h = seq8 (base + length (k_unack h)) \<and> base \<le> length sent \<and>
     drop base sent = map skb_msg (k_unack h @ k_rel h) \<and> (k_unack h \<noteq> [] \<longrightarrow> k_retrans h)"

definition flow_inv :: "(nat \<times> byte list) list \<Rightarrow> nat \<Rightarrow> (nat \<times> byte list) list \<Rightarrow> bool" where
  "flow_inv sent base dn \<longleftrightarrow> base \<le> length dn \<and> length dn \<le> base + 4 \<and> dn = take (length dn) sent"

definition pkt_inv :: "(nat \<times> byte list) list \<Rightarrow> nat \<Rightarrow> nat \<Rightarrow> nat \<Rightarrow> nat \<Rightarrow> apkt \<Rightarrow> bool" where
  "pkt_inv sent base n base' n' p \<longleftrightarrow> apkt_ok p \<and> base' \<le> ap_ack p \<and> ap_ack p \<le> n' \<and>
     (ap_rel p \<longrightarrow> ap_seq p < base + 4 \<and> n \<le> ap_seq p + 4 \<and> ap_seq p < length sent \<and>
        sent ! ap_seq p = (ap_type p, ap_data p))"

definition pkt_order :: "apkt \<Rightarrow> apkt \<Rightarrow> bool" where
  "pkt_order p q \<longleftrightarrow> ap_ack p \<le> ap_ack q \<and> (ap_rel p \<and> ap_rel q \<longrightarrow> ap_seq p \<le> ap_seq q + 3)"

definition line_inv :: "apkt list \<Rightarrow> (nat \<times> byte list) list \<Rightarrow> nat \<Rightarrow> nat \<Rightarrow> nat \<Rightarrow> nat \<Rightarrow> bool" where
  "line_inv pk sent base n base' n' \<longleftrightarrow> list_all (pkt_inv sent base n base' n') pk \<and> sorted_wrt pkt_order pk"

definition net_inv :: "(bool \<Rightarrow> nat) \<Rightarrow> (bool \<Rightarrow> apkt list) \<Rightarrow> net \<Rightarrow> bool" where
  "net_inv base pk s \<longleftrightarrow> (\<forall>x. end_inv (n_end s x) (n_sent s x) (base x) \<and>
     flow_inv (n_sent s x) (base x) (delivered (n_end s (\<not> x))) \<and> n_line s x = map apkt_bytes (pk x) \<and>
     line_inv (pk x) (n_sent s x) (base x) (length (delivered (n_end s (\<not> x)))) (base (\<not> x))
       (length (delivered (n_end s x))))"

subsection \<open>Operations of one end\<close>

lemma h5_enqueue_inv:
  assumes "end_inv h sent base"
  shows "end_inv (h5_enqueue skb h) (sent @ accepted_msg skb) base" "delivered (h5_enqueue skb h) = delivered h"
  using assms
  by (auto simp: end_inv_def h5_enqueue_def queues_ok_def queued_ok_def kh5_chan_def kpkt_defs krx_idle_def accepted_msg_def Let_def)

lemma h5_timed_event_inv:
  assumes "end_inv h sent base"
  shows "end_inv (h5_timed_event h) sent base" "delivered (h5_timed_event h) = delivered h"
proof -
  from assms have "requeue_loop (h\<lparr>k_retrans := False\<rparr>) =
      h\<lparr>k_retrans := False, k_unack := [], k_rel := k_unack h @ k_rel h, k_msgq_txseq := seq8 base\<rparr>"
    using requeue_loop_eq [of "h\<lparr>k_retrans := False\<rparr>" base] by (simp add: end_inv_def)
  with assms show "end_inv (h5_timed_event h) sent base" "delivered (h5_timed_event h) = delivered h"
    by (simp_all add: h5_timed_event_def end_inv_def queues_ok_def krx_idle_def)
qed

text \<open>Sending: the frame on the line is a packet the line invariant allows.\<close>

lemma end_inv_frame:
  assumes "end_inv h sent base" "queues_ok h'" "k_rx_count h' = k_rx_count h" "k_rx_state h' = k_rx_state h"
    "k_rxseq_txack h' = k_rxseq_txack h" "delivered h' = delivered h" "k_unack h' @ k_rel h' = k_unack h @ k_rel h"
    "k_msgq_txseq h' = seq8 (base + length (k_unack h'))" "k_unack h' \<noteq> [] \<Longrightarrow> k_retrans h'"
  shows "end_inv h' sent base"
  using assms by (auto simp: end_inv_def krx_idle_def)

lemma kprepared_fields [simp]:
  "k_unack (kprepared h r) = k_unack h" "k_rel (kprepared h r) = k_rel h" "k_unrel (kprepared h r) = k_unrel h"
  "k_rx_count (kprepared h r) = k_rx_count h" "k_rx_state (kprepared h r) = k_rx_state h"
  "k_rxseq_txack (kprepared h r) = k_rxseq_txack h" "delivered (kprepared h r) = delivered h"
  "k_retrans (kprepared h r) = k_retrans h" "k_use_crc (kprepared h r) = k_use_crc h"
  "k_msgq_txseq (kprepared h r) = (if r then (k_msgq_txseq h + 1) AND 0x07 else k_msgq_txseq h)"
  by (simp_all add: kprepared_def delivered_def)

text \<open>A packet as an end in its current state sends it.\<close>

definition fresh_pkt :: "h5_struct \<Rightarrow> (nat \<times> byte list) list \<Rightarrow> nat \<Rightarrow> apkt \<Rightarrow> bool" where
  "fresh_pkt h sent base p \<longleftrightarrow> apkt_ok p \<and> ap_ack p = length (delivered h) \<and>
     (ap_rel p \<longrightarrow> base \<le> ap_seq p \<and> ap_seq p < base + 4 \<and> ap_seq p < length sent \<and> sent ! ap_seq p = (ap_type p, ap_data p))"

lemma fresh_unrel:
  assumes "end_inv h sent base" "queued_ok False \<lparr>kpkt_type = t, kdata = data, ktailroom = r\<rparr>"
  shows "\<exists>p. kframe h data (word_of_nat t) False = apkt_bytes p \<and> fresh_pkt h sent base p"
proof -
  from assms(1) have "kframe h data (word_of_nat t) False =
      apkt_bytes (to_apkt h False (length (delivered h)) (base + length (k_unack h)) t data)"
    by (intro kframe_apkt) (simp_all add: end_inv_def)
  with assms(2) show ?thesis by (auto simp: fresh_pkt_def to_apkt_def apkt_ok_def queued_ok_def)
qed

lemma fresh_rel:
  assumes "end_inv h sent base" "k_rel h = skb # q" "length (k_unack h) < H5_TXWINSIZE"
  shows "\<exists>p. kframe h (kdata skb) (word_of_nat (kpkt_type skb)) True = apkt_bytes p \<and> fresh_pkt h sent base p"
proof -
  let ?m = "base + length (k_unack h)"
  from assms(1) have f: "kframe h (kdata skb) (word_of_nat (kpkt_type skb)) True =
      apkt_bytes (to_apkt h True (length (delivered h)) ?m (kpkt_type skb) (kdata skb))"
    by (intro kframe_apkt) (simp_all add: end_inv_def)
  from assms have d: "base \<le> length sent" "drop base sent = map skb_msg (k_unack h) @ skb_msg skb # map skb_msg q"
    by (simp_all add: end_inv_def)
  have "length (drop base sent) = length (k_unack h) + Suc (length q)" by (simp only: d(2)) simp
  then have len: "?m < length sent" by simp
  moreover have "sent ! ?m = skb_msg skb"
    using d len by (metis length_map nth_append_length nth_drop)
  moreover from assms have "queued_ok True skb" by (simp add: end_inv_def queues_ok_def)
  ultimately show ?thesis
    using f assms(3) by (intro exI conjI) (auto simp: fresh_pkt_def to_apkt_def apkt_ok_def queued_ok_def skb_msg_def H5_TXWINSIZE_def)
qed

lemma h5_dequeue_inv:
  assumes inv: "end_inv h sent base"
  obtains r h' where "h5_dequeue h = Inr (r, h')" "end_inv h' sent base" "delivered h' = delivered h"
    "case r of None \<Rightarrow> True | Some nskb \<Rightarrow> \<exists>p. kdata nskb = apkt_bytes p \<and> fresh_pkt h sent base p"
proof -
  from inv have q: "queues_ok h" and m: "k_msgq_txseq h = seq8 (base + length (k_unack h))"
    and t: "k_unack h \<noteq> [] \<Longrightarrow> k_retrans h"
    by (simp_all add: end_inv_def)
  from q show thesis
  proof (cases rule: h5_dequeue_cases)
    case (quiet al)
    show thesis
      by (rule that [OF quiet]) (use q m t in \<open>auto intro: end_inv_frame [OF inv] simp: queues_ok_def\<close>)
  next
    case (unrel skb qs nskb)
    from q unrel(1) have "queued_ok False \<lparr>kpkt_type = kpkt_type skb, kdata = kdata skb, ktailroom = 0\<rparr>"
      by (simp add: queues_ok_def queued_ok_def)
    from fresh_unrel [OF inv this] unrel(3) show thesis
      by (intro that [OF unrel(2)] end_inv_frame [OF inv]) (use q m t unrel(1) in \<open>auto simp: queues_ok_def\<close>)
  next
    case (rel skb qs nskb al)
    from fresh_rel [OF inv rel(2,1)] rel(4) show thesis
      by (intro that [OF rel(3)] end_inv_frame [OF inv]) (use q m t rel(1,2) in \<open>auto simp: queues_ok_def seq8_step\<close>)
  next
    case (ack nskb al)
    have "queued_ok False \<lparr>kpkt_type = H5_ACK_PKT, kdata = [], ktailroom = 0\<rparr>"
      by (simp add: queued_ok_def kh5_chan_def kpkt_defs)
    from fresh_unrel [OF inv this] ack(3) show thesis
      by (intro that [OF ack(2)] end_inv_frame [OF inv]) (use q m t in \<open>auto simp: queues_ok_def\<close>)
  qed
qed

subsection \<open>The line\<close>

lemma line_inv_snoc:
  assumes "line_inv pk sent base n base' (length (delivered h))" "fresh_pkt h sent base p" "n \<le> base + 4"
    "base' \<le> length (delivered h)"
  shows "line_inv (pk @ [p]) sent base n base' (length (delivered h))"
  using assms
  by (auto simp: line_inv_def list_all_iff sorted_wrt_append pkt_inv_def pkt_order_def fresh_pkt_def)

lemma line_inv_sub: "line_inv (p1 @ p # p2) sent base n base' n' \<Longrightarrow> line_inv (p1 @ p2) sent base n base' n'"
  by (auto simp: line_inv_def sorted_wrt_append)

lemma pkt_inv_mono:
  "pkt_inv sent base n base' n' p \<Longrightarrow> base \<le> b \<Longrightarrow> n' \<le> m' \<Longrightarrow> pkt_inv (sent @ ys) b n base' m' p"
  by (auto simp: pkt_inv_def nth_append)

lemma line_inv_mono:
  "line_inv pk sent base n base' n' \<Longrightarrow> base \<le> b \<Longrightarrow> n' \<le> m' \<Longrightarrow> line_inv pk (sent @ ys) b n base' m'"
  by (auto simp: line_inv_def list_all_iff intro: pkt_inv_mono)

lemma flow_inv_more: "flow_inv sent base dn \<Longrightarrow> flow_inv (sent @ ys) base dn"
proof -
  assume a: "flow_inv sent base dn"
  then have "length dn \<le> length sent" unfolding flow_inv_def by (metis length_take min.cobounded1)
  with a show ?thesis by (simp add: flow_inv_def)
qed

subsection \<open>Receiving\<close>

lemma rx_ignored_inv:
  assumes "end_inv h sent base" "same_tx h h'" "krx_idle h'" "rx_ignored h h'"
  shows "end_inv h' sent base"
  using assms by (auto simp: end_inv_def same_tx_def rx_ignored_def queues_ok_def)

text \<open>An acknowledgement within a window of the base moves the base to it, or is out of date and moves nothing.\<close>

lemma rx_accepted_inv:
  assumes inv: "end_inv h sent base" and h': "same_tx h h'" "krx_idle h'" "rx_accepted h p h'"
    and ack: "base \<le> ap_ack p" "ap_ack p \<le> base + 4"
  defines "b \<equiv> (if ap_ack p \<le> base + length (k_unack h) then ap_ack p else base)"
  shows "end_inv h' sent b"
proof -
  from inv have h: "queues_ok h" "k_rxseq_txack h = seq8 (length (delivered h))"
      "k_msgq_txseq h = seq8 (base + length (k_unack h))" "base \<le> length sent"
      "drop base sent = map skb_msg (k_unack h @ k_rel h)" "k_unack h \<noteq> [] \<longrightarrow> k_retrans h"
    by (simp_all add: end_inv_def)
  from h(1) have "length (k_unack h) < 8" by (simp add: queues_ok_def H5_TXWINSIZE_def)
  with ack h(3) have cull: "cull_to h (ap_ack p) = drop (b - base) (k_unack h)"
    using cull_count_exact [of base "ap_ack p" "length (k_unack h)"] by (simp add: cull_to_def b_def)
  have b: "base \<le> b" "b - base \<le> length (k_unack h)" using ack by (auto simp: b_def)
  have "drop b sent = drop (b - base) (drop base sent)" using b(1) by simp
  also have "\<dots> = map skb_msg (k_unack h' @ k_rel h')"
    using b(2) h'(1,3) by (simp only: h(5)) (simp add: rx_accepted_def same_tx_def cull drop_map)
  finally have d: "drop b sent = map skb_msg (k_unack h' @ k_rel h')" .
  have len: "length (drop base sent) = length (k_unack h) + length (k_rel h)" by (simp only: h(5)) simp
  have "list_all P (drop n xs)" if "list_all P xs" for P n and xs :: "kskb list"
    using that by (auto simp: list_all_iff dest: in_set_dropD)
  then have "queues_ok h'"
    using h(1) h'(1,3) by (auto simp: queues_ok_def rx_accepted_def same_tx_def cull)
  moreover have "b + length (k_unack h') = base + length (k_unack h)"
    using b h'(3) by (simp add: rx_accepted_def cull)
  moreover have "b \<le> length sent" using b len h(4) by simp
  ultimately show ?thesis
    using h(2,3,6) h' d by (auto simp: end_inv_def rx_accepted_def same_tx_def seq8_step)
qed

text \<open>A reliable packet that is accepted is the next one.\<close>

lemma rx_accepted_next:
  assumes "k_rxseq_txack h = seq8 (length (delivered h))" "rx_accepted h p h'" "ap_rel p"
    "pkt_inv sent base (length (delivered h)) base' n' p" "flow_inv sent base (delivered h)"
  shows "ap_seq p = length (delivered h)" "flow_inv sent base (delivered h')"
proof -
  from assms(1-3) have "seq8 (ap_seq p) = seq8 (length (delivered h))" by (simp add: rx_accepted_def)
  with assms(3-5) show n: "ap_seq p = length (delivered h)"
    by (intro seq8_close) (auto simp: pkt_inv_def flow_inv_def)
  from assms(2-4) have "delivered h' = delivered h @ [sent ! length (delivered h)]" "length (delivered h) < length sent"
    using n by (auto simp: rx_accepted_def pkt_inv_def)
  with assms(3-5) n show "flow_inv sent base (delivered h')"
    by (auto simp: flow_inv_def pkt_inv_def take_Suc_conv_app_nth)
qed

text \<open>The rest of the line after a packet was read.\<close>

lemma line_inv_tail:
  assumes "line_inv (p # ps) sent base n base' n'" "ap_rel p \<Longrightarrow> m \<le> Suc (ap_seq p)" "\<not> ap_rel p \<Longrightarrow> m = n"
    "n \<le> m" "m \<le> Suc n" "b' \<le> ap_ack p"
  shows "line_inv ps sent base m b' n'"
  using assms
  by (cases "ap_rel p") (fastforce simp: line_inv_def list_all_iff pkt_inv_def pkt_order_def)+

subsection \<open>Every step keeps the invariant\<close>

lemma net_invD:
  assumes "net_inv base pk s"
  shows "end_inv (n_end s x) (n_sent s x) (base x)" "flow_inv (n_sent s x) (base x) (delivered (n_end s (\<not> x)))"
    "n_line s x = map apkt_bytes (pk x)"
    "line_inv (pk x) (n_sent s x) (base x) (length (delivered (n_end s (\<not> x)))) (base (\<not> x)) (length (delivered (n_end s x)))"
  using assms by (auto simp: net_inv_def)

text \<open>The two sides that a step at end \<open>x\<close> concerns.\<close>

lemma net_invI:
  assumes "\<And>z. z = x \<or> z = (\<not> x) \<Longrightarrow> end_inv (n_end s z) (n_sent s z) (base z) \<and>
     flow_inv (n_sent s z) (base z) (delivered (n_end s (\<not> z))) \<and> n_line s z = map apkt_bytes (pk z) \<and>
     line_inv (pk z) (n_sent s z) (base z) (length (delivered (n_end s (\<not> z)))) (base (\<not> z)) (length (delivered (n_end s z)))"
  shows "net_inv base pk s"
  unfolding net_inv_def using assms by (metis (full_types))

lemma net_enqueue:
  assumes inv: "net_inv base pk s"
  shows "net_inv base pk (s\<lparr>n_end := (n_end s)(x := h5_enqueue skb (n_end s x)),
           n_sent := (n_sent s)(x := n_sent s x @ accepted_msg skb)\<rparr>)"
  using net_invD [OF inv, of x] net_invD [OF inv, of "\<not> x"] h5_enqueue_inv [OF net_invD(1) [OF inv, of x], of skb]
  by (intro net_invI [of x]) (auto intro: flow_inv_more line_inv_mono)

lemma net_timeout:
  assumes inv: "net_inv base pk s"
  shows "net_inv base pk (s\<lparr>n_end := (n_end s)(x := h5_timed_event (n_end s x))\<rparr>)"
  using net_invD [OF inv, of x] net_invD [OF inv, of "\<not> x"] h5_timed_event_inv [OF net_invD(1) [OF inv, of x]]
  by (intro net_invI [of x]) auto

lemma net_lose:
  assumes inv: "net_inv base pk s" and l: "n_line s x = l1 @ f # l2"
  shows "\<exists>pk'. net_inv base pk' (s\<lparr>n_line := (n_line s)(x := l1 @ l2)\<rparr>)"
proof -
  from l net_invD(3) [OF inv, of x] obtain p1 p p2 where p: "pk x = p1 @ p # p2" "l1 = map apkt_bytes p1" "l2 = map apkt_bytes p2"
    by (auto simp: map_eq_append_conv map_eq_Cons_conv dest: sym)
  then have "net_inv base (pk(x := p1 @ p2)) (s\<lparr>n_line := (n_line s)(x := l1 @ l2)\<rparr>)"
    using net_invD [OF inv, of x] net_invD [OF inv, of "\<not> x"]
    by (intro net_invI [of x]) (auto intro: line_inv_sub)
  then show ?thesis by blast
qed

lemma net_dequeue:
  assumes inv: "net_inv base pk s" and d: "h5_dequeue (n_end s x) = Inr (r, h)"
  shows "\<exists>pk'. net_inv base pk' (s\<lparr>n_end := (n_end s)(x := h),
           n_line := (n_line s)(x := n_line s x @ (case r of None \<Rightarrow> [] | Some nskb \<Rightarrow> [kdata nskb]))\<rparr>)"
proof -
  note i = net_invD [OF inv, of x] net_invD [OF inv, of "\<not> x"]
  from h5_dequeue_inv [OF i(1)] d have h: "end_inv h (n_sent s x) (base x)" "delivered h = delivered (n_end s x)"
      "case r of None \<Rightarrow> True | Some nskb \<Rightarrow> \<exists>p. kdata nskb = apkt_bytes p \<and> fresh_pkt (n_end s x) (n_sent s x) (base x) p"
    by auto
  obtain ps where ps: "(case r of None \<Rightarrow> [] | Some nskb \<Rightarrow> [kdata nskb]) = map apkt_bytes ps"
      "ps = [] \<or> (\<exists>p. ps = [p] \<and> fresh_pkt (n_end s x) (n_sent s x) (base x) p)"
  proof (cases r)
    case None
    then show thesis by (intro that [of "[]"]) simp_all
  next
    case (Some nskb)
    with h(3) obtain p where "kdata nskb = apkt_bytes p" "fresh_pkt (n_end s x) (n_sent s x) (base x) p" by auto
    with Some show thesis by (intro that [of "[p]"]) simp_all
  qed
  from i(2,6) have b: "length (delivered (n_end s (\<not> x))) \<le> base x + 4" "base (\<not> x) \<le> length (delivered (n_end s x))"
    by (auto simp: flow_inv_def)
  from ps(2) line_inv_snoc [OF i(4) _ b] i(4)
  have "line_inv (pk x @ ps) (n_sent s x) (base x) (length (delivered (n_end s (\<not> x)))) (base (\<not> x)) (length (delivered (n_end s x)))"
    by auto
  with i h ps(1) have "net_inv base (pk(x := pk x @ ps)) (s\<lparr>n_end := (n_end s)(x := h),
      n_line := (n_line s)(x := n_line s x @ (case r of None \<Rightarrow> [] | Some nskb \<Rightarrow> [kdata nskb]))\<rparr>)"
    by (intro net_invI [of x]) auto
  then show ?thesis by blast
qed

lemma net_receive:
  assumes inv: "net_inv base pk s" and l: "n_line s x = f # l" and r: "kh5_recv (n_end s (\<not> x)) f = Inr h"
  shows "\<exists>base' pk'. net_inv base' pk' (s\<lparr>n_end := (n_end s)((\<not> x) := h), n_line := (n_line s)(x := l)\<rparr>)"
proof -
  note i = net_invD [OF inv, of x] and j = net_invD [OF inv, of "\<not> x"]
  let ?y = "n_end s (\<not> x)" and ?s = "s\<lparr>n_end := (n_end s)((\<not> x) := h), n_line := (n_line s)(x := l)\<rparr>"
  from l i(3) obtain p ps where p: "pk x = p # ps" "f = apkt_bytes p" "l = map apkt_bytes ps" by (cases "pk x") auto
  from i(4) p(1) have pi: "pkt_inv (n_sent s x) (base x) (length (delivered ?y)) (base (\<not> x)) (length (delivered (n_end s x))) p"
    by (simp add: line_inv_def)
  then have "apkt_ok p" and ack: "base (\<not> x) \<le> ap_ack p" "ap_ack p \<le> base (\<not> x) + 4"
    using j(2) by (auto simp: pkt_inv_def flow_inv_def)
  from j(1) have idle: "krx_idle ?y" and seq: "k_rxseq_txack ?y = seq8 (length (delivered ?y))" by (simp_all add: end_inv_def)
  from kh5_recv_apkt [OF idle \<open>apkt_ok p\<close>] r p(2)
  have h: "krx_idle h" "same_tx ?y h" "rx_ignored ?y h \<or> rx_accepted ?y p h" by auto
  from h(3) show ?thesis
  proof
    assume ig: "rx_ignored ?y h"
    then have e: "delivered h = delivered ?y" by (simp add: rx_ignored_def)
    have "line_inv ps (n_sent s x) (base x) (length (delivered ?y)) (base (\<not> x)) (length (delivered (n_end s x)))"
      using line_inv_sub [of "[]" p ps] i(4) p(1) by simp
    with i j p(3) e rx_ignored_inv [OF j(1) h(2,1) ig] have "net_inv base (pk(x := ps)) ?s"
      by (intro net_invI [of x]) auto
    then show ?thesis by blast
  next
    assume ac: "rx_accepted ?y p h"
    define b where "b = (if ap_ack p \<le> base (\<not> x) + length (k_unack ?y) then ap_ack p else base (\<not> x))"
    have b: "base (\<not> x) \<le> b" "b \<le> ap_ack p" using ack by (auto simp: b_def)
    from pi have "ap_ack p \<le> length (delivered (n_end s x))" by (simp add: pkt_inv_def)
    then have fy: "flow_inv (n_sent s (\<not> x)) b (delivered (n_end s x))" using b j(2) by (auto simp: flow_inv_def)
    have e: "end_inv h (n_sent s (\<not> x)) b"
      unfolding b_def by (rule rx_accepted_inv [OF j(1) h(2,1) ac ack])
    have n: "length (delivered h) = (if ap_rel p then Suc (length (delivered ?y)) else length (delivered ?y))"
      using ac by (simp add: rx_accepted_def)
    have fx: "flow_inv (n_sent s x) (base x) (delivered h)"
      using rx_accepted_next(2) [OF seq ac _ pi i(2)] ac i(2) by (cases "ap_rel p") (auto simp: rx_accepted_def)
    have "ap_rel p \<Longrightarrow> ap_seq p = length (delivered ?y)" by (rule rx_accepted_next(1) [OF seq ac _ pi i(2)])
    with i(4) n b(2) p(1) have lx: "line_inv ps (n_sent s x) (base x) (length (delivered h)) b (length (delivered (n_end s x)))"
      by (auto intro: line_inv_tail)
    from line_inv_mono [OF j(4), of b "length (delivered h)" "[]"] b(1) n
    have ly: "line_inv (pk (\<not> x)) (n_sent s (\<not> x)) b (length (delivered (n_end s x))) (base x) (length (delivered h))" by simp
    from i j p(3) e fx fy lx ly have "net_inv (base((\<not> x) := b)) (pk(x := ps)) ?s"
      by (intro net_invI [of x]) auto
    then show ?thesis by blast
  qed
qed

lemma net_start:
  assumes "h5_open al1 = Some h1" "h5_open al2 = Some h2"
  shows "net_inv (\<lambda>_. 0) (\<lambda>_. []) \<lparr>n_end = (\<lambda>x. if x then h1 else h2), n_line = (\<lambda>_. []), n_sent = (\<lambda>_. [])\<rparr>"
  using assms
  by (auto simp: net_inv_def h5_open_def h5_zero_def next_alloc_def end_inv_def queues_ok_def krx_idle_def flow_inv_def
      line_inv_def delivered_def seq8_def split: if_splits)

lemma net_reach_inv: "net_reach s \<Longrightarrow> \<exists>base pk. net_inv base pk s"
proof (induction rule: net_reach.induct)
  case (start al1 h1 al2 h2)
  then show ?case using net_start by blast
next
  case (step s t)
  from step.IH obtain base pk where inv: "net_inv base pk s" by blast
  from step.hyps(2) show ?case
    by (cases rule: net_step.cases)
       (use net_enqueue [OF inv] net_timeout [OF inv] net_lose [OF inv] net_dequeue [OF inv] net_receive [OF inv] in blast)+
qed

section \<open>Properties\<close>

text \<open>(C1) Reliable delivery: in every reachable state the messages one end has delivered from the
  reliable channels are a prefix of those the other end accepted for sending, in order and
  without duplicates; the sender still queues every message from some point on that is not
  beyond what was delivered, so nothing undelivered is forgotten; and at most four packets are
  outstanding.\<close>

theorem kh5_reliable_delivery:
  assumes "net_reach s"
  shows "let n = length (delivered (n_end s (\<not> x))) in
    delivered (n_end s (\<not> x)) = take n (n_sent s x) \<and>
    (\<exists>k \<le> n. map skb_msg (k_unack (n_end s x) @ k_rel (n_end s x)) = drop k (n_sent s x)) \<and>
    length (k_unack (n_end s x)) \<le> H5_TXWINSIZE"
proof -
  from net_reach_inv [OF assms] obtain base pk where inv: "net_inv base pk s" by blast
  from net_invD(1,2) [OF inv, of x] show ?thesis
    by (auto simp: end_inv_def flow_inv_def queues_ok_def Let_def)
qed

text \<open>No operation of a reachable configuration faults: sending returns, and so does receiving the next frame of the line.\<close>

lemma kh5_link_no_fault:
  assumes "net_reach s"
  shows "(\<exists>r h. h5_dequeue (n_end s x) = Inr (r, h)) \<and>
    (n_line s x = [] \<or> (\<exists>h. kh5_recv (n_end s (\<not> x)) (hd (n_line s x)) = Inr h))"
proof -
  from net_reach_inv [OF assms] obtain base pk where inv: "net_inv base pk s" by blast
  note i = net_invD [OF inv, of x] and j = net_invD(1) [OF inv, of "\<not> x"]
  have "\<exists>h. kh5_recv (n_end s (\<not> x)) (hd (n_line s x)) = Inr h" if "n_line s x \<noteq> []"
  proof -
    from that i(3,4) have "apkt_ok (hd (pk x))" "hd (n_line s x) = apkt_bytes (hd (pk x))"
      by (cases "pk x"; simp add: line_inv_def pkt_inv_def)+
    with j kh5_recv_apkt [of "n_end s (\<not> x)" "hd (pk x)"] show ?thesis by (auto simp: end_inv_def)
  qed
  with h5_dequeue_inv [OF i(1)] show ?thesis by blast
qed

section \<open>A run\<close>

definition ex_skb :: kskb where
  "ex_skb = \<lparr>kpkt_type = HCI_COMMAND_PKT, kdata = [0x03, 0x0c, 0x00], ktailroom = 0\<rparr>"

definition ex_h5 :: h5_struct where "ex_h5 = the (h5_open [])"

definition ex_frame :: "byte list" where
  "ex_frame = [0xc0, 0xdb, 0xdc, 0x31, 0x00, 0x0e, 0x03, 0x0c, 0x00, 0x97, 0x98, 0xc0]"

definition ex_tx :: h5_struct where
  "ex_tx = ex_h5\<lparr>k_unack := [ex_skb], k_retrans := True, k_msgq_txseq := 1\<rparr>"

definition ex_rx :: h5_struct where
  "ex_rx = ex_h5\<lparr>k_rx_state := H5_W4_PKT_START, k_message_crc := 0x19e9, k_rxseq_txack := 1, k_txack_req := 1,
     k_out := [TxWakeup, RecvFrame \<lparr>kpkt_type = HCI_COMMAND_PKT, kdata = [0x03, 0x0c, 0x00], ktailroom = 4094\<rparr>]\<rparr>"

lemmas krx_eval = kh5_recv.simps(2) kh5_recv_iter_def kh5_unslip_one_byte_def kh5_store_byte_def kh5_recv_hdr_def
  kh5_recv_data_def kh5_recv_crc_def kh5_complete_rx_pkt_def kh5_bookkeep_def h5_pkt_cull_def kh5_upcall_def kh5_classify_def
  kh5_pass_up_def kskb_pull_def kskb_trim_def kskb_at_def kskb_put_def bscp_get_crc_def kh5_recv_start_def next_alloc_def
  kalloc_skb_def h5_crc_update_def crc_table_def H5_CRC_INIT_def bit_rev16_def bit_rev8_def byte_rev_table_def

lemma ex_dequeue:
  "h5_dequeue (h5_enqueue ex_skb ex_h5) = Inr (Some \<lparr>kpkt_type = HCI_COMMAND_PKT, kdata = ex_frame, ktailroom = 8\<rparr>, ex_tx)"
  by code_simp

lemma ex_recv: "kh5_recv ex_h5 ex_frame = Inr ex_rx"
  by (simp add: krx_eval ex_frame_def ex_rx_def ex_h5_def h5_open_def h5_zero_def txcrc_def kpkt_defs)

definition ex_net :: net where
  "ex_net = \<lparr>n_end = (\<lambda>x. if x then ex_tx else ex_rx), n_line = (\<lambda>_. []), n_sent = (\<lambda>x. if x then [skb_msg ex_skb] else [])\<rparr>"

text \<open>One end sends a command, the other end receives it.\<close>

lemma ex_net_reach: "net_reach ex_net"
proof -
  let ?s0 = "\<lparr>n_end = (\<lambda>x. if x then ex_h5 else ex_h5), n_line = (\<lambda>_. []), n_sent = (\<lambda>_. [])\<rparr>"
  have "h5_open [] = Some ex_h5" by (simp add: ex_h5_def h5_open_def next_alloc_def)
  then have "net_reach ?s0" by (intro net_reach.start)
  note s1 = net_reach.step [OF this net_step.enqueue [of ?s0 True ex_skb]]
  let ?s1 = "?s0\<lparr>n_end := (n_end ?s0)(True := h5_enqueue ex_skb (n_end ?s0 True)),
      n_sent := (n_sent ?s0)(True := n_sent ?s0 True @ accepted_msg ex_skb)\<rparr>"
  from net_reach.step [OF s1 net_step.dequeue [of ?s1 True]] ex_dequeue
  have s2: "net_reach \<lparr>n_end = (\<lambda>x. if x then ex_tx else ex_h5), n_line = (\<lambda>x. if x then [ex_frame] else []),
      n_sent = (\<lambda>x. if x then [skb_msg ex_skb] else [])\<rparr>" (is "net_reach ?s2")
    by (simp add: accepted_msg_def ex_skb_def fun_upd_def if_distrib cong: if_cong)
  from net_reach.step [OF s2 net_step.receive [of ?s2 True ex_frame "[]" ex_rx]] ex_recv
  have "net_reach (?s2\<lparr>n_end := (n_end ?s2)(False := ex_rx), n_line := (n_line ?s2)(True := [])\<rparr>)"
    by simp
  moreover have "?s2\<lparr>n_end := (n_end ?s2)(False := ex_rx), n_line := (n_line ?s2)(True := [])\<rparr> = ex_net"
    by (simp add: ex_net_def fun_eq_iff)
  ultimately show ?thesis by simp
qed

theorem kh5_reliable_delivery_witness:
  "delivered (n_end ex_net False) = [(HCI_COMMAND_PKT, [0x03, 0x0c, 0x00])] \<and>
   length (delivered (n_end ex_net False)) \<le> length (n_sent ex_net True) \<and> length (k_unack (n_end ex_net True)) \<le> H5_TXWINSIZE"
  using kh5_reliable_delivery [OF ex_net_reach, of True]
  by (simp add: ex_net_def ex_rx_def delivered_def skb_msg_def reliable_type_def Let_def)

end
