(* ===== verification/Kernel_H5_Safety.thy ===== *)
theory Kernel_H5_Safety
  imports Kernel_Link
begin

text \<open>
  One endpoint of the kernel's three-wire protocol against an arbitrary line: whatever bytes arrive,
  in whatever pieces, and whatever allocations fail, the receiver commits no memory fault, and the
  transmit queue stays a FIFO from which only a window of the oldest packets is outstanding.
\<close>

section \<open>The receive buffer\<close>

definition kfill :: "h5_struct \<Rightarrow> nat \<Rightarrow> (byte list \<Rightarrow> nat) \<Rightarrow> bool" where
  "kfill h least fill =
     (case k_rx_skb h of KLive skb \<Rightarrow>
        least \<le> length (kdata skb) \<and> length (kdata skb) + unat (k_rx_count h) = fill (kdata skb) \<and>
        length (kdata skb) + ktailroom skb = 0x1005
      | _ \<Rightarrow> False)"

definition hdr_len_of :: "byte list \<Rightarrow> nat" where
  "hdr_len_of ds = H5_HDR_LEN (ds ! 1) (ds ! 2)"

definition krx_inv :: "h5_struct \<Rightarrow> bool" where
  "krx_inv h =
     (case k_rx_state h of
        H5_W4_PKT_DELIMITER \<Rightarrow> k_rx_count h = 0
      | H5_W4_PKT_START \<Rightarrow> k_rx_count h = 0
      | H5_W4_HDR \<Rightarrow> kfill h 0 (\<lambda>_. 4)
      | H5_W4_DATA \<Rightarrow> kfill h 4 (\<lambda>ds. 4 + hdr_len_of ds)
      | H5_W4_CRC \<Rightarrow> kfill h 4 (\<lambda>ds. 6 + hdr_len_of ds))"

lemma H5_HDR_LEN_less: "H5_HDR_LEN a b < 4096"
proof -
  have "unat (drop_bit 4 a) < 16" using unat_byte_less [of a] by (simp add: drop_bit_eq_div unat_div)
  then show ?thesis using unat_byte_less [of b] by (simp add: H5_HDR_LEN_def)
qed

lemma kfillE:
  assumes "kfill h least fill"
  obtains skb where "k_rx_skb h = KLive skb" "least \<le> length (kdata skb)"
    "length (kdata skb) + unat (k_rx_count h) = fill (kdata skb)" "length (kdata skb) + ktailroom skb = 0x1005"
  using assms by (auto simp: kfill_def split: kskb_ptr.splits)

text \<open>What receiving may change outside the receiver: acknowledged packets leave the queue, and the sequence number of the next expected packet moves.\<close>

definition rx_only :: "h5_struct \<Rightarrow> h5_struct \<Rightarrow> bool" where
  "rx_only h h' \<longleftrightarrow> same_tx h h' \<and>
     (\<exists>n. k_unack h' = drop n (k_unack h)) \<and> (k_unack h' \<noteq> [] \<longrightarrow> k_retrans h' = k_retrans h)"

lemma rx_only_refl: "rx_only h h"
  unfolding rx_only_def same_tx_def by (auto intro: exI [of _ 0])

lemma rx_only_trans: "rx_only a b \<Longrightarrow> rx_only b c \<Longrightarrow> rx_only a c"
  unfolding rx_only_def same_tx_def by (auto simp: add.commute)

lemma rx_only_rx:
  "rx_only h (h\<lparr>k_rx_skb := p, k_rx_state := st, k_rx_count := n\<rparr>)" "rx_only h (h\<lparr>k_rx_state := st, k_rx_count := n\<rparr>)"
  "rx_only h (h\<lparr>k_rx_state := st\<rparr>)" "rx_only h (h\<lparr>k_rx_esc_state := e\<rparr>)"
  "rx_only h (h\<lparr>k_rx_skb := p, k_message_crc := c, k_rx_esc_state := e, k_rx_count := n\<rparr>)"
  "rx_only h (kh5_upcall u h)" "rx_only h (h\<lparr>k_txack_req := r\<rparr>)" "rx_only h (h\<lparr>k_rx_skb := p\<rparr>)"
  "rx_only h (h\<lparr>k_rx_skb := p, k_rx_esc_state := e, k_rx_count := n\<rparr>)"
  by (auto simp: rx_only_def same_tx_def kh5_upcall_def intro: exI [of _ 0])

lemma kh5_accept_rx_only: "rx_only h (kh5_accept d0 d1 data h)"
  by (auto simp: rx_only_def same_tx_def kh5_accept_def kh5_pass_up_def kh5_upcall_def h5_pkt_cull_eq kh5_bookkeep_def Let_def
      split: option.splits)

section \<open>Every iteration keeps the invariant\<close>

lemma kh5_complete_ok:
  assumes "k_rx_skb h = KLive skb" "4 \<le> length (kdata skb)" "k_rx_count h = 0"
  shows "\<exists>h'. kh5_complete_rx_pkt h = Inr h' \<and> krx_inv h' \<and> rx_only h h'"
proof -
  from assms(1,2) have at: "kskb_at skb 0 = Inr (kdata skb ! 0)" "kskb_at skb 1 = Inr (kdata skb ! 1)"
    by (auto intro!: kskb_at_nth)
  let ?d0 = "kdata skb ! 0" and ?d1 = "kdata skb ! 1"
  let ?h = "kh5_upcall TxWakeup (h5_pkt_cull (kh5_bookkeep ?d0 h))"
  have r: "rx_only h ?h" "k_rx_count ?h = 0"
    using assms(3) by (auto simp: rx_only_def same_tx_def kh5_upcall_def h5_pkt_cull_eq kh5_bookkeep_def Let_def)
  have p: "rx_only ?h (kh5_pass_up s ?h)" "k_rx_count (kh5_pass_up s ?h) = 0" for s
    using r(2) by (auto simp: rx_only_def same_tx_def kh5_pass_up_def kh5_upcall_def Let_def intro: exI [of _ 0])
  show ?thesis
    using assms(1) at r p rx_only_trans [OF r(1) p(1)]
    by (cases "kh5_classify ?d0 ?d1")
       (auto simp: kh5_complete_rx_pkt_def krx_inv_def Let_def rx_only_def same_tx_def)
qed

lemma kh5_drop_ok:
  "k_rx_skb h = KLive skb \<Longrightarrow> \<exists>h'. kh5_drop_rx h = Inr h' \<and> krx_inv h' \<and> rx_only h h'"
  by (auto simp: kh5_drop_rx_def krx_inv_def intro: rx_only_rx)

lemma kh5_recv_hdr_ok:
  assumes "krx_inv h" "k_rx_state h = H5_W4_HDR" "k_rx_count h = 0"
  shows "\<exists>h'. kh5_recv_hdr h = Inr h' \<and> krx_inv h' \<and> rx_only h h'"
proof -
  from assms obtain skb where skb: "k_rx_skb h = KLive skb" "length (kdata skb) = 4" "length (kdata skb) + ktailroom skb = 0x1005"
    by (auto simp: krx_inv_def elim: kfillE)
  then have at: "i < 4 \<Longrightarrow> kskb_at skb i = Inr (kdata skb ! i)" for i by simp
  let ?n = "H5_HDR_LEN (kdata skb ! 1) (kdata skb ! 2)"
  let ?ok = "h\<lparr>k_rx_state := H5_W4_DATA, k_rx_count := word_of_nat ?n\<rparr>"
  let ?ooo = "kh5_upcall TxWakeup (h\<lparr>k_txack_req := 1\<rparr>)"
  have "unat (word_of_nat ?n :: 64 word) = ?n"
    using H5_HDR_LEN_less [of "kdata skb ! 1" "kdata skb ! 2"] by (simp add: unsigned_of_nat take_bit_nat_eq_self)
  with skb have ok: "krx_inv ?ok" by (simp add: krx_inv_def kfill_def hdr_len_of_def)
  have "k_rx_skb ?ooo = KLive skb" using skb(1) by (simp add: kh5_upcall_def)
  moreover have "rx_only h ?ooo" by (rule rx_only_trans [OF rx_only_rx(7) rx_only_rx(6)])
  ultimately have ooo: "\<exists>h'. kh5_drop_rx ?ooo = Inr h' \<and> krx_inv h' \<and> rx_only h h'"
    using kh5_drop_ok rx_only_trans by blast
  from kh5_drop_ok [OF skb(1)] ok ooo rx_only_rx(2) [of h] show ?thesis
    by (auto simp: kh5_recv_hdr_def skb(1) at H5_HDR_LEN_def)
qed

lemma kh5_recv_data_ok:
  assumes "krx_inv h" "k_rx_state h = H5_W4_DATA" "k_rx_count h = 0"
  shows "\<exists>h'. kh5_recv_data h = Inr h' \<and> krx_inv h' \<and> rx_only h h'"
proof -
  from assms obtain skb where skb: "k_rx_skb h = KLive skb" "4 \<le> length (kdata skb)"
      "length (kdata skb) = 4 + hdr_len_of (kdata skb)" "length (kdata skb) + ktailroom skb = 0x1005"
    by (auto simp: krx_inv_def elim: kfillE)
  then have "kskb_at skb 0 = Inr (kdata skb ! 0)" by (intro kskb_at_nth) simp
  moreover from skb have "krx_inv (h\<lparr>k_rx_state := H5_W4_CRC, k_rx_count := 2\<rparr>)" by (simp add: krx_inv_def kfill_def)
  ultimately show ?thesis
    using kh5_complete_ok [OF skb(1,2) assms(3)] rx_only_rx(2) [of h] by (auto simp: kh5_recv_data_def skb(1))
qed

lemma kh5_recv_crc_ok:
  assumes "krx_inv h" "k_rx_state h = H5_W4_CRC" "k_rx_count h = 0"
  shows "\<exists>h'. kh5_recv_crc h = Inr h' \<and> krx_inv h' \<and> rx_only h h'"
proof -
  from assms obtain skb where skb: "k_rx_skb h = KLive skb" "length (kdata skb) = 6 + hdr_len_of (kdata skb)"
    by (auto simp: krx_inv_def elim: kfillE)
  let ?t = "kskb_trim skb (length (kdata skb) - 2)"
  let ?h = "h\<lparr>k_rx_skb := KLive ?t\<rparr>"
  obtain crc where crc: "bscp_get_crc h = Inr crc" using skb by (simp add: bscp_get_crc_def Let_def)
  have "4 \<le> length (kdata ?t)" using skb(2) by (simp add: kskb_trim_def)
  from kh5_complete_ok [of ?h ?t, OF _ this] assms(3)
  have "\<exists>h'. kh5_complete_rx_pkt ?h = Inr h' \<and> krx_inv h' \<and> rx_only h h'"
    by (auto dest: rx_only_trans [OF rx_only_rx(8)])
  with kh5_drop_ok [OF skb(1)] show ?thesis by (auto simp: kh5_recv_crc_def crc skb(1))
qed

text \<open>A stored byte fills the buffer by one; the header bytes, once complete, stay what they are.\<close>

lemma kh5_store_ok:
  assumes inv: "krx_inv h" and cnt: "k_rx_count h \<noteq> 0"
  shows "\<exists>h'. kh5_store_byte c h = Inr h' \<and> krx_inv h' \<and> rx_only h h'"
proof -
  from inv cnt obtain least fill where f: "kfill h least fill" "least \<in> {0, 4}"
      "least = 0 \<longrightarrow> k_rx_state h = H5_W4_HDR \<and> fill = (\<lambda>_. 4)"
      "least = 4 \<longrightarrow> (\<exists>k \<in> {4, 6}. k_rx_state h = (if k = 4 then H5_W4_DATA else H5_W4_CRC) \<and> fill = (\<lambda>ds. k + hdr_len_of ds))"
    by (cases "k_rx_state h") (auto simp: krx_inv_def)
  from f(1) obtain skb where skb: "k_rx_skb h = KLive skb" "least \<le> length (kdata skb)"
    "length (kdata skb) + unat (k_rx_count h) = fill (kdata skb)" "length (kdata skb) + ktailroom skb = 0x1005"
    by (rule kfillE)
  have n: "unat (k_rx_count h - 1) + 1 = unat (k_rx_count h)"
    using unat_minus_one [OF cnt] unat_gt_0 [of "k_rx_count h"] cnt by simp
  have "fill (kdata skb) \<le> 0x1005"
    using f(2-4) H5_HDR_LEN_less [of "kdata skb ! 1" "kdata skb ! 2"] by (auto simp: hdr_len_of_def)
  with skb n have room: "0 < ktailroom skb" by linarith
  have keep: "least = 4 \<longrightarrow> fill (kdata skb @ [c]) = fill (kdata skb)" "least = 0 \<longrightarrow> fill (kdata skb @ [c]) = fill (kdata skb)"
    using f(3,4) skb(2) by (auto simp: hdr_len_of_def nth_append)
  let ?s = "skb\<lparr>kdata := kdata skb @ [c], ktailroom := ktailroom skb - 1\<rparr>"
  have "\<exists>h'. kh5_store_byte c h = Inr h' \<and> k_rx_skb h' = KLive ?s \<and> k_rx_count h' = k_rx_count h - 1 \<and>
      k_rx_state h' = k_rx_state h \<and> rx_only h h'"
    using skb(1) room by (auto simp: kh5_store_byte_def kskb_put_def intro: rx_only_rx)
  then obtain h' where h': "kh5_store_byte c h = Inr h'" "k_rx_skb h' = KLive ?s" "k_rx_count h' = k_rx_count h - 1"
      "k_rx_state h' = k_rx_state h" "rx_only h h'"
    by blast
  from h'(2,3) skb(2-4) n room keep f(2) have "kfill h' least fill" by (auto simp: kfill_def)
  with f(2-4) h'(4) have "krx_inv h'" by (auto simp: krx_inv_def)
  with h'(1,5) show ?thesis by blast
qed

lemma kh5_unslip_ok:
  assumes inv: "krx_inv h" and cnt: "k_rx_count h \<noteq> 0"
  shows "\<exists>h'. kh5_unslip_one_byte h b = Inr h' \<and> krx_inv h' \<and> rx_only h h'"
proof (cases "k_rx_esc_state h")
  case H5_ESCSTATE_NOESC
  moreover from inv have "krx_inv (h\<lparr>k_rx_esc_state := H5_ESCSTATE_ESC\<rparr>)"
    by (simp add: krx_inv_def kfill_def split: h5_rx_state.splits kskb_ptr.splits)
  ultimately show ?thesis using kh5_store_ok [OF inv cnt, of b] rx_only_rx(4) by (auto simp: kh5_unslip_one_byte_def)
next
  case H5_ESCSTATE_ESC
  from inv cnt obtain skb where "k_rx_skb h = KLive skb" by (cases "k_rx_state h") (auto simp: krx_inv_def elim: kfillE)
  moreover have "krx_inv (h\<lparr>k_rx_skb := KNull, k_rx_state := H5_W4_PKT_DELIMITER, k_rx_count := 0\<rparr>)" by (simp add: krx_inv_def)
  ultimately show ?thesis
    using H5_ESCSTATE_ESC kh5_store_ok [OF inv cnt] rx_only_rx(1) by (auto simp: kh5_unslip_one_byte_def)
qed

lemma kh5_recv_iter_ok:
  assumes inv: "krx_inv h"
  shows "\<exists>act h'. kh5_recv_iter h b = Inr (act, h') \<and> krx_inv h' \<and> rx_only h h'"
proof (cases "k_rx_count h = 0")
  case False
  from inv False obtain skb where "k_rx_skb h = KLive skb" by (cases "k_rx_state h") (auto simp: krx_inv_def elim: kfillE)
  moreover have "krx_inv (h\<lparr>k_rx_skb := KFreed, k_rx_state := H5_W4_PKT_START, k_rx_count := 0\<rparr>)" by (simp add: krx_inv_def)
  ultimately show ?thesis
    using False kh5_unslip_ok [OF inv False, of b] rx_only_rx(1) by (auto simp: kh5_recv_iter_def)
next
  case True
  have start: "krx_inv (snd (kh5_recv_start h)) \<and> rx_only h (snd (kh5_recv_start h))"
    by (auto simp: kh5_recv_start_def next_alloc_def krx_inv_def kfill_def kalloc_skb_def rx_only_def same_tx_def Let_def
        intro: exI [of _ 0])
  show ?thesis
  proof (cases "k_rx_state h")
    case H5_W4_PKT_DELIMITER
    with True show ?thesis using rx_only_refl [of h] rx_only_rx(3) [of h] inv by (auto simp: kh5_recv_iter_def krx_inv_def)
  next
    case H5_W4_PKT_START
    with True start inv show ?thesis using rx_only_refl [of h]
      by (cases "kh5_recv_start h") (auto simp: kh5_recv_iter_def)
  qed (use True kh5_recv_hdr_ok [OF inv] kh5_recv_data_ok [OF inv] kh5_recv_crc_ok [OF inv] in \<open>auto simp: kh5_recv_iter_def\<close>)
qed

lemma kh5_recv_ok:
  assumes "krx_inv h"
  shows "\<exists>h'. kh5_recv h bs = Inr h' \<and> krx_inv h' \<and> rx_only h h'"
  using assms
proof (induction h bs rule: kh5_recv.induct)
  case (1 h)
  then show ?case by (simp add: rx_only_refl)
next
  case (2 h b bs)
  from kh5_recv_iter_ok [OF 2(3), of b] obtain act h' where i: "kh5_recv_iter h b = Inr (act, h')" "krx_inv h'" "rx_only h h'"
    by blast
  with 2(1) [OF i(1)] 2(2) [OF i(1)] show ?case
    by (cases act) (auto simp: kh5_recv.simps(2) intro: rx_only_trans)
qed

section \<open>One endpoint, any peer\<close>

text \<open>
  An endpoint with the list of the messages it accepted for reliable sending. The peer is
  arbitrary: any bytes may arrive at any time.
\<close>

inductive h5_reach :: "h5_struct \<Rightarrow> (nat \<times> byte list) list \<Rightarrow> bool" where
  opened: "h5_open al = Some h \<Longrightarrow> h5_reach h []"
| enqueue: "h5_reach h sent \<Longrightarrow> h5_reach (h5_enqueue skb h) (sent @ accepted_msg skb)"
| dequeue: "h5_reach h sent \<Longrightarrow> h5_dequeue h = Inr (r, h') \<Longrightarrow> h5_reach h' sent"
| receive: "h5_reach h sent \<Longrightarrow> kh5_recv h bs = Inr h' \<Longrightarrow> h5_reach h' sent"
| timeout: "h5_reach h sent \<Longrightarrow> k_retrans h \<Longrightarrow> h5_reach (h5_timed_event h) sent"

definition fifo_inv :: "h5_struct \<Rightarrow> (nat \<times> byte list) list \<Rightarrow> nat \<Rightarrow> bool" where
  "fifo_inv h sent base \<longleftrightarrow> queues_ok h \<and> krx_inv h \<and> k_msgq_txseq h = seq8 (base + length (k_unack h)) \<and>
     base \<le> length sent \<and> drop base sent = map skb_msg (k_unack h @ k_rel h) \<and> (k_unack h \<noteq> [] \<longrightarrow> k_retrans h)"

lemma krx_inv_tx [simp]:
  "krx_inv (h\<lparr>k_rel := q\<rparr>) = krx_inv h" "krx_inv (h\<lparr>k_unrel := q\<rparr>) = krx_inv h" "krx_inv (h\<lparr>k_unack := q\<rparr>) = krx_inv h"
  "krx_inv (h\<lparr>k_retrans := b\<rparr>) = krx_inv h" "krx_inv (h\<lparr>k_allocs := al\<rparr>) = krx_inv h"
  "krx_inv (h\<lparr>k_msgq_txseq := n\<rparr>) = krx_inv h" "krx_inv (h\<lparr>k_txack_req := n\<rparr>) = krx_inv h"
  "krx_inv (kh5_upcall u h) = krx_inv h" "krx_inv (kprepared h r) = krx_inv h"
  by (auto simp: krx_inv_def kfill_def kh5_upcall_def kprepared_def split: h5_rx_state.splits kskb_ptr.splits)

lemma fifo_enqueue: "fifo_inv h sent base \<Longrightarrow> fifo_inv (h5_enqueue skb h) (sent @ accepted_msg skb) base"
  by (auto simp: fifo_inv_def h5_enqueue_def queues_ok_def queued_ok_def kh5_chan_def kpkt_defs accepted_msg_def Let_def)

lemma fifo_timeout:
  assumes "fifo_inv h sent base"
  shows "fifo_inv (h5_timed_event h) sent base"
proof -
  from assms have "requeue_loop (h\<lparr>k_retrans := False\<rparr>) =
      h\<lparr>k_retrans := False, k_unack := [], k_rel := k_unack h @ k_rel h, k_msgq_txseq := seq8 base\<rparr>"
    using requeue_loop_eq [of "h\<lparr>k_retrans := False\<rparr>" base] by (simp add: fifo_inv_def)
  with assms show ?thesis by (simp add: h5_timed_event_def fifo_inv_def queues_ok_def)
qed

lemma fifo_dequeue:
  assumes "fifo_inv h sent base"
  shows "\<exists>r h'. h5_dequeue h = Inr (r, h') \<and> fifo_inv h' sent base"
proof -
  from assms have q: "queues_ok h" by (simp add: fifo_inv_def)
  then show ?thesis
    by (cases rule: h5_dequeue_cases) (use assms in \<open>auto simp: fifo_inv_def queues_ok_def seq8_step\<close>)
qed

lemma list_all_drop: "list_all P xs \<Longrightarrow> list_all P (drop n xs)"
  by (auto simp: list_all_iff dest: in_set_dropD)

lemma fifo_receive:
  assumes "fifo_inv h sent base"
  shows "\<exists>h'. kh5_recv h bs = Inr h' \<and> (\<exists>b. fifo_inv h' sent b)"
proof -
  from assms have h: "queues_ok h" "krx_inv h" "k_msgq_txseq h = seq8 (base + length (k_unack h))" "base \<le> length sent"
      "drop base sent = map skb_msg (k_unack h @ k_rel h)" "k_unack h \<noteq> [] \<longrightarrow> k_retrans h"
    by (simp_all add: fifo_inv_def)
  from kh5_recv_ok [OF h(2), of bs] obtain h' n where h': "kh5_recv h bs = Inr h'" "krx_inv h'" "same_tx h h'"
      "k_unack h' = drop n (k_unack h)" "k_unack h' \<noteq> [] \<longrightarrow> k_retrans h' = k_retrans h"
    unfolding rx_only_def by blast
  define m where "m = min n (length (k_unack h))"
  then have u: "k_unack h' = drop m (k_unack h)" "m \<le> length (k_unack h)" using h'(4) by (auto simp: min_def)
  have len: "length (drop base sent) = length (k_unack h) + length (k_rel h)" by (simp only: h(5)) simp
  have "drop (base + m) sent = drop m (drop base sent)" by (simp add: add.commute)
  also have "\<dots> = map skb_msg (k_unack h' @ k_rel h')"
    using u h'(3) by (simp only: h(5)) (simp add: same_tx_def drop_map)
  finally have "drop (base + m) sent = map skb_msg (k_unack h' @ k_rel h')" .
  moreover have "queues_ok h'" using h(1) h'(3) u(1) by (auto simp: queues_ok_def same_tx_def intro: list_all_drop)
  moreover have "base + m \<le> length sent" using len u(2) h(4) by simp
  moreover have "base + m + length (k_unack h') = base + length (k_unack h)" using u by simp
  moreover have "k_unack h' \<noteq> [] \<longrightarrow> k_retrans h'" using h(6) h'(5) u(1) by auto
  ultimately have "fifo_inv h' sent (base + m)" using h(3) h'(2,3) by (simp add: fifo_inv_def same_tx_def add.assoc)
  with h'(1) show ?thesis by blast
qed

lemma h5_reach_fifo: "h5_reach h sent \<Longrightarrow> \<exists>base. fifo_inv h sent base"
proof (induction rule: h5_reach.induct)
  case (opened al h)
  then have "fifo_inv h [] 0"
    by (auto simp: h5_open_def h5_zero_def next_alloc_def fifo_inv_def queues_ok_def krx_inv_def seq8_def split: if_splits)
  then show ?case by blast
next
  case (dequeue h sent r h')
  then show ?case using fifo_dequeue by fastforce
next
  case (receive h sent bs h')
  then show ?case by (metis fifo_receive sum.inject(2))
qed (blast intro: fifo_enqueue fifo_timeout)+

section \<open>Properties\<close>

text \<open>(C8) Whatever the peer sends, the reliable messages of an endpoint form a FIFO: what was accepted is an
  acknowledged part followed by the outstanding packets, at most four of them and numbered from the
  next sequence number backwards, and the waiting ones; outstanding packets have their
  retransmission pending; and no operation of the endpoint faults on any input.\<close>

theorem kh5_endpoint_fifo:
  assumes "h5_reach h sent"
  shows "(\<exists>k \<le> length sent. sent = take k sent @ map skb_msg (k_unack h) @ map skb_msg (k_rel h) \<and>
            k_msgq_txseq h = seq8 (k + length (k_unack h))) \<and>
    length (k_unack h) \<le> H5_TXWINSIZE \<and> (k_unack h = [] \<or> k_retrans h) \<and>
    (\<exists>r h'. h5_dequeue h = Inr (r, h')) \<and> (\<exists>h'. kh5_recv h bs = Inr h')"
proof -
  from h5_reach_fifo [OF assms] obtain base where inv: "fifo_inv h sent base" by blast
  then have "sent = take base sent @ map skb_msg (k_unack h) @ map skb_msg (k_rel h)"
    by (metis append_take_drop_id fifo_inv_def map_append)
  with inv fifo_dequeue [OF inv] fifo_receive [OF inv, of bs] show ?thesis
    by (auto simp: fifo_inv_def queues_ok_def)
qed

theorem kh5_endpoint_fifo_witness:
  "length (k_unack ex_tx) \<le> H5_TXWINSIZE \<and> k_unack ex_tx = [ex_skb] \<and> k_retrans ex_tx \<and>
   (\<exists>h'. kh5_recv ex_tx [0xc0, 0x40, 0xdb, 0xc0] = Inr h')"
proof -
  have "h5_open [] = Some ex_h5" by (simp add: ex_h5_def h5_open_def next_alloc_def)
  from h5_reach.enqueue [OF h5_reach.opened [OF this], of ex_skb]
  have "h5_reach ex_tx ([] @ accepted_msg ex_skb)" by (rule h5_reach.dequeue [OF _ ex_dequeue])
  from kh5_endpoint_fifo [OF this, of "[0xc0, 0x40, 0xdb, 0xc0]"] show ?thesis by (simp add: ex_tx_def)
qed

text \<open>(C29) Both implementations of the three-wire protocol agree on the wire format: a packet of a type that both send
  becomes the same frame in the kernel driver and in the attach tool when sequence number, acknowledgement
  number and the use of the checksum agree.\<close>

theorem kh5_same_wire_format:
  assumes "h5_pkt_reliable t = Some rel" "next_malloc w = (True, w1)" "fst (next_alloc (k_allocs h5))"
    "length data < 2 ^ 29" "rxseq_txack w = k_rxseq_txack h5" "msgq_txseq w = k_msgq_txseq h5" "use_crc w = k_use_crc h5"
  shows "\<exists>s w' nskb h5'. h5_prepare_pkt w data (length data) t = Inr (Some s, w') \<and>
    kh5_prepare_pkt h5 data t = Inr (Some nskb, h5') \<and> kdata nskb = skb_bytes s \<and> k_msgq_txseq h5' = msgq_txseq w'"
proof -
  from assms(1) have c: "kh5_chan t = Some (word_of_nat t, rel)"
    by (auto simp: h5_pkt_reliable_def kh5_chan_def kpkt_defs split: if_splits)
  obtain s where s: "h5_prepare_pkt w data (length data) t = Inr (Some s, w1\<lparr>is_txack_req := 0,
      msgq_txseq := (if rel then (msgq_txseq w + 1) AND 0x07 else msgq_txseq w)\<rparr>)"
      "skb_bytes s = h5_frame (use_crc w \<noteq> 0)
        (h5_tx_header rel (rxseq_txack w) (msgq_txseq w) (use_crc w \<noteq> 0) (length data) t @ data)"
    by (rule h5_prepare_pkt_frame [OF assms(1,2,4)])
  obtain nskb where "kh5_prepare_pkt h5 data t = Inr (Some nskb, kprepared h5 rel)"
      "kdata nskb = kframe h5 data (word_of_nat t) rel"
    by (rule kh5_prepare_pkt_frame [OF c assms(3)])
  with s assms(5-7) show ?thesis by (auto simp: kframe_def kh5_header_eq)
qed

theorem kh5_same_wire_format_witness:
  "\<exists>s w' nskb h5'. h5_prepare_pkt (rtb_zero\<lparr>use_crc := 1\<rparr>) [0x03, 0x0c, 0x00] (length [0x03, 0x0c, 0x00 :: byte]) HCI_COMMAND_PKT = Inr (Some s, w') \<and>
    kh5_prepare_pkt ex_h5 [0x03, 0x0c, 0x00] HCI_COMMAND_PKT = Inr (Some nskb, h5') \<and> kdata nskb = skb_bytes s \<and>
    k_msgq_txseq h5' = msgq_txseq w'"
  by (rule kh5_same_wire_format [where rel = True and ?w1.0 = "rtb_zero\<lparr>use_crc := 1\<rparr>"])
     (simp_all add: h5_pkt_reliable_def kpkt_defs next_malloc_def rtb_zero_def next_alloc_def ex_h5_def h5_open_def h5_zero_def txcrc_def)

end
