(* ===== verification/Kernel_H4.thy ===== *)
theory Kernel_H4
  imports Kernel_Skb Rtb_State
begin

text \<open>
  The four-wire protocol of the kernel driver (\<open>hci_h4.c\<close>): a transmit queue whose packets are
  prefixed with their type, and a receiver that splits the byte stream into events, data and audio
  packets. Fields \<open>h4_allocs\<close>, \<open>h4_out\<close> and \<open>h4_err_rx\<close> (\<open>hdev->stat.err_rx\<close>) belong to the environment.
\<close>

section \<open>State\<close>

datatype h4_rx_state = H4_W4_PACKET_TYPE | H4_W4_EVENT_HDR | H4_W4_ACL_HDR | H4_W4_SCO_HDR | H4_W4_DATA

record h4_struct =
  h4_rx_state :: h4_rx_state
  h4_rx_count :: nat
  h4_rx_skb :: kskb_ptr
  h4_txq :: "kskb list"
  h4_allocs :: "bool list"
  h4_out :: "upcall list"
  h4_err_rx :: u32

text \<open>Constants of the host stack: header sizes and the largest frame.\<close>

definition HCI_EVENT_HDR_SIZE :: nat where "HCI_EVENT_HDR_SIZE = 2"
definition HCI_ACL_HDR_SIZE :: nat where "HCI_ACL_HDR_SIZE = 4"
definition HCI_SCO_HDR_SIZE :: nat where "HCI_SCO_HDR_SIZE = 3"
definition HCI_MAX_FRAME_SIZE :: nat where "HCI_MAX_FRAME_SIZE = 1028"

lemmas h4_size_defs = HCI_EVENT_HDR_SIZE_def HCI_ACL_HDR_SIZE_def HCI_SCO_HDR_SIZE_def HCI_MAX_FRAME_SIZE_def

section \<open>Operations\<close>

definition h4_open :: "bool list \<Rightarrow> h4_struct option" where
  "h4_open allocs =
     (case next_alloc allocs of (ok, al) \<Rightarrow>
        if \<not> ok then None
        else Some \<lparr>h4_rx_state = H4_W4_PACKET_TYPE, h4_rx_count = 0, h4_rx_skb = KNull, h4_txq = [], h4_allocs = al,
                   h4_out = [], h4_err_rx = 0\<rparr>)"

definition h4_flush :: "h4_struct \<Rightarrow> h4_struct" where "h4_flush h4 = h4\<lparr>h4_txq := []\<rparr>"

text \<open>Closing frees the queue and the packet under reception.\<close>

definition h4_close :: "h4_struct \<Rightarrow> (kskb list \<times> kskb_ptr) result" where
  "h4_close h4 = bind_result (kfree_skb (h4_rx_skb h4)) (\<lambda>p. Inr (h4_txq h4, p))"

definition h4_enqueue :: "kskb \<Rightarrow> h4_struct \<Rightarrow> h4_struct" where
  "h4_enqueue skb h4 = h4\<lparr>h4_txq := h4_txq h4 @ [skb\<lparr>kdata := word_of_nat (kpkt_type skb) # kdata skb\<rparr>]\<rparr>"

definition h4_dequeue :: "h4_struct \<Rightarrow> kskb option \<times> h4_struct" where
  "h4_dequeue h4 = (case h4_txq h4 of [] \<Rightarrow> (None, h4) | skb # q \<Rightarrow> (Some skb, h4\<lparr>h4_txq := q\<rparr>))"

definition h4_upcall :: "upcall \<Rightarrow> h4_struct \<Rightarrow> h4_struct" where
  "h4_upcall u h4 = h4\<lparr>h4_out := h4_out h4 @ [u]\<rparr>"

definition h4_check_data_len :: "nat \<Rightarrow> h4_struct \<Rightarrow> h4_struct result" where
  "h4_check_data_len len h4 =
     bind_result (kderef (h4_rx_skb h4)) (\<lambda>skb.
       let done = (\<lambda>h4. h4\<lparr>h4_rx_state := H4_W4_PACKET_TYPE, h4_rx_skb := KNull, h4_rx_count := 0\<rparr>) in
       if len = 0 then Inr (done (h4_upcall (RecvFrame skb) h4))
       else if len > ktailroom skb then bind_result (kfree_skb (h4_rx_skb h4)) (\<lambda>_. Inr (done h4))
       else Inr (h4\<lparr>h4_rx_state := H4_W4_DATA, h4_rx_count := len\<rparr>))"

text \<open>The hooks of the coexistence module and the hand-over of a packet with data.\<close>

definition h4_complete :: "h4_struct \<Rightarrow> h4_struct result" where
  "h4_complete h4 =
     bind_result (kderef (h4_rx_skb h4)) (\<lambda>skb.
       let h4 = (if kpkt_type skb = HCI_EVENT_PKT then h4_upcall (ParseEvent (kdata skb)) h4 else h4);
           h4 = (if kpkt_type skb = HCI_ACLDATA_PKT then h4_upcall (ParseL2capRx (kdata skb)) h4 else h4);
           h4 = h4_upcall (RecvFrame skb) h4
       in Inr (h4\<lparr>h4_rx_state := H4_W4_PACKET_TYPE, h4_rx_skb := KNull\<rparr>))"

text \<open>The \<open>switch\<close> when a part is complete; \<open>None\<close> when no case applies and control falls to the packet type.\<close>

definition h4_part_done :: "h4_struct \<Rightarrow> h4_struct option result" where
  "h4_part_done h4 =
     (case h4_rx_state h4 of
        H4_W4_DATA \<Rightarrow> bind_result (h4_complete h4) (\<lambda>h4. Inr (Some h4))
      | H4_W4_EVENT_HDR \<Rightarrow>
          bind_result (kderef (h4_rx_skb h4)) (\<lambda>skb. bind_result (kskb_at skb 1) (\<lambda>plen.
          bind_result (h4_check_data_len (unat plen) h4) (\<lambda>h4. Inr (Some h4))))
      | H4_W4_ACL_HDR \<Rightarrow>
          bind_result (kderef (h4_rx_skb h4)) (\<lambda>skb. bind_result (kskb_at skb 2) (\<lambda>lo. bind_result (kskb_at skb 3) (\<lambda>hi.
          bind_result (h4_check_data_len (unat (le16_of lo hi)) h4) (\<lambda>h4. Inr (Some h4)))))
      | H4_W4_SCO_HDR \<Rightarrow>
          bind_result (kderef (h4_rx_skb h4)) (\<lambda>skb. bind_result (kskb_at skb 2) (\<lambda>dlen.
          bind_result (h4_check_data_len (unat dlen) h4) (\<lambda>h4. Inr (Some h4))))
      | H4_W4_PACKET_TYPE \<Rightarrow> Inr None)"

text \<open>The packet type byte: \<open>Inl\<close> the error of the function, \<open>Inr\<close> to go on.\<close>

definition h4_type :: "byte \<Rightarrow> h4_struct \<Rightarrow> bool \<times> h4_struct" where
  "h4_type b h4 =
     (let start = (\<lambda>st n t.
        case next_alloc (h4_allocs h4) of (ok, al) \<Rightarrow>
          if \<not> ok then (False, h4\<lparr>h4_allocs := al, h4_rx_skb := KNull, h4_rx_state := H4_W4_PACKET_TYPE, h4_rx_count := 0\<rparr>)
          else (True, h4\<lparr>h4_allocs := al, h4_rx_skb := KLive ((kalloc_skb HCI_MAX_FRAME_SIZE)\<lparr>kpkt_type := t\<rparr>),
                        h4_rx_state := st, h4_rx_count := n\<rparr>))
      in if unat b = HCI_EVENT_PKT then start H4_W4_EVENT_HDR HCI_EVENT_HDR_SIZE HCI_EVENT_PKT
         else if unat b = HCI_ACLDATA_PKT then start H4_W4_ACL_HDR HCI_ACL_HDR_SIZE HCI_ACLDATA_PKT
         else if unat b = HCI_SCODATA_PKT then start H4_W4_SCO_HDR HCI_SCO_HDR_SIZE HCI_SCODATA_PKT
         else (True, h4\<lparr>h4_err_rx := h4_err_rx h4 + 1\<rparr>))"

text \<open>
  The loop. The number of outstanding bytes never exceeds the size of a frame, so the minimum of
  it and the chunk is taken on natural numbers. The flag of the result is false for \<open>-ENOMEM\<close>.
\<close>

function h4_recv :: "h4_struct \<Rightarrow> byte list \<Rightarrow> (bool \<times> h4_struct) result" where
  "h4_recv h4 bs =
     (if bs = [] then Inr (True, h4)
      else if h4_rx_count h4 \<noteq> 0 then
        let len = min (h4_rx_count h4) (length bs) in
        bind_result (kderef (h4_rx_skb h4)) (\<lambda>skb.
        bind_result (kskb_put skb (take len bs)) (\<lambda>skb.
        let h4 = h4\<lparr>h4_rx_skb := KLive skb, h4_rx_count := h4_rx_count h4 - len\<rparr>; bs = drop len bs in
        if h4_rx_count h4 \<noteq> 0 then h4_recv h4 bs
        else bind_result (h4_part_done h4) (\<lambda>r.
          case r of Some h4 \<Rightarrow> h4_recv h4 bs
          | None \<Rightarrow>
              if bs = [] then Inl OutOfBounds
              else case h4_type (hd bs) h4 of (ok, h4) \<Rightarrow> if ok then h4_recv h4 (tl bs) else Inr (False, h4))))
      else case h4_type (hd bs) h4 of (ok, h4) \<Rightarrow> if ok then h4_recv h4 (tl bs) else Inr (False, h4))"
  by pat_completeness auto
termination
  by (relation "measure (length \<circ> snd)") (auto simp: min_def)

declare h4_recv.simps [simp del]

section \<open>The receiver in blocks\<close>

text \<open>What follows when all outstanding bytes have arrived.\<close>

definition h4_after :: "h4_struct \<Rightarrow> byte list \<Rightarrow> (bool \<times> h4_struct) result" where
  "h4_after h4 bs =
     bind_result (h4_part_done h4) (\<lambda>r.
       case r of Some h4 \<Rightarrow> h4_recv h4 bs
       | None \<Rightarrow>
           if bs = [] then Inl OutOfBounds
           else case h4_type (hd bs) h4 of (ok, h4) \<Rightarrow> if ok then h4_recv h4 (tl bs) else Inr (False, h4))"

definition h4_fill :: "h4_struct \<Rightarrow> byte list \<Rightarrow> h4_struct result" where
  "h4_fill h4 bs =
     bind_result (kderef (h4_rx_skb h4)) (\<lambda>skb. bind_result (kskb_put skb bs) (\<lambda>skb.
       Inr (h4\<lparr>h4_rx_skb := KLive skb, h4_rx_count := h4_rx_count h4 - length bs\<rparr>)))"

lemma h4_recv_Nil [simp]: "h4_recv h4 [] = Inr (True, h4)"
  by (simp add: h4_recv.simps)

lemma h4_recv_type:
  "h4_rx_count h4 = 0 \<Longrightarrow> h4_recv h4 (b # bs) =
     (case h4_type b h4 of (ok, h4) \<Rightarrow> if ok then h4_recv h4 bs else Inr (False, h4))"
  by (simp add: h4_recv.simps [of h4] split: prod.splits)

lemma h4_recv_short:
  assumes "bs \<noteq> []" "length bs < h4_rx_count h4"
  shows "h4_recv h4 bs = bind_result (h4_fill h4 bs) (\<lambda>h4. Inr (True, h4))"
  using assms
  by (subst h4_recv.simps) (auto simp: h4_fill_def Let_def bind_result_assoc bind_result_def split: sum.splits)

lemma h4_recv_full:
  assumes "h4_rx_count h4 \<noteq> 0" "h4_rx_count h4 \<le> length bs"
  shows "h4_recv h4 bs =
    bind_result (h4_fill h4 (take (h4_rx_count h4) bs)) (\<lambda>h. h4_after h (drop (h4_rx_count h4) bs))"
proof -
  from assms have "bs \<noteq> []" by auto
  with assms show ?thesis
    by (subst h4_recv.simps) (simp add: h4_fill_def h4_after_def Let_def bind_result_assoc min_absorb1 cong: if_cong)
qed

text \<open>Storing two pieces is storing their concatenation.\<close>

lemma kskb_put_append: "bind_result (kskb_put skb xs) (\<lambda>s. kskb_put s ys) = kskb_put skb (xs @ ys)"
  by (auto simp: kskb_put_def)

lemma h4_fill_append: "bind_result (h4_fill h4 xs) (\<lambda>h. h4_fill h ys) = h4_fill h4 (xs @ ys)"
  by (cases "h4_rx_skb h4") (auto simp: h4_fill_def kskb_put_def)

section \<open>Memory safety\<close>

definition h4_inv :: "h4_struct \<Rightarrow> bool" where
  "h4_inv h4 =
     (case h4_rx_state h4 of H4_W4_PACKET_TYPE \<Rightarrow> h4_rx_count h4 = 0
      | st \<Rightarrow>
          (case h4_rx_skb h4 of KLive skb \<Rightarrow>
             h4_rx_count h4 \<noteq> 0 \<and> h4_rx_count h4 \<le> ktailroom skb \<and>
             (st = H4_W4_EVENT_HDR \<longrightarrow> length (kdata skb) + h4_rx_count h4 = 2) \<and>
             (st = H4_W4_ACL_HDR \<longrightarrow> length (kdata skb) + h4_rx_count h4 = 4) \<and>
             (st = H4_W4_SCO_HDR \<longrightarrow> length (kdata skb) + h4_rx_count h4 = 3)
           | _ \<Rightarrow> False))"

lemma h4_type_inv: "h4_inv h4 \<Longrightarrow> h4_rx_count h4 = 0 \<Longrightarrow> h4_type b h4 = (ok, h) \<Longrightarrow> h4_inv h"
  by (auto simp: h4_type_def h4_inv_def next_alloc_def kalloc_skb_def h4_size_defs Let_def
      split: if_splits h4_rx_state.splits kskb_ptr.splits)

lemma h4_type_count: "h4_rx_count h4 = 0 \<Longrightarrow> h4_inv h4 \<Longrightarrow> h4_rx_state h4 = H4_W4_PACKET_TYPE"
  by (auto simp: h4_inv_def split: h4_rx_state.splits kskb_ptr.splits)

lemma h4_check_ok:
  assumes "h4_rx_skb h = KLive skb" "h4_rx_count h = 0"
  shows "\<exists>h'. h4_check_data_len n h = Inr h' \<and> h4_inv h'"
  using assms by (auto simp: h4_check_data_len_def h4_inv_def h4_upcall_def Let_def)

lemma h4_part_done_ok:
  assumes skb: "h4_rx_skb h = KLive skb" and cnt: "h4_rx_count h = 0" and st: "h4_rx_state h \<noteq> H4_W4_PACKET_TYPE"
    and len: "h4_rx_state h = H4_W4_EVENT_HDR \<longrightarrow> length (kdata skb) = 2" "h4_rx_state h = H4_W4_ACL_HDR \<longrightarrow> length (kdata skb) = 4"
      "h4_rx_state h = H4_W4_SCO_HDR \<longrightarrow> length (kdata skb) = 3"
  shows "\<exists>h'. h4_part_done h = Inr (Some h') \<and> h4_inv h'"
proof (cases "h4_rx_state h")
  case H4_W4_EVENT_HDR
  with len(1) h4_check_ok [OF skb cnt, of "unat (kdata skb ! 1)"] show ?thesis by (auto simp: h4_part_done_def skb)
next
  case H4_W4_ACL_HDR
  with len(2) h4_check_ok [OF skb cnt, of "unat (le16_of (kdata skb ! 2) (kdata skb ! 3))"] show ?thesis
    by (auto simp: h4_part_done_def skb)
next
  case H4_W4_SCO_HDR
  with len(3) h4_check_ok [OF skb cnt, of "unat (kdata skb ! 2)"] show ?thesis by (auto simp: h4_part_done_def skb)
qed (use skb cnt st in \<open>simp_all add: h4_part_done_def h4_complete_def h4_inv_def h4_upcall_def Let_def\<close>)

text \<open>A complete part leads to a state of the invariant, and never to the missing case of the \<open>switch\<close>.\<close>

lemma h4_fill_ok:
  assumes "h4_inv h" "h4_rx_count h \<noteq> 0" "length bs \<le> h4_rx_count h"
  obtains h' where "h4_fill h bs = Inr h'" "length bs < h4_rx_count h \<Longrightarrow> h4_inv h'"
    "h4_rx_state h' = h4_rx_state h" "h4_rx_state h' \<noteq> H4_W4_PACKET_TYPE"
    "length bs = h4_rx_count h \<Longrightarrow> \<exists>h''. h4_part_done h' = Inr (Some h'') \<and> h4_inv h''"
proof -
  from assms(1,2) obtain skb where skb: "h4_rx_skb h = KLive skb" "h4_rx_count h \<le> ktailroom skb"
      "h4_rx_state h \<noteq> H4_W4_PACKET_TYPE"
      "h4_rx_state h = H4_W4_EVENT_HDR \<longrightarrow> length (kdata skb) + h4_rx_count h = 2"
      "h4_rx_state h = H4_W4_ACL_HDR \<longrightarrow> length (kdata skb) + h4_rx_count h = 4"
      "h4_rx_state h = H4_W4_SCO_HDR \<longrightarrow> length (kdata skb) + h4_rx_count h = 3"
    by (auto simp: h4_inv_def split: h4_rx_state.splits kskb_ptr.splits)
  let ?s = "skb\<lparr>kdata := kdata skb @ bs, ktailroom := ktailroom skb - length bs\<rparr>"
  let ?h = "h\<lparr>h4_rx_skb := KLive ?s, h4_rx_count := h4_rx_count h - length bs\<rparr>"
  have f: "h4_fill h bs = Inr ?h" using skb(1,2) assms(3) by (simp add: h4_fill_def kskb_put_def)
  have p: "\<exists>h''. h4_part_done ?h = Inr (Some h'') \<and> h4_inv h''" if "length bs = h4_rx_count h"
    by (rule h4_part_done_ok [of ?h ?s]) (use skb(3-6) that in auto)
  show thesis
    by (rule that [OF f]) (use skb assms(3) p in \<open>auto simp: h4_inv_def split: h4_rx_state.splits\<close>)
qed

lemma h4_recv_ok: "h4_inv h \<Longrightarrow> \<exists>ok h'. h4_recv h bs = Inr (ok, h') \<and> h4_inv h'"
proof (induction "length bs" arbitrary: h bs rule: less_induct)
  case less
  consider "bs = []" | (type) b rest where "bs = b # rest" "h4_rx_count h = 0"
    | (short) "bs \<noteq> []" "length bs < h4_rx_count h" | (full) "h4_rx_count h \<noteq> 0" "h4_rx_count h \<le> length bs"
    by (cases bs; cases "h4_rx_count h = 0") force+
  then show ?case
  proof cases
    case type
    obtain ok h' where t: "h4_type b h = (ok, h')" by force
    with h4_type_inv [OF less.prems type(2)] have "h4_inv h'" by blast
    with less.hyps [of rest h'] type t show ?thesis by (auto simp: h4_recv_type)
  next
    case short
    then have "h4_rx_count h \<noteq> 0" "length bs \<le> h4_rx_count h" by auto
    from h4_fill_ok [OF less.prems this] short(2) obtain h' where "h4_fill h bs = Inr h'" "h4_inv h'" by metis
    with short show ?thesis by (auto simp: h4_recv_short)
  next
    case full
    then have "length (take (h4_rx_count h) bs) = h4_rx_count h" by simp
    with h4_fill_ok [OF less.prems full(1), of "take (h4_rx_count h) bs"] obtain h1 h2 where
        "h4_fill h (take (h4_rx_count h) bs) = Inr h1" "h4_part_done h1 = Inr (Some h2)" "h4_inv h2"
      by (metis order_refl)
    with less.hyps [of "drop (h4_rx_count h) bs" h2] full show ?thesis
      by (simp add: h4_recv_full h4_after_def)
  qed (use less.prems in auto)
qed

section \<open>Any pieces give the same packets\<close>

definition h4_mem :: "h4_struct \<Rightarrow> bool" where
  "h4_mem h4 \<longleftrightarrow> False \<notin> set (h4_allocs h4)"

lemma h4_type_mem: "h4_mem h4 \<Longrightarrow> \<exists>h. h4_type b h4 = (True, h) \<and> h4_mem h"
  by (cases "h4_allocs h4") (auto simp: h4_type_def h4_mem_def next_alloc_def Let_def)

lemma h4_mem_updates [simp]:
  "h4_mem (h4\<lparr>h4_rx_skb := p\<rparr>) = h4_mem h4" "h4_mem (h4\<lparr>h4_rx_count := n\<rparr>) = h4_mem h4"
  "h4_mem (h4\<lparr>h4_rx_state := st\<rparr>) = h4_mem h4" "h4_mem (h4_upcall u h4) = h4_mem h4"
  by (simp_all add: h4_mem_def h4_upcall_def)

lemma h4_check_mem: "h4_mem h \<Longrightarrow> h4_check_data_len n h = Inr h' \<Longrightarrow> h4_mem h'"
  by (auto simp: h4_check_data_len_def bind_result_eq_Inr Let_def split: if_splits)

lemma h4_part_mem: "h4_mem h \<Longrightarrow> h4_part_done h = Inr (Some h') \<Longrightarrow> h4_mem h'"
  by (cases "h4_rx_state h")
     (auto simp: h4_part_done_def h4_complete_def bind_result_eq_Inr Let_def dest: h4_check_mem split: if_splits)

lemma h4_fill_mem: "h4_mem h \<Longrightarrow> h4_fill h bs = Inr h' \<Longrightarrow> h4_mem h'"
  by (auto simp: h4_fill_def bind_result_eq_Inr)

lemma h4_fill_count: "h4_fill h bs = Inr h' \<Longrightarrow> h4_rx_count h' = h4_rx_count h - length bs"
  by (auto simp: h4_fill_def bind_result_eq_Inr)

text \<open>The receiver goes through a block of outstanding bytes in one step.\<close>

lemma h4_recv_block:
  assumes "h4_inv h" "h4_mem h" "h4_rx_count h \<noteq> 0" "h4_rx_count h \<le> length bs"
  shows "\<exists>h1 h2. h4_fill h (take (h4_rx_count h) bs) = Inr h1 \<and> h4_part_done h1 = Inr (Some h2) \<and> h4_inv h2 \<and> h4_mem h2 \<and>
    (\<forall>cs. h4_recv h (bs @ cs) = h4_recv h2 (drop (h4_rx_count h) bs @ cs))"
proof -
  from assms(4) have "length (take (h4_rx_count h) bs) = h4_rx_count h" by simp
  with h4_fill_ok [OF assms(1,3), of "take (h4_rx_count h) bs"] obtain h1 h2 where h:
      "h4_fill h (take (h4_rx_count h) bs) = Inr h1" "h4_part_done h1 = Inr (Some h2)" "h4_inv h2"
    by (metis order_refl)
  from h4_part_mem [OF h4_fill_mem [OF assms(2) h(1)] h(2)] have m: "h4_mem h2" .
  have r: "h4_recv h (bs @ cs) = h4_recv h2 (drop (h4_rx_count h) bs @ cs)" for cs
    by (subst h4_recv_full) (use assms(3,4) h in \<open>simp_all add: h4_after_def\<close>)
  show ?thesis using h m r by blast
qed

lemma h4_recv_append:
  assumes "h4_inv h" "h4_mem h"
  shows "\<exists>h'. h4_recv h xs = Inr (True, h') \<and> h4_inv h' \<and> h4_mem h' \<and> h4_recv h (xs @ ys) = h4_recv h' ys"
  using assms
proof (induction "length xs" arbitrary: h xs rule: less_induct)
  case less
  consider "xs = []" | (type) b rest where "xs = b # rest" "h4_rx_count h = 0"
    | (short) "xs \<noteq> []" "length xs < h4_rx_count h" | (full) "h4_rx_count h \<noteq> 0" "h4_rx_count h \<le> length xs"
    by (cases xs; cases "h4_rx_count h = 0") force+
  then show ?case
  proof cases
    case type
    from h4_type_mem [OF less.prems(2)] obtain h' where t: "h4_type b h = (True, h')" "h4_mem h'" by blast
    with h4_type_inv [OF less.prems(1) type(2)] have "h4_inv h'" by blast
    with less.hyps [of rest h'] type t show ?thesis by (simp add: h4_recv_type)
  next
    case short
    then have "h4_rx_count h \<noteq> 0" "length xs \<le> h4_rx_count h" by auto
    from h4_fill_ok [OF less.prems(1) this] short(2) obtain h' where h': "h4_fill h xs = Inr h'" "h4_inv h'" by metis
    have "h4_recv h (xs @ ys) = h4_recv h' ys"
    proof (cases "ys = []")
      case True
      with short h' show ?thesis by (simp add: h4_recv_short)
    next
      case False
      have f: "h4_fill h' zs = h4_fill h (xs @ zs)" for zs using h4_fill_append [of h xs zs] h'(1) by simp
      have c: "h4_rx_count h' = h4_rx_count h - length xs" using h4_fill_count [OF h'(1)] .
      show ?thesis
      proof (cases "length (xs @ ys) < h4_rx_count h")
        case True
        with short False c show ?thesis by (simp add: h4_recv_short f)
      next
        case nl: False
        with short c show ?thesis by (simp add: h4_recv_full f)
      qed
    qed
    with h' short h4_fill_mem [OF less.prems(2) h'(1)] show ?thesis by (simp add: h4_recv_short)
  next
    case full
    from h4_recv_block [OF less.prems full] obtain h2 where h2: "h4_inv h2" "h4_mem h2"
        "\<And>cs. h4_recv h (xs @ cs) = h4_recv h2 (drop (h4_rx_count h) xs @ cs)"
      by blast
    with less.hyps [of "drop (h4_rx_count h) xs" h2] full h2(3) [of "[]"] show ?thesis by simp
  qed (use less.prems in auto)
qed

text \<open>The calls of the line discipline: one call of the receiver for every chunk of bytes.\<close>

fun h4_chunks :: "h4_struct \<Rightarrow> byte list list \<Rightarrow> h4_struct result" where
  "h4_chunks h [] = Inr h"
| "h4_chunks h (c # cs) = bind_result (h4_recv h c) (\<lambda>(_, h). h4_chunks h cs)"

lemma h4_chunks_concat:
  assumes "h4_inv h" "h4_mem h"
  shows "h4_chunks h cs = bind_result (h4_recv h (concat cs)) (\<lambda>(_, h). Inr h)"
  using assms
proof (induction cs arbitrary: h)
  case (Cons c cs)
  with h4_recv_append [OF Cons.prems, of c "concat cs"] show ?case by auto
qed simp

section \<open>The stream of packets\<close>

text \<open>A packet: its type, and header with data; the header announces the length of the data.\<close>

definition h4_hdr :: "nat \<Rightarrow> (h4_rx_state \<times> nat) option" where
  "h4_hdr t =
     (if t = HCI_EVENT_PKT then Some (H4_W4_EVENT_HDR, 2) else if t = HCI_ACLDATA_PKT then Some (H4_W4_ACL_HDR, 4)
      else if t = HCI_SCODATA_PKT then Some (H4_W4_SCO_HDR, 3) else None)"

definition h4_announced :: "nat \<Rightarrow> byte list \<Rightarrow> nat" where
  "h4_announced t ds =
     (if t = HCI_EVENT_PKT then unat (ds ! 1) else if t = HCI_ACLDATA_PKT then unat (le16_of (ds ! 2) (ds ! 3)) else unat (ds ! 2))"

definition h4_packet :: "nat \<times> byte list \<Rightarrow> bool" where
  "h4_packet p =
     (case p of (t, ds) \<Rightarrow> case h4_hdr t of None \<Rightarrow> False
      | Some (_, k) \<Rightarrow> k \<le> length ds \<and> length ds = k + h4_announced t ds \<and> length ds \<le> HCI_MAX_FRAME_SIZE)"

definition h4_bytes :: "nat \<times> byte list \<Rightarrow> byte list" where
  "h4_bytes p = word_of_nat (fst p) # snd p"

definition h4_idle :: "h4_struct \<Rightarrow> bool" where
  "h4_idle h4 \<longleftrightarrow> h4_rx_state h4 = H4_W4_PACKET_TYPE \<and> h4_rx_count h4 = 0"

text \<open>The receiver after the first \<open>k\<close> bytes of a packet.\<close>

definition h4_at :: "h4_struct \<Rightarrow> h4_rx_state \<Rightarrow> nat \<Rightarrow> byte list \<Rightarrow> nat \<Rightarrow> h4_struct" where
  "h4_at h st t xs n =
     h\<lparr>h4_rx_state := st, h4_rx_skb := KLive \<lparr>kpkt_type = t, kdata = xs, ktailroom = HCI_MAX_FRAME_SIZE - length xs\<rparr>, h4_rx_count := n\<rparr>"

lemma h4_type_at:
  assumes "h4_hdr t = Some (st, k)" "h4_mem h"
  shows "h4_type (word_of_nat t) h = (True, h4_at (h\<lparr>h4_allocs := tl (h4_allocs h)\<rparr>) st t [] k)"
proof -
  from assms(1) have t: "unat (word_of_nat t :: byte) = t" by (auto simp: h4_hdr_def pkt_type_defs split: if_splits)
  from assms(2) have "fst (next_alloc (h4_allocs h))" by (cases "h4_allocs h") (auto simp: h4_mem_def next_alloc_def)
  with assms(1) show ?thesis
    by (auto simp: h4_type_def t h4_hdr_def h4_at_def kalloc_skb_def next_alloc_def h4_size_defs pkt_type_defs Let_def split: if_splits)
qed

lemma h4_recv_at:
  assumes "n \<noteq> 0" "length ds = n" "length xs + n \<le> HCI_MAX_FRAME_SIZE"
  shows "h4_recv (h4_at h st t xs n) (ds @ rest) = h4_after (h4_at h st t (xs @ ds) 0) rest"
proof -
  have "h4_recv (h4_at h st t xs n) (ds @ rest) =
      bind_result (h4_fill (h4_at h st t xs n) ds) (\<lambda>h. h4_after h rest)"
    using assms by (subst h4_recv_full) (simp_all add: h4_at_def)
  moreover have "length ds \<le> HCI_MAX_FRAME_SIZE - length xs" using assms by simp
  ultimately show ?thesis using assms(2) by (simp add: h4_fill_def h4_at_def kskb_put_def)
qed

text \<open>A complete header leads to the length check, a complete packet to the hand-over.\<close>

lemma h4_after_header:
  assumes "h4_hdr t = Some (st, k)" "length hs = k"
  shows "h4_after (h4_at h st t hs 0) rest =
    bind_result (h4_check_data_len (h4_announced t hs) (h4_at h st t hs 0)) (\<lambda>h. h4_recv h rest)"
  using assms
  by (auto simp: h4_after_def h4_part_done_def h4_hdr_def h4_at_def h4_announced_def pkt_type_defs bind_result_assoc
      split: if_splits)

text \<open>The hooks called for a packet; a packet without data is handed up without them.\<close>

definition packet_hooks :: "nat \<times> byte list \<Rightarrow> upcall list" where
  "packet_hooks p =
     (case p of (t, ds) \<Rightarrow>
        if h4_announced t ds = 0 then []
        else if t = HCI_EVENT_PKT then [ParseEvent ds] else if t = HCI_ACLDATA_PKT then [ParseL2capRx ds] else [])"

definition h4_handed :: "h4_struct \<Rightarrow> nat \<times> byte list \<Rightarrow> h4_struct \<Rightarrow> bool" where
  "h4_handed h p h' \<longleftrightarrow> h4_idle h' \<and> h4_mem h' \<and> h4_txq h' = h4_txq h \<and> h4_err_rx h' = h4_err_rx h \<and>
     map skb_msg (frames_up (h4_out h')) = map skb_msg (frames_up (h4_out h)) @ [p] \<and>
     hooks_up (h4_out h') = hooks_up (h4_out h) @ packet_hooks p"

lemma h4_recv_packet:
  assumes idle: "h4_idle h" "h4_mem h" and p: "h4_packet (t, ds)"
  shows "\<exists>h'. h4_handed h (t, ds) h' \<and> (\<forall>rest. h4_recv h (h4_bytes (t, ds) @ rest) = h4_recv h' rest)"
proof -
  from p obtain st k where k: "h4_hdr t = Some (st, k)" "k \<le> length ds" "length ds = k + h4_announced t ds"
      "length ds \<le> HCI_MAX_FRAME_SIZE"
    by (auto simp: h4_packet_def split: option.splits)
  let ?hs = "take k ds" and ?ps = "drop k ds" and ?g = "h\<lparr>h4_allocs := tl (h4_allocs h)\<rparr>"
  have g: "h4_mem ?g" using idle(2) by (cases "h4_allocs h") (auto simp: h4_mem_def)
  have kp: "k \<noteq> 0" using k(1) by (auto simp: h4_hdr_def split: if_splits)
  have n: "h4_announced t ?hs = length ?ps"
    using k by (auto simp: h4_announced_def h4_hdr_def pkt_type_defs split: if_splits)
  have start: "h4_recv h (h4_bytes (t, ds) @ rest) = h4_after (h4_at ?g st t ?hs 0) (?ps @ rest)" for rest
  proof -
    have e: "?hs @ ?ps @ rest = ds @ rest" by (simp flip: append_assoc)
    have "h4_recv h (h4_bytes (t, ds) @ rest) = h4_recv (h4_at ?g st t [] k) (?hs @ ?ps @ rest)"
      unfolding e using idle(1) h4_type_at [OF k(1) idle(2)] by (simp add: h4_bytes_def h4_recv_type h4_idle_def)
    then show ?thesis using h4_recv_at [of k ?hs "[]" ?g st t "?ps @ rest"] kp k(2,4) by simp
  qed
  have after: "h4_after (h4_at ?g st t ?hs 0) (?ps @ rest) =
      bind_result (h4_check_data_len (length ?ps) (h4_at ?g st t ?hs 0)) (\<lambda>h. h4_recv h (?ps @ rest))" for rest
    using h4_after_header [OF k(1), of ?hs] k(2) n by simp
  show ?thesis
  proof (cases "?ps = []")
    case True
    let ?h = "(h4_upcall (RecvFrame \<lparr>kpkt_type = t, kdata = ?hs, ktailroom = HCI_MAX_FRAME_SIZE - length ?hs\<rparr>) (h4_at ?g st t ?hs 0))
       \<lparr>h4_rx_state := H4_W4_PACKET_TYPE, h4_rx_skb := KNull, h4_rx_count := 0\<rparr>"
    have "h4_handed h (t, ds) ?h"
      using True g k(3) by (simp add: h4_handed_def h4_idle_def h4_at_def h4_upcall_def h4_mem_def skb_msg_def packet_hooks_def)
    moreover have "h4_check_data_len (length ?ps) (h4_at ?g st t ?hs 0) = Inr ?h"
      using True by (simp add: h4_check_data_len_def h4_at_def Let_def)
    ultimately show ?thesis using start after True by (intro exI [of _ ?h]) (simp only: bind_result_Inr append_Nil simp_thms)
  next
    case False
    let ?h = "h4_at ?g H4_W4_DATA t ds 0"
    have "h4_check_data_len (length ?ps) (h4_at ?g st t ?hs 0) = Inr (h4_at ?g H4_W4_DATA t ?hs (length ?ps))"
      using False k(2,4) by (simp add: h4_check_data_len_def h4_at_def Let_def)
    with after h4_recv_at [of "length ?ps" ?ps ?hs ?g H4_W4_DATA t] False k(4)
    have r: "h4_after (h4_at ?g st t ?hs 0) (?ps @ rest) = h4_after ?h rest" for rest by simp
    obtain h' where h': "h4_part_done ?h = Inr (Some h')" "h4_handed h (t, ds) h'"
      using g False k(3)
      by (simp add: h4_part_done_def h4_complete_def h4_handed_def h4_idle_def h4_at_def h4_upcall_def h4_mem_def skb_msg_def
          packet_hooks_def pkt_type_defs Let_def)
    with start r show ?thesis by (intro exI [of _ h']) (simp add: h4_after_def)
  qed
qed

lemma h4_recv_packets:
  assumes "h4_idle h" "h4_mem h" "list_all h4_packet ps"
  shows "\<exists>h'. h4_recv h (concat (map h4_bytes ps)) = Inr (True, h') \<and> h4_idle h' \<and> h4_err_rx h' = h4_err_rx h \<and>
    map skb_msg (frames_up (h4_out h')) = map skb_msg (frames_up (h4_out h)) @ ps \<and>
    hooks_up (h4_out h') = hooks_up (h4_out h) @ concat (map packet_hooks ps)"
  using assms
proof (induction ps arbitrary: h)
  case (Cons p ps)
  from Cons.prems h4_recv_packet [of h "fst p" "snd p"] obtain h1 where h1: "h4_handed h p h1"
      "\<forall>rest. h4_recv h (h4_bytes p @ rest) = h4_recv h1 rest"
    by auto
  with Cons.prems Cons.IH [of h1] show ?case by (auto simp: h4_handed_def)
qed simp

lemma h4_idle_inv: "h4_idle h \<Longrightarrow> h4_inv h"
  by (simp add: h4_idle_def h4_inv_def)

section \<open>Properties\<close>

text \<open>A stream of packets that reaches the driver in any pieces is handed to the host stack packet by packet,
  in order, with types, headers and data unchanged.\<close>

theorem h4_recv_stream:
  assumes "h4_idle h" "h4_mem h" "list_all h4_packet ps" "concat cs = concat (map h4_bytes ps)"
  shows "\<exists>h'. h4_chunks h cs = Inr h' \<and> h4_idle h' \<and>
    map skb_msg (frames_up (h4_out h')) = map skb_msg (frames_up (h4_out h)) @ ps"
  using h4_recv_packets [OF assms(1-3)] h4_chunks_concat [OF h4_idle_inv [OF assms(1)] assms(2), of cs] assms(4) by auto

text \<open>No input makes the four-wire receiver fault: whatever bytes arrive and whatever allocations fail, a receiver in a
  consistent state stays in one.\<close>

theorem h4_recv_memory_safe:
  assumes "h4_inv h"
  shows "\<exists>ok h'. h4_recv h bs = Inr (ok, h') \<and> h4_inv h'"
  using h4_recv_ok [OF assms] .

definition ex_h4 :: h4_struct where "ex_h4 = the (h4_open [])"

lemma ex_h4_idle: "h4_idle ex_h4" "h4_mem ex_h4"
  by (simp_all add: ex_h4_def h4_open_def next_alloc_def h4_idle_def h4_mem_def)

theorem h4_recv_stream_witness:
  "\<exists>h'. h4_chunks ex_h4 [[0x04, 0x0e], [0x04, 0x01, 0x03, 0x0c], [0x00, 0x03, 0x2a, 0x00, 0x00]] = Inr h' \<and> h4_idle h' \<and>
    map skb_msg (frames_up (h4_out h')) =
      map skb_msg (frames_up (h4_out ex_h4)) @
        [(HCI_EVENT_PKT, [0x0e, 0x04, 0x01, 0x03, 0x0c, 0x00]), (HCI_SCODATA_PKT, [0x2a, 0x00, 0x00])]"
  by (rule h4_recv_stream [OF ex_h4_idle])
     (simp_all add: h4_packet_def h4_hdr_def h4_announced_def h4_bytes_def pkt_type_defs h4_size_defs)

theorem h4_recv_memory_safe_witness: "\<exists>ok h'. h4_recv ex_h4 [0x07, 0x02, 0xff, 0xff, 0xff, 0xff, 0x04] = Inr (ok, h') \<and> h4_inv h'"
  by (rule h4_recv_memory_safe [OF h4_idle_inv [OF ex_h4_idle(1)]])

end
