(* ===== verification/Kernel_Ldisc.thy ===== *)
theory Kernel_Ldisc
  imports Kernel_H5_Safety Kernel_H4
begin

text \<open>
  The line discipline (\<open>hci_ldisc.c\<close>, \<open>hci_uart.h\<close>): the table of protocols, the structure \<open>hci_uart\<close>,
  the interface to the host stack and the callbacks of the terminal layer. A protocol is the record
  of function pointers of the source, over an arbitrary private state. Locks serialise the entry
  points, which are atomic here; \<open>Kernel_Sched\<close> treats the interleaving of the transmit path. The
  code under \<open>WOBT_NOTIFY\<close> is not compiled.
\<close>

section \<open>Protocols\<close>

definition HCI_UART_MAX_PROTO :: nat where "HCI_UART_MAX_PROTO = 6"

record 'p hci_uart_proto =
  p_id :: nat
  p_open :: "bool list \<Rightarrow> 'p option"
  p_close :: "'p \<Rightarrow> unit result"
  p_flush :: "'p \<Rightarrow> 'p"
  p_recv :: "'p \<Rightarrow> byte list \<Rightarrow> 'p result"
  p_enqueue :: "kskb \<Rightarrow> 'p \<Rightarrow> 'p"
  p_dequeue :: "'p \<Rightarrow> (kskb option \<times> 'p) result"
  p_out :: "'p \<Rightarrow> upcall list"

text \<open>Error numbers, as the functions return them.\<close>

definition ENOMEM :: int where "ENOMEM = 12"
definition EBADF :: int where "EBADF = 9"
definition EBUSY :: int where "EBUSY = 16"
definition EEXIST :: int where "EEXIST = 17"
definition ENODEV :: int where "ENODEV = 19"
definition EINVAL :: int where "EINVAL = 22"
definition ENFILE :: int where "ENFILE = 23"
definition EUNATCH :: int where "EUNATCH = 49"
definition EPROTONOSUPPORT :: int where "EPROTONOSUPPORT = 93"
definition EOPNOTSUPP :: int where "EOPNOTSUPP = 95"

lemmas errno_defs = ENOMEM_def EBADF_def EBUSY_def EEXIST_def ENODEV_def EINVAL_def ENFILE_def EUNATCH_def
  EPROTONOSUPPORT_def EOPNOTSUPP_def

text \<open>The table \<open>hup\<close> is a list of \<open>HCI_UART_MAX_PROTO\<close> pointers.\<close>

definition hci_uart_register_proto :: "'p hci_uart_proto \<Rightarrow> 'p hci_uart_proto option list \<Rightarrow> int \<times> 'p hci_uart_proto option list" where
  "hci_uart_register_proto p hup =
     (if p_id p \<ge> HCI_UART_MAX_PROTO then (- EINVAL, hup)
      else if hup ! p_id p \<noteq> None then (- EEXIST, hup)
      else (0, hup[p_id p := Some p]))"

definition hci_uart_unregister_proto :: "'p hci_uart_proto \<Rightarrow> 'p hci_uart_proto option list \<Rightarrow> int \<times> 'p hci_uart_proto option list" where
  "hci_uart_unregister_proto p hup =
     (if p_id p \<ge> HCI_UART_MAX_PROTO then (- EINVAL, hup)
      else if hup ! p_id p = None then (- EINVAL, hup)
      else (0, hup[p_id p := None]))"

definition hci_uart_get_proto :: "nat \<Rightarrow> 'p hci_uart_proto option list \<Rightarrow> 'p hci_uart_proto option" where
  "hci_uart_get_proto i hup = (if i \<ge> HCI_UART_MAX_PROTO then None else hup ! i)"

section \<open>State\<close>

text \<open>The device of the host stack, as far as the line discipline touches it.\<close>

record hci_dev =
  stat_cmd_tx :: u32
  stat_acl_tx :: u32
  stat_sco_tx :: u32
  stat_byte_tx :: u32
  stat_byte_rx :: u32
  hdev_up :: bool
  hdev_flush :: bool
  hdev_id :: int
  hdev_raw :: bool
  hdev_external :: bool
  hdev_reset_on_close :: bool
  hdev_amp :: bool

datatype hdev_ptr = HNull | HFreed | HLive hci_dev

definition hderef :: "hdev_ptr \<Rightarrow> hci_dev result" where
  "hderef p = (case p of HNull \<Rightarrow> Inl NullDeref | HFreed \<Rightarrow> Inl UseAfterFree | HLive d \<Rightarrow> Inr d)"

text \<open>Calls into the coexistence module made by the line discipline itself.\<close>

datatype coex_call = CoexOpen | CoexClose | CoexProbe | ParseCmd "byte list" | ParseL2capTx "byte list"

text \<open>
  The bits of \<open>flags\<close> and \<open>tx_state\<close> are fields. The terminal is the bytes it has accepted
  (\<open>tty_out\<close>), its flag \<open>TTY_DO_WRITE_WAKEUP\<close>, and how many bytes it takes at coming writes
  (\<open>tty_takes\<close>; everything when the list is used up).
\<close>

record 'p hci_uart =
  hu_hdev :: hdev_ptr
  hu_set :: bool
  hu_registered :: bool
  hu_ready :: bool
  hu_hdev_flags :: "64 word"
  hu_work :: bool
  hu_proto :: "'p hci_uart_proto option"
  hu_priv :: "'p option"
  hu_tx_skb :: "kskb option"
  hu_sending :: bool
  hu_tx_wakeup :: bool
  tty_out :: "byte list"
  tty_do_wakeup :: bool
  tty_takes :: "nat list"
  hu_coex :: "coex_call list"
  hu_allocs :: "bool list"

definition hu_proto_of :: "'p hci_uart \<Rightarrow> 'p hci_uart_proto result" where
  "hu_proto_of hu = (case hu_proto hu of None \<Rightarrow> Inl NullDeref | Some p \<Rightarrow> Inr p)"

definition hu_priv_of :: "'p hci_uart \<Rightarrow> 'p result" where
  "hu_priv_of hu = (case hu_priv hu of None \<Rightarrow> Inl NullDeref | Some s \<Rightarrow> Inr s)"

definition coex :: "coex_call \<Rightarrow> 'p hci_uart \<Rightarrow> 'p hci_uart" where
  "coex c hu = hu\<lparr>hu_coex := hu_coex hu @ [c]\<rparr>"

section \<open>Transmitting\<close>

definition hci_uart_tx_complete :: "nat \<Rightarrow> 'p hci_uart \<Rightarrow> 'p hci_uart result" where
  "hci_uart_tx_complete pkt_type hu =
     (if pkt_type = HCI_COMMAND_PKT then
        bind_result (hderef (hu_hdev hu)) (\<lambda>d. Inr (hu\<lparr>hu_hdev := HLive (d\<lparr>stat_cmd_tx := stat_cmd_tx d + 1\<rparr>)\<rparr>))
      else if pkt_type = HCI_ACLDATA_PKT then
        bind_result (hderef (hu_hdev hu)) (\<lambda>d. Inr (hu\<lparr>hu_hdev := HLive (d\<lparr>stat_acl_tx := stat_acl_tx d + 1\<rparr>)\<rparr>))
      else if pkt_type = HCI_SCODATA_PKT then
        bind_result (hderef (hu_hdev hu)) (\<lambda>d. Inr (hu\<lparr>hu_hdev := HLive (d\<lparr>stat_sco_tx := stat_sco_tx d + 1\<rparr>)\<rparr>))
      else Inr hu)"

definition hci_uart_dequeue :: "'p hci_uart \<Rightarrow> (kskb option \<times> 'p hci_uart) result" where
  "hci_uart_dequeue hu =
     (case hu_tx_skb hu of
        Some skb \<Rightarrow> Inr (Some skb, hu\<lparr>hu_tx_skb := None\<rparr>)
      | None \<Rightarrow>
          if hu_ready hu then
            bind_result (hu_proto_of hu) (\<lambda>p. bind_result (hu_priv_of hu) (\<lambda>s.
            bind_result (p_dequeue p s) (\<lambda>(r, s). Inr (r, hu\<lparr>hu_priv := Some s\<rparr>))))
          else Inr (None, hu))"

definition hci_uart_tx_wakeup :: "'p hci_uart \<Rightarrow> 'p hci_uart" where
  "hci_uart_tx_wakeup hu =
     (if \<not> hu_ready hu then hu
      else let hu = hu\<lparr>hu_tx_wakeup := True\<rparr> in
           if hu_sending hu then hu else hu\<lparr>hu_sending := True, hu_work := True\<rparr>)"

text \<open>The \<open>write\<close> operation of the terminal: it takes a prefix of the data.\<close>

definition tty_write :: "byte list \<Rightarrow> 'p hci_uart \<Rightarrow> nat \<times> 'p hci_uart" where
  "tty_write bs hu =
     (let n = (case tty_takes hu of [] \<Rightarrow> length bs | m # _ \<Rightarrow> min m (length bs))
      in (n, hu\<lparr>tty_takes := tl (tty_takes hu), tty_out := tty_out hu @ take n bs\<rparr>))"

text \<open>The body of the \<open>while\<close> loop of \<open>hci_uart_write_work\<close>; the flag tells whether the loop goes on.\<close>

definition write_one :: "kskb \<Rightarrow> 'p hci_uart \<Rightarrow> (bool \<times> 'p hci_uart) result" where
  "write_one skb hu =
     (case tty_write (kdata skb) (hu\<lparr>tty_do_wakeup := True\<rparr>) of (len, hu) \<Rightarrow>
      bind_result (hderef (hu_hdev hu)) (\<lambda>d.
      let hu = hu\<lparr>hu_hdev := HLive (d\<lparr>stat_byte_tx := stat_byte_tx d + word_of_nat len\<rparr>)\<rparr>;
          skb = kskb_pull skb len
      in if kdata skb \<noteq> [] then Inr (False, hu\<lparr>hu_tx_skb := Some skb\<rparr>)
         else bind_result (hci_uart_tx_complete (kpkt_type skb) hu) (\<lambda>hu. Inr (True, hu))))"

text \<open>\<open>None\<close>: the loop does not end.\<close>

partial_function (option) write_loop :: "'p hci_uart \<Rightarrow> 'p hci_uart result option" where
  "write_loop hu =
     (case hci_uart_dequeue hu of Inl e \<Rightarrow> Some (Inl e)
      | Inr (r, hu) \<Rightarrow>
          (case r of None \<Rightarrow> Some (Inr hu)
           | Some skb \<Rightarrow>
               (case write_one skb hu of Inl e \<Rightarrow> Some (Inl e)
                | Inr (again, hu) \<Rightarrow> if again then write_loop hu else Some (Inr hu))))"

partial_function (option) hci_uart_write_work :: "'p hci_uart \<Rightarrow> 'p hci_uart result option" where
  "hci_uart_write_work hu =
     Option.bind (write_loop (hu\<lparr>hu_tx_wakeup := False\<rparr>)) (\<lambda>r.
       case r of Inl e \<Rightarrow> Some (Inl e)
       | Inr hu \<Rightarrow>
           let hu = hu\<lparr>hu_sending := False\<rparr> in
           if hu_tx_wakeup hu then hci_uart_write_work hu else Some (Inr hu))"

section \<open>The interface to the host stack\<close>

definition hci_uart_open :: "'p hci_uart \<Rightarrow> (int \<times> 'p hci_uart) result" where
  "hci_uart_open hu =
     bind_result (hderef (hu_hdev hu)) (\<lambda>d.
       Inr (0, coex CoexOpen (hu\<lparr>hu_hdev := HLive (d\<lparr>hdev_flush := True, hdev_up := True\<rparr>)\<rparr>)))"

definition hci_uart_flush :: "'p hci_uart \<Rightarrow> (int \<times> 'p hci_uart) result" where
  "hci_uart_flush hu =
     (let hu = hu\<lparr>hu_tx_skb := None\<rparr> in
      if hu_ready hu then
        bind_result (hu_proto_of hu) (\<lambda>p. bind_result (hu_priv_of hu) (\<lambda>s. Inr (0, hu\<lparr>hu_priv := Some (p_flush p s)\<rparr>)))
      else Inr (0, hu))"

text \<open>The device is read before and written after the flush; the warning about \<open>HCI_RUNNING\<close> has no effect.\<close>

definition hci_uart_close :: "'p hci_uart \<Rightarrow> (int \<times> 'p hci_uart) result" where
  "hci_uart_close hu =
     bind_result (hderef (hu_hdev hu)) (\<lambda>_.
     bind_result (hci_uart_flush hu) (\<lambda>(_, hu).
     bind_result (hderef (hu_hdev hu)) (\<lambda>d.
       Inr (0, coex CoexClose (hu\<lparr>hu_hdev := HLive (d\<lparr>hdev_flush := False\<rparr>)\<rparr>)))))"

definition hci_uart_send_frame :: "kskb \<Rightarrow> 'p hci_uart \<Rightarrow> (int \<times> 'p hci_uart) result" where
  "hci_uart_send_frame skb hu =
     (if hu_hdev hu = HNull then Inr (- ENODEV, hu)
      else
        let hu = (if kpkt_type skb = HCI_COMMAND_PKT then coex (ParseCmd (kdata skb)) hu else hu);
            hu = (if kpkt_type skb = HCI_ACLDATA_PKT then coex (ParseL2capTx (kdata skb)) hu else hu)
        in if \<not> hu_ready hu then Inr (- EUNATCH, hu)
           else bind_result (hu_proto_of hu) (\<lambda>p. bind_result (hu_priv_of hu) (\<lambda>s.
                  Inr (0, hci_uart_tx_wakeup (hu\<lparr>hu_priv := Some (p_enqueue p skb s)\<rparr>)))))"

section \<open>The callbacks of the terminal layer\<close>

definition hu_zero :: "bool list \<Rightarrow> nat list \<Rightarrow> 'p hci_uart" where
  "hu_zero al takes =
     \<lparr>hu_hdev = HNull, hu_set = False, hu_registered = False, hu_ready = False, hu_hdev_flags = 0, hu_work = False,
      hu_proto = None, hu_priv = None, hu_tx_skb = None, hu_sending = False, hu_tx_wakeup = False, tty_out = [],
      tty_do_wakeup = False, tty_takes = takes, hu_coex = [], hu_allocs = al\<rparr>"

text \<open>The first argument tells whether the terminal has a \<open>write\<close> operation.\<close>

definition hci_uart_tty_open :: "bool \<Rightarrow> bool list \<Rightarrow> nat list \<Rightarrow> int \<times> 'p hci_uart option" where
  "hci_uart_tty_open has_write al takes =
     (if \<not> has_write then (- EOPNOTSUPP, None)
      else case next_alloc al of (ok, al) \<Rightarrow>
        if \<not> ok then (- ENFILE, None) else (0, Some (hu_zero al takes)))"

text \<open>Closing: the result is what the structure looks like when it is freed.\<close>

definition hci_uart_tty_close :: "'p hci_uart \<Rightarrow> 'p hci_uart result" where
  "hci_uart_tty_close hu =
     bind_result (if hu_hdev hu \<noteq> HNull then bind_result (hci_uart_close hu) (\<lambda>(_, hu). Inr hu) else Inr hu) (\<lambda>hu.
     bind_result
       (if hu_ready hu then
          let hu = hu\<lparr>hu_ready := False, hu_work := False\<rparr>;
              hu = (if hu_hdev hu \<noteq> HNull then hu\<lparr>hu_hdev := HFreed\<rparr> else hu)
          in bind_result (hu_proto_of hu) (\<lambda>p. bind_result (hu_priv_of hu) (\<lambda>s. bind_result (p_close p s) (\<lambda>_.
               Inr (hu\<lparr>hu_priv := None\<rparr>))))
        else Inr hu) (\<lambda>hu.
     Inr (hu\<lparr>hu_set := False\<rparr>)))"

definition hci_uart_tty_wakeup :: "'p hci_uart \<Rightarrow> 'p hci_uart" where
  "hci_uart_tty_wakeup hu =
     (let hu = hu\<lparr>tty_do_wakeup := False\<rparr> in if hu_ready hu then hci_uart_tx_wakeup hu else hu)"

text \<open>The wake-ups the protocol asked for while it received.\<close>

fun tx_wakeups :: "upcall list \<Rightarrow> 'p hci_uart \<Rightarrow> 'p hci_uart" where
  "tx_wakeups [] hu = hu"
| "tx_wakeups (TxWakeup # us) hu = tx_wakeups us (hci_uart_tx_wakeup hu)"
| "tx_wakeups (_ # us) hu = tx_wakeups us hu"

definition hci_uart_tty_receive :: "byte list \<Rightarrow> 'p hci_uart \<Rightarrow> 'p hci_uart result" where
  "hci_uart_tty_receive data hu =
     (if \<not> hu_ready hu then Inr hu
      else bind_result (hu_proto_of hu) (\<lambda>p. bind_result (hu_priv_of hu) (\<lambda>s.
           bind_result (p_recv p s data) (\<lambda>s'.
             let hu = tx_wakeups (drop (length (p_out p s)) (p_out p s')) (hu\<lparr>hu_priv := Some s'\<rparr>) in
             (case hu_hdev hu of
                HNull \<Rightarrow> Inr hu
              | HFreed \<Rightarrow> Inl UseAfterFree
              | HLive d \<Rightarrow> Inr (hu\<lparr>hu_hdev := HLive (d\<lparr>stat_byte_rx := stat_byte_rx d + word_of_nat (length data)\<rparr>)\<rparr>))))))"

section \<open>Attaching a protocol\<close>

text \<open>
  Registration of the device: whether \<open>hci_register_dev\<close> succeeds, and the number it gives, come
  from the host stack. When it fails the device is freed and the pointer is kept.
\<close>

definition hci_uart_register_dev :: "int option \<Rightarrow> 'p hci_uart \<Rightarrow> int \<times> 'p hci_uart" where
  "hci_uart_register_dev reg hu =
     (case next_alloc (hu_allocs hu) of (ok, al) \<Rightarrow>
        let hu = hu\<lparr>hu_allocs := al\<rparr> in
        if \<not> ok then (- ENOMEM, hu)
        else case reg of
          None \<Rightarrow> (- ENODEV, hu\<lparr>hu_hdev := HFreed\<rparr>)
        | Some n \<Rightarrow>
            (0, coex CoexProbe (hu\<lparr>hu_hdev := HLive \<lparr>stat_cmd_tx = 0, stat_acl_tx = 0, stat_sco_tx = 0, stat_byte_tx = 0,
                  stat_byte_rx = 0, hdev_up = False, hdev_flush = True, hdev_id = n, hdev_raw = bit (hu_hdev_flags hu) 0,
                  hdev_external = bit (hu_hdev_flags hu) 4, hdev_reset_on_close = (\<not> bit (hu_hdev_flags hu) 1),
                  hdev_amp = bit (hu_hdev_flags hu) 2\<rparr>, hu_registered := True\<rparr>)))"

definition hci_uart_set_proto ::
  "'p hci_uart_proto option list \<Rightarrow> int option \<Rightarrow> nat \<Rightarrow> 'p hci_uart \<Rightarrow> (int \<times> 'p hci_uart) result" where
  "hci_uart_set_proto hup reg i hu =
     (case hci_uart_get_proto i hup of None \<Rightarrow> Inr (- EPROTONOSUPPORT, hu)
      | Some p \<Rightarrow>
          (case p_open p (hu_allocs hu) of None \<Rightarrow> Inr (- ENOMEM, hu)
           | Some s \<Rightarrow>
               let hu = hu\<lparr>hu_allocs := tl (hu_allocs hu), hu_priv := Some s, hu_proto := Some p, hu_ready := True\<rparr> in
               (case hci_uart_register_dev reg hu of (err, hu) \<Rightarrow>
                  if err \<noteq> 0 then
                    bind_result (p_close p s) (\<lambda>_. Inr (err, hu\<lparr>hu_ready := False, hu_priv := None\<rparr>))
                  else Inr (0, hu))))"

definition hci_uart_set_flags :: "64 word \<Rightarrow> 'p hci_uart \<Rightarrow> int \<times> 'p hci_uart" where
  "hci_uart_set_flags flags hu =
     (if flags AND NOT 0x17 \<noteq> 0 then (- EINVAL, hu) else (0, hu\<lparr>hu_hdev_flags := flags\<rparr>))"

datatype ldisc_ioctl = HCIUARTSETPROTO nat | HCIUARTGETPROTO | HCIUARTGETDEVICE | HCIUARTSETFLAGS "64 word"
  | HCIUARTGETFLAGS | OtherIoctl int

text \<open>The result of \<open>n_tty_ioctl_helper\<close> is the argument of \<open>OtherIoctl\<close>. The flags are returned as an \<open>int\<close>.\<close>

definition hci_uart_tty_ioctl ::
  "'p hci_uart_proto option list \<Rightarrow> int option \<Rightarrow> ldisc_ioctl \<Rightarrow> 'p hci_uart option \<Rightarrow> (int \<times> 'p hci_uart option) result" where
  "hci_uart_tty_ioctl hup reg cmd hu0 =
     (case hu0 of None \<Rightarrow> Inr (- EBADF, None)
      | Some hu \<Rightarrow>
          (case cmd of
             HCIUARTSETPROTO arg \<Rightarrow>
               if hu_set hu then Inr (- EBUSY, Some hu)
               else bind_result (hci_uart_set_proto hup reg arg (hu\<lparr>hu_set := True\<rparr>)) (\<lambda>(err, hu).
                      Inr (err, Some (if err \<noteq> 0 then hu\<lparr>hu_set := False\<rparr> else hu)))
           | HCIUARTGETPROTO \<Rightarrow>
               if hu_set hu then bind_result (hu_proto_of hu) (\<lambda>p. Inr (int (p_id p), Some hu)) else Inr (- EUNATCH, Some hu)
           | HCIUARTGETDEVICE \<Rightarrow>
               if hu_registered hu then bind_result (hderef (hu_hdev hu)) (\<lambda>d. Inr (hdev_id d, Some hu))
               else Inr (- EUNATCH, Some hu)
           | HCIUARTSETFLAGS arg \<Rightarrow>
               if hu_set hu then Inr (- EBUSY, Some hu)
               else (case hci_uart_set_flags arg hu of (err, hu) \<Rightarrow> Inr (err, Some hu))
           | HCIUARTGETFLAGS \<Rightarrow> Inr (signed (ucast (hu_hdev_flags hu) :: 32 word), Some hu)
           | OtherIoctl r \<Rightarrow> Inr (r, Some hu)))"

end
