(* ===== verification/Kernel_Proto.thy ===== *)
theory Kernel_Proto
  imports Kernel_Ldisc
begin

text \<open>
  What the line discipline relies on in a protocol, as the locale \<open>uart_proto\<close>, with the lemmas
  about the transmit work and the entry points proved once; and its two interpretations, on the
  three-wire and the four-wire protocol of the driver.
\<close>

section \<open>Behaviour of an attached line\<close>

text \<open>The packets a protocol gives up one after the other.\<close>

inductive dequeues :: "'p hci_uart_proto \<Rightarrow> 'p \<Rightarrow> kskb list \<Rightarrow> 'p \<Rightarrow> bool" for p where
  none: "dequeues p s [] s"
| some: "p_dequeue p s = Inr (Some f, s1) \<Longrightarrow> dequeues p s1 fs s' \<Longrightarrow> dequeues p s (f # fs) s'"

text \<open>How a run of the transmit loop ends: the protocol gives nothing more, or a packet is not finished.\<close>

definition stopped :: "'p hci_uart_proto \<Rightarrow> 'p \<Rightarrow> kskb option \<Rightarrow> 'p \<Rightarrow> bool" where
  "stopped p s1 rest s' = (case rest of None \<Rightarrow> p_dequeue p s1 = Inr (None, s') | Some _ \<Rightarrow> s' = s1)"

text \<open>Every state an attached line can get into by the calls of the host stack, the terminal and the work queue.\<close>

inductive line_reach :: "'p hci_uart_proto \<Rightarrow> 'p hci_uart \<Rightarrow> bool" for p where
  attach: "hci_uart_get_proto i hup = Some p \<Longrightarrow> hci_uart_set_proto hup (Some n) i hu = Inr (0, hu') \<Longrightarrow> line_reach p hu'"
| dev_open: "line_reach p hu \<Longrightarrow> hci_uart_open hu = Inr (n, hu') \<Longrightarrow> line_reach p hu'"
| dev_flush: "line_reach p hu \<Longrightarrow> hci_uart_flush hu = Inr (n, hu') \<Longrightarrow> line_reach p hu'"
| dev_close: "line_reach p hu \<Longrightarrow> hci_uart_close hu = Inr (n, hu') \<Longrightarrow> line_reach p hu'"
| send: "line_reach p hu \<Longrightarrow> hci_uart_send_frame skb hu = Inr (n, hu') \<Longrightarrow> line_reach p hu'"
| work: "line_reach p hu \<Longrightarrow> hu_work hu \<Longrightarrow> hci_uart_write_work (hu\<lparr>hu_work := False\<rparr>) = Some (Inr hu') \<Longrightarrow> line_reach p hu'"
| wakeup: "line_reach p hu \<Longrightarrow> line_reach p (hci_uart_tty_wakeup hu)"
| receive: "line_reach p hu \<Longrightarrow> hci_uart_tty_receive bs hu = Inr hu' \<Longrightarrow> line_reach p hu'"

section \<open>The contract of a protocol\<close>

text \<open>
  \<open>ok\<close> is the invariant of the private state, \<open>pending\<close> bounds how many packets can be dequeued
  before new ones arrive.
\<close>

locale uart_proto =
  fixes p :: "'p hci_uart_proto"
    and ok :: "'p \<Rightarrow> bool"
    and pending :: "'p \<Rightarrow> nat"
  assumes open_ok: "p_open p al = Some s \<Longrightarrow> ok s"
    and close_ok: "ok s \<Longrightarrow> p_close p s = Inr ()"
    and flush_ok: "ok s \<Longrightarrow> ok (p_flush p s)"
    and enqueue_ok: "ok s \<Longrightarrow> ok (p_enqueue p skb s)"
    and recv_ok: "ok s \<Longrightarrow> \<exists>s'. p_recv p s bs = Inr s' \<and> ok s'"
    and dequeue_ok: "ok s \<Longrightarrow> \<exists>r s'. p_dequeue p s = Inr (r, s') \<and> ok s' \<and> (r \<noteq> None \<longrightarrow> pending s' < pending s)"
begin

text \<open>An attached line: protocol ready, private state in order, device registered.\<close>

definition attached :: "'p hci_uart \<Rightarrow> bool" where
  "attached hu \<longleftrightarrow> hu_ready hu \<and> hu_proto hu = Some p \<and> (\<exists>s. hu_priv hu = Some s \<and> ok s) \<and> (\<exists>d. hu_hdev hu = HLive d)"

lemma attachedE:
  assumes "attached hu"
  obtains s d where "hu_ready hu" "hu_proto hu = Some p" "hu_priv hu = Some s" "ok s" "hu_hdev hu = HLive d"
  using assms by (auto simp: attached_def)

end

text \<open>The bytes of a packet that the terminal has not taken yet.\<close>

definition unsent :: "'p hci_uart \<Rightarrow> byte list" where
  "unsent hu = (case hu_tx_skb hu of None \<Rightarrow> [] | Some skb \<Rightarrow> kdata skb)"

lemma tx_complete_ok:
  assumes "hu_hdev hu = HLive d"
  obtains d' where "hci_uart_tx_complete t hu = Inr (hu\<lparr>hu_hdev := HLive d'\<rparr>)"
proof -
  have same: "hu = hu\<lparr>hu_hdev := HLive d\<rparr>" using assms by (cases hu) simp
  have "hci_uart_tx_complete t hu \<in> {Inr (hu\<lparr>hu_hdev := HLive (d\<lparr>stat_cmd_tx := stat_cmd_tx d + 1\<rparr>)\<rparr>),
      Inr (hu\<lparr>hu_hdev := HLive (d\<lparr>stat_acl_tx := stat_acl_tx d + 1\<rparr>)\<rparr>),
      Inr (hu\<lparr>hu_hdev := HLive (d\<lparr>stat_sco_tx := stat_sco_tx d + 1\<rparr>)\<rparr>), Inr (hu\<lparr>hu_hdev := HLive d\<rparr>)}"
    using same by (simp add: hci_uart_tx_complete_def hderef_def assms)
  with that show thesis by blast
qed

text \<open>Writing one packet: the bytes taken and the bytes kept are the packet.\<close>

lemma write_one_ok:
  assumes "hu_hdev hu = HLive d" "hu_tx_skb hu = None"
  obtains again n d' where "n \<le> length (kdata skb)" "again = (n = length (kdata skb))"
    "write_one skb hu = Inr (again, hu\<lparr>tty_do_wakeup := True, tty_takes := tl (tty_takes hu), tty_out := tty_out hu @ take n (kdata skb),
       hu_hdev := HLive d', hu_tx_skb := (if again then None else Some (kskb_pull skb n))\<rparr>)"
proof -
  let ?n = "case tty_takes hu of [] \<Rightarrow> length (kdata skb) | m # _ \<Rightarrow> min m (length (kdata skb))"
  have n: "?n \<le> length (kdata skb)" by (simp split: list.splits)
  let ?d = "d\<lparr>stat_byte_tx := stat_byte_tx d + word_of_nat ?n\<rparr>"
  let ?hu = "hu\<lparr>tty_do_wakeup := True, tty_takes := tl (tty_takes hu), tty_out := tty_out hu @ take ?n (kdata skb), hu_hdev := HLive ?d\<rparr>"
  have e: "kdata (kskb_pull skb ?n) = [] \<longleftrightarrow> ?n = length (kdata skb)" using n by (auto simp: kskb_pull_def)
  have tx: "?hu\<lparr>hu_tx_skb := None\<rparr> = ?hu" using assms(2) by (cases hu) simp
  obtain d' where d': "hci_uart_tx_complete (kpkt_type (kskb_pull skb ?n)) ?hu = Inr (?hu\<lparr>hu_hdev := HLive d'\<rparr>)"
    by (rule tx_complete_ok [of ?hu ?d]) simp
  show thesis
  proof (cases "?n = length (kdata skb)")
    case True
    have "?hu\<lparr>hu_hdev := HLive d', hu_tx_skb := None\<rparr> = ?hu\<lparr>hu_hdev := HLive d'\<rparr>" using assms(2) by (cases hu) simp
    with True d' e assms(1) show thesis
      by (intro that [of ?n True d']) (simp_all add: write_one_def tty_write_def hderef_def Let_def)
  next
    case False
    with n e assms(1) show thesis
      by (intro that [of ?n False ?d]) (simp_all add: write_one_def tty_write_def hderef_def Let_def)
  qed
qed

context uart_proto
begin

text \<open>What the loop of the transmit work does: it ends, and the terminal has received the unsent rest, then
  packets in the order the protocol gave them, the last possibly in part.\<close>

definition drained :: "'p hci_uart \<Rightarrow> 'p hci_uart \<Rightarrow> bool" where
  "drained hu hu' \<longleftrightarrow> attached hu' \<and> hu_tx_wakeup hu' = hu_tx_wakeup hu \<and> hu_sending hu' = hu_sending hu \<and>
     (hu_tx_skb hu' = None \<or> tty_do_wakeup hu') \<and>
     (\<exists>fs s1. dequeues p (the (hu_priv hu)) fs s1 \<and> stopped p s1 (hu_tx_skb hu') (the (hu_priv hu')) \<and>
        tty_out hu' @ unsent hu' = tty_out hu @ unsent hu @ concat (map kdata fs))"

lemma dequeues_ok: "dequeues p s fs s' \<Longrightarrow> ok s \<Longrightarrow> ok s'"
  by (induction rule: dequeues.induct) (use dequeue_ok in \<open>fastforce+\<close>)

text \<open>A packet that was interrupted, or is written from its beginning.\<close>

lemma write_loop_step:
  assumes a: "attached hu" and d: "hci_uart_dequeue hu = Inr (Some skb, hu1)" and hu1: "attached hu1" "hu_tx_skb hu1 = None"
    and rest: "\<And>hu2. attached hu2 \<Longrightarrow> hu_tx_skb hu2 = None \<Longrightarrow> hu_priv hu2 = hu_priv hu1 \<Longrightarrow>
      \<exists>hu'. write_loop hu2 = Some (Inr hu') \<and> drained hu2 hu'"
    and same: "hu_tx_wakeup hu1 = hu_tx_wakeup hu" "hu_sending hu1 = hu_sending hu" "tty_out hu1 = tty_out hu"
    and deq: "\<And>fs s'. dequeues p (the (hu_priv hu1)) fs s' \<Longrightarrow>
      \<exists>gs. dequeues p (the (hu_priv hu)) gs s' \<and> kdata skb @ concat (map kdata fs) = unsent hu @ concat (map kdata gs)"
  shows "\<exists>hu'. write_loop hu = Some (Inr hu') \<and> drained hu hu'"
proof -
  from hu1(1) obtain dv where dv: "hu_hdev hu1 = HLive dv" by (auto elim: attachedE)
  obtain again n d' where w: "n \<le> length (kdata skb)" "again = (n = length (kdata skb))"
    "write_one skb hu1 = Inr (again, hu1\<lparr>tty_do_wakeup := True, tty_takes := tl (tty_takes hu1),
       tty_out := tty_out hu1 @ take n (kdata skb), hu_hdev := HLive d', hu_tx_skb := (if again then None else Some (kskb_pull skb n))\<rparr>)"
      (is "_ = Inr (again, ?hu2)")
    by (rule write_one_ok [OF dv hu1(2)])
  have a2: "attached ?hu2" using hu1(1) by (simp add: attached_def)
  have l: "write_loop hu = (if again then write_loop ?hu2 else Some (Inr ?hu2))"
    by (subst write_loop.simps) (simp only: d w(3) sum.case prod.case option.case)
  show ?thesis
  proof (cases again)
    case True
    with rest [OF a2] obtain hu' where hu': "write_loop ?hu2 = Some (Inr hu')" "drained ?hu2 hu'" by auto
    then obtain fs s1 where fs: "dequeues p (the (hu_priv hu1)) fs s1"
        "stopped p s1 (hu_tx_skb hu') (the (hu_priv hu'))"
        "tty_out hu' @ unsent hu' = tty_out hu @ kdata skb @ concat (map kdata fs)"
      using True w(2) by (auto simp: drained_def unsent_def same)
    from deq [OF fs(1)] obtain gs where "dequeues p (the (hu_priv hu)) gs s1"
        "kdata skb @ concat (map kdata fs) = unsent hu @ concat (map kdata gs)" by blast
    with hu' fs(2,3) l True same show ?thesis by (auto simp: drained_def)
  next
    case False
    from deq [OF dequeues.none] obtain gs where "dequeues p (the (hu_priv hu)) gs (the (hu_priv hu1))"
        "kdata skb = unsent hu @ concat (map kdata gs)" by auto
    moreover have "take n (kdata skb) @ kdata (kskb_pull skb n) = kdata skb" using w(1) by (simp add: kskb_pull_def)
    ultimately have "drained hu ?hu2"
      using False a2 same by (auto simp: drained_def unsent_def stopped_def)
    with l False show ?thesis by auto
  qed
qed

lemma write_loop_fresh:
  assumes "attached hu" "hu_tx_skb hu = None"
  shows "\<exists>hu'. write_loop hu = Some (Inr hu') \<and> drained hu hu'"
  using assms
proof (induction "pending (the (hu_priv hu))" arbitrary: hu rule: less_induct)
  case less
  from less.prems(1) obtain s dv where s: "hu_ready hu" "hu_proto hu = Some p" "hu_priv hu = Some s" "ok s" "hu_hdev hu = HLive dv"
    by (rule attachedE)
  from dequeue_ok [OF s(4)] obtain r s1 where r: "p_dequeue p s = Inr (r, s1)" "ok s1" "r \<noteq> None \<longrightarrow> pending s1 < pending s" by blast
  let ?hu1 = "hu\<lparr>hu_priv := Some s1\<rparr>"
  have d: "hci_uart_dequeue hu = Inr (r, ?hu1)"
    using less.prems(2) s r(1) by (simp add: hci_uart_dequeue_def hu_proto_of_def hu_priv_of_def)
  have a1: "attached ?hu1" using s r(2) by (simp add: attached_def)
  show ?case
  proof (cases r)
    case None
    then have "write_loop hu = Some (Inr ?hu1)" by (subst write_loop.simps) (simp add: d)
    moreover have "drained hu ?hu1"
      using a1 less.prems(2) s(3) dequeues.none [of p s] r(1) None
      by (auto simp: drained_def unsent_def stopped_def intro!: exI [of _ "[]"])
    ultimately show ?thesis by blast
  next
    case (Some skb)
    show ?thesis
    proof (rule write_loop_step [OF less.prems(1) d [unfolded Some] a1])
      show "\<exists>hu'. write_loop hu2 = Some (Inr hu') \<and> drained hu2 hu'"
        if "attached hu2" "hu_tx_skb hu2 = None" "hu_priv hu2 = hu_priv ?hu1" for hu2
        using less.hyps [of hu2] that r(3) s(3) Some by simp
      show "\<exists>gs. dequeues p (the (hu_priv hu)) gs s' \<and> kdata skb @ concat (map kdata fs) = unsent hu @ concat (map kdata gs)"
        if "dequeues p (the (hu_priv ?hu1)) fs s'" for fs s'
        using that dequeues.some [of p s skb s1 fs s'] r(1) Some s(3) less.prems(2)
        by (intro exI [of _ "skb # fs"]) (simp add: unsent_def)
    qed (use less.prems(2) in simp_all)
  qed
qed

text \<open>The transmit work ends, whatever was interrupted before.\<close>

lemma write_loop_ok:
  assumes "attached hu"
  shows "\<exists>hu'. write_loop hu = Some (Inr hu') \<and> drained hu hu'"
proof (cases "hu_tx_skb hu")
  case None
  with assms show ?thesis by (rule write_loop_fresh)
next
  case (Some skb)
  then have d: "hci_uart_dequeue hu = Inr (Some skb, hu\<lparr>hu_tx_skb := None\<rparr>)" by (simp add: hci_uart_dequeue_def)
  have "attached (hu\<lparr>hu_tx_skb := None\<rparr>)" using assms by (simp add: attached_def)
  from write_loop_step [OF assms d this] write_loop_fresh Some show ?thesis
    by (simp add: unsent_def) blast
qed

lemma write_work_ok:
  assumes "attached hu"
  shows "\<exists>hu' fs s1. hci_uart_write_work hu = Some (Inr hu') \<and> attached hu' \<and> \<not> hu_sending hu' \<and> \<not> hu_tx_wakeup hu' \<and>
    (hu_tx_skb hu' = None \<or> tty_do_wakeup hu') \<and>
    dequeues p (the (hu_priv hu)) fs s1 \<and> stopped p s1 (hu_tx_skb hu') (the (hu_priv hu')) \<and>
    tty_out hu' @ unsent hu' = tty_out hu @ unsent hu @ concat (map kdata fs)"
proof -
  let ?hu = "hu\<lparr>hu_tx_wakeup := False\<rparr>"
  from assms have "attached ?hu" by (simp add: attached_def)
  from write_loop_ok [OF this] obtain hu1 where l: "write_loop ?hu = Some (Inr hu1)" "drained ?hu hu1" by blast
  then have "hci_uart_write_work hu = Some (Inr (hu1\<lparr>hu_sending := False\<rparr>))"
    by (subst hci_uart_write_work.simps) (simp add: drained_def Let_def)
  with l(2) show ?thesis by (auto simp: drained_def attached_def unsent_def)
qed

text \<open>The other entry points keep the line attached and do not fault.\<close>

lemma tx_wakeup_attached [simp]: "attached (hci_uart_tx_wakeup hu) = attached hu"
  by (simp add: attached_def hci_uart_tx_wakeup_def Let_def)

lemma tx_wakeups_attached [simp]: "attached (tx_wakeups us hu) = attached hu"
  by (induction us hu rule: tx_wakeups.induct) simp_all

lemma attached_coex [simp]:
  "attached (coex c hu) = attached hu" "hu_ready (coex c hu) = hu_ready hu" "hu_proto (coex c hu) = hu_proto hu"
  "hu_priv (coex c hu) = hu_priv hu" "hu_hdev (coex c hu) = hu_hdev hu"
  by (simp_all add: attached_def coex_def)

lemma attached_priv: "attached hu \<Longrightarrow> ok s \<Longrightarrow> attached (hu\<lparr>hu_priv := Some s\<rparr>)"
  by (simp add: attached_def)

lemma attached_hdev: "attached hu \<Longrightarrow> attached (hu\<lparr>hu_hdev := HLive d\<rparr>)"
  by (simp add: attached_def)

lemma tty_wakeup_attached: "attached hu \<Longrightarrow> attached (hci_uart_tty_wakeup hu)"
  by (simp add: hci_uart_tty_wakeup_def Let_def) (simp add: attached_def)

lemma send_frame_attached:
  assumes "attached hu"
  shows "\<exists>hu'. hci_uart_send_frame skb hu = Inr (0, hu') \<and> attached hu'"
proof -
  from assms obtain s d where s: "hu_ready hu" "hu_proto hu = Some p" "hu_priv hu = Some s" "ok s" "hu_hdev hu = HLive d"
    by (rule attachedE)
  have "attached (g\<lparr>hu_priv := Some (p_enqueue p skb s)\<rparr>)" if "attached g" for g
    using that enqueue_ok [OF s(4)] by (rule attached_priv)
  with s assms show ?thesis by (simp add: hci_uart_send_frame_def hu_proto_of_def hu_priv_of_def Let_def)
qed

lemma flush_attached:
  assumes "attached hu"
  shows "\<exists>hu'. hci_uart_flush hu = Inr (0, hu') \<and> attached hu' \<and> hu_tx_skb hu' = None"
proof -
  from assms obtain s d where s: "hu_ready hu" "hu_proto hu = Some p" "hu_priv hu = Some s" "ok s" "hu_hdev hu = HLive d"
    by (rule attachedE)
  then show ?thesis by (simp add: hci_uart_flush_def hu_proto_of_def hu_priv_of_def Let_def attached_def flush_ok)
qed

lemma open_attached: "attached hu \<Longrightarrow> \<exists>hu'. hci_uart_open hu = Inr (0, hu') \<and> attached hu'"
  by (auto simp: hci_uart_open_def hderef_def coex_def attached_def)

lemma close_attached:
  assumes "attached hu"
  shows "\<exists>hu'. hci_uart_close hu = Inr (0, hu') \<and> attached hu'"
proof -
  from flush_attached [OF assms] obtain hu1 where f: "hci_uart_flush hu = Inr (0, hu1)" "attached hu1" by blast
  from assms obtain d where "hu_hdev hu = HLive d" by (rule attachedE)
  moreover from f(2) obtain d1 where "hu_hdev hu1 = HLive d1" by (rule attachedE)
  ultimately show ?thesis using f by (auto simp: hci_uart_close_def hderef_def coex_def attached_def)
qed

lemma receive_attached:
  assumes "attached hu"
  shows "\<exists>hu'. hci_uart_tty_receive bs hu = Inr hu' \<and> attached hu'"
proof -
  from assms obtain s d where s: "hu_ready hu" "hu_proto hu = Some p" "hu_priv hu = Some s" "ok s" "hu_hdev hu = HLive d"
    by (rule attachedE)
  from recv_ok [OF s(4)] obtain s' where r: "p_recv p s bs = Inr s'" "ok s'" by blast
  let ?hu = "tx_wakeups (drop (length (p_out p s)) (p_out p s')) (hu\<lparr>hu_priv := Some s'\<rparr>)"
  have a: "attached ?hu" using attached_priv [OF assms r(2)] by simp
  then obtain d' where "hu_hdev ?hu = HLive d'" by (rule attachedE)
  with s r attached_hdev [OF a] show ?thesis
    by (simp add: hci_uart_tty_receive_def hu_proto_of_def hu_priv_of_def Let_def)
qed

lemma tty_close_attached:
  assumes "attached hu"
  shows "\<exists>hu'. hci_uart_tty_close hu = Inr hu' \<and> \<not> hu_ready hu' \<and> \<not> hu_work hu' \<and> hu_priv hu' = None"
proof -
  from assms obtain d where d: "hu_hdev hu = HLive d" by (rule attachedE)
  from close_attached [OF assms] obtain hu1 where c: "hci_uart_close hu = Inr (0, hu1)" "attached hu1" by blast
  from c(2) obtain s1 d1 where "hu_ready hu1" "hu_proto hu1 = Some p" "hu_priv hu1 = Some s1" "ok s1" "hu_hdev hu1 = HLive d1"
    by (rule attachedE)
  with d c(1) show ?thesis
    by (simp add: hci_uart_tty_close_def hu_proto_of_def hu_priv_of_def close_ok Let_def)
qed

lemma set_proto_attaches:
  assumes "hci_uart_get_proto i hup = Some p" "hci_uart_set_proto hup (Some n) i hu = Inr (0, hu')"
  shows "attached hu'"
  using assms open_ok
  by (auto simp: hci_uart_set_proto_def hci_uart_register_dev_def coex_def attached_def errno_defs Let_def bind_result_eq_Inr
      split: option.splits prod.splits if_splits)

lemma line_reach_attached: "line_reach p hu \<Longrightarrow> attached hu"
proof (induction rule: line_reach.induct)
  case (work hu hu')
  then have "attached (hu\<lparr>hu_work := False\<rparr>)" by (simp add: attached_def)
  from write_work_ok [OF this] work.hyps(3) show ?case by auto
next
  case (attach i hup n hu hu')
  then show ?case by (rule set_proto_attaches)
next
  case (dev_open hu n hu')
  then show ?case using open_attached [of hu] by auto
next
  case (dev_flush hu n hu')
  then show ?case using flush_attached [of hu] by auto
next
  case (dev_close hu n hu')
  then show ?case using close_attached [of hu] by auto
next
  case (send hu skb n hu')
  then show ?case using send_frame_attached [of hu skb] by auto
next
  case (wakeup hu)
  then show ?case by (rule_tac tty_wakeup_attached)
next
  case (receive hu bs hu')
  then show ?case using receive_attached [of hu bs] by auto
qed

lemma line_safe:
  assumes "line_reach p hu"
  shows "(\<exists>hu'. hci_uart_send_frame skb hu = Inr (0, hu')) \<and> (\<exists>hu'. hci_uart_tty_receive bs hu = Inr hu') \<and>
    (\<exists>hu'. hci_uart_write_work hu = Some (Inr hu')) \<and> (\<exists>hu'. hci_uart_flush hu = Inr (0, hu')) \<and>
    (\<exists>hu'. hci_uart_tty_close hu = Inr hu' \<and> \<not> hu_ready hu' \<and> hu_priv hu' = None)"
  using line_reach_attached [OF assms]
  by (meson send_frame_attached receive_attached write_work_ok flush_attached tty_close_attached)

end

section \<open>The protocols of the driver\<close>

datatype proto_priv = PrivH5 h5_struct | PrivH4 h4_struct

text \<open>A protocol applied to the private state of the other one is a wild pointer.\<close>

definition h5_proto :: "proto_priv hci_uart_proto" where
  "h5_proto = \<lparr>p_id = 2, p_open = (\<lambda>al. map_option PrivH5 (h5_open al)),
     p_close = (\<lambda>s. case s of PrivH5 h \<Rightarrow> Inr () | _ \<Rightarrow> Inl OutOfBounds),
     p_flush = (\<lambda>s. case s of PrivH5 h \<Rightarrow> PrivH5 (h5_flush h) | _ \<Rightarrow> s),
     p_recv = (\<lambda>s bs. case s of PrivH5 h \<Rightarrow> bind_result (kh5_recv h bs) (\<lambda>h. Inr (PrivH5 h)) | _ \<Rightarrow> Inl OutOfBounds),
     p_enqueue = (\<lambda>skb s. case s of PrivH5 h \<Rightarrow> PrivH5 (h5_enqueue skb h) | _ \<Rightarrow> s),
     p_dequeue = (\<lambda>s. case s of PrivH5 h \<Rightarrow> bind_result (h5_dequeue h) (\<lambda>(r, h). Inr (r, PrivH5 h)) | _ \<Rightarrow> Inl OutOfBounds),
     p_out = (\<lambda>s. case s of PrivH5 h \<Rightarrow> k_out h | PrivH4 h \<Rightarrow> h4_out h)\<rparr>"

definition h4_proto :: "proto_priv hci_uart_proto" where
  "h4_proto = \<lparr>p_id = 0, p_open = (\<lambda>al. map_option PrivH4 (h4_open al)),
     p_close = (\<lambda>s. case s of PrivH4 h \<Rightarrow> bind_result (h4_close h) (\<lambda>_. Inr ()) | _ \<Rightarrow> Inl OutOfBounds),
     p_flush = (\<lambda>s. case s of PrivH4 h \<Rightarrow> PrivH4 (h4_flush h) | _ \<Rightarrow> s),
     p_recv = (\<lambda>s bs. case s of PrivH4 h \<Rightarrow> bind_result (h4_recv h bs) (\<lambda>(_, h). Inr (PrivH4 h)) | _ \<Rightarrow> Inl OutOfBounds),
     p_enqueue = (\<lambda>skb s. case s of PrivH4 h \<Rightarrow> PrivH4 (h4_enqueue skb h) | _ \<Rightarrow> s),
     p_dequeue = (\<lambda>s. case s of PrivH4 h \<Rightarrow> (case h4_dequeue h of (r, h) \<Rightarrow> Inr (r, PrivH4 h)) | _ \<Rightarrow> Inl OutOfBounds),
     p_out = (\<lambda>s. case s of PrivH5 h \<Rightarrow> k_out h | PrivH4 h \<Rightarrow> h4_out h)\<rparr>"

definition h5_ok :: "proto_priv \<Rightarrow> bool" where
  "h5_ok s = (case s of PrivH5 h \<Rightarrow> (\<exists>sent base. fifo_inv h sent base) | _ \<Rightarrow> False)"

definition h5_pending :: "proto_priv \<Rightarrow> nat" where
  "h5_pending s =
     (case s of PrivH5 h \<Rightarrow> length (k_unrel h) + length (k_rel h) + (if k_txack_req h = 0 then 0 else 1) | _ \<Rightarrow> 0)"

text \<open>Four-wire: besides the invariant of the receiver, no freed packet is left in the pointer that closing frees.\<close>

definition h4_ok :: "proto_priv \<Rightarrow> bool" where
  "h4_ok s = (case s of PrivH4 h \<Rightarrow> h4_inv h \<and> h4_rx_skb h \<noteq> KFreed | _ \<Rightarrow> False)"

definition h4_pending :: "proto_priv \<Rightarrow> nat" where
  "h4_pending s = (case s of PrivH4 h \<Rightarrow> length (h4_txq h) | _ \<Rightarrow> 0)"

lemma h5_dequeue_pending:
  assumes "queues_ok h" "h5_dequeue h = Inr (Some nskb, h')"
  shows "h5_pending (PrivH5 h') < h5_pending (PrivH5 h)"
proof -
  have z: "k_txack_req (kprepared g r) = 0" for g r by (simp add: kprepared_def)
  from assms(1) show ?thesis
    by (cases rule: h5_dequeue_cases) (use assms(2) z in \<open>auto simp: h5_pending_def\<close>)
qed

lemma h5_okI: "fifo_inv h sent base \<Longrightarrow> h5_ok (PrivH5 h)"
  by (auto simp: h5_ok_def)

lemma h5_okE:
  assumes "h5_ok s"
  obtains h sent base where "s = PrivH5 h" "fifo_inv h sent base"
  using assms by (auto simp: h5_ok_def split: proto_priv.splits)

interpretation h5_uart: uart_proto h5_proto h5_ok h5_pending
proof
  fix al s skb bs
  show "p_open h5_proto al = Some s \<Longrightarrow> h5_ok s"
    using h5_reach_fifo [OF h5_reach.opened] by (fastforce simp: h5_proto_def h5_ok_def)
  show "h5_ok s \<Longrightarrow> p_close h5_proto s = Inr ()" by (auto simp: h5_proto_def elim!: h5_okE)
  show "h5_ok s \<Longrightarrow> h5_ok (p_flush h5_proto s)"
    by (auto simp: h5_proto_def h5_ok_def h5_flush_def split: proto_priv.splits)
  show "h5_ok s \<Longrightarrow> h5_ok (p_enqueue h5_proto skb s)"
    using fifo_enqueue by (fastforce simp: h5_proto_def h5_ok_def split: proto_priv.splits)
  show "h5_ok s \<Longrightarrow> \<exists>s'. p_recv h5_proto s bs = Inr s' \<and> h5_ok s'"
  proof -
    assume "h5_ok s"
    then obtain h sent base where h: "s = PrivH5 h" "fifo_inv h sent base" by (rule h5_okE)
    with fifo_receive [OF h(2), of bs] show ?thesis by (auto simp: h5_proto_def intro: h5_okI)
  qed
  show "h5_ok s \<Longrightarrow> \<exists>r s'. p_dequeue h5_proto s = Inr (r, s') \<and> h5_ok s' \<and> (r \<noteq> None \<longrightarrow> h5_pending s' < h5_pending s)"
  proof -
    assume "h5_ok s"
    then obtain h sent base where h: "s = PrivH5 h" "fifo_inv h sent base" by (rule h5_okE)
    from fifo_dequeue [OF h(2)] obtain r h' where d: "h5_dequeue h = Inr (r, h')" "fifo_inv h' sent base" by blast
    have "queues_ok h" using h(2) by (simp add: fifo_inv_def)
    with h5_dequeue_pending [of h] d have "r \<noteq> None \<longrightarrow> h5_pending (PrivH5 h') < h5_pending (PrivH5 h)" by (cases r) auto
    with d h(1) show ?thesis by (auto simp: h5_proto_def intro: h5_okI)
  qed
qed

text \<open>The four-wire receiver never keeps a pointer to a packet it freed.\<close>

definition h4_clean :: "h4_struct \<Rightarrow> bool" where
  "h4_clean h \<longleftrightarrow> h4_rx_skb h \<noteq> KFreed"

lemma h4_type_clean: "h4_clean h \<Longrightarrow> h4_type b h = (ok, h') \<Longrightarrow> h4_clean h'"
  by (auto simp: h4_type_def h4_clean_def Let_def split: if_splits prod.splits)

lemma h4_check_clean: "h4_clean h \<Longrightarrow> h4_check_data_len n h = Inr h' \<Longrightarrow> h4_clean h'"
  by (auto simp: h4_check_data_len_def h4_clean_def h4_upcall_def bind_result_eq_Inr Let_def split: if_splits)

lemma h4_part_clean: "h4_clean h \<Longrightarrow> h4_part_done h = Inr (Some h') \<Longrightarrow> h4_clean h'"
  by (cases "h4_rx_state h")
     (auto simp: h4_part_done_def h4_complete_def bind_result_eq_Inr Let_def dest: h4_check_clean split: if_splits,
      auto simp: h4_clean_def)

lemma h4_part_none: "h4_part_done h = Inr None \<Longrightarrow> h4_rx_state h = H4_W4_PACKET_TYPE"
  by (cases "h4_rx_state h") (auto simp: h4_part_done_def bind_result_eq_Inr)

lemma h4_fill_clean: "h4_fill h bs = Inr h' \<Longrightarrow> h4_clean h'"
  by (auto simp: h4_fill_def h4_clean_def bind_result_eq_Inr)

lemma h4_recv_clean: "h4_inv h \<Longrightarrow> h4_clean h \<Longrightarrow> h4_recv h bs = Inr (ok, h') \<Longrightarrow> h4_clean h'"
proof (induction "length bs" arbitrary: h bs rule: less_induct)
  case less
  consider "bs = []" | (type) b rest where "bs = b # rest" "h4_rx_count h = 0"
    | (short) "bs \<noteq> []" "length bs < h4_rx_count h" | (full) "h4_rx_count h \<noteq> 0" "h4_rx_count h \<le> length bs"
    by (cases bs; cases "h4_rx_count h = 0") force+
  then show ?case
  proof cases
    case type
    obtain ok1 h1 where t: "h4_type b h = (ok1, h1)" by force
    with h4_type_inv [OF less.prems(1) type(2)] h4_type_clean [OF less.prems(2)] have "h4_inv h1" "h4_clean h1" by blast+
    with less.hyps [of rest h1] type t less.prems(3) show ?thesis by (auto simp: h4_recv_type split: if_splits)
  next
    case short
    with less.prems(3) show ?thesis by (auto simp: h4_recv_short bind_result_eq_Inr dest: h4_fill_clean)
  next
    case full
    then have "length (take (h4_rx_count h) bs) = h4_rx_count h" by simp
    with h4_fill_ok [OF less.prems(1) full(1), of "take (h4_rx_count h) bs"] obtain h1 h2 where h:
        "h4_fill h (take (h4_rx_count h) bs) = Inr h1" "h4_part_done h1 = Inr (Some h2)" "h4_inv h2"
      by (metis order_refl)
    have "h4_clean h2" by (rule h4_part_clean [OF h4_fill_clean [OF h(1)] h(2)])
    with less.hyps [of "drop (h4_rx_count h) bs" h2] full h less.prems(3) show ?thesis
      by (simp add: h4_recv_full h4_after_def)
  qed (use less.prems in auto)
qed

lemma h4_inv_txq [simp]: "h4_inv (h\<lparr>h4_txq := q\<rparr>) = h4_inv h"
  by (auto simp: h4_inv_def split: h4_rx_state.splits kskb_ptr.splits)

interpretation h4_uart: uart_proto h4_proto h4_ok h4_pending
proof
  fix al s skb bs
  show "p_open h4_proto al = Some s \<Longrightarrow> h4_ok s"
    by (auto simp: h4_proto_def h4_ok_def h4_open_def h4_inv_def split: if_splits prod.splits)
  show "h4_ok s \<Longrightarrow> p_close h4_proto s = Inr ()"
    by (auto simp: h4_proto_def h4_ok_def h4_close_def kfree_skb_def split: proto_priv.splits kskb_ptr.splits)
  show "h4_ok s \<Longrightarrow> h4_ok (p_flush h4_proto s)" "h4_ok s \<Longrightarrow> h4_ok (p_enqueue h4_proto skb s)"
    by (auto simp: h4_proto_def h4_ok_def h4_flush_def h4_enqueue_def split: proto_priv.splits)
  show "h4_ok s \<Longrightarrow> \<exists>s'. p_recv h4_proto s bs = Inr s' \<and> h4_ok s'"
  proof -
    assume "h4_ok s"
    then obtain h where h: "s = PrivH4 h" "h4_inv h" "h4_clean h" by (auto simp: h4_ok_def h4_clean_def split: proto_priv.splits)
    from h4_recv_ok [OF h(2), of bs] obtain ok' h' where r: "h4_recv h bs = Inr (ok', h')" "h4_inv h'" by blast
    with h4_recv_clean [OF h(2,3)] have "h4_clean h'" by blast
    with r h(1) show ?thesis by (auto simp: h4_proto_def h4_ok_def h4_clean_def)
  qed
  show "h4_ok s \<Longrightarrow> \<exists>r s'. p_dequeue h4_proto s = Inr (r, s') \<and> h4_ok s' \<and> (r \<noteq> None \<longrightarrow> h4_pending s' < h4_pending s)"
  proof -
    assume "h4_ok s"
    then obtain h where "s = PrivH4 h" "h4_inv h" "h4_rx_skb h \<noteq> KFreed" by (auto simp: h4_ok_def split: proto_priv.splits)
    then show ?thesis by (cases "h4_txq h") (auto simp: h4_proto_def h4_ok_def h4_dequeue_def h4_pending_def)
  qed
qed

section \<open>The module\<close>

definition h4_init :: "proto_priv hci_uart_proto option list \<Rightarrow> int \<times> proto_priv hci_uart_proto option list" where
  "h4_init hup = hci_uart_register_proto h4_proto hup"

definition h4_deinit :: "proto_priv hci_uart_proto option list \<Rightarrow> int \<times> proto_priv hci_uart_proto option list" where
  "h4_deinit hup = hci_uart_unregister_proto h4_proto hup"

definition h5_init :: "proto_priv hci_uart_proto option list \<Rightarrow> int \<times> proto_priv hci_uart_proto option list" where
  "h5_init hup = hci_uart_register_proto h5_proto hup"

definition h5_deinit :: "proto_priv hci_uart_proto option list \<Rightarrow> int \<times> proto_priv hci_uart_proto option list" where
  "h5_deinit hup = hci_uart_unregister_proto h5_proto hup"

text \<open>
  Loading and unloading: \<open>reg\<close> is the result of \<open>tty_register_ldisc\<close>; \<open>CONFIG_BT_HCIUART_H4\<close> is
  defined by \<open>hci_uart.h\<close>. The results of the registrations are ignored by the code; the calls that
  start and stop the coexistence module do not touch the table.
\<close>

definition hci_uart_init ::
  "int \<Rightarrow> proto_priv hci_uart_proto option list \<Rightarrow> int \<times> proto_priv hci_uart_proto option list" where
  "hci_uart_init reg hup = (if reg \<noteq> 0 then (reg, hup) else (0, snd (h5_init (snd (h4_init hup)))))"

definition hci_uart_exit :: "proto_priv hci_uart_proto option list \<Rightarrow> proto_priv hci_uart_proto option list" where
  "hci_uart_exit hup = snd (h5_deinit (snd (h4_deinit hup)))"

definition hup_zero :: "proto_priv hci_uart_proto option list" where
  "hup_zero = replicate HCI_UART_MAX_PROTO None"

lemmas module_defs = hci_uart_init_def hci_uart_exit_def h4_init_def h4_deinit_def h5_init_def h5_deinit_def hup_zero_def
  hci_uart_register_proto_def hci_uart_unregister_proto_def hci_uart_get_proto_def HCI_UART_MAX_PROTO_def

lemma proto_ids [simp]: "p_id h5_proto = 2" "p_id h4_proto = 0"
  by (simp_all add: h5_proto_def h4_proto_def)

lemma loaded_protos:
  "hci_uart_get_proto i (snd (hci_uart_init 0 hup_zero)) =
     (if i = 2 then Some h5_proto else if i = 0 then Some h4_proto else None)"
proof -
  have "i < 6 \<Longrightarrow> i \<in> {0, 1, 2, 3, 4, 5}" by auto
  then show ?thesis by (auto simp: module_defs eval_nat_numeral)
qed

section \<open>Properties\<close>

text \<open>(C30) 
  A line on which one of the driver's two protocols was attached never faults, whatever the host
  stack, the terminal and the work queue do in whatever order: every entry point returns, the
  transmit work ends, and closing the line takes the protocol out of service and frees its state.
\<close>

theorem ldisc_line_safe:
  assumes "p = h5_proto \<or> p = h4_proto" "line_reach p hu"
  shows "(\<exists>hu'. hci_uart_send_frame skb hu = Inr (0, hu')) \<and> (\<exists>hu'. hci_uart_tty_receive bs hu = Inr hu') \<and>
    (\<exists>hu'. hci_uart_write_work hu = Some (Inr hu')) \<and> (\<exists>hu'. hci_uart_flush hu = Inr (0, hu')) \<and>
    (\<exists>hu'. hci_uart_tty_close hu = Inr hu' \<and> \<not> hu_ready hu' \<and> hu_priv hu' = None)"
  using assms h5_uart.line_safe h4_uart.line_safe by blast

text \<open>(C7) 
  One run of the transmit work of such a line: it ends with the sending bit released and no wake-up
  left over; the terminal has then received the rest of the interrupted packet followed by complete
  packets in the order in which the protocol gave them, and what it has not taken of the last one is
  kept in the line, with the terminal asked to call back. The run stops only when the protocol gives
  nothing more or the terminal did not take a whole packet.
\<close>

theorem ldisc_write_work:
  assumes "p = h5_proto \<or> p = h4_proto" "line_reach p hu"
  shows "\<exists>hu' fs s1. hci_uart_write_work hu = Some (Inr hu') \<and> \<not> hu_sending hu' \<and> \<not> hu_tx_wakeup hu' \<and>
    (hu_tx_skb hu' = None \<or> tty_do_wakeup hu') \<and>
    dequeues p (the (hu_priv hu)) fs s1 \<and> stopped p s1 (hu_tx_skb hu') (the (hu_priv hu')) \<and>
    tty_out hu' @ unsent hu' = tty_out hu @ unsent hu @ concat (map kdata fs)"
  using assms(1)
proof
  assume "p = h5_proto"
  with h5_uart.write_work_ok [OF h5_uart.line_reach_attached] assms(2) show ?thesis by blast
next
  assume "p = h4_proto"
  with h4_uart.write_work_ok [OF h4_uart.line_reach_attached] assms(2) show ?thesis by blast
qed

text \<open>
  When the host stack refuses the device, attaching reports \<open>-ENODEV\<close> but keeps the pointer to the
  freed device; closing the terminal then uses it.
\<close>

theorem failed_registration_dangles:
  "\<exists>hu. hci_uart_tty_ioctl (snd (hci_uart_init 0 hup_zero)) None (HCIUARTSETPROTO 2) (Some (hu_zero [] takes)) =
          Inr (- ENODEV, Some hu) \<and>
        hci_uart_tty_close hu = Inl UseAfterFree"
proof -
  have "p_open h5_proto [] = Some (PrivH5 (the (h5_open [])))" "p_close h5_proto (PrivH5 h) = Inr ()" for h
    by (simp_all add: h5_proto_def h5_open_def next_alloc_def)
  then show ?thesis
    by (simp add: hci_uart_tty_ioctl_def hci_uart_set_proto_def loaded_protos hci_uart_register_dev_def next_alloc_def hu_zero_def
        hci_uart_tty_close_def hci_uart_close_def hderef_def errno_defs Let_def)
qed

subsection \<open>Example: attaching the three-wire protocol\<close>

definition ex_line :: "proto_priv hci_uart" where
  "ex_line = (case hci_uart_set_proto (snd (hci_uart_init 0 hup_zero)) (Some 0) 2 (hu_zero [] []) of Inr (_, hu) \<Rightarrow> hu)"

lemma ex_line_reach: "line_reach h5_proto ex_line"
proof -
  have "p_open h5_proto [] = Some (PrivH5 (the (h5_open [])))" by (simp add: h5_proto_def h5_open_def next_alloc_def)
  then have "hci_uart_set_proto (snd (hci_uart_init 0 hup_zero)) (Some 0) 2 (hu_zero [] []) = Inr (0, ex_line)"
    by (simp add: ex_line_def hci_uart_set_proto_def loaded_protos hci_uart_register_dev_def next_alloc_def hu_zero_def Let_def)
  then show ?thesis by (rule line_reach.attach [rotated]) (simp add: loaded_protos)
qed

theorem ldisc_line_safe_witness:
  "line_reach h5_proto ex_line \<and> (\<exists>hu'. hci_uart_send_frame ex_skb ex_line = Inr (0, hu')) \<and>
   (\<exists>hu'. hci_uart_tty_close ex_line = Inr hu' \<and> \<not> hu_ready hu' \<and> hu_priv hu' = None)"
  using ldisc_line_safe [OF disjI1 [OF refl] ex_line_reach, of ex_skb] ex_line_reach by blast

text \<open>The same line with a command queued.\<close>

definition ex_queued :: "proto_priv hci_uart" where
  "ex_queued = (case hci_uart_send_frame ex_skb ex_line of Inr (_, hu) \<Rightarrow> hu)"

lemma ex_queued_reach: "line_reach h5_proto ex_queued"
proof -
  from h5_uart.send_frame_attached [OF h5_uart.line_reach_attached [OF ex_line_reach], of ex_skb]
  have "hci_uart_send_frame ex_skb ex_line = Inr (0, ex_queued)" by (auto simp: ex_queued_def)
  then show ?thesis by (rule line_reach.send [OF ex_line_reach])
qed

theorem ldisc_write_work_witness:
  "\<exists>hu' fs s1. hci_uart_write_work ex_queued = Some (Inr hu') \<and> \<not> hu_sending hu' \<and>
     dequeues h5_proto (the (hu_priv ex_queued)) fs s1 \<and> stopped h5_proto s1 (hu_tx_skb hu') (the (hu_priv hu')) \<and>
     tty_out hu' @ unsent hu' = tty_out ex_queued @ unsent ex_queued @ concat (map kdata fs)"
  using ldisc_write_work [OF disjI1 [OF refl] ex_queued_reach] by blast

end
