(* ===== verification/Kernel_Sched.thy ===== *)
theory Kernel_Sched
  imports Kernel_Proto
begin

text \<open>
  The transmit path of the line discipline with its interleaving. \<open>hci_uart_tx_wakeup\<close> may run in any
  number of contexts at once, also in interrupts, against the one worker that runs
  \<open>hci_uart_write_work\<close>; they share the bits of \<open>tx_state\<close> without a lock. Each step below is one atomic
  access of the source (\<open>set_bit\<close>, \<open>test_and_set_bit\<close>, \<open>clear_bit\<close>, \<open>test_bit\<close>, a dequeue under the
  queue lock, the terminal's \<open>write\<close>). \<open>schedule_work\<close> makes the work pending, and a work item never runs
  twice at the same time.
\<close>

section \<open>States and steps\<close>

text \<open>The place of the worker: between runs, at the label \<open>restart\<close>, at the head of the loop, at the
  three statements of its body that matter, after the loop, at the test of \<open>HCI_UART_TX_WAKEUP\<close>.\<close>

datatype wpc = WIdle | WRestart | WLoop | WFlag | WWrite | WStore | WDone | WTest

text \<open>
  \<open>s_set\<close>, \<open>s_test\<close>, \<open>s_sched\<close> count the callers of \<open>hci_uart_tx_wakeup\<close> that are about to set
  \<open>HCI_UART_TX_WAKEUP\<close>, to test and set \<open>HCI_UART_SENDING\<close>, to schedule the work. \<open>s_queue\<close> are the packets
  the protocol would give, \<open>s_cur\<close> the local \<open>skb\<close> of the worker, \<open>s_given\<close> all packets made available so far.
\<close>

record sched =
  s_pc :: wpc
  s_cur :: "byte list"
  s_queue :: "byte list list"
  s_tx_skb :: "byte list option"
  s_sending :: bool
  s_tx_wakeup :: bool
  s_pending :: bool
  s_flag :: bool
  s_set :: nat
  s_test :: nat
  s_sched :: nat
  s_out :: "byte list"
  s_given :: "byte list list"

definition sched_zero :: sched where
  "sched_zero = \<lparr>s_pc = WIdle, s_cur = [], s_queue = [], s_tx_skb = None, s_sending = False, s_tx_wakeup = False,
     s_pending = False, s_flag = False, s_set = 0, s_test = 0, s_sched = 0, s_out = [], s_given = []\<rparr>"

text \<open>The callers: a packet becomes available and its provider calls \<open>hci_uart_tx_wakeup\<close>; the terminal, which
  was asked to, calls back; the three accesses of \<open>hci_uart_tx_wakeup\<close>.\<close>

inductive wake_step :: "sched \<Rightarrow> sched \<Rightarrow> bool" where
  enqueue: "wake_step s (s\<lparr>s_queue := s_queue s @ [f], s_given := s_given s @ [f], s_set := s_set s + 1\<rparr>)"
| tty_wakeup: "s_flag s \<Longrightarrow> wake_step s (s\<lparr>s_flag := False, s_set := s_set s + 1\<rparr>)"
| set_wakeup: "s_set s = Suc n \<Longrightarrow> wake_step s (s\<lparr>s_set := n, s_test := s_test s + 1, s_tx_wakeup := True\<rparr>)"
| busy: "s_test s = Suc n \<Longrightarrow> s_sending s \<Longrightarrow> wake_step s (s\<lparr>s_test := n\<rparr>)"
| claim: "s_test s = Suc n \<Longrightarrow> \<not> s_sending s \<Longrightarrow> wake_step s (s\<lparr>s_test := n, s_sched := s_sched s + 1, s_sending := True\<rparr>)"
| schedule: "s_sched s = Suc n \<Longrightarrow> wake_step s (s\<lparr>s_sched := n, s_pending := True\<rparr>)"

text \<open>The worker; the terminal takes \<open>n\<close> bytes of a write.\<close>

inductive work_step :: "sched \<Rightarrow> sched \<Rightarrow> bool" where
  start: "s_pc s = WIdle \<Longrightarrow> s_pending s \<Longrightarrow> work_step s (s\<lparr>s_pending := False, s_pc := WRestart\<rparr>)"
| restart: "s_pc s = WRestart \<Longrightarrow> work_step s (s\<lparr>s_tx_wakeup := False, s_pc := WLoop\<rparr>)"
| resume: "s_pc s = WLoop \<Longrightarrow> s_tx_skb s = Some f \<Longrightarrow> work_step s (s\<lparr>s_tx_skb := None, s_cur := f, s_pc := WFlag\<rparr>)"
| dequeue: "s_pc s = WLoop \<Longrightarrow> s_tx_skb s = None \<Longrightarrow> s_queue s = f # q \<Longrightarrow>
    work_step s (s\<lparr>s_queue := q, s_cur := f, s_pc := WFlag\<rparr>)"
| empty: "s_pc s = WLoop \<Longrightarrow> s_tx_skb s = None \<Longrightarrow> s_queue s = [] \<Longrightarrow> work_step s (s\<lparr>s_pc := WDone\<rparr>)"
| ask: "s_pc s = WFlag \<Longrightarrow> work_step s (s\<lparr>s_flag := True, s_pc := WWrite\<rparr>)"
| tty_write: "s_pc s = WWrite \<Longrightarrow> n \<le> length (s_cur s) \<Longrightarrow>
    work_step s (s\<lparr>s_out := s_out s @ take n (s_cur s), s_cur := drop n (s_cur s), s_pc := WStore\<rparr>)"
| keep: "s_pc s = WStore \<Longrightarrow> s_cur s \<noteq> [] \<Longrightarrow> work_step s (s\<lparr>s_tx_skb := Some (s_cur s), s_cur := [], s_pc := WDone\<rparr>)"
| complete: "s_pc s = WStore \<Longrightarrow> s_cur s = [] \<Longrightarrow> work_step s (s\<lparr>s_pc := WLoop\<rparr>)"
| release: "s_pc s = WDone \<Longrightarrow> work_step s (s\<lparr>s_sending := False, s_pc := WTest\<rparr>)"
| again: "s_pc s = WTest \<Longrightarrow> s_tx_wakeup s \<Longrightarrow> work_step s (s\<lparr>s_pc := WRestart\<rparr>)"
| finish: "s_pc s = WTest \<Longrightarrow> \<not> s_tx_wakeup s \<Longrightarrow> work_step s (s\<lparr>s_pc := WIdle\<rparr>)"

inductive sched_reach :: "sched \<Rightarrow> bool" where
  init: "sched_reach sched_zero"
| wake: "sched_reach s \<Longrightarrow> wake_step s s' \<Longrightarrow> sched_reach s'"
| work: "sched_reach s \<Longrightarrow> work_step s s' \<Longrightarrow> sched_reach s'"

section \<open>The invariant\<close>

text \<open>Something is left to send; the terminal owes a call for the interrupted packet.\<close>

definition to_send :: "sched \<Rightarrow> bool" where
  "to_send s \<longleftrightarrow> s_queue s \<noteq> [] \<or> s_tx_skb s \<noteq> None"

definition tty_owes :: "sched \<Rightarrow> bool" where
  "tty_owes s \<longleftrightarrow> s_tx_skb s \<noteq> None \<and> s_flag s"

text \<open>
  A set \<open>HCI_UART_SENDING\<close> means that a run is coming or under way; the worker that leaves with
  something unsent will see a wake-up or meets one that comes; after it left somebody will start it.
\<close>

definition sched_inv :: "sched \<Rightarrow> bool" where
  "sched_inv s \<longleftrightarrow>
     (s_sending s \<and> s_sched s = 0 \<and> \<not> s_pending s \<longrightarrow> s_pc s \<notin> {WIdle, WTest}) \<and>
     (s_pc s \<in> {WWrite, WStore} \<longrightarrow> s_flag s \<or> 0 < s_set s \<or> s_tx_wakeup s) \<and>
     (s_pc s \<in> {WDone, WTest} \<and> to_send s \<longrightarrow> 0 < s_set s \<or> s_tx_wakeup s \<or> tty_owes s) \<and>
     (s_pc s = WIdle \<and> to_send s \<longrightarrow> 0 < s_set s \<or> 0 < s_test s \<or> 0 < s_sched s \<or> s_pending s \<or> tty_owes s)"

definition stream_inv :: "sched \<Rightarrow> bool" where
  "stream_inv s \<longleftrightarrow> (s_pc s \<in> {WFlag, WWrite, WStore} \<longrightarrow> s_tx_skb s = None) \<and>
     (s_pc s \<notin> {WFlag, WWrite, WStore} \<longrightarrow> s_cur s = []) \<and>
     s_out s @ s_cur s @ (case s_tx_skb s of None \<Rightarrow> [] | Some f \<Rightarrow> f) @ concat (s_queue s) = concat (s_given s)"

lemmas sched_inv_defs = sched_inv_def to_send_def tty_owes_def

lemma wake_step_inv: "wake_step s s' \<Longrightarrow> sched_inv s \<Longrightarrow> sched_inv s'"
  by (induction rule: wake_step.induct) (clarsimp simp: sched_inv_defs; blast)+

lemma work_step_inv: "work_step s s' \<Longrightarrow> sched_inv s \<Longrightarrow> sched_inv s'"
  by (induction rule: work_step.induct) (clarsimp simp: sched_inv_defs; blast)+

lemma wake_step_stream: "wake_step s s' \<Longrightarrow> stream_inv s \<Longrightarrow> stream_inv s'"
  by (induction rule: wake_step.induct) (simp_all add: stream_inv_def flip: append_assoc)

lemma take_drop_split: "take n xs @ drop n xs @ ys = xs @ ys"
  by (simp flip: append_assoc)

lemma work_step_stream: "work_step s s' \<Longrightarrow> stream_inv s \<Longrightarrow> stream_inv s'"
  by (induction rule: work_step.induct) (clarsimp simp: stream_inv_def take_drop_split)+

lemma sched_reach_inv: "sched_reach s \<Longrightarrow> sched_inv s \<and> stream_inv s"
proof (induction rule: sched_reach.induct)
  case init
  show ?case by (simp add: sched_zero_def sched_inv_defs stream_inv_def)
qed (blast intro: wake_step_inv wake_step_stream work_step_inv work_step_stream)+

section \<open>Termination\<close>

text \<open>The steps that need nobody to offer new packets, with a terminal that takes at least one byte of a
  packet it is given.\<close>

definition drive :: "sched \<Rightarrow> sched \<Rightarrow> bool" where
  "drive s s' \<longleftrightarrow> (wake_step s s' \<and> s_given s' = s_given s) \<or>
     (work_step s s' \<and> (s_pc s = WWrite \<and> s_cur s \<noteq> [] \<longrightarrow> s_out s' \<noteq> s_out s))"

text \<open>
  Every step reduces the bytes not yet written, or keeps them and reduces a weight: a packet is worth
  more than the steps of the loop, a request to the terminal more than the wake-up it can cause, a
  wake-up more than the run it can cause. At \<open>restart\<close> the bit \<open>HCI_UART_TX_WAKEUP\<close> is about to be
  cleared and counts nothing.
\<close>

definition bytes_left :: "sched \<Rightarrow> nat" where
  "bytes_left s = length (s_cur s) + (case s_tx_skb s of None \<Rightarrow> 0 | Some f \<Rightarrow> length f) + length (concat (s_queue s))"

definition pc_weight :: "wpc \<Rightarrow> nat" where
  "pc_weight pc = (case pc of WIdle \<Rightarrow> 0 | WTest \<Rightarrow> 1 | WDone \<Rightarrow> 2 | WLoop \<Rightarrow> 3 | WRestart \<Rightarrow> 4 | WStore \<Rightarrow> 20 | WWrite \<Rightarrow> 21 | WFlag \<Rightarrow> 35)"

definition weight :: "sched \<Rightarrow> nat" where
  "weight s = pc_weight (s_pc s) + (if s_pc s = WStore \<and> s_cur s \<noteq> [] then 20 else 0) + (if s_tx_wakeup s \<and> s_pc s \<noteq> WRestart then 4 else 0) + (if s_pending s then 5 else 0) +
     6 * s_sched s + 7 * s_test s + 12 * s_set s + (if s_flag s then 13 else 0) +
     (if s_tx_skb s = None then 0 else 33) + 33 * length (s_queue s)"

lemma wake_step_drive:
  assumes "wake_step s s'" "s_given s' = s_given s"
  shows "bytes_left s' = bytes_left s \<and> weight s' < weight s"
  using assms by (induction rule: wake_step.induct) (simp_all add: bytes_left_def weight_def)

lemma work_step_drive:
  assumes "work_step s s'" "s_pc s = WWrite \<and> s_cur s \<noteq> [] \<longrightarrow> s_out s' \<noteq> s_out s"
  shows "bytes_left s' < bytes_left s \<or> (bytes_left s' \<le> bytes_left s \<and> weight s' < weight s)"
  using assms by (induction rule: work_step.induct) (auto simp: bytes_left_def weight_def pc_weight_def)

lemma drive_decreases:
  "drive s s' \<Longrightarrow> bytes_left s' < bytes_left s \<or> (bytes_left s' = bytes_left s \<and> weight s' < weight s)"
  unfolding drive_def by (metis le_neq_implies_less wake_step_drive work_step_drive)

lemma drive_no_infinite:
  assumes "\<And>i. drive (f i) (f (Suc i))"
  shows False
proof -
  let ?R = "inv_image (less_than <*lex*> less_than) (\<lambda>s. (bytes_left s, weight s))"
  have "(f (Suc i), f i) \<in> ?R" for i
    using drive_decreases [OF assms] by simp
  moreover have "wf ?R" by (intro wf_inv_image wf_lex_prod wf_less_than)
  ultimately show False by (metis wf_iff_no_infinite_down_chain)
qed

lemma drive_reach: "drive\<^sup>*\<^sup>* s s' \<Longrightarrow> sched_reach s \<Longrightarrow> sched_reach s' \<and> s_given s' = s_given s"
proof (induction rule: rtranclp_induct)
  case (step s' s'')
  have "work_step s' s'' \<Longrightarrow> s_given s'' = s_given s'" by (erule work_step.cases) simp_all
  with step show ?case by (auto simp: drive_def intro: sched_reach.intros)
qed simp

text \<open>A state in which the driver and the terminal have nothing to do.\<close>

lemma stuckD:
  assumes "\<And>s'. \<not> drive s s'" "sched_reach s"
  shows "s_pc s = WIdle \<and> \<not> s_pending s \<and> \<not> s_flag s \<and> s_set s = 0 \<and> s_test s = 0 \<and> s_sched s = 0"
proof -
  have wake: "\<not> wake_step s s'" if "s_given s' = s_given s" for s' using assms(1) that by (auto simp: drive_def)
  have "\<not> s_flag s" using wake [OF _ ] wake_step.tty_wakeup [of s] by fastforce
  moreover have "s_set s = 0" using wake wake_step.set_wakeup [of s] by (cases "s_set s") fastforce+
  moreover have "s_sched s = 0" using wake wake_step.schedule [of s] by (cases "s_sched s") fastforce+
  moreover have "s_test s = 0"
    using wake wake_step.busy [of s] wake_step.claim [of s] by (cases "s_test s"; cases "s_sending s") fastforce+
  moreover have "s_pc s = WIdle \<and> \<not> s_pending s"
  proof (rule ccontr)
    assume n: "\<not> (s_pc s = WIdle \<and> \<not> s_pending s)"
    have "\<exists>s'. work_step s s' \<and> (s_pc s = WWrite \<and> s_cur s \<noteq> [] \<longrightarrow> s_out s' \<noteq> s_out s)"
    proof (cases "s_pc s")
      case WLoop
      then show ?thesis
        by (cases "s_tx_skb s"; cases "s_queue s") (use work_step.resume work_step.dequeue work_step.empty in fastforce)+
    next
      case WWrite
      then show ?thesis using work_step.tty_write [of s "length (s_cur s)"] by fastforce
    next
      case WStore
      then show ?thesis using work_step.keep [of s] work_step.complete [of s] by fastforce
    next
      case WTest
      then show ?thesis using work_step.again [of s] work_step.finish [of s] by fastforce
    qed (use n work_step.start work_step.restart work_step.ask work_step.release in fastforce)+
    with assms(1) show False by (auto simp: drive_def)
  qed
  ultimately show ?thesis by simp
qed

section \<open>Properties\<close>

text \<open>(C31) 
  No wake-up is lost. However callers and worker interleave: when no caller is inside
  \<open>hci_uart_tx_wakeup\<close>, the work is not pending and not running, and still something is to be sent, then
  a packet was interrupted and the terminal has been asked to call back and has not yet done so.
\<close>

theorem tx_no_lost_wakeup:
  assumes "sched_reach s" "s_pc s = WIdle" "\<not> s_pending s" "s_set s = 0" "s_test s = 0" "s_sched s = 0"
    and "s_queue s \<noteq> [] \<or> s_tx_skb s \<noteq> None"
  shows "s_tx_skb s \<noteq> None \<and> s_flag s"
  using sched_reach_inv [OF assms(1)] assms(2-) by (auto simp: sched_inv_defs)

text \<open>(C9) 
  Everything is transmitted. Once no new packets are offered, and if the terminal takes at least a byte
  of every write and makes the calls it was asked for, no run of driver and terminal is infinite; and
  when nothing is left to do, in whatever order the steps were taken, the terminal has received
  exactly the bytes of all packets in order. At any earlier time it has a prefix of them.
\<close>

theorem tx_delivers:
  assumes "sched_reach s"
  shows "\<not> (\<exists>f. f 0 = s \<and> (\<forall>i. drive (f i) (f (Suc i)))) \<and>
    (drive\<^sup>*\<^sup>* s s' \<longrightarrow> (\<exists>rest. s_out s' @ rest = concat (s_given s)) \<and>
       ((\<forall>s''. \<not> drive s' s'') \<longrightarrow> s_out s' = concat (s_given s)))"
proof (intro conjI impI)
  show "\<not> (\<exists>f. f 0 = s \<and> (\<forall>i. drive (f i) (f (Suc i))))" using drive_no_infinite by blast
  assume d: "drive\<^sup>*\<^sup>* s s'"
  from drive_reach [OF d assms] have r: "sched_reach s'" "s_given s' = s_given s" by simp_all
  from sched_reach_inv [OF r(1)] r(2) show "\<exists>rest. s_out s' @ rest = concat (s_given s)"
    by (fastforce simp: stream_inv_def)
  assume "\<forall>s''. \<not> drive s' s''"
  with stuckD [of s'] r sched_reach_inv [OF r(1)] show "s_out s' = concat (s_given s)"
    by (auto simp: sched_inv_defs stream_inv_def)
qed

subsection \<open>Example: an interrupted packet\<close>

text \<open>A packet of two bytes of which the terminal takes one; driver and worker have come to rest.\<close>

definition ex_blocked :: sched where
  "ex_blocked = sched_zero\<lparr>s_tx_skb := Some [2], s_flag := True, s_out := [1], s_given := [[1, 2]]\<rparr>"

lemma ex_blocked_reach: "sched_reach ex_blocked"
proof -
  let ?s1 = "sched_zero\<lparr>s_queue := [[1, 2]], s_set := 1, s_given := [[1, 2]]\<rparr>"
  have "sched_reach ?s1"
    using sched_reach.wake [OF sched_reach.init wake_step.enqueue, of "[1, 2]"] by (simp add: sched_zero_def)
  from sched_reach.wake [OF this wake_step.set_wakeup [of _ 0]]
  have "sched_reach (?s1\<lparr>s_set := 0, s_test := 1, s_tx_wakeup := True\<rparr>)" by (simp add: sched_zero_def)
  from sched_reach.wake [OF this wake_step.claim [of _ 0]]
  have "sched_reach (?s1\<lparr>s_set := 0, s_sched := 1, s_sending := True, s_tx_wakeup := True\<rparr>)" by (simp add: sched_zero_def)
  from sched_reach.wake [OF this wake_step.schedule [of _ 0]]
  have "sched_reach (?s1\<lparr>s_set := 0, s_pending := True, s_sending := True, s_tx_wakeup := True\<rparr>)" by (simp add: sched_zero_def)
  from sched_reach.work [OF sched_reach.work [OF this work_step.start] work_step.restart]
  have "sched_reach (?s1\<lparr>s_set := 0, s_sending := True, s_pc := WLoop\<rparr>)" by (simp add: sched_zero_def)
  from sched_reach.work [OF sched_reach.work [OF this work_step.dequeue] work_step.ask]
  have "sched_reach (?s1\<lparr>s_set := 0, s_sending := True, s_pc := WWrite, s_queue := [], s_cur := [1, 2], s_flag := True\<rparr>)"
    by (simp add: sched_zero_def)
  from sched_reach.work [OF sched_reach.work [OF this work_step.tty_write [of _ 1]] work_step.keep]
  have "sched_reach (?s1\<lparr>s_set := 0, s_sending := True, s_pc := WDone, s_queue := [], s_tx_skb := Some [2], s_flag := True, s_out := [1]\<rparr>)"
    by (simp add: sched_zero_def)
  from sched_reach.work [OF sched_reach.work [OF this work_step.release] work_step.finish]
  show ?thesis by (simp add: sched_zero_def ex_blocked_def)
qed

theorem tx_no_lost_wakeup_witness:
  "s_pc ex_blocked = WIdle \<and> \<not> s_pending ex_blocked \<and> s_tx_skb ex_blocked \<noteq> None \<and> s_flag ex_blocked"
  using tx_no_lost_wakeup [OF ex_blocked_reach] by (simp add: ex_blocked_def sched_zero_def)

theorem tx_delivers_witness:
  "sched_reach ex_blocked \<and> (\<exists>rest. s_out ex_blocked @ rest = [1, 2]) \<and> drive ex_blocked (ex_blocked\<lparr>s_flag := False, s_set := 1\<rparr>) \<and>
   \<not> (\<exists>f. f 0 = ex_blocked \<and> (\<forall>i. drive (f i) (f (Suc i))))"
  using tx_delivers [OF ex_blocked_reach, of ex_blocked] ex_blocked_reach wake_step.tty_wakeup [of ex_blocked]
  by (simp add: ex_blocked_def sched_zero_def drive_def)

end
