(* ===== verification/Kernel_Close.thy ===== *)
theory Kernel_Close
  imports Kernel_Sched
begin

text \<open>
  Closing the line while it is in use. \<open>hci_uart_tty_close\<close> frees the device, the protocol and the structure
  \<open>hci_uart\<close> while the host stack sends and flushes, the terminal delivers bytes, the retransmission work
  fires and the worker transmits. Each step below is one access of the source to shared state. The objects are
  represented by whether they are still allocated, packets by numbers.
\<close>

section \<open>Shared state\<close>

text \<open>
  \<open>sh_readers\<close> and \<open>sh_block\<close> are \<open>proto_lock\<close>; \<open>sh_queued\<close> and \<open>sh_armed\<close> say that \<open>write_work\<close> and the
  retransmission work are pending; \<open>sh_cur\<close> is the local \<open>skb\<close> of the worker; \<open>sh_bad\<close> records an access to a freed
  structure, device or protocol, \<open>sh_bad_skb\<close> one to a freed packet.
\<close>

record shared =
  sh_readers :: nat
  sh_block :: bool
  sh_ready :: bool
  sh_registered :: bool
  sh_sending :: bool
  sh_wakeup :: bool
  sh_queued :: bool
  sh_armed :: bool
  sh_tx_skb :: "nat option"
  sh_cur :: "nat option"
  sh_next :: nat
  sh_freed :: "nat list"
  sh_dev :: bool
  sh_priv :: bool
  sh_hu :: bool
  sh_bad :: bool
  sh_bad_skb :: bool

definition use_hu :: "shared \<Rightarrow> shared" where "use_hu s = s\<lparr>sh_bad := sh_bad s \<or> \<not> sh_hu s\<rparr>"
definition use_dev :: "shared \<Rightarrow> shared" where "use_dev s = s\<lparr>sh_bad := sh_bad s \<or> \<not> sh_dev s\<rparr>"
definition use_priv :: "shared \<Rightarrow> shared" where "use_priv s = s\<lparr>sh_bad := sh_bad s \<or> \<not> sh_priv s\<rparr>"

text \<open>Access to a packet and its release; \<open>kfree_skb\<close> of the null pointer does nothing.\<close>

definition use_skb :: "nat option \<Rightarrow> shared \<Rightarrow> shared" where
  "use_skb p s = (case p of None \<Rightarrow> s | Some i \<Rightarrow> s\<lparr>sh_bad_skb := sh_bad_skb s \<or> i \<in> set (sh_freed s)\<rparr>)"

definition free_skb :: "nat option \<Rightarrow> shared \<Rightarrow> shared" where
  "free_skb p s = (case p of None \<Rightarrow> s | Some i \<Rightarrow> (use_skb p s)\<lparr>sh_freed := i # sh_freed s\<rparr>)"

lemma use_fields [simp]:
  "sh_readers (use_hu s) = sh_readers s" "sh_block (use_hu s) = sh_block s" "sh_ready (use_hu s) = sh_ready s" "sh_registered (use_hu s) = sh_registered s" "sh_sending (use_hu s) = sh_sending s" "sh_wakeup (use_hu s) = sh_wakeup s" "sh_queued (use_hu s) = sh_queued s"
  "sh_armed (use_hu s) = sh_armed s" "sh_tx_skb (use_hu s) = sh_tx_skb s" "sh_cur (use_hu s) = sh_cur s" "sh_next (use_hu s) = sh_next s" "sh_dev (use_hu s) = sh_dev s" "sh_priv (use_hu s) = sh_priv s" "sh_hu (use_hu s) = sh_hu s"
  "sh_readers (use_dev s) = sh_readers s" "sh_block (use_dev s) = sh_block s" "sh_ready (use_dev s) = sh_ready s" "sh_registered (use_dev s) = sh_registered s" "sh_sending (use_dev s) = sh_sending s" "sh_wakeup (use_dev s) = sh_wakeup s" "sh_queued (use_dev s) = sh_queued s"
  "sh_armed (use_dev s) = sh_armed s" "sh_tx_skb (use_dev s) = sh_tx_skb s" "sh_cur (use_dev s) = sh_cur s" "sh_next (use_dev s) = sh_next s" "sh_dev (use_dev s) = sh_dev s" "sh_priv (use_dev s) = sh_priv s" "sh_hu (use_dev s) = sh_hu s"
  "sh_readers (use_priv s) = sh_readers s" "sh_block (use_priv s) = sh_block s" "sh_ready (use_priv s) = sh_ready s" "sh_registered (use_priv s) = sh_registered s" "sh_sending (use_priv s) = sh_sending s" "sh_wakeup (use_priv s) = sh_wakeup s" "sh_queued (use_priv s) = sh_queued s"
  "sh_armed (use_priv s) = sh_armed s" "sh_tx_skb (use_priv s) = sh_tx_skb s" "sh_cur (use_priv s) = sh_cur s" "sh_next (use_priv s) = sh_next s" "sh_dev (use_priv s) = sh_dev s" "sh_priv (use_priv s) = sh_priv s" "sh_hu (use_priv s) = sh_hu s"
  "sh_readers (use_skb p s) = sh_readers s" "sh_block (use_skb p s) = sh_block s" "sh_ready (use_skb p s) = sh_ready s" "sh_registered (use_skb p s) = sh_registered s" "sh_sending (use_skb p s) = sh_sending s" "sh_wakeup (use_skb p s) = sh_wakeup s" "sh_queued (use_skb p s) = sh_queued s"
  "sh_armed (use_skb p s) = sh_armed s" "sh_tx_skb (use_skb p s) = sh_tx_skb s" "sh_cur (use_skb p s) = sh_cur s" "sh_next (use_skb p s) = sh_next s" "sh_dev (use_skb p s) = sh_dev s" "sh_priv (use_skb p s) = sh_priv s" "sh_hu (use_skb p s) = sh_hu s"
  "sh_readers (free_skb p s) = sh_readers s" "sh_block (free_skb p s) = sh_block s" "sh_ready (free_skb p s) = sh_ready s" "sh_registered (free_skb p s) = sh_registered s" "sh_sending (free_skb p s) = sh_sending s" "sh_wakeup (free_skb p s) = sh_wakeup s" "sh_queued (free_skb p s) = sh_queued s"
  "sh_armed (free_skb p s) = sh_armed s" "sh_tx_skb (free_skb p s) = sh_tx_skb s" "sh_cur (free_skb p s) = sh_cur s" "sh_next (free_skb p s) = sh_next s" "sh_dev (free_skb p s) = sh_dev s" "sh_priv (free_skb p s) = sh_priv s" "sh_hu (free_skb p s) = sh_hu s"
  by (simp_all add: use_hu_def use_dev_def use_priv_def use_skb_def free_skb_def split: option.split)

lemma use_bad [simp]:
  "sh_bad (use_hu s) = (sh_bad s \<or> \<not> sh_hu s)" "sh_bad (use_dev s) = (sh_bad s \<or> \<not> sh_dev s)"
  "sh_bad (use_priv s) = (sh_bad s \<or> \<not> sh_priv s)" "sh_bad (use_skb p s) = sh_bad s" "sh_bad (free_skb p s) = sh_bad s"
  by (simp_all add: use_hu_def use_dev_def use_priv_def use_skb_def free_skb_def split: option.split)

section \<open>The lock\<close>

text \<open>
  A reader enters unless a writer has announced itself; a writer announces itself and then waits until the
  readers are gone. A function that may have to wait returns the list of its possible results.
\<close>

definition hci_proto_read_lock :: "shared \<Rightarrow> shared list" where
  "hci_proto_read_lock s = (if sh_block s then [] else [s\<lparr>sh_readers := sh_readers s + 1\<rparr>])"

definition hci_proto_read_trylock :: "shared \<Rightarrow> bool \<times> shared" where
  "hci_proto_read_trylock s = (if sh_block s then (False, s) else (True, s\<lparr>sh_readers := sh_readers s + 1\<rparr>))"

definition hci_proto_read_unlock :: "shared \<Rightarrow> shared" where
  "hci_proto_read_unlock s = s\<lparr>sh_readers := sh_readers s - 1\<rparr>"

definition hci_proto_write_announce :: "shared \<Rightarrow> shared" where
  "hci_proto_write_announce s = s\<lparr>sh_block := True\<rparr>"

definition hci_proto_write_lock :: "shared \<Rightarrow> shared list" where
  "hci_proto_write_lock s = (if sh_readers s = 0 then [s] else [])"

definition hci_proto_write_unlock :: "shared \<Rightarrow> shared" where
  "hci_proto_write_unlock s = s\<lparr>sh_block := False\<rparr>"

lemmas lock_defs = hci_proto_read_lock_def hci_proto_read_trylock_def hci_proto_read_unlock_def
  hci_proto_write_announce_def hci_proto_write_lock_def hci_proto_write_unlock_def

section \<open>Callers\<close>

text \<open>
  The places of a caller: in \<open>hci_uart_send_frame\<close>, in \<open>hci_uart_tx_wakeup\<close> (the argument tells whether it was called by the
  receiver, to which it returns), in \<open>__hci_uart_flush\<close>, in \<open>hci_uart_tty_receive\<close>, in \<open>hci_uart_tty_wakeup\<close>, in \<open>h5_timed_event\<close>.
\<close>

datatype upc = UIdle
  | USend | USendTest | UEnqueue | USendUnlock | USendFail
  | UWake bool | UWakeTest bool | USetWakeup bool | USetSending bool | USchedule bool | UWakeUnlock bool
  | UFlush | UFlushFree | UFlushNull | UFlushLock | UFlushTest | UFlushProto | UFlushUnlock
  | UReceive | UReceiveTest | UReceiveFail | UReceiveUnlock | UReceiveProto | UReceiveStat
  | UTtyWakeup | UTimed

definition wake_return :: "bool \<Rightarrow> upc" where
  "wake_return b = (if b then UReceiveProto else UIdle)"

fun send_frame_step :: "upc \<Rightarrow> shared \<Rightarrow> (upc \<times> shared) list" where
  "send_frame_step USend s = map (Pair USendTest) (hci_proto_read_lock (use_dev s))"
| "send_frame_step USendTest s = [(if sh_ready s then UEnqueue else USendFail, s)]"
| "send_frame_step USendFail s = [(UIdle, hci_proto_read_unlock s)]"
| "send_frame_step UEnqueue s = [(USendUnlock, use_priv s)]"
| "send_frame_step USendUnlock s = [(UWake False, hci_proto_read_unlock s)]"
| "send_frame_step _ s = []"

fun tx_wakeup_step :: "upc \<Rightarrow> shared \<Rightarrow> (upc \<times> shared) list" where
  "tx_wakeup_step (UWake b) s =
     (case hci_proto_read_trylock s of (ok, s) \<Rightarrow> [(if ok then UWakeTest b else wake_return b, s)])"
| "tx_wakeup_step (UWakeTest b) s = [(if sh_ready s then USetWakeup b else UWakeUnlock b, s)]"
| "tx_wakeup_step (USetWakeup b) s = [(USetSending b, s\<lparr>sh_wakeup := True\<rparr>)]"
| "tx_wakeup_step (USetSending b) s = [(if sh_sending s then UWakeUnlock b else USchedule b, s\<lparr>sh_sending := True\<rparr>)]"
| "tx_wakeup_step (USchedule b) s = [(UWakeUnlock b, s\<lparr>sh_queued := True\<rparr>)]"
| "tx_wakeup_step (UWakeUnlock b) s = [(wake_return b, hci_proto_read_unlock s)]"
| "tx_wakeup_step _ s = []"

fun flush_step :: "upc \<Rightarrow> shared \<Rightarrow> (upc \<times> shared) list" where
  "flush_step UFlush s = [(if sh_tx_skb s \<noteq> None then UFlushFree else UFlushLock, use_dev s)]"
| "flush_step UFlushFree s = [(UFlushNull, free_skb (sh_tx_skb s) s)]"
| "flush_step UFlushNull s = [(UFlushLock, s\<lparr>sh_tx_skb := None\<rparr>)]"
| "flush_step UFlushLock s = map (Pair UFlushTest) (hci_proto_read_lock s)"
| "flush_step UFlushTest s = [(if sh_ready s then UFlushProto else UFlushUnlock, s)]"
| "flush_step UFlushProto s = [(UFlushUnlock, use_priv s)]"
| "flush_step UFlushUnlock s = [(UIdle, hci_proto_read_unlock s)]"
| "flush_step _ s = []"

text \<open>The receiver works without the lock; it may ask for a wake-up and stop the retransmission work any number of times.\<close>

fun receive_step :: "upc \<Rightarrow> shared \<Rightarrow> (upc \<times> shared) list" where
  "receive_step UReceive s = map (Pair UReceiveTest) (hci_proto_read_lock s)"
| "receive_step UReceiveTest s = [(if sh_ready s then UReceiveUnlock else UReceiveFail, s)]"
| "receive_step UReceiveFail s = [(UIdle, hci_proto_read_unlock s)]"
| "receive_step UReceiveUnlock s = [(UReceiveProto, hci_proto_read_unlock s)]"
| "receive_step UReceiveProto s =
     (let s = use_priv s in [(UWake True, s), (UReceiveProto, s\<lparr>sh_armed := False\<rparr>), (UReceiveStat, s)])"
| "receive_step UReceiveStat s = [(UIdle, use_dev s)]"
| "receive_step UTtyWakeup s = [(if sh_ready s then UWake False else UIdle, s)]"
| "receive_step _ s = []"

text \<open>The retransmission work of the three-wire protocol moves packets between the queues of the protocol and asks for a wake-up.\<close>

fun timed_step :: "upc \<Rightarrow> shared \<Rightarrow> (upc \<times> shared) list" where
  "timed_step UTimed s = [(UWake False, use_priv s)]"
| "timed_step _ s = []"

definition user_step :: "upc \<Rightarrow> shared \<Rightarrow> (upc \<times> shared) list" where
  "user_step pc s =
     (let s = use_hu s in
      timed_step pc s @ send_frame_step pc s @ tx_wakeup_step pc s @ flush_step pc s @ receive_step pc s)"

section \<open>The worker\<close>

text \<open>
  The places of \<open>hci_uart_write_work\<close> and of \<open>hci_uart_dequeue\<close> in it: \<open>restart\<close>, reading and clearing \<open>tx_skb\<close>, the
  dequeue under the lock, writing, keeping or freeing the packet, clearing \<open>HCI_UART_SENDING\<close>, testing \<open>HCI_UART_TX_WAKEUP\<close>.
\<close>

datatype kpc = KIdle | KRestart | KTake | KNull | KLock | KTest | KDequeue | KUnlock | KWrite | KStore | KFree | KDone | KTestWake

fun write_step :: "kpc \<Rightarrow> shared \<Rightarrow> (kpc \<times> shared) list" where
  "write_step KIdle s = []"
| "write_step KRestart s = [(KTake, s\<lparr>sh_wakeup := False\<rparr>)]"
| "write_step KTake s = [(if sh_tx_skb s = None then KLock else KNull, s\<lparr>sh_cur := sh_tx_skb s\<rparr>)]"
| "write_step KNull s = [(KWrite, s\<lparr>sh_tx_skb := None\<rparr>)]"
| "write_step KLock s = map (Pair KTest) (hci_proto_read_lock s)"
| "write_step KTest s = [(if sh_ready s then KDequeue else KUnlock, s)]"
| "write_step KDequeue s =
     (let s = use_priv s; t = s\<lparr>sh_cur := Some (sh_next s), sh_next := sh_next s + 1\<rparr> in
      [(KUnlock, s\<lparr>sh_cur := None\<rparr>), (KUnlock, t), (KUnlock, t\<lparr>sh_armed := True\<rparr>)])"
| "write_step KUnlock s = [(if sh_cur s = None then KDone else KWrite, hci_proto_read_unlock s)]"
| "write_step KWrite s = (let s = use_skb (sh_cur s) (use_dev s) in [(KStore, s), (KFree, s)])"
| "write_step KStore s = [(KDone, s\<lparr>sh_tx_skb := sh_cur s, sh_cur := None\<rparr>)]"
| "write_step KFree s = [(KTake, (free_skb (sh_cur s) (use_dev s))\<lparr>sh_cur := None\<rparr>)]"
| "write_step KDone s = [(KTestWake, s\<lparr>sh_sending := False\<rparr>)]"
| "write_step KTestWake s = [(if sh_wakeup s then KRestart else KIdle, s)]"

definition worker_step :: "kpc \<Rightarrow> shared \<Rightarrow> (kpc \<times> shared) list" where
  "worker_step pc s = write_step pc (use_hu s)"

section \<open>Closing\<close>

text \<open>
  The places of \<open>hci_uart_tty_close\<close>. It flushes the device itself, and so does \<open>hci_unregister_dev\<close> when
  the device is up, by calling \<open>hci_uart_close\<close>.
\<close>

datatype cpc = CNone | CFlush upc | CTest | CAnnounce | CWait | CClear | CUnlock | CCancel | CUnregister | CReclose upc
  | CFreeDev | CProto | CFreeHu | CDone

record conf =
  cf_sh :: shared
  cf_users :: "upc list"
  cf_tty :: upc
  cf_timer :: upc
  cf_worker :: kpc
  cf_closer :: cpc

text \<open>
  What the kernel does: the terminal layer calls \<open>close\<close> when no other call of the line discipline is in progress;
  \<open>cancel_work_sync\<close> and \<open>cancel_delayed_work_sync\<close> return when the work is neither pending nor running; \<open>hci_unregister_dev\<close> returns
  when no call of the host stack is in progress, and there are none afterwards.
\<close>

fun tty_close_step :: "cpc \<Rightarrow> conf \<Rightarrow> shared \<Rightarrow> (cpc \<times> shared) list" where
  "tty_close_step CNone c s = (if cf_tty c = UIdle then [(CFlush UFlush, s)] else [])"
| "tty_close_step (CFlush pc) c s =
     (if pc = UIdle then [(CTest, s)] else map (\<lambda>(pc, s). (CFlush pc, s)) (flush_step pc s))"
| "tty_close_step CTest c s = [(if sh_ready s then CAnnounce else CFreeHu, s)]"
| "tty_close_step CAnnounce c s = [(CWait, hci_proto_write_announce s)]"
| "tty_close_step CWait c s = map (Pair CClear) (hci_proto_write_lock s)"
| "tty_close_step CClear c s = [(CUnlock, s\<lparr>sh_ready := False\<rparr>)]"
| "tty_close_step CUnlock c s = [(CCancel, hci_proto_write_unlock s)]"
| "tty_close_step CCancel c s = (if cf_worker c = KIdle then [(CUnregister, s\<lparr>sh_queued := False\<rparr>)] else [])"
| "tty_close_step CUnregister c s =
     (if list_all (\<lambda>pc. pc = UIdle) (cf_users c)
      then let s = s\<lparr>sh_registered := False\<rparr> in [(CFreeDev, s), (CReclose UFlush, s)] else [])"
| "tty_close_step (CReclose pc) c s =
     (if pc = UIdle then [(CFreeDev, s)] else map (\<lambda>(pc, s). (CReclose pc, s)) (flush_step pc s))"
| "tty_close_step CFreeDev c s = [(CProto, (use_dev s)\<lparr>sh_dev := False\<rparr>)]"
| "tty_close_step CProto c s =
     (if cf_timer c = UIdle then [(CFreeHu, (use_priv s)\<lparr>sh_armed := False, sh_priv := False\<rparr>)] else [])"
| "tty_close_step CFreeHu c s = [(CDone, s\<lparr>sh_hu := False\<rparr>)]"
| "tty_close_step CDone c s = []"

definition closer_step :: "conf \<Rightarrow> (cpc \<times> shared) list" where
  "closer_step c = tty_close_step (cf_closer c) c (if cf_closer c = CDone then cf_sh c else use_hu (cf_sh c))"

section \<open>The system\<close>

text \<open>Who makes the next step: a caller begins, or somebody who is under way goes on.\<close>

datatype actor = HostSend nat | HostFlush nat | TtyReceive | TtyWakeup
  | User nat | Tty | TimerFire | Timer | WorkStart | Work | Closer

fun begins :: "actor \<Rightarrow> bool" where
  "begins (HostSend i) = True" | "begins (HostFlush i) = True" | "begins TtyReceive = True" | "begins TtyWakeup = True"
| "begins _ = False"

definition host_begin :: "nat \<Rightarrow> upc \<Rightarrow> conf \<Rightarrow> conf list" where
  "host_begin i pc c =
     (if i < length (cf_users c) \<and> cf_users c ! i = UIdle \<and> sh_registered (cf_sh c)
      then [c\<lparr>cf_users := (cf_users c)[i := pc]\<rparr>] else [])"

definition tty_begin :: "upc \<Rightarrow> conf \<Rightarrow> conf list" where
  "tty_begin pc c = (if cf_tty c = UIdle \<and> cf_closer c = CNone then [c\<lparr>cf_tty := pc\<rparr>] else [])"

fun conf_succ :: "actor \<Rightarrow> conf \<Rightarrow> conf list" where
  "conf_succ (HostSend i) c = host_begin i USend c"
| "conf_succ (HostFlush i) c = host_begin i UFlush c"
| "conf_succ TtyReceive c = tty_begin UReceive c"
| "conf_succ TtyWakeup c = tty_begin UTtyWakeup c"
| "conf_succ (User i) c =
     (if i < length (cf_users c)
      then map (\<lambda>(pc, s). c\<lparr>cf_sh := s, cf_users := (cf_users c)[i := pc]\<rparr>) (user_step (cf_users c ! i) (cf_sh c)) else [])"
| "conf_succ Tty c = map (\<lambda>(pc, s). c\<lparr>cf_sh := s, cf_tty := pc\<rparr>) (user_step (cf_tty c) (cf_sh c))"
| "conf_succ TimerFire c =
     (if sh_armed (cf_sh c) \<and> cf_timer c = UIdle then [c\<lparr>cf_sh := (cf_sh c)\<lparr>sh_armed := False\<rparr>, cf_timer := UTimed\<rparr>] else [])"
| "conf_succ Timer c = map (\<lambda>(pc, s). c\<lparr>cf_sh := s, cf_timer := pc\<rparr>) (user_step (cf_timer c) (cf_sh c))"
| "conf_succ WorkStart c =
     (if sh_queued (cf_sh c) \<and> cf_worker c = KIdle
      then [c\<lparr>cf_sh := (cf_sh c)\<lparr>sh_queued := False\<rparr>, cf_worker := KRestart\<rparr>] else [])"
| "conf_succ Work c = map (\<lambda>(pc, s). c\<lparr>cf_sh := s, cf_worker := pc\<rparr>) (worker_step (cf_worker c) (cf_sh c))"
| "conf_succ Closer c = map (\<lambda>(pc, s). c\<lparr>cf_sh := s, cf_closer := pc\<rparr>) (closer_step c)"

text \<open>An attached line with \<open>n\<close> contexts of the host stack.\<close>

definition attached_line :: "nat \<Rightarrow> conf" where
  "attached_line n =
     \<lparr>cf_sh = \<lparr>sh_readers = 0, sh_block = False, sh_ready = True, sh_registered = True, sh_sending = False, sh_wakeup = False,
        sh_queued = False, sh_armed = False, sh_tx_skb = None, sh_cur = None, sh_next = 0, sh_freed = [], sh_dev = True,
        sh_priv = True, sh_hu = True, sh_bad = False, sh_bad_skb = False\<rparr>,
      cf_users = replicate n UIdle, cf_tty = UIdle, cf_timer = UIdle, cf_worker = KIdle, cf_closer = CNone\<rparr>"

inductive conf_reach :: "conf \<Rightarrow> bool" where
  attached: "conf_reach (attached_line n)"
| step: "conf_reach c \<Longrightarrow> c' \<in> set (conf_succ a c) \<Longrightarrow> conf_reach c'"

end
