(* ===== verification/Kernel_Close_Props.thy ===== *)
theory Kernel_Close_Props
  imports Kernel_Close
begin

text \<open>
  Properties of closing a line in use: the invariant of all interleavings, with the accounting of the lock; the
  decreasing weight that shows that the closing ends; the ownership of packets, and the run in which the flush violates it.
\<close>

section \<open>The invariant\<close>

text \<open>Callers that hold the lock, and those that have seen the protocol ready and rely on it.\<close>

fun holds_lock :: "upc \<Rightarrow> bool" where
  "holds_lock USendTest = True" | "holds_lock UEnqueue = True" | "holds_lock USendUnlock = True" | "holds_lock USendFail = True"
| "holds_lock (UWakeTest _) = True" | "holds_lock (USetWakeup _) = True" | "holds_lock (USetSending _) = True"
| "holds_lock (USchedule _) = True" | "holds_lock (UWakeUnlock _) = True" | "holds_lock UFlushTest = True"
| "holds_lock UFlushProto = True" | "holds_lock UFlushUnlock = True" | "holds_lock UReceiveTest = True"
| "holds_lock UReceiveFail = True" | "holds_lock UReceiveUnlock = True" | "holds_lock _ = False"

fun saw_ready :: "upc \<Rightarrow> bool" where
  "saw_ready UEnqueue = True" | "saw_ready (USetWakeup _) = True" | "saw_ready (USetSending _) = True"
| "saw_ready (USchedule _) = True" | "saw_ready UFlushProto = True" | "saw_ready _ = False"

text \<open>The places of the host stack, of the retransmission work, and of a flush.\<close>

fun host_pc :: "upc \<Rightarrow> bool" where
  "host_pc (UWake b) = (\<not> b)" | "host_pc (UWakeTest b) = (\<not> b)" | "host_pc (USetWakeup b) = (\<not> b)"
| "host_pc (USetSending b) = (\<not> b)" | "host_pc (USchedule b) = (\<not> b)" | "host_pc (UWakeUnlock b) = (\<not> b)"
| "host_pc UReceive = False" | "host_pc UReceiveTest = False" | "host_pc UReceiveFail = False" | "host_pc UReceiveUnlock = False"
| "host_pc UReceiveProto = False" | "host_pc UReceiveStat = False" | "host_pc UTtyWakeup = False" | "host_pc _ = True"

fun timer_pc :: "upc \<Rightarrow> bool" where
  "timer_pc (UWake b) = (\<not> b)" | "timer_pc (UWakeTest b) = (\<not> b)" | "timer_pc (USetWakeup b) = (\<not> b)"
| "timer_pc (USetSending b) = (\<not> b)" | "timer_pc (USchedule b) = (\<not> b)" | "timer_pc (UWakeUnlock b) = (\<not> b)"
| "timer_pc UIdle = True" | "timer_pc UTimed = True" | "timer_pc _ = False"

definition flush_pc :: "upc \<Rightarrow> bool" where
  "flush_pc pc \<longleftrightarrow> pc \<in> {UIdle, UFlush, UFlushFree, UFlushNull, UFlushLock, UFlushTest, UFlushProto, UFlushUnlock}"

definition worker_holds :: "kpc \<Rightarrow> bool" where
  "worker_holds pc \<longleftrightarrow> pc \<in> {KTest, KDequeue, KUnlock}"

text \<open>How far the closing is, and its own flush.\<close>

fun phase :: "cpc \<Rightarrow> nat" where
  "phase CNone = 0" | "phase (CFlush _) = 1" | "phase CTest = 2" | "phase CAnnounce = 3" | "phase CWait = 4" | "phase CClear = 5"
| "phase CUnlock = 6" | "phase CCancel = 7" | "phase CUnregister = 8" | "phase (CReclose _) = 9" | "phase CFreeDev = 10"
| "phase CProto = 11" | "phase CFreeHu = 12" | "phase CDone = 13"

fun closer_pc :: "cpc \<Rightarrow> upc" where
  "closer_pc (CFlush pc) = pc" | "closer_pc (CReclose pc) = pc" | "closer_pc _ = UIdle"

text \<open>The parts of the shared state that only the closing changes.\<close>

definition stage :: "shared \<Rightarrow> bool \<times> bool \<times> bool \<times> bool \<times> bool \<times> bool" where
  "stage s = (sh_ready s, sh_block s, sh_registered s, sh_dev s, sh_priv s, sh_hu s)"

definition in_stage :: "nat \<Rightarrow> shared \<Rightarrow> bool" where
  "in_stage n s \<longleftrightarrow> stage s = (n \<le> 5, n \<in> {4, 5, 6}, n \<le> 8, n \<le> 10, n \<le> 11, n \<le> 12)"

definition lock_count :: "conf \<Rightarrow> nat" where
  "lock_count c = length (filter holds_lock (cf_users c)) + of_bool (holds_lock (cf_tty c)) + of_bool (holds_lock (cf_timer c)) +
     of_bool (worker_holds (cf_worker c)) + of_bool (holds_lock (closer_pc (cf_closer c)))"

definition relies :: "conf \<Rightarrow> bool" where
  "relies c \<longleftrightarrow> (\<exists>pc \<in> set (cf_users c) \<union> {cf_tty c, cf_timer c, closer_pc (cf_closer c)}. saw_ready pc) \<or> cf_worker c = KDequeue"

definition conf_inv :: "conf \<Rightarrow> bool" where
  "conf_inv c \<longleftrightarrow>
     (let s = cf_sh c; n = phase (cf_closer c) in
      in_stage n s \<and> \<not> sh_bad s \<and> sh_readers s = lock_count c \<and> (n \<in> {5, 6} \<longrightarrow> sh_readers s = 0) \<and>
      (relies c \<longrightarrow> sh_ready s) \<and> (1 \<le> n \<longrightarrow> cf_tty c = UIdle) \<and> (8 \<le> n \<longrightarrow> cf_worker c = KIdle \<and> \<not> sh_queued s) \<and>
      (9 \<le> n \<longrightarrow> list_all (\<lambda>pc. pc = UIdle) (cf_users c)) \<and> (12 \<le> n \<longrightarrow> cf_timer c = UIdle \<and> \<not> sh_armed s) \<and>
      list_all host_pc (cf_users c) \<and> timer_pc (cf_timer c) \<and> flush_pc (closer_pc (cf_closer c)))"

text \<open>One step of a caller.\<close>

definition caller_moves :: "upc \<Rightarrow> shared \<Rightarrow> upc \<Rightarrow> shared \<Rightarrow> bool" where
  "caller_moves pc s pc' s' \<longleftrightarrow> stage s' = stage s \<and> 
     (sh_bad s' \<longrightarrow> sh_bad s \<or> \<not> sh_hu s \<or> \<not> sh_priv s \<or> \<not> timer_pc pc \<and> \<not> sh_dev s) \<and> (sh_block s \<and> holds_lock pc' \<longrightarrow> holds_lock pc) \<and>
     (of_bool (holds_lock pc) \<le> sh_readers s \<longrightarrow> sh_readers s' + of_bool (holds_lock pc) = sh_readers s + of_bool (holds_lock pc')) \<and>
     (saw_ready pc' \<longrightarrow> saw_ready pc \<or> sh_ready s) \<and> (sh_queued s' \<longrightarrow> sh_queued s \<or> saw_ready pc) \<and> (sh_armed s' \<longrightarrow> sh_armed s) \<and>
     (host_pc pc \<longrightarrow> host_pc pc') \<and> (timer_pc pc \<longrightarrow> timer_pc pc') \<and> pc \<noteq> UIdle"

lemmas step_defs = lock_defs stage_def wake_return_def

lemma send_frame_moves: "(pc', s') \<in> set (send_frame_step pc s) \<Longrightarrow> caller_moves pc s pc' s'"
  by (induction pc s rule: send_frame_step.induct) (auto simp: caller_moves_def step_defs split: if_splits)

lemma tx_wakeup_moves: "(pc', s') \<in> set (tx_wakeup_step pc s) \<Longrightarrow> caller_moves pc s pc' s'"
  by (induction pc s rule: tx_wakeup_step.induct) (auto simp: caller_moves_def step_defs split: if_splits)

lemma flush_moves: "(pc', s') \<in> set (flush_step pc s) \<Longrightarrow> caller_moves pc s pc' s' \<and> (flush_pc pc \<longrightarrow> flush_pc pc')"
  by (induction pc s rule: flush_step.induct) (auto simp: caller_moves_def step_defs flush_pc_def split: if_splits option.splits)

lemma receive_moves: "(pc', s') \<in> set (receive_step pc s) \<Longrightarrow> caller_moves pc s pc' s'"
  by (induction pc s rule: receive_step.induct) (auto simp: caller_moves_def step_defs Let_def split: if_splits)

lemma timed_moves: "(pc', s') \<in> set (timed_step pc s) \<Longrightarrow> caller_moves pc s pc' s'"
  by (cases pc) (simp_all add: caller_moves_def stage_def)

lemma caller_moves_use_hu: "caller_moves pc (use_hu s) pc' s' \<Longrightarrow> caller_moves pc s pc' s'"
  by (auto simp: caller_moves_def stage_def)

lemma user_moves:
  assumes "(pc', s') \<in> set (user_step pc s)"
  shows "caller_moves pc s pc' s'"
proof -
  from assms timed_moves send_frame_moves tx_wakeup_moves flush_moves receive_moves have "caller_moves pc (use_hu s) pc' s'"
    by (auto simp: user_step_def Let_def)
  then show ?thesis by (rule caller_moves_use_hu)
qed

text \<open>One step of the worker.\<close>

definition worker_moves :: "kpc \<Rightarrow> shared \<Rightarrow> kpc \<Rightarrow> shared \<Rightarrow> bool" where
  "worker_moves pc s pc' s' \<longleftrightarrow> stage s' = stage s \<and> (sh_bad s' \<longrightarrow> sh_bad s \<or> \<not> sh_hu s \<or> \<not> sh_dev s \<or> \<not> sh_priv s) \<and>
     (sh_block s \<and> worker_holds pc' \<longrightarrow> worker_holds pc) \<and>
     (of_bool (worker_holds pc) \<le> sh_readers s \<longrightarrow>
        sh_readers s' + of_bool (worker_holds pc) = sh_readers s + of_bool (worker_holds pc')) \<and>
     (pc' = KDequeue \<longrightarrow> sh_ready s) \<and> sh_queued s' = sh_queued s \<and> pc \<noteq> KIdle"

lemma worker_moves_step: "(pc', s') \<in> set (worker_step pc s) \<Longrightarrow> worker_moves pc s pc' s'"
  unfolding worker_step_def
  by (cases pc) (auto simp: worker_moves_def worker_holds_def lock_defs stage_def Let_def split: if_splits)

section \<open>Every step keeps the invariant\<close>

lemma filter_update_length:
  "i < length xs \<Longrightarrow> length (filter P (xs[i := v])) + of_bool (P (xs ! i)) = length (filter P xs) + of_bool (P v)"
proof (induction xs arbitrary: i)
  case (Cons x xs)
  then show ?case by (cases i) auto
qed simp

lemma filter_nth_length: "i < length xs \<Longrightarrow> of_bool (P (xs ! i)) \<le> length (filter P xs)"
  using filter_update_length [of i xs P undefined] by (cases "P undefined") (auto simp: Suc_le_eq filter_empty_conv)

lemma lock_count_ge:
  "i < length (cf_users c) \<Longrightarrow> of_bool (holds_lock (cf_users c ! i)) \<le> lock_count c"
  "of_bool (holds_lock (cf_tty c)) \<le> lock_count c" "of_bool (holds_lock (cf_timer c)) \<le> lock_count c"
  "of_bool (worker_holds (cf_worker c)) \<le> lock_count c" "of_bool (holds_lock (closer_pc (cf_closer c))) \<le> lock_count c"
  using filter_nth_length [of i "cf_users c" holds_lock] by (simp_all add: lock_count_def)

text \<open>What the invariant says about the shared state, and what a step has to keep.\<close>

lemma conf_invD:
  assumes "conf_inv c"
  shows "in_stage (phase (cf_closer c)) (cf_sh c)" "\<not> sh_bad (cf_sh c)" "sh_readers (cf_sh c) = lock_count c"
    "phase (cf_closer c) \<in> {5, 6} \<Longrightarrow> sh_readers (cf_sh c) = 0" "relies c \<Longrightarrow> sh_ready (cf_sh c)"
    "1 \<le> phase (cf_closer c) \<Longrightarrow> cf_tty c = UIdle" "8 \<le> phase (cf_closer c) \<Longrightarrow> cf_worker c = KIdle \<and> \<not> sh_queued (cf_sh c)"
    "9 \<le> phase (cf_closer c) \<Longrightarrow> list_all (\<lambda>pc. pc = UIdle) (cf_users c)"
    "12 \<le> phase (cf_closer c) \<Longrightarrow> cf_timer c = UIdle \<and> \<not> sh_armed (cf_sh c)"
    "list_all host_pc (cf_users c)" "timer_pc (cf_timer c)" "flush_pc (closer_pc (cf_closer c))"
  using assms by (auto simp: conf_inv_def Let_def)

text \<open>A caller moves: \<open>pc\<close> is its old place in \<open>c\<close>, and \<open>c'\<close> differs from \<open>c\<close> in its place and the shared state.\<close>

lemma caller_shared:
  assumes inv: "conf_inv c" and m: "caller_moves pc (cf_sh c) pc' s'" and r: "saw_ready pc \<Longrightarrow> relies c"
    and alive: "phase (cf_closer c) \<le> 11" "timer_pc pc \<or> phase (cf_closer c) \<le> 10" and h: "of_bool (holds_lock pc) \<le> lock_count c"
  shows "in_stage (phase (cf_closer c)) s'" "\<not> sh_bad s'" "sh_readers s' + of_bool (holds_lock pc) = lock_count c + of_bool (holds_lock pc')"
    "phase (cf_closer c) \<in> {5, 6} \<Longrightarrow> sh_readers s' = 0" "saw_ready pc' \<Longrightarrow> sh_ready s'" "relies c \<Longrightarrow> sh_ready s'"
    "8 \<le> phase (cf_closer c) \<Longrightarrow> \<not> sh_queued s'"
proof -
  let ?s = "cf_sh c" and ?n = "phase (cf_closer c)"
  note i = conf_invD [OF inv]
  from m have st: "stage s' = stage ?s" and bad: "sh_bad s' \<Longrightarrow> sh_bad ?s \<or> \<not> sh_hu ?s \<or> \<not> sh_priv ?s \<or> \<not> timer_pc pc \<and> \<not> sh_dev ?s"
    and bl: "sh_block ?s \<Longrightarrow> holds_lock pc' \<Longrightarrow> holds_lock pc" and sr: "saw_ready pc' \<Longrightarrow> saw_ready pc \<or> sh_ready ?s"
    and q: "sh_queued s' \<Longrightarrow> sh_queued ?s \<or> saw_ready pc"
    unfolding caller_moves_def by blast+
  from st i(1) show "in_stage ?n s'" by (simp add: in_stage_def)
  have al: "sh_ready ?s \<longleftrightarrow> ?n \<le> 5" "sh_block ?s \<longleftrightarrow> ?n \<in> {4, 5, 6}" "sh_dev ?s \<longleftrightarrow> ?n \<le> 10" "sh_priv ?s \<longleftrightarrow> ?n \<le> 11" "sh_hu ?s \<longleftrightarrow> ?n \<le> 12"
    using i(1) unfolding in_stage_def stage_def by blast+
  have ready: "sh_ready s' = sh_ready ?s" using st by (simp add: stage_def)
  have "sh_hu ?s" "sh_priv ?s" "timer_pc pc \<or> sh_dev ?s" using al alive by simp_all
  with bad i(2) show "\<not> sh_bad s'" by blast
  show c: "sh_readers s' + of_bool (holds_lock pc) = lock_count c + of_bool (holds_lock pc')"
    using m h i(3) by (simp add: caller_moves_def)
  show "sh_readers s' = 0" if "?n \<in> {5, 6}"
  proof -
    have z: "lock_count c = 0" using i(3) i(4) [OF that] by simp
    then have "\<not> holds_lock pc" using h by (cases "holds_lock pc") auto
    with bl al(2) that have "\<not> holds_lock pc'" by blast
    with z c show ?thesis by simp
  qed
  show "saw_ready pc' \<Longrightarrow> sh_ready s'" using sr r i(5) ready by blast
  show "relies c \<Longrightarrow> sh_ready s'" using i(5) ready by blast
  show "\<not> sh_queued s'" if "8 \<le> ?n"
  proof -
    have "\<not> relies c" using i(5) al(1) that by auto
    with q r i(7) [OF that] show ?thesis by blast
  qed
qed

lemma user_inv:
  assumes inv: "conf_inv c" and i: "i < length (cf_users c)" and m: "(pc', s') \<in> set (user_step (cf_users c ! i) (cf_sh c))"
  shows "conf_inv (c\<lparr>cf_sh := s', cf_users := (cf_users c)[i := pc']\<rparr>)" (is "conf_inv ?c")
proof -
  let ?pc = "cf_users c ! i" and ?n = "phase (cf_closer c)"
  note m = user_moves [OF m] and I = conf_invD [OF inv]
  have "?pc \<noteq> UIdle" using m by (simp add: caller_moves_def)
  then have n: "?n \<le> 8" using I(8) i by (cases "9 \<le> ?n") (auto simp: list_all_length)
  have "saw_ready ?pc \<Longrightarrow> relies c" using i by (auto simp: relies_def)
  from caller_shared [OF inv m this _ _ lock_count_ge(1) [OF i]] n
  have S: "in_stage ?n s'" "\<not> sh_bad s'" "sh_readers s' + of_bool (holds_lock ?pc) = lock_count c + of_bool (holds_lock pc')"
    "?n \<in> {5, 6} \<Longrightarrow> sh_readers s' = 0" "saw_ready pc' \<Longrightarrow> sh_ready s'" "relies c \<Longrightarrow> sh_ready s'" "8 \<le> ?n \<Longrightarrow> \<not> sh_queued s'"
    by simp_all
  have "lock_count ?c + of_bool (holds_lock ?pc) = lock_count c + of_bool (holds_lock pc')"
    using filter_update_length [OF i, of holds_lock pc'] by (simp add: lock_count_def)
  moreover have "relies ?c \<Longrightarrow> relies c \<or> saw_ready pc'"
    using set_update_subset_insert [of "cf_users c" i pc'] by (auto simp: relies_def)
  moreover have "host_pc pc'" using m I(10) i by (auto simp: caller_moves_def list_all_length)
  ultimately show ?thesis
    using S I n i by (auto simp: conf_inv_def Let_def list_all_length nth_list_update)
qed

lemma tty_inv:
  assumes inv: "conf_inv c" and m: "(pc', s') \<in> set (user_step (cf_tty c) (cf_sh c))"
  shows "conf_inv (c\<lparr>cf_sh := s', cf_tty := pc'\<rparr>)" (is "conf_inv ?c")
proof -
  let ?pc = "cf_tty c" and ?n = "phase (cf_closer c)"
  note m = user_moves [OF m] and I = conf_invD [OF inv]
  have "?pc \<noteq> UIdle" using m by (simp add: caller_moves_def)
  then have n: "?n = 0" using I(6) by (cases "1 \<le> ?n") auto
  have "saw_ready ?pc \<Longrightarrow> relies c" by (auto simp: relies_def)
  note S = caller_shared [OF inv m this _ _ lock_count_ge(2), unfolded n, simplified]
  have "lock_count ?c + of_bool (holds_lock ?pc) = lock_count c + of_bool (holds_lock pc')" by (simp add: lock_count_def)
  moreover have "relies ?c \<Longrightarrow> relies c \<or> saw_ready pc'" by (auto simp: relies_def)
  ultimately show ?thesis using S I n by (auto simp: conf_inv_def Let_def)
qed

lemma timer_inv:
  assumes inv: "conf_inv c" and m: "(pc', s') \<in> set (user_step (cf_timer c) (cf_sh c))"
  shows "conf_inv (c\<lparr>cf_sh := s', cf_timer := pc'\<rparr>)" (is "conf_inv ?c")
proof -
  let ?pc = "cf_timer c" and ?n = "phase (cf_closer c)"
  note m = user_moves [OF m] and I = conf_invD [OF inv]
  have "?pc \<noteq> UIdle" using m by (simp add: caller_moves_def)
  then have n: "?n \<le> 11" using I(9) by (cases "12 \<le> ?n") auto
  have "saw_ready ?pc \<Longrightarrow> relies c" by (auto simp: relies_def)
  note S = caller_shared [OF inv m this n disjI1 [OF I(11)] lock_count_ge(3)]
  have "lock_count ?c + of_bool (holds_lock ?pc) = lock_count c + of_bool (holds_lock pc')" by (simp add: lock_count_def)
  moreover have "relies ?c \<Longrightarrow> relies c \<or> saw_ready pc'" by (auto simp: relies_def)
  moreover have "timer_pc pc'" using m I(11) by (simp add: caller_moves_def)
  ultimately show ?thesis using S I n by (auto simp: conf_inv_def Let_def)
qed

lemma worker_inv:
  assumes inv: "conf_inv c" and m: "(pc', s') \<in> set (worker_step (cf_worker c) (cf_sh c))"
  shows "conf_inv (c\<lparr>cf_sh := s', cf_worker := pc'\<rparr>)" (is "conf_inv ?c")
proof -
  let ?s = "cf_sh c" and ?pc = "cf_worker c" and ?n = "phase (cf_closer c)"
  note I = conf_invD [OF inv]
  from worker_moves_step [OF m] have st: "stage s' = stage ?s"
    and bad: "sh_bad s' \<Longrightarrow> sh_bad ?s \<or> \<not> sh_hu ?s \<or> \<not> sh_dev ?s \<or> \<not> sh_priv ?s"
    and bl: "sh_block ?s \<Longrightarrow> worker_holds pc' \<Longrightarrow> worker_holds ?pc" and sr: "pc' = KDequeue \<Longrightarrow> sh_ready ?s"
    and cnt: "of_bool (worker_holds ?pc) \<le> sh_readers ?s \<Longrightarrow>
        sh_readers s' + of_bool (worker_holds ?pc) = sh_readers ?s + of_bool (worker_holds pc')" and "?pc \<noteq> KIdle"
    unfolding worker_moves_def by blast+
  then have n: "?n \<le> 7" using I(7) by (cases "8 \<le> ?n") auto
  have al: "sh_block ?s \<longleftrightarrow> ?n \<in> {4, 5, 6}" "sh_dev ?s \<longleftrightarrow> ?n \<le> 10" "sh_priv ?s \<longleftrightarrow> ?n \<le> 11" "sh_hu ?s \<longleftrightarrow> ?n \<le> 12"
    using I(1) unfolding in_stage_def stage_def by blast+
  then have "sh_hu ?s" "sh_priv ?s" "sh_dev ?s" using n by simp_all
  with bad I(2) have "\<not> sh_bad s'" by blast
  moreover have "in_stage ?n s'" "sh_ready s' = sh_ready ?s" using I(1) st by (simp_all add: in_stage_def stage_def)
  moreover have c: "sh_readers s' + of_bool (worker_holds ?pc) = lock_count c + of_bool (worker_holds pc')"
    using cnt lock_count_ge(4) [of c] I(3) by simp
  moreover have "lock_count ?c + of_bool (worker_holds ?pc) = lock_count c + of_bool (worker_holds pc')" by (simp add: lock_count_def)
  moreover have "sh_readers s' = 0" if "?n \<in> {5, 6}"
  proof -
    have z: "lock_count c = 0" using I(3) I(4) [OF that] by simp
    then have "\<not> worker_holds ?pc" using lock_count_ge(4) [of c] by (cases "worker_holds ?pc") auto
    with bl al(1) that have "\<not> worker_holds pc'" by blast
    with z c show ?thesis by simp
  qed
  moreover have "relies ?c \<Longrightarrow> relies c \<or> pc' = KDequeue" by (auto simp: relies_def)
  ultimately show ?thesis using I sr n by (auto simp: conf_inv_def Let_def)
qed

text \<open>The flush of the closing itself.\<close>

lemma closer_flush_inv:
  assumes inv: "conf_inv c" and m: "(pc', s') \<in> set (flush_step (closer_pc (cf_closer c)) (use_hu (cf_sh c)))"
    and c': "phase cl = phase (cf_closer c)" "closer_pc cl = pc'" "phase (cf_closer c) \<le> 9"
  shows "conf_inv (c\<lparr>cf_sh := s', cf_closer := cl\<rparr>)" (is "conf_inv ?c")
proof -
  let ?pc = "closer_pc (cf_closer c)" and ?n = "phase (cf_closer c)"
  note I = conf_invD [OF inv]
  from flush_moves [OF m] have m: "caller_moves ?pc (cf_sh c) pc' s'" and f: "flush_pc pc'"
    using I(12) by (auto intro: caller_moves_use_hu)
  have "saw_ready ?pc \<Longrightarrow> relies c" by (auto simp: relies_def)
  from caller_shared [OF inv m this _ _ lock_count_ge(5)] c'(3)
  have S: "in_stage ?n s'" "\<not> sh_bad s'" "sh_readers s' + of_bool (holds_lock ?pc) = lock_count c + of_bool (holds_lock pc')"
    "?n \<in> {5, 6} \<Longrightarrow> sh_readers s' = 0" "saw_ready pc' \<Longrightarrow> sh_ready s'" "relies c \<Longrightarrow> sh_ready s'" "8 \<le> ?n \<Longrightarrow> \<not> sh_queued s'"
    by simp_all
  have "lock_count ?c + of_bool (holds_lock ?pc) = lock_count c + of_bool (holds_lock pc')" by (simp add: lock_count_def c'(2))
  moreover have "relies ?c \<Longrightarrow> relies c \<or> saw_ready pc'" by (auto simp: relies_def c'(2))
  ultimately show ?thesis using S I f c' by (auto simp: conf_inv_def Let_def)
qed

text \<open>The other steps of the closing change no place of a caller.\<close>

lemma closer_plain_inv:
  assumes inv: "conf_inv c" and pcs: "closer_pc (cf_closer c) = UIdle" "flush_pc (closer_pc cl)" "\<not> holds_lock (closer_pc cl)" "\<not> saw_ready (closer_pc cl)"
    and s': "in_stage (phase cl) s'" "\<not> sh_bad s'" "sh_readers s' = sh_readers (cf_sh c)" "phase cl \<in> {5, 6} \<Longrightarrow> sh_readers s' = 0"
    and r: "relies c \<Longrightarrow> sh_ready s'"
    and k: "1 \<le> phase cl \<Longrightarrow> cf_tty c = UIdle" "8 \<le> phase cl \<Longrightarrow> cf_worker c = KIdle \<and> \<not> sh_queued s'"
      "9 \<le> phase cl \<Longrightarrow> list_all (\<lambda>pc. pc = UIdle) (cf_users c)" "12 \<le> phase cl \<Longrightarrow> cf_timer c = UIdle \<and> \<not> sh_armed s'"
  shows "conf_inv (c\<lparr>cf_sh := s', cf_closer := cl\<rparr>)" (is "conf_inv ?c")
proof -
  note I = conf_invD [OF inv]
  have "lock_count ?c = lock_count c" using pcs by (simp add: lock_count_def)
  moreover have "relies ?c \<Longrightarrow> relies c" using pcs(4) by (auto simp: relies_def)
  ultimately show ?thesis using I pcs s' r k by (auto simp: conf_inv_def Let_def)
qed

lemma saw_ready_holds: "saw_ready pc \<Longrightarrow> holds_lock pc"
  by (cases pc rule: saw_ready.cases) simp_all

lemma relies_locked: "relies c \<Longrightarrow> 0 < lock_count c"
  using saw_ready_holds by (fastforce simp: relies_def lock_count_def worker_holds_def filter_empty_conv)

lemma closer_inv:
  assumes inv: "conf_inv c" and m: "(cl, s') \<in> set (closer_step c)"
  shows "conf_inv (c\<lparr>cf_sh := s', cf_closer := cl\<rparr>)"
proof -
  note I = conf_invD [OF inv]
  let ?s = "cf_sh c"
  have st: "in_stage (phase (cf_closer c)) ?s" by (rule I(1))
  have free: "phase (cf_closer c) = 5 \<Longrightarrow> \<not> relies c" using I(3,4) relies_locked [of c] by auto
  have old: "6 \<le> phase (cf_closer c) \<Longrightarrow> \<not> relies c" using I(5) st by (auto simp: in_stage_def stage_def)
  show ?thesis
  proof (cases "cf_closer c")
    case (CFlush pc)
    show ?thesis
    proof (cases "pc = UIdle")
      case True
      with CFlush m show ?thesis
        using I st by (intro closer_plain_inv [OF inv]) (auto simp: closer_step_def in_stage_def stage_def flush_pc_def)
    next
      case False
      with CFlush m closer_flush_inv [OF inv] show ?thesis by (auto simp: closer_step_def)
    qed
  next
    case (CReclose pc)
    show ?thesis
    proof (cases "pc = UIdle")
      case True
      with CReclose m show ?thesis
        using I st by (intro closer_plain_inv [OF inv]) (auto simp: closer_step_def in_stage_def stage_def flush_pc_def)
    next
      case False
      with CReclose m closer_flush_inv [OF inv] show ?thesis by (auto simp: closer_step_def)
    qed
  next
    case CWait
    with m show ?thesis using I st by (intro closer_plain_inv [OF inv])
      (auto simp: closer_step_def in_stage_def stage_def flush_pc_def lock_defs split: if_splits)
  next
    case CClear
    with m show ?thesis using I st free by (intro closer_plain_inv [OF inv])
      (auto simp: closer_step_def in_stage_def stage_def flush_pc_def)
  next
    case CUnregister
    with m show ?thesis using I st by (intro closer_plain_inv [OF inv])
      (auto simp: closer_step_def in_stage_def stage_def flush_pc_def Let_def split: if_splits)
  next
    case CDone
    with m show ?thesis by (simp add: closer_step_def)
  qed (use m I st old in \<open>intro closer_plain_inv [OF inv];
         auto simp: closer_step_def in_stage_def stage_def flush_pc_def lock_defs split: if_splits\<close>)+
qed

lemma begin_inv:
  assumes inv: "conf_inv c" and m: "c' \<in> set (conf_succ a c)" "begins a"
  shows "conf_inv c'"
proof -
  note I = conf_invD [OF inv]
  have host: "conf_inv (c\<lparr>cf_users := (cf_users c)[i := pc]\<rparr>)" (is "conf_inv ?c")
    if i: "i < length (cf_users c)" "cf_users c ! i = UIdle" "sh_registered (cf_sh c)" and pc: "pc \<in> {USend, UFlush}" for i pc
  proof -
    have n: "phase (cf_closer c) \<le> 8" using I(1) i(3) by (simp add: in_stage_def stage_def)
    have "lock_count ?c = lock_count c"
      using filter_update_length [OF i(1), of holds_lock pc] i(2) pc by (auto simp: lock_count_def)
    moreover have "relies ?c \<Longrightarrow> relies c"
      using set_update_subset_insert [of "cf_users c" i pc] pc by (auto simp: relies_def)
    ultimately show ?thesis using I n pc i(1) by (auto simp: conf_inv_def Let_def list_all_length nth_list_update)
  qed
  have tty: "conf_inv (c\<lparr>cf_tty := pc\<rparr>)" (is "conf_inv ?c")
    if "cf_tty c = UIdle" "cf_closer c = CNone" and pc: "pc \<in> {UReceive, UTtyWakeup}" for pc
  proof -
    have "lock_count ?c = lock_count c" using that by (auto simp: lock_count_def)
    moreover have "relies ?c \<Longrightarrow> relies c" using pc by (auto simp: relies_def)
    ultimately show ?thesis using I that by (auto simp: conf_inv_def Let_def)
  qed
  from m host tty show ?thesis by (cases a) (auto simp: host_begin_def tty_begin_def split: if_splits)
qed

lemma fire_inv:
  assumes inv: "conf_inv c" and m: "c' \<in> set (conf_succ a c)" "a \<in> {TimerFire, WorkStart}"
  shows "conf_inv c'"
proof -
  note I = conf_invD [OF inv]
  show ?thesis
  proof (cases "a = TimerFire")
    case True
    with m have c': "c' = c\<lparr>cf_sh := (cf_sh c)\<lparr>sh_armed := False\<rparr>, cf_timer := UTimed\<rparr>" "sh_armed (cf_sh c)" "cf_timer c = UIdle"
      by (auto split: if_splits)
    then have "lock_count c' = lock_count c" "relies c' \<Longrightarrow> relies c" by (auto simp: lock_count_def relies_def)
    moreover have "phase (cf_closer c) < 12" using I(9) c'(2) by (cases "12 \<le> phase (cf_closer c)") auto
    ultimately show ?thesis using c' I by (auto simp: conf_inv_def Let_def in_stage_def stage_def)
  next
    case False
    with m have c': "c' = c\<lparr>cf_sh := (cf_sh c)\<lparr>sh_queued := False\<rparr>, cf_worker := KRestart\<rparr>" "sh_queued (cf_sh c)" "cf_worker c = KIdle"
      by (auto split: if_splits)
    then have "lock_count c' = lock_count c" "relies c' \<Longrightarrow> relies c" by (auto simp: lock_count_def relies_def worker_holds_def)
    moreover have "phase (cf_closer c) < 8" using I(7) c'(2) by (cases "8 \<le> phase (cf_closer c)") auto
    ultimately show ?thesis using c' I by (auto simp: conf_inv_def Let_def in_stage_def stage_def)
  qed
qed

lemma conf_reach_inv: "conf_reach c \<Longrightarrow> conf_inv c"
proof (induction rule: conf_reach.induct)
  case (attached n)
  show ?case
    by (simp add: attached_line_def conf_inv_def in_stage_def stage_def lock_count_def relies_def worker_holds_def flush_pc_def list_all_iff Let_def)
next
  case (step c c' a)
  show ?case
    using begin_inv [OF step.IH step.hyps(2)] fire_inv [OF step.IH step.hyps(2)] step.hyps(2)
      user_inv [OF step.IH] tty_inv [OF step.IH] timer_inv [OF step.IH] worker_inv [OF step.IH] closer_inv [OF step.IH]
    by (cases a) (auto split: if_splits)
qed

section \<open>Closing ends\<close>

text \<open>A step of somebody who is under way while the line is being closed.\<close>

definition settle :: "conf \<Rightarrow> conf \<Rightarrow> bool" where
  "settle c c' \<longleftrightarrow> cf_closer c \<noteq> CNone \<and> (\<exists>a. \<not> begins a \<and> c' \<in> set (conf_succ a c))"

text \<open>
  What is left to do: every place counts the steps to the end of its function, a pending work, a set \<open>HCI_UART_TX_WAKEUP\<close> and
  a kept packet the steps they cause.
\<close>

fun caller_weight :: "upc \<Rightarrow> nat" where
  "caller_weight (UWakeUnlock _) = 1" | "caller_weight (USchedule _) = 12" | "caller_weight (USetSending _) = 13"
| "caller_weight (USetWakeup _) = 24" | "caller_weight (UWakeTest _) = 25" | "caller_weight (UWake _) = 26" | "caller_weight UTimed = 27"
| "caller_weight USendFail = 1" | "caller_weight USendUnlock = 27" | "caller_weight UEnqueue = 28" | "caller_weight USendTest = 29"
| "caller_weight USend = 30" | "caller_weight UFlushUnlock = 1" | "caller_weight UFlushProto = 2" | "caller_weight UFlushTest = 3"
| "caller_weight UFlushLock = 4" | "caller_weight UFlushNull = 5" | "caller_weight UFlushFree = 6" | "caller_weight UFlush = 7"
| "caller_weight _ = 0"

fun worker_weight :: "kpc \<Rightarrow> shared \<Rightarrow> nat" where
  "worker_weight KIdle s = 0" | "worker_weight KTestWake s = 1" | "worker_weight KDone s = 2"
| "worker_weight KUnlock s = (if sh_cur s = None then 3 else 15)" | "worker_weight KDequeue s = 4"
| "worker_weight KTest s = (if sh_cur s = None then 5 else 16)" | "worker_weight KLock s = (if sh_cur s = None then 6 else 17)"
| "worker_weight KTake s = 8" | "worker_weight KRestart s = 9" | "worker_weight KFree s = 9" | "worker_weight KStore s = 13"
| "worker_weight KWrite s = 14" | "worker_weight KNull s = 15"

definition skb_weight :: "kpc \<Rightarrow> nat option \<Rightarrow> nat" where
  "skb_weight pc p = (if p = None \<or> pc = KNull then 0 else 10)"

definition wake_weight :: "kpc \<Rightarrow> bool \<Rightarrow> nat" where
  "wake_weight pc b = (if b \<and> pc \<noteq> KRestart then 10 else 0)"

definition work_weight :: "bool \<Rightarrow> bool \<Rightarrow> nat" where
  "work_weight q r = (if q then 10 else 0) + (if r then 28 else 0)"

definition shared_weight :: "kpc \<Rightarrow> shared \<Rightarrow> nat" where
  "shared_weight pc s = skb_weight pc (sh_tx_skb s) + wake_weight pc (sh_wakeup s) + work_weight (sh_queued s) (sh_armed s)"

fun closer_weight :: "cpc \<Rightarrow> nat" where
  "closer_weight CNone = 0" | "closer_weight CDone = 0" | "closer_weight CFreeHu = 1" | "closer_weight CProto = 2"
| "closer_weight CFreeDev = 3" | "closer_weight (CReclose pc) = 4 + caller_weight pc" | "closer_weight CUnregister = 12"
| "closer_weight CCancel = 13" | "closer_weight CUnlock = 14" | "closer_weight CClear = 15" | "closer_weight CWait = 16"
| "closer_weight CAnnounce = 17" | "closer_weight CTest = 18" | "closer_weight (CFlush pc) = 19 + caller_weight pc"

definition conf_weight :: "conf \<Rightarrow> nat" where
  "conf_weight c = sum_list (map caller_weight (cf_users c)) + caller_weight (cf_timer c) + worker_weight (cf_worker c) (cf_sh c) +
     shared_weight (cf_worker c) (cf_sh c) + closer_weight (cf_closer c)"

lemma shared_weight_eq [simp]:
  "shared_weight w (use_hu s) = shared_weight w s" "shared_weight w (use_dev s) = shared_weight w s"
  "shared_weight w (use_priv s) = shared_weight w s" "shared_weight w (use_skb p s) = shared_weight w s"
  "shared_weight w (free_skb p s) = shared_weight w s" "shared_weight w (s\<lparr>sh_readers := n\<rparr>) = shared_weight w s"
  "shared_weight w (s\<lparr>sh_sending := b\<rparr>) = shared_weight w s" "shared_weight w (s\<lparr>sh_block := b\<rparr>) = shared_weight w s"
  "shared_weight w (s\<lparr>sh_ready := b\<rparr>) = shared_weight w s" "shared_weight w (s\<lparr>sh_registered := b\<rparr>) = shared_weight w s"
  "shared_weight w (s\<lparr>sh_dev := b\<rparr>) = shared_weight w s" "shared_weight w (s\<lparr>sh_priv := b\<rparr>) = shared_weight w s"
  "shared_weight w (s\<lparr>sh_hu := b\<rparr>) = shared_weight w s"
  by (simp_all add: shared_weight_def)

lemma shared_weight_le:
  "shared_weight w (s\<lparr>sh_wakeup := True\<rparr>) \<le> shared_weight w s + 10" "shared_weight w (s\<lparr>sh_queued := True\<rparr>) \<le> shared_weight w s + 10"
  "shared_weight w (s\<lparr>sh_tx_skb := None\<rparr>) \<le> shared_weight w s" "shared_weight w (s\<lparr>sh_queued := False\<rparr>) \<le> shared_weight w s"
  "shared_weight w (s\<lparr>sh_armed := False\<rparr>) \<le> shared_weight w s"
  by (simp_all add: shared_weight_def skb_weight_def wake_weight_def work_weight_def)

lemma flush_weight:
  "(pc', s') \<in> set (flush_step pc s) \<Longrightarrow> caller_weight pc' < caller_weight pc \<and> shared_weight w s' \<le> shared_weight w s \<and>
     sh_cur s' = sh_cur s \<and> sh_next s' = sh_next s"
  by (induction pc s rule: flush_step.induct) (auto simp: lock_defs shared_weight_le split: if_splits)

lemma tx_wakeup_weight:
  "(pc', s') \<in> set (tx_wakeup_step pc s) \<Longrightarrow> host_pc pc \<Longrightarrow>
     caller_weight pc' + shared_weight w s' < caller_weight pc + shared_weight w s \<and> sh_cur s' = sh_cur s \<and> sh_next s' = sh_next s"
  using shared_weight_le(1,2) [of w s]
  by (induction pc s rule: tx_wakeup_step.induct) (auto simp: lock_defs wake_return_def split: if_splits)

lemma send_frame_weight:
  "(pc', s') \<in> set (send_frame_step pc s) \<Longrightarrow>
     caller_weight pc' + shared_weight w s' < caller_weight pc + shared_weight w s \<and> sh_cur s' = sh_cur s \<and> sh_next s' = sh_next s"
  by (induction pc s rule: send_frame_step.induct) (auto simp: lock_defs split: if_splits)

lemma user_weight:
  assumes "(pc', s') \<in> set (user_step pc s)" "host_pc pc"
  shows "caller_weight pc' + shared_weight w s' < caller_weight pc + shared_weight w s \<and> sh_cur s' = sh_cur s \<and> sh_next s' = sh_next s"
proof -
  have "receive_step pc t = []" for t using assms(2) by (cases pc) simp_all
  moreover have "(pc', s') \<in> set (timed_step pc t) \<Longrightarrow> caller_weight pc' + shared_weight w s' < caller_weight pc + shared_weight w t \<and>
      sh_cur s' = sh_cur t \<and> sh_next s' = sh_next t" for t by (cases pc) simp_all
  note this [of "use_hu s"]
  ultimately show ?thesis
    using assms flush_weight [of pc' s' pc "use_hu s" w] tx_wakeup_weight [of pc' s' pc "use_hu s" w] send_frame_weight [of pc' s' pc "use_hu s" w]
    by (auto simp: user_step_def Let_def split: if_splits)
qed

lemma worker_weight_step:
  assumes "(pc', s') \<in> set (worker_step pc s)"
  shows "sh_next s' = Suc (sh_next s) \<or>
     sh_next s' = sh_next s \<and> worker_weight pc' s' + shared_weight pc' s' < worker_weight pc s + shared_weight pc s"
proof (cases pc)
  case KIdle
  with assms show ?thesis by (simp add: worker_step_def)
next
  case KTake
  with assms show ?thesis
    by (cases "sh_tx_skb s") (auto simp: worker_step_def shared_weight_def skb_weight_def wake_weight_def)
next
  case KTestWake
  with assms show ?thesis
    by (cases "sh_wakeup s") (auto simp: worker_step_def shared_weight_def skb_weight_def wake_weight_def)
next
  case KStore
  with assms show ?thesis by (cases "sh_tx_skb s") (auto simp: worker_step_def shared_weight_def skb_weight_def wake_weight_def)
qed (use assms in \<open>auto simp: worker_step_def shared_weight_def skb_weight_def wake_weight_def lock_defs Let_def split: if_splits\<close>)

lemma closer_weight_step:
  assumes "(cl, s') \<in> set (closer_step c)" "cf_closer c \<noteq> CNone"
  shows "closer_weight cl + shared_weight w s' < closer_weight (cf_closer c) + shared_weight w (cf_sh c) \<and>
    sh_cur s' = sh_cur (cf_sh c) \<and> sh_next s' = sh_next (cf_sh c)"
proof (cases "cf_closer c")
  case (CFlush pc)
  with assms(1) show ?thesis
    using flush_weight [of _ s' pc "use_hu (cf_sh c)" w] by (auto simp: closer_step_def intro!: add_less_le_mono split: if_splits)
next
  case (CReclose pc)
  with assms(1) show ?thesis
    using flush_weight [of _ s' pc "use_hu (cf_sh c)" w] by (auto simp: closer_step_def intro!: add_less_le_mono split: if_splits)
next
  case CCancel
  with assms(1) show ?thesis
    using shared_weight_le(4) [of w "use_hu (cf_sh c)"] by (auto simp: closer_step_def split: if_splits)
next
  case CProto
  with assms(1) show ?thesis
    using shared_weight_le(5) [of w "use_priv (use_hu (cf_sh c))"] by (auto simp: closer_step_def split: if_splits)
qed (use assms in \<open>auto simp: closer_step_def Let_def lock_defs split: if_splits\<close>)

lemma settle_weight:
  assumes inv: "conf_inv c" and "settle c c'"
  shows "sh_next (cf_sh c') = Suc (sh_next (cf_sh c)) \<or> sh_next (cf_sh c') = sh_next (cf_sh c) \<and> conf_weight c' < conf_weight c"
proof -
  note I = conf_invD [OF inv]
  from assms(2) obtain a where a: "\<not> begins a" "c' \<in> set (conf_succ a c)" and cl: "cf_closer c \<noteq> CNone" by (auto simp: settle_def)
  have ww: "worker_weight (cf_worker c) s' = worker_weight (cf_worker c) (cf_sh c)" if "sh_cur s' = sh_cur (cf_sh c)" for s'
    using that by (cases "cf_worker c") simp_all
  show ?thesis
  proof (cases a)
    case (User i)
    with a(2) obtain pc' s' where u: "i < length (cf_users c)" "(pc', s') \<in> set (user_step (cf_users c ! i) (cf_sh c))"
        "c' = c\<lparr>cf_sh := s', cf_users := (cf_users c)[i := pc']\<rparr>"
      by (auto split: if_splits)
    have "caller_weight (cf_users c ! i) \<le> sum_list (map caller_weight (cf_users c))" using u(1) by (intro member_le_sum_list; simp)
    with u user_weight [OF u(2), of "cf_worker c"] I(10) ww [of s'] show ?thesis
      by (auto simp: conf_weight_def list_all_length map_update sum_list_update)
  next
    case Tty
    have "cf_tty c = UIdle" using I(6) cl by (cases "cf_closer c") auto
    with Tty a(2) show ?thesis by (simp add: user_step_def)
  next
    case TimerFire
    with a(2) show ?thesis using ww [of "(cf_sh c)\<lparr>sh_armed := False\<rparr>"]
      by (auto simp: conf_weight_def shared_weight_def work_weight_def split: if_splits)
  next
    case Timer
    have "host_pc (cf_timer c)" using I(11) by (cases "cf_timer c") simp_all
    from Timer a(2) obtain pc' s' where u: "(pc', s') \<in> set (user_step (cf_timer c) (cf_sh c))" "c' = c\<lparr>cf_sh := s', cf_timer := pc'\<rparr>"
      by auto
    from user_weight [OF u(1) \<open>host_pc (cf_timer c)\<close>, of "cf_worker c"] ww [of s'] show ?thesis by (simp add: u(2) conf_weight_def)
  next
    case WorkStart
    with a(2) show ?thesis
      by (auto simp: conf_weight_def shared_weight_def skb_weight_def wake_weight_def work_weight_def split: if_splits)
  next
    case Work
    with a(2) obtain pc' s' where u: "(pc', s') \<in> set (worker_step (cf_worker c) (cf_sh c))" "c' = c\<lparr>cf_sh := s', cf_worker := pc'\<rparr>"
      by auto
    from worker_weight_step [OF u(1)] show ?thesis by (auto simp: u(2) conf_weight_def)
  next
    case Closer
    with a(2) obtain pc' s' where u: "(pc', s') \<in> set (closer_step c)" "c' = c\<lparr>cf_sh := s', cf_closer := pc'\<rparr>" by auto
    from closer_weight_step [OF u(1) cl, of "cf_worker c"] ww [of s'] show ?thesis by (simp add: u(2) conf_weight_def)
  qed (use a(1) in simp_all)
qed

text \<open>Who can go on: everybody who does not have to wait for a writer.\<close>

lemma flush_can: "flush_pc pc \<Longrightarrow> pc \<noteq> UIdle \<Longrightarrow> \<not> sh_block s \<Longrightarrow> flush_step pc s \<noteq> []"
  by (auto simp: flush_pc_def lock_defs)

lemma user_can: "host_pc pc \<Longrightarrow> pc \<noteq> UIdle \<Longrightarrow> \<not> sh_block s \<or> holds_lock pc \<Longrightarrow> user_step pc s \<noteq> []"
  by (cases pc) (auto simp: user_step_def lock_defs Let_def split: prod.splits)

lemma worker_can: "pc \<noteq> KIdle \<Longrightarrow> \<not> sh_block s \<or> worker_holds pc \<Longrightarrow> worker_step pc s \<noteq> []"
  by (cases pc) (auto simp: worker_step_def worker_holds_def lock_defs Let_def)

lemma settleI: "cf_closer c \<noteq> CNone \<Longrightarrow> \<not> begins a \<Longrightarrow> conf_succ a c \<noteq> [] \<Longrightarrow> \<exists>c'. settle c c'"
  by (metis list.set_sel(1) settle_def)

lemma lock_holder:
  assumes inv: "conf_inv c" and cl: "cf_closer c = CWait" and "0 < lock_count c"
  shows "\<exists>c'. settle c c'"
proof -
  note I = conf_invD [OF inv]
  have "cf_tty c = UIdle" using I(6) cl by simp
  with assms(2,3) consider i where "i < length (cf_users c)" "holds_lock (cf_users c ! i)" | "holds_lock (cf_timer c)" | "worker_holds (cf_worker c)"
    by (auto simp: lock_count_def filter_empty_conv in_set_conv_nth split: if_splits)
  then show ?thesis
  proof cases
    case (1 i)
    then have "user_step (cf_users c ! i) (cf_sh c) \<noteq> []" using I(10) by (intro user_can) (auto simp: list_all_length)
    then show ?thesis using 1 cl by (intro settleI [of c "User i"]) simp_all
  next
    case 2
    have "host_pc (cf_timer c)" using I(11) by (cases "cf_timer c") simp_all
    with 2 have "user_step (cf_timer c) (cf_sh c) \<noteq> []" by (intro user_can) auto
    then show ?thesis using cl by (intro settleI [of c Timer]) simp_all
  next
    case 3
    then have "worker_step (cf_worker c) (cf_sh c) \<noteq> []" by (intro worker_can) (auto simp: worker_holds_def)
    then show ?thesis using cl by (intro settleI [of c Work]) simp_all
  qed
qed

lemma close_not_stuck:
  assumes inv: "conf_inv c" and cl: "cf_closer c \<noteq> CNone" "cf_closer c \<noteq> CDone"
  shows "\<exists>c'. settle c c'"
proof -
  note I = conf_invD [OF inv]
  have bl: "sh_block (cf_sh c) \<longleftrightarrow> phase (cf_closer c) \<in> {4, 5, 6}" using I(1) unfolding in_stage_def stage_def by blast
  have closer: "closer_step c \<noteq> [] \<Longrightarrow> ?thesis" using settleI [OF cl(1), of Closer] by simp
  show ?thesis
  proof (cases "cf_closer c")
    case (CFlush pc)
    then show ?thesis using flush_can [of pc "use_hu (cf_sh c)"] I(12) bl by (intro closer) (auto simp: closer_step_def)
  next
    case (CReclose pc)
    then show ?thesis using flush_can [of pc "use_hu (cf_sh c)"] I(12) bl by (intro closer) (auto simp: closer_step_def)
  next
    case CWait
    show ?thesis
    proof (cases "lock_count c = 0")
      case True
      with CWait I(3) show ?thesis by (intro closer) (simp add: closer_step_def lock_defs)
    next
      case False
      with lock_holder [OF inv CWait] show ?thesis by simp
    qed
  next
    case CCancel
    show ?thesis
    proof (cases "cf_worker c = KIdle")
      case False
      then have "worker_step (cf_worker c) (cf_sh c) \<noteq> []" using worker_can bl CCancel by simp
      then show ?thesis using cl(1) by (intro settleI [of c Work]) simp_all
    qed (use CCancel in \<open>intro closer, simp add: closer_step_def\<close>)
  next
    case CUnregister
    show ?thesis
    proof (cases "list_all (\<lambda>pc. pc = UIdle) (cf_users c)")
      case False
      then obtain i where i: "i < length (cf_users c)" "cf_users c ! i \<noteq> UIdle" by (auto simp: list_all_length)
      then have "user_step (cf_users c ! i) (cf_sh c) \<noteq> []" using I(10) bl CUnregister by (intro user_can) (auto simp: list_all_length)
      then show ?thesis using i cl(1) by (intro settleI [of c "User i"]) simp_all
    qed (use CUnregister in \<open>intro closer, simp add: closer_step_def Let_def\<close>)
  next
    case CProto
    show ?thesis
    proof (cases "cf_timer c = UIdle")
      case False
      have "host_pc (cf_timer c)" using I(11) by (cases "cf_timer c") simp_all
      with False have "user_step (cf_timer c) (cf_sh c) \<noteq> []" using bl CProto by (intro user_can) auto
      then show ?thesis using cl(1) by (intro settleI [of c Timer]) simp_all
    qed (use CProto in \<open>intro closer, simp add: closer_step_def\<close>)
  qed (use cl closer in \<open>simp_all add: closer_step_def\<close>)
qed

lemma settle_reach: "conf_reach c \<Longrightarrow> settle c c' \<Longrightarrow> conf_reach c'"
  by (auto simp: settle_def intro: conf_reach.step)

lemma settle_keeps_closing: "settle c c' \<Longrightarrow> cf_closer c' \<noteq> CNone"
proof -
  assume "settle c c'"
  then obtain a where a: "\<not> begins a" "c' \<in> set (conf_succ a c)" and cl: "cf_closer c \<noteq> CNone" by (auto simp: settle_def)
  have "cl \<noteq> CNone" if "(cl, s') \<in> set (closer_step c)" for cl s'
    using that cl by (cases "cf_closer c") (auto simp: closer_step_def Let_def split: if_splits)
  with a cl show ?thesis by (cases a) (auto split: if_splits)
qed

lemma settle_runs:
  assumes "settle\<^sup>*\<^sup>* c c'" "conf_reach c" "cf_closer c \<noteq> CNone"
  shows "conf_reach c' \<and> cf_closer c' \<noteq> CNone"
  using assms by (induction rule: rtranclp_induct) (auto intro: settle_reach dest: settle_keeps_closing)

lemma settle_no_infinite:
  assumes "conf_reach (f 0)" "\<forall>i. settle (f i) (f (Suc i))" "\<forall>i. sh_next (cf_sh (f i)) \<le> N"
  shows False
proof -
  let ?r = "inv_image (less_than <*lex*> less_than) (\<lambda>c. (N - sh_next (cf_sh c), conf_weight c))"
  have reach: "conf_reach (f i)" for i using assms(1,2) by (induction i) (auto intro: settle_reach)
  have "(f (Suc i), f i) \<in> ?r" for i
    using settle_weight [OF conf_reach_inv [OF reach]] assms(2,3) by (fastforce simp: le_Suc_eq dest: spec [of _ i] spec [of _ "Suc i"])
  moreover have "wf ?r" by blast
  ultimately show False by (metis wf_iff_no_infinite_down_chain)
qed

section \<open>Runs\<close>

text \<open>A run given by who moves and which of the possible results occurs.\<close>

fun conf_run :: "(actor \<times> nat) list \<Rightarrow> conf \<Rightarrow> conf option" where
  "conf_run [] c = Some c"
| "conf_run ((a, k) # as) c = (if k < length (conf_succ a c) then conf_run as (conf_succ a c ! k) else None)"

lemma conf_run_reach: "conf_reach c \<Longrightarrow> conf_run as c = Some c' \<Longrightarrow> conf_reach c'"
proof (induction as c rule: conf_run.induct)
  case (2 a k as c)
  then show ?case by (auto intro: conf_reach.step nth_mem split: if_splits)
qed simp

text \<open>The packets as long as nobody flushes: the worker owns the packet it has taken, and \<open>tx_skb\<close> is another one or none.\<close>

fun flushes :: "actor \<Rightarrow> bool" where
  "flushes (HostFlush i) = True" | "flushes Closer = True" | "flushes _ = False"

definition packets :: "shared \<Rightarrow> bool \<times> nat list \<times> nat option \<times> nat option \<times> nat" where
  "packets s = (sh_bad_skb s, sh_freed s, sh_tx_skb s, sh_cur s, sh_next s)"

definition valid_skb :: "nat option \<Rightarrow> shared \<Rightarrow> bool" where
  "valid_skb p s \<longleftrightarrow> (\<forall>i. p = Some i \<longrightarrow> i \<notin> set (sh_freed s) \<and> i < sh_next s)"

definition skb_inv :: "kpc \<Rightarrow> shared \<Rightarrow> bool" where
  "skb_inv pc s \<longleftrightarrow> \<not> sh_bad_skb s \<and> (\<forall>i \<in> set (sh_freed s). i < sh_next s) \<and> valid_skb (sh_tx_skb s) s \<and>
     (pc \<in> {KNull, KLock, KTest, KUnlock, KWrite, KStore, KFree} \<longrightarrow> valid_skb (sh_cur s) s) \<and>
     (pc \<in> {KLock, KTest, KDequeue, KUnlock, KWrite, KStore, KFree} \<longrightarrow> sh_tx_skb s = None)"

definition quiet_inv :: "conf \<Rightarrow> bool" where
  "quiet_inv c \<longleftrightarrow> skb_inv (cf_worker c) (cf_sh c) \<and> list_all (\<lambda>pc. pc = UIdle \<or> \<not> flush_pc pc) (cf_users c) \<and>
     (cf_tty c = UIdle \<or> \<not> flush_pc (cf_tty c)) \<and> (cf_timer c = UIdle \<or> \<not> flush_pc (cf_timer c))"

lemma skb_inv_packets: "packets s' = packets s \<Longrightarrow> skb_inv pc s' = skb_inv pc s"
  by (simp add: packets_def skb_inv_def valid_skb_def)

lemma packets_use [simp]: "packets (use_hu s) = packets s" "packets (use_dev s) = packets s" "packets (use_priv s) = packets s"
  by (simp_all add: packets_def use_hu_def use_dev_def use_priv_def)

lemma user_packets:
  assumes "(pc', s') \<in> set (user_step pc s)" "\<not> flush_pc pc"
  shows "packets s' = packets s \<and> (pc' = UIdle \<or> \<not> flush_pc pc')"
proof -
  have "flush_step pc t = []" for t using assms(2) by (cases pc) (simp_all add: flush_pc_def)
  moreover have "packets s' = packets t \<and> (pc' = UIdle \<or> \<not> flush_pc pc')"
    if "(pc', s') \<in> set (timed_step pc t) \<or> (pc', s') \<in> set (send_frame_step pc t) \<or> (pc', s') \<in> set (tx_wakeup_step pc t) \<or> (pc', s') \<in> set (receive_step pc t)" for t
  proof -
    have p: "packets (t\<lparr>sh_readers := n\<rparr>) = packets t" "packets (t\<lparr>sh_wakeup := b\<rparr>) = packets t" "packets (t\<lparr>sh_sending := b\<rparr>) = packets t"
      "packets (t\<lparr>sh_queued := b\<rparr>) = packets t" "packets (t\<lparr>sh_armed := b\<rparr>) = packets t" for n b t by (simp_all add: packets_def)
    from that show ?thesis by (cases pc) (auto simp: p lock_defs wake_return_def flush_pc_def Let_def split: if_splits)
  qed
  ultimately show ?thesis
    using assms(1) by (auto simp: user_step_def Let_def flush_pc_def split: if_splits)
qed

lemma worker_skb: "(pc', s') \<in> set (worker_step pc s) \<Longrightarrow> skb_inv pc s \<Longrightarrow> skb_inv pc' s'"
  unfolding worker_step_def
  by (cases pc) (auto simp: skb_inv_def valid_skb_def use_hu_def use_dev_def use_priv_def use_skb_def free_skb_def lock_defs Let_def
      intro!: less_SucI split: if_splits option.splits)

lemma quiet_step:
  assumes "quiet_inv c" "c' \<in> set (conf_succ a c)" "\<not> flushes a"
  shows "quiet_inv c'"
proof -
  have q: "skb_inv (cf_worker c) (cf_sh c)" "list_all (\<lambda>pc. pc = UIdle \<or> \<not> flush_pc pc) (cf_users c)"
    "cf_tty c = UIdle \<or> \<not> flush_pc (cf_tty c)" "cf_timer c = UIdle \<or> \<not> flush_pc (cf_timer c)"
    using assms(1) by (simp_all add: quiet_inv_def)
  have idle: "user_step UIdle s = []" for s by (simp add: user_step_def)
  have user: "skb_inv (cf_worker c) s' \<and> (pc' = UIdle \<or> \<not> flush_pc pc')"
    if "(pc', s') \<in> set (user_step pc (cf_sh c))" "pc = UIdle \<or> \<not> flush_pc pc" for pc pc' s'
    using that user_packets [of pc' s' pc "cf_sh c"] skb_inv_packets [of s' "cf_sh c"] q(1) idle by auto
  have upd: "list_all (\<lambda>pc. pc = UIdle \<or> \<not> flush_pc pc) ((cf_users c)[i := pc])" if "pc = UIdle \<or> \<not> flush_pc pc" for i pc
    using that q(2) set_update_subset_insert [of "cf_users c" i pc] by (auto simp: list_all_iff)
  have nf: "\<not> flush_pc USend" "\<not> flush_pc UReceive" "\<not> flush_pc UTtyWakeup" "\<not> flush_pc UTimed" by (simp_all add: flush_pc_def)
  show ?thesis
  proof (cases a)
    case (User i)
    with assms(2) obtain pc' s' where u: "i < length (cf_users c)" "(pc', s') \<in> set (user_step (cf_users c ! i) (cf_sh c))"
        "c' = c\<lparr>cf_sh := s', cf_users := (cf_users c)[i := pc']\<rparr>"
      by (auto split: if_splits)
    from u(1) q(2) have "cf_users c ! i = UIdle \<or> \<not> flush_pc (cf_users c ! i)" by (simp add: list_all_length)
    from user [OF u(2) this] upd [of pc' i] q(3,4) show ?thesis by (simp add: u(3) quiet_inv_def)
  next
    case Work
    with assms(2) q worker_skb show ?thesis by (auto simp: quiet_inv_def)
  next
    case (HostSend i)
    with assms(2) upd [of USend i] q nf(1) show ?thesis by (auto simp: quiet_inv_def host_begin_def split: if_splits)
  next
    case Tty
    with assms(2) obtain pc' s' where u: "(pc', s') \<in> set (user_step (cf_tty c) (cf_sh c))" "c' = c\<lparr>cf_sh := s', cf_tty := pc'\<rparr>" by auto
    from user [OF u(1) q(3)] q(2,4) show ?thesis by (simp add: u(2) quiet_inv_def)
  next
    case Timer
    with assms(2) obtain pc' s' where u: "(pc', s') \<in> set (user_step (cf_timer c) (cf_sh c))" "c' = c\<lparr>cf_sh := s', cf_timer := pc'\<rparr>" by auto
    from user [OF u(1) q(4)] q(2,3) show ?thesis by (simp add: u(2) quiet_inv_def)
  next
    case TimerFire
    with assms(2) q nf(4) skb_inv_packets [of "(cf_sh c)\<lparr>sh_armed := False\<rparr>" "cf_sh c"] show ?thesis
      by (auto simp: quiet_inv_def packets_def split: if_splits)
  next
    case WorkStart
    with assms(2) have c': "c' = c\<lparr>cf_sh := (cf_sh c)\<lparr>sh_queued := False\<rparr>, cf_worker := KRestart\<rparr>" by (auto split: if_splits)
    have "skb_inv KRestart ((cf_sh c)\<lparr>sh_queued := False\<rparr>)" using q(1) by (simp add: skb_inv_def valid_skb_def)
    with q(2-4) show ?thesis by (simp add: c' quiet_inv_def)
  next
    case TtyReceive
    with assms(2) q nf(2) show ?thesis by (auto simp: quiet_inv_def tty_begin_def split: if_splits)
  next
    case TtyWakeup
    with assms(2) q nf(3) show ?thesis by (auto simp: quiet_inv_def tty_begin_def split: if_splits)
  qed (use assms(3) in simp_all)
qed

lemma quiet_run: "conf_run as c = Some c' \<Longrightarrow> list_all (\<lambda>(a, k). \<not> flushes a) as \<Longrightarrow> quiet_inv c \<Longrightarrow> quiet_inv c'"
proof (induction as c rule: conf_run.induct)
  case (2 a k as c)
  then show ?case by (auto intro: quiet_step nth_mem split: if_splits)
qed simp

text \<open>
  A packet is sent, the terminal takes a part of it, and the rest is kept in \<open>tx_skb\<close>. For the next packet the worker starts again and
  reads \<open>tx_skb\<close>; before it clears it, the line is closed, and the flush frees the packet that the worker goes on to write.
\<close>

definition send_run :: "(actor \<times> nat) list" where
  "send_run = (HostSend 0, 0) # replicate 10 (User 0, 0) @ [(WorkStart, 0)]"

definition keep_run :: "(actor \<times> nat) list" where
  "keep_run = send_run @ replicate 4 (Work, 0) @ [(Work, 1)] @ replicate 5 (Work, 0)"

definition race_run :: "(actor \<times> nat) list" where
  "race_run = keep_run @ send_run @ replicate 2 (Work, 0) @ replicate 3 (Closer, 0) @ replicate 2 (Work, 0)"

definition close_run :: "nat \<Rightarrow> (actor \<times> nat) list" where
  "close_run n = keep_run @ replicate n (Closer, 0)"

definition closing_conf :: conf where "closing_conf = the (conf_run (close_run 3) (attached_line 1))"
definition closed_conf :: conf where "closed_conf = the (conf_run (close_run 19) (attached_line 1))"

lemma closing_eval: "map_option cf_closer (conf_run (close_run 3) (attached_line 1)) = Some (CFlush UFlushNull)"
  by code_simp

lemma closed_eval: "map_option cf_closer (conf_run (close_run 19) (attached_line 1)) = Some CDone"
  by code_simp

lemma race_eval: "map_option (\<lambda>c. sh_bad_skb (cf_sh c)) (conf_run race_run (attached_line 1)) = Some True"
  by code_simp

lemma keep_eval: "map_option (\<lambda>c. sh_tx_skb (cf_sh c)) (conf_run keep_run (attached_line 1)) = Some (Some 0)"
  by code_simp

lemma keep_quiet: "list_all (\<lambda>(a, k). \<not> flushes a) keep_run"
  by code_simp

lemma run_conf_reach: "conf_run as (attached_line n) \<noteq> None \<Longrightarrow> conf_reach (the (conf_run as (attached_line n)))"
  using conf_run_reach [OF conf_reach.attached] by auto

lemma closing_conf: "conf_reach closing_conf" "cf_closer closing_conf \<noteq> CNone" "cf_closer closing_conf = CFlush UFlushNull"
  using closing_eval run_conf_reach [of "close_run 3" 1] by (auto simp: closing_conf_def)

lemma closed_conf: "conf_reach closed_conf" "cf_closer closed_conf = CDone"
  using closed_eval run_conf_reach [of "close_run 19" 1] by (auto simp: closed_conf_def)

section \<open>Properties\<close>

text \<open>(C10) Closing a line in use: however the callers of the host stack and of the terminal, the retransmission work, the transmit work
  and the closing interleave, the structure, the device and the protocol are used only while they are allocated; when they are gone, nobody is in
  the driver and no work is pending.\<close>

theorem close_safe:
  assumes "conf_reach c"
  shows "\<not> sh_bad (cf_sh c) \<and>
    (cf_closer c = CDone \<longrightarrow> list_all (\<lambda>pc. pc = UIdle) (cf_users c) \<and> cf_tty c = UIdle \<and> cf_timer c = UIdle \<and> cf_worker c = KIdle \<and>
       \<not> sh_queued (cf_sh c) \<and> \<not> sh_armed (cf_sh c))"
  using conf_invD [OF conf_reach_inv [OF assms]] by auto

theorem close_safe_witness: "\<not> sh_bad (cf_sh closed_conf) \<and> cf_worker closed_conf = KIdle \<and> \<not> sh_queued (cf_sh closed_conf)"
  using close_safe [OF closed_conf(1)] closed_conf(2) by simp

text \<open>(C11) Closing ends: once the closing has begun and no new call does, a run can only be infinite if the protocol gives packets without end, and a
  run that cannot go on has closed the line; so the lock and the waiting for the works cannot block each other.\<close>

theorem close_completes:
  assumes "conf_reach c" "cf_closer c \<noteq> CNone"
  shows "\<not> (\<exists>f N. f 0 = c \<and> (\<forall>i. settle (f i) (f (Suc i)) \<and> sh_next (cf_sh (f i)) \<le> N)) \<and>
    (\<forall>c'. settle\<^sup>*\<^sup>* c c' \<and> \<not> (\<exists>c''. settle c' c'') \<longrightarrow> cf_closer c' = CDone)"
  using settle_no_infinite settle_runs [OF _ assms] close_not_stuck conf_reach_inv assms(1) by blast

theorem close_completes_witness:
  "cf_closer closing_conf = CFlush UFlushNull \<and>
   \<not> (\<exists>f N. f 0 = closing_conf \<and> (\<forall>i. settle (f i) (f (Suc i)) \<and> sh_next (cf_sh (f i)) \<le> N))"
  using close_completes [OF closing_conf(1,2)] closing_conf(3) by simp

text \<open>(C40) Packets: as long as nobody flushes, the worker never uses or frees a freed packet, in any run; but \<open>__hci_uart_flush\<close> frees \<open>tx_skb\<close> without
  a lock, and in a run in which the line is closed between the two accesses of the worker to \<open>tx_skb\<close> the worker writes a freed packet.\<close>

theorem flush_races_worker:
  "(\<forall>as n c. conf_run as (attached_line n) = Some c \<and> list_all (\<lambda>(a, k). \<not> flushes a) as \<longrightarrow> \<not> sh_bad_skb (cf_sh c)) \<and>
   (\<exists>c. conf_run race_run (attached_line 1) = Some c \<and> sh_bad_skb (cf_sh c))"
proof -
  have "quiet_inv (attached_line n)" for n
    by (simp add: attached_line_def quiet_inv_def skb_inv_def valid_skb_def list_all_iff)
  with quiet_run show ?thesis using race_eval by (auto simp: quiet_inv_def skb_inv_def)
qed

theorem flush_races_worker_witness:
  "\<exists>c. conf_run keep_run (attached_line 1) = Some c \<and> sh_tx_skb (cf_sh c) = Some 0 \<and> \<not> sh_bad_skb (cf_sh c)"
  using keep_eval keep_quiet flush_races_worker by blast

end
