(* ===== verification/Kernel_H5_Stream.thy ===== *)
theory Kernel_H5_Stream
  imports Kernel_H5_Safety
begin

text \<open>
  The receiver of the kernel's three-wire protocol on a stream of frames that comes in any pieces:
  it hands up the reliable messages that arrive in sequence and ignores repeated and early ones.
\<close>

section \<open>Pieces\<close>

text \<open>As long as memory is available the receiver keeps it so and consumes every byte.\<close>

lemma kh5_allocs_keep [simp]:
  "k_allocs (kh5_upcall u h5) = k_allocs h5" "k_allocs (h5_pkt_cull h5) = k_allocs h5"
  "k_allocs (kh5_bookkeep d h5) = k_allocs h5" "k_allocs (kh5_pass_up skb h5) = k_allocs h5"
  by (simp_all add: kh5_upcall_def h5_pkt_cull_def kh5_bookkeep_def kh5_pass_up_def Let_def)

lemma kh5_accept_allocs: "kh5_complete_rx_pkt h5 = Inr h5' \<Longrightarrow> k_allocs h5' = k_allocs h5"
  by (auto simp: kh5_complete_rx_pkt_def bind_result_eq_Inr Let_def split: option.splits)

lemma kh5_drop_allocs: "kh5_drop_rx h5 = Inr h5' \<Longrightarrow> k_allocs h5' = k_allocs h5"
  by (auto simp: kh5_drop_rx_def bind_result_eq_Inr)

lemma kh5_hdr_allocs: "kh5_recv_hdr h5 = Inr h5' \<Longrightarrow> k_allocs h5' = k_allocs h5"
  by (auto simp: kh5_recv_hdr_def bind_result_eq_Inr kh5_upcall_def dest!: kh5_drop_allocs split: if_splits)

lemma kh5_data_allocs: "kh5_recv_data h5 = Inr h5' \<Longrightarrow> k_allocs h5' = k_allocs h5"
  by (auto simp: kh5_recv_data_def bind_result_eq_Inr dest: kh5_accept_allocs split: if_splits)

lemma kh5_crc_allocs: "kh5_recv_crc h5 = Inr h5' \<Longrightarrow> k_allocs h5' = k_allocs h5"
  by (auto simp: kh5_recv_crc_def bind_result_eq_Inr dest!: kh5_accept_allocs kh5_drop_allocs split: if_splits)

lemma kh5_unslip_allocs: "kh5_unslip_one_byte h5 b = Inr h5' \<Longrightarrow> k_allocs h5' = k_allocs h5"
  by (auto simp: kh5_unslip_one_byte_def kh5_store_byte_def bind_result_eq_Inr split: h5_rx_esc_state.splits if_splits)

lemma kh5_iter_allocs:
  assumes "kh5_recv_iter h5 b = Inr (act, h5')" "k_allocs h5 = []"
  shows "k_allocs h5' = [] \<and> act \<noteq> KRxReturn"
proof (cases "k_rx_count h5 = 0")
  case True
  with assms show ?thesis
    by (cases "k_rx_state h5")
       (auto simp: kh5_recv_iter_def bind_result_eq_Inr kh5_recv_start_def next_alloc_def Let_def
          dest: kh5_hdr_allocs kh5_data_allocs kh5_crc_allocs split: if_splits)
next
  case False
  with assms show ?thesis
    by (auto simp: kh5_recv_iter_def bind_result_eq_Inr dest: kh5_unslip_allocs split: if_splits)
qed

lemma kh5_recv_append:
  assumes "k_allocs h5 = []"
  shows "kh5_recv h5 (bs @ cs) = bind_result (kh5_recv h5 bs) (\<lambda>h5. kh5_recv h5 cs)"
    and "kh5_recv h5 bs = Inr h5' \<Longrightarrow> k_allocs h5' = []"
proof -
  have "kh5_recv h5 (bs @ cs) = bind_result (kh5_recv h5 bs) (\<lambda>h5. kh5_recv h5 cs) \<and>
      (\<forall>h5'. kh5_recv h5 bs = Inr h5' \<longrightarrow> k_allocs h5' = [])"
    using assms
  proof (induction h5 bs rule: kh5_recv.induct)
    case (2 h5 b bs)
    show ?case
    proof (cases "kh5_recv_iter h5 b")
      case (Inr r)
      obtain act h1 where r: "r = (act, h1)" by (cases r)
      from kh5_iter_allocs [OF _ "2.prems"] Inr r have "k_allocs h1 = []" "act \<noteq> KRxReturn" by auto
      then show ?thesis
        using "2.IH"(1) [OF Inr [unfolded r] refl] "2.IH"(2) [OF Inr [unfolded r] refl]
        by (cases act) (simp_all add: kh5_recv.simps(2) Inr r)
    qed (simp add: kh5_recv.simps(2))
  qed simp
  then show "kh5_recv h5 (bs @ cs) = bind_result (kh5_recv h5 bs) (\<lambda>h5. kh5_recv h5 cs)"
    and "kh5_recv h5 bs = Inr h5' \<Longrightarrow> k_allocs h5' = []" by auto
qed

fun kh5_chunks :: "h5_struct \<Rightarrow> byte list list \<Rightarrow> h5_struct result" where
  "kh5_chunks h5 [] = Inr h5"
| "kh5_chunks h5 (c # cs) = bind_result (kh5_recv h5 c) (\<lambda>h5. kh5_chunks h5 cs)"

lemma kh5_chunks_concat: "k_allocs h5 = [] \<Longrightarrow> kh5_chunks h5 cs = kh5_recv h5 (concat cs)"
proof (induction cs arbitrary: h5)
  case (Cons c cs)
  from Cons.IH kh5_recv_append [OF Cons.prems, of c] show ?case by (cases "kh5_recv h5 c") simp_all
qed simp

section \<open>Frames\<close>

text \<open>What a go-back-N receiver that expects number \<open>n\<close> takes of a sequence of frames.\<close>

fun in_sequence :: "nat \<Rightarrow> apkt list \<Rightarrow> (nat \<times> byte list) list" where
  "in_sequence n [] = []"
| "in_sequence n (p # ps) =
     (if ap_rel p \<and> ap_seq p mod 8 = n mod 8 then (ap_type p, ap_data p) # in_sequence (Suc n) ps else in_sequence n ps)"

lemma kh5_recv_frames:
  assumes "krx_idle h5" "k_allocs h5 = []" "list_all apkt_ok ps" "k_rxseq_txack h5 = seq8 n"
  shows "\<exists>h5'. kh5_recv h5 (concat (map apkt_bytes ps)) = Inr h5' \<and> krx_idle h5' \<and>
    delivered h5' = delivered h5 @ in_sequence n ps"
  using assms
proof (induction ps arbitrary: h5 n)
  case (Cons p ps)
  from Cons.prems(3) have "apkt_ok p" by simp
  from kh5_recv_apkt [OF Cons.prems(1) this] obtain h1 where h1: "kh5_recv h5 (apkt_bytes p) = Inr h1" "krx_idle h1"
      "rx_ignored h5 h1 \<or> rx_accepted h5 p h1"
      "fst (next_alloc (k_allocs h5)) \<Longrightarrow> ap_rel p \<longrightarrow> k_rxseq_txack h5 = seq8 (ap_seq p) \<Longrightarrow> rx_accepted h5 p h1"
    by metis
  note a = kh5_recv_append [OF Cons.prems(2), of "apkt_bytes p"]
  let ?m = "if ap_rel p \<and> ap_seq p mod 8 = n mod 8 then Suc n else n"
  have d: "k_rxseq_txack h1 = seq8 ?m \<and>
      delivered h1 = delivered h5 @ (if ap_rel p \<and> ap_seq p mod 8 = n mod 8 then [(ap_type p, ap_data p)] else [])"
    using h1(3,4) Cons.prems(2,4) by (auto simp: rx_ignored_def rx_accepted_def next_alloc_def seq8_step)
  from Cons.IH [of h1 ?m] h1 a(2) [OF h1(1)] Cons.prems(3) d show ?case by (auto simp: a(1))
qed simp

end
