(* ===== verification/Coex_State.thy ===== *)
theory Coex_State
  imports Prelude
begin

text \<open>
  The state of the coexistence module (\<open>rtk_coex.c\<close>, \<open>rtk_coex.h\<close>): connections with their profiles,
  L2CAP channels, the two pools of buffers, the reassembly of events. \<open>RTB_SOFTWARE_MAILBOX\<close> is not
  defined, so the sockets and the messages to the WiFi driver are not compiled. List entries are
  named by their position; memory from \<open>kmalloc\<close> has arbitrary contents, which come from the
  environment like the success of the allocation.
\<close>

section \<open>Profiles, connections, channels\<close>

datatype profile = profile_sco | profile_hid | profile_a2dp | profile_pan | profile_hid_interval
  | profile_hogp | profile_voice | profile_sink

fun profile_bit :: "profile \<Rightarrow> nat" where
  "profile_bit profile_sco = 0"
| "profile_bit profile_hid = 1"
| "profile_bit profile_a2dp = 2"
| "profile_bit profile_pan = 3"
| "profile_bit profile_hid_interval = 4"
| "profile_bit profile_hogp = 5"
| "profile_bit profile_voice = 6"
| "profile_bit profile_sink = 7"

lemma profile_bit_inj [simp]: "profile_bit k = profile_bit k' \<longleftrightarrow> k = k'"
  by (cases k; cases k') simp_all

lemma profile_bit_less [simp]: "profile_bit k < 16"
  by (cases k) simp_all

text \<open>A channel; \<open>flags\<close> tells the two channels of an A2DP connection apart.\<close>

record rtk_prof_info =
  pi_handle :: u16
  pi_psm :: u16
  pi_dcid :: u16
  pi_scid :: u16
  pi_profile_index :: profile
  pi_flags :: byte

definition A2DP_SIGNAL :: byte where "A2DP_SIGNAL = 0x01"
definition A2DP_MEDIA :: byte where "A2DP_MEDIA = 0x02"

text \<open>A connection; the last three fields tell which of its delayed works are queued.\<close>

record rtk_conn_prof =
  cp_handle :: u16
  cp_a2dp_packet_count :: u32
  cp_pan_packet_count :: u32
  cp_hogp_packet_count :: u32
  cp_voice_packet_count :: u32
  cp_type :: byte
  cp_profile_bitmap :: u16
  cp_profile_status :: u16
  cp_profile_refcount :: "profile \<Rightarrow> byte"
  cp_a2dp_work :: bool
  cp_pan_work :: bool
  cp_hogp_work :: bool

definition is_profile_connected :: "rtk_conn_prof \<Rightarrow> profile \<Rightarrow> bool" where
  "is_profile_connected conn k = bit (cp_profile_bitmap conn) (profile_bit k)"

definition is_profile_busy :: "rtk_conn_prof \<Rightarrow> profile \<Rightarrow> bool" where
  "is_profile_busy conn k = bit (cp_profile_status conn) (profile_bit k)"

section \<open>Buffers\<close>

definition MAX_LEN_OF_HCI_EV :: nat where "MAX_LEN_OF_HCI_EV = 32"
definition NUM_RTL_HCI_EV :: nat where "NUM_RTL_HCI_EV = 32"
definition L2_MAX_SUBSEC_LEN :: nat where "L2_MAX_SUBSEC_LEN = 128"
definition L2_MAX_PKTS :: nat where "L2_MAX_PKTS = 16"
definition HCI_MAX_EVENT_SIZE :: nat where "HCI_MAX_EVENT_SIZE = 260"

lemmas coex_sizes = MAX_LEN_OF_HCI_EV_def NUM_RTL_HCI_EV_def L2_MAX_SUBSEC_LEN_def L2_MAX_PKTS_def HCI_MAX_EVENT_SIZE_def

record rtl_hci_ev =
  ev_data :: "byte list"
  ev_len :: u16

record rtl_l2_buff =
  l2_data :: "byte list"
  l2_len :: u16
  l2_out :: u16

section \<open>The structure\<close>

text \<open>
  \<open>cx_hdev\<close> is the device, if any, with its bit \<open>HCI_UP\<close>; \<open>cx_cmds\<close> are the commands put into its
  queue; \<open>cx_tbuff\<close> is the pointer into \<open>back_buff\<close> as an offset; \<open>cx_mem\<close> are the outcomes of coming
  allocations, \<open>None\<close> for a failure, else the contents of the memory. The variable \<open>profileinfo_cmd\<close> is a field.
\<close>

record rtl_coex_struct =
  cx_conn_hash :: "rtk_conn_prof list"
  cx_profile_list :: "rtk_prof_info list"
  cx_hdev :: "bool option"
  cx_fw_work :: bool
  cx_l2_work :: bool
  cx_profile_bitmap :: u16
  cx_profile_status :: u16
  cx_ispairing :: bool
  cx_isinquirying :: bool
  cx_ispaging :: bool
  cx_hci_reversion :: u16
  cx_lmp_subversion :: u16
  cx_ev_used_list :: "rtl_hci_ev list"
  cx_ev_free_list :: "rtl_hci_ev list"
  cx_pkt_type :: byte
  cx_expect :: u16
  cx_tbuff :: "nat option"
  cx_elen :: u16
  cx_back_buff :: "byte list"
  cx_l2_used_list :: "rtl_l2_buff list"
  cx_l2_free_list :: "rtl_l2_buff list"
  cx_buff_size :: nat
  cx_running :: bool
  cx_profileinfo_cmd :: bool
  cx_cmds :: "byte list list"
  cx_mem :: "u16 option list"

definition next_mem :: "rtl_coex_struct \<Rightarrow> u16 option \<times> rtl_coex_struct" where
  "next_mem c = (if cx_mem c = [] then Some 0 else hd (cx_mem c), c\<lparr>cx_mem := tl (cx_mem c)\<rparr>)"

text \<open>Reading a buffer.\<close>

definition rd :: "byte list \<Rightarrow> nat \<Rightarrow> byte result" where
  "rd d i = (if i < length d then Inr (d ! i) else Inl OutOfBounds)"

definition rd16 :: "byte list \<Rightarrow> nat \<Rightarrow> u16 result" where
  "rd16 d i = bind_result (rd d i) (\<lambda>lo. bind_result (rd d (i + 1)) (\<lambda>hi. Inr (le16_of lo hi)))"

lemma rd_ok [simp]: "i < length d \<Longrightarrow> rd d i = Inr (d ! i)"
  by (simp add: rd_def)

lemma rd16_ok [simp]: "i + 1 < length d \<Longrightarrow> rd16 d i = Inr (le16_of (d ! i) (d ! (i + 1)))"
  by (simp add: rd16_def)

text \<open>The first entry of a list with a property.\<close>

fun first_index :: "('a \<Rightarrow> bool) \<Rightarrow> 'a list \<Rightarrow> nat option" where
  "first_index P [] = None"
| "first_index P (x # xs) = (if P x then Some 0 else map_option Suc (first_index P xs))"

lemma first_index_Some:
  "first_index P xs = Some i \<Longrightarrow> i < length xs \<and> P (xs ! i) \<and> (\<forall>j < i. \<not> P (xs ! j))"
  by (induction xs arbitrary: i) (auto split: if_splits simp: less_Suc_eq_0_disj)

lemma first_index_None: "first_index P xs = None \<longleftrightarrow> (\<forall>x \<in> set xs. \<not> P x)"
  by (induction xs) auto

section \<open>The pools\<close>

definition ev_zero :: rtl_hci_ev where
  "ev_zero = \<lparr>ev_data = replicate MAX_LEN_OF_HCI_EV 0, ev_len = 0\<rparr>"

definition l2_zero :: rtl_l2_buff where
  "l2_zero = \<lparr>l2_data = replicate L2_MAX_SUBSEC_LEN 0, l2_len = 0, l2_out = 0\<rparr>"

text \<open>The sizes of the two arrays on a 64-bit machine; the argument tells whether the pages were obtained.\<close>

definition rtl_alloc_buff :: "bool \<Rightarrow> rtl_coex_struct \<Rightarrow> rtl_coex_struct" where
  "rtl_alloc_buff ok c =
     (let c = c\<lparr>cx_ev_used_list := [], cx_ev_free_list := [], cx_l2_used_list := [], cx_l2_free_list := []\<rparr>;
          ev_size = NUM_RTL_HCI_EV * 56; l2_size = L2_MAX_PKTS * 152
      in if \<not> ok then c
         else c\<lparr>cx_ev_free_list := replicate NUM_RTL_HCI_EV ev_zero, cx_l2_free_list := replicate L2_MAX_PKTS l2_zero,
                cx_buff_size := ev_size + l2_size\<rparr>)"

definition rtl_free_buff :: "rtl_coex_struct \<Rightarrow> rtl_coex_struct" where
  "rtl_free_buff c =
     c\<lparr>cx_ev_used_list := [], cx_ev_free_list := [], cx_l2_used_list := [], cx_l2_free_list := [], cx_buff_size := 0\<rparr>"

definition rtl_ev_node_get :: "rtl_coex_struct \<Rightarrow> rtl_hci_ev option \<times> rtl_coex_struct" where
  "rtl_ev_node_get c =
     (if cx_buff_size c = 0 then (None, c)
      else case cx_ev_free_list c of [] \<Rightarrow> (None, c) | ev # evs \<Rightarrow> (Some ev, c\<lparr>cx_ev_free_list := evs\<rparr>))"

definition rtl_ev_node_to_used :: "rtl_hci_ev \<Rightarrow> rtl_coex_struct \<Rightarrow> rtl_coex_struct" where
  "rtl_ev_node_to_used ev c = c\<lparr>cx_ev_used_list := cx_ev_used_list c @ [ev]\<rparr>"

definition rtl_l2_node_get :: "rtl_coex_struct \<Rightarrow> rtl_l2_buff option \<times> rtl_coex_struct" where
  "rtl_l2_node_get c =
     (if cx_buff_size c = 0 then (None, c)
      else case cx_l2_free_list c of [] \<Rightarrow> (None, c) | l2 # l2s \<Rightarrow> (Some l2, c\<lparr>cx_l2_free_list := l2s\<rparr>))"

definition rtl_l2_node_to_used :: "rtl_l2_buff \<Rightarrow> rtl_coex_struct \<Rightarrow> rtl_coex_struct" where
  "rtl_l2_node_to_used l2 c = c\<lparr>cx_l2_used_list := cx_l2_used_list c @ [l2]\<rparr>"

section \<open>Lists of connections and channels\<close>

definition find_connection_by_handle :: "rtl_coex_struct \<Rightarrow> u16 \<Rightarrow> nat option" where
  "find_connection_by_handle c handle = first_index (\<lambda>desc. handle AND 0xFFF = cp_handle desc) (cx_conn_hash c)"

text \<open>Memory of a connection whose contents is \<open>j\<close> repeated, with the handle set.\<close>

definition allocate_connection_by_handle :: "u16 \<Rightarrow> rtl_coex_struct \<Rightarrow> rtk_conn_prof option \<times> rtl_coex_struct" where
  "allocate_connection_by_handle handle c =
     (case next_mem c of (m, c) \<Rightarrow>
        (map_option (\<lambda>j. \<lparr>cp_handle = handle, cp_a2dp_packet_count = ucast j, cp_pan_packet_count = ucast j,
            cp_hogp_packet_count = ucast j, cp_voice_packet_count = ucast j, cp_type = ucast j, cp_profile_bitmap = j,
            cp_profile_status = j, cp_profile_refcount = (\<lambda>_. ucast j), cp_a2dp_work = False, cp_pan_work = False,
            cp_hogp_work = False\<rparr>) m, c))"

definition add_connection_to_hash :: "rtk_conn_prof \<Rightarrow> rtl_coex_struct \<Rightarrow> rtl_coex_struct" where
  "add_connection_to_hash desc c =
     c\<lparr>cx_conn_hash := cx_conn_hash c @ [desc\<lparr>cp_a2dp_work := False, cp_pan_work := False, cp_hogp_work := False\<rparr>]\<rparr>"

definition delete_connection_from_hash :: "nat \<Rightarrow> rtl_coex_struct \<Rightarrow> rtl_coex_struct" where
  "delete_connection_from_hash i c = c\<lparr>cx_conn_hash := take i (cx_conn_hash c) @ drop (Suc i) (cx_conn_hash c)\<rparr>"

definition flush_connection_hash :: "rtl_coex_struct \<Rightarrow> rtl_coex_struct" where
  "flush_connection_hash c = c\<lparr>cx_conn_hash := []\<rparr>"

definition find_by_psm :: "rtl_coex_struct \<Rightarrow> u16 \<Rightarrow> u16 \<Rightarrow> nat option" where
  "find_by_psm c handle psm =
     first_index (\<lambda>desc. handle AND 0xfff = pi_handle desc AND 0xfff \<and> pi_psm desc = psm) (cx_profile_list c)"

definition PSM_AVDTP :: u16 where "PSM_AVDTP = 0x0019"

definition list_allocate_add :: "u16 \<Rightarrow> u16 \<Rightarrow> profile \<Rightarrow> u16 \<Rightarrow> u16 \<Rightarrow> rtl_coex_struct \<Rightarrow> bool \<times> rtl_coex_struct" where
  "list_allocate_add handle psm profile_index dcid scid c =
     (case next_mem c of (m, c) \<Rightarrow>
        (case m of None \<Rightarrow> (False, c)
         | Some j \<Rightarrow>
             let flags = (if psm = PSM_AVDTP then if find_by_psm c handle psm = None then A2DP_SIGNAL else A2DP_MEDIA else ucast j)
             in (True, c\<lparr>cx_profile_list := cx_profile_list c @
                   [\<lparr>pi_handle = handle, pi_psm = psm, pi_dcid = dcid, pi_scid = scid, pi_profile_index = profile_index,
                     pi_flags = flags\<rparr>]\<rparr>)))"

definition delete_profile_from_hash :: "nat \<Rightarrow> rtl_coex_struct \<Rightarrow> rtl_coex_struct" where
  "delete_profile_from_hash i c = c\<lparr>cx_profile_list := take i (cx_profile_list c) @ drop (Suc i) (cx_profile_list c)\<rparr>"

definition flush_profile_hash :: "rtl_coex_struct \<Rightarrow> rtl_coex_struct" where
  "flush_profile_hash c = c\<lparr>cx_profile_list := []\<rparr>"

definition find_profile_by_handle_scid :: "rtl_coex_struct \<Rightarrow> u16 \<Rightarrow> u16 \<Rightarrow> nat option" where
  "find_profile_by_handle_scid c handle scid =
     first_index (\<lambda>desc. handle AND 0xFFF = pi_handle desc \<and> scid = pi_scid desc) (cx_profile_list c)"

definition find_profile_by_handle_dcid :: "rtl_coex_struct \<Rightarrow> u16 \<Rightarrow> u16 \<Rightarrow> nat option" where
  "find_profile_by_handle_dcid c handle dcid =
     first_index (\<lambda>desc. handle AND 0xFFF = pi_handle desc \<and> dcid = pi_dcid desc) (cx_profile_list c)"

definition find_profile_by_handle_dcid_scid :: "rtl_coex_struct \<Rightarrow> u16 \<Rightarrow> u16 \<Rightarrow> u16 \<Rightarrow> nat option" where
  "find_profile_by_handle_dcid_scid c handle dcid scid =
     first_index (\<lambda>desc. handle AND 0xFFF = pi_handle desc \<and> dcid = pi_dcid desc \<and> scid = pi_scid desc) (cx_profile_list c)"

end
