(* ===== verification/Coex_Profile.thy ===== *)
theory Coex_Profile
  imports Coex_State
begin

text \<open>
  Tracking of the profiles in use and their report to the controller's firmware: the functions of
  \<open>rtk_coex.c\<close> from \<open>psm_to_profile_index\<close> to the packet counting timers.
\<close>

section \<open>Commands to the firmware\<close>

definition HCI_VENDOR_SET_PROFILE_REPORT_LEGACY_COMMAND :: u16 where "HCI_VENDOR_SET_PROFILE_REPORT_LEGACY_COMMAND = 0xfc19"
definition HCI_VENDOR_SET_PROFILE_REPORT_COMMAND :: u16 where "HCI_VENDOR_SET_PROFILE_REPORT_COMMAND = 0xfc1B"
definition HCI_VENDOR_SET_BITPOOL :: u16 where "HCI_VENDOR_SET_BITPOOL = 0xfc51"

definition rtk_vendor_cmd_to_fw :: "u16 \<Rightarrow> byte \<Rightarrow> byte list \<Rightarrow> rtl_coex_struct \<Rightarrow> rtl_coex_struct" where
  "rtk_vendor_cmd_to_fw opcode parameter_len parameter c =
     (case cx_hdev c of None \<Rightarrow> c
      | Some up \<Rightarrow>
          if \<not> up then c
          else case next_mem c of (m, c) \<Rightarrow>
            if m = None then c
            else c\<lparr>cx_cmds := cx_cmds c @ [le16_bytes opcode @ [parameter_len] @ take (unat parameter_len) parameter]\<rparr>)"

text \<open>
  The second loop of \<open>rtk_notify_profileinfo_to_fw\<close>: it writes into a buffer of \<open>cap\<close> bytes and counts the
  handles down; the collected status goes to the legacy command only.
\<close>

fun report_loop :: "bool \<Rightarrow> nat \<Rightarrow> rtk_conn_prof list \<Rightarrow> byte \<Rightarrow> byte list \<Rightarrow> u16 \<Rightarrow> (byte list \<times> u16) result" where
  "report_loop new cap [] handle_number p status = Inr (p, status)"
| "report_loop new cap (hci_conn # conns) handle_number p status =
     (if cp_profile_bitmap hci_conn \<noteq> 0 then
        let e = le16_bytes (cp_handle hci_conn) @
                (if new then le16_bytes (cp_profile_bitmap hci_conn) @ le16_bytes (cp_profile_status hci_conn)
                 else [ucast (cp_profile_bitmap hci_conn)]);
            status = (if new then status else status OR cp_profile_status hci_conn)
        in if length p + length e > cap then Inl OutOfBounds
           else if handle_number - 1 = 0 then Inr (p @ e, status)
           else report_loop new cap conns (handle_number - 1) (p @ e) status
      else if handle_number = 0 then Inr (p, status)
      else report_loop new cap conns handle_number p status)"

definition count_handles :: "rtk_conn_prof list \<Rightarrow> byte" where
  "count_handles conns = word_of_nat (length (filter (\<lambda>conn. cp_profile_bitmap conn \<noteq> 0) conns))"

definition rtk_notify_profileinfo_to_fw :: "rtl_coex_struct \<Rightarrow> rtl_coex_struct result" where
  "rtk_notify_profileinfo_to_fw c =
     (let handle_number = count_handles (cx_conn_hash c);
          new = cx_profileinfo_cmd c;
          buffer_size = (if \<not> new then 1 + unat handle_number * 3 + 1 else 1 + unat handle_number * 6)
      in case next_mem c of (m, c) \<Rightarrow>
        if m = None then Inr c
        else bind_result (report_loop new buffer_size (cx_conn_hash c) handle_number [handle_number] (cx_profile_status c)) (\<lambda>(p, status).
          if \<not> new then
            if length p \<ge> buffer_size then Inl OutOfBounds
            else Inr (rtk_vendor_cmd_to_fw HCI_VENDOR_SET_PROFILE_REPORT_LEGACY_COMMAND (word_of_nat buffer_size)
                        (p @ [ucast status]) (c\<lparr>cx_profile_status := 0\<rparr>))
          else Inr (rtk_vendor_cmd_to_fw HCI_VENDOR_SET_PROFILE_REPORT_COMMAND (word_of_nat buffer_size) p c)))"

section \<open>Connections and their profiles\<close>

definition psm_to_profile_index :: "u16 \<Rightarrow> profile option" where
  "psm_to_profile_index psm =
     (if psm = 0x0017 \<or> psm = 0x0001 then None
      else if psm = 0x0011 \<or> psm = 0x0013 then Some profile_hid
      else if psm = PSM_AVDTP then Some profile_a2dp
      else Some profile_pan)"

definition rtk_check_setup_timer :: "profile \<Rightarrow> rtk_conn_prof \<Rightarrow> rtk_conn_prof" where
  "rtk_check_setup_timer profile_index conn =
     (let conn = (if profile_index = profile_a2dp then conn\<lparr>cp_a2dp_packet_count := 0, cp_a2dp_work := True\<rparr> else conn);
          conn = (if profile_index = profile_pan then conn\<lparr>cp_pan_packet_count := 0, cp_pan_work := True\<rparr> else conn)
      in if (profile_index = profile_hogp \<or> profile_index = profile_voice) \<and>
            cp_profile_refcount conn profile_hogp = 0 \<and> cp_profile_refcount conn profile_voice = 0
         then conn\<lparr>cp_hogp_packet_count := 0, cp_voice_packet_count := 0, cp_hogp_work := True\<rparr> else conn)"

definition rtk_check_del_timer :: "profile \<Rightarrow> rtk_conn_prof \<Rightarrow> rtk_conn_prof" where
  "rtk_check_del_timer profile_index conn =
     (if profile_index = profile_a2dp then conn\<lparr>cp_a2dp_packet_count := 0, cp_a2dp_work := False\<rparr>
      else if profile_index = profile_pan then conn\<lparr>cp_pan_packet_count := 0, cp_pan_work := False\<rparr>
      else if profile_index = profile_hogp then
        let conn = conn\<lparr>cp_hogp_packet_count := 0\<rparr> in
        if cp_profile_refcount conn profile_voice = 0 then conn\<lparr>cp_hogp_work := False\<rparr> else conn
      else if profile_index = profile_voice then
        let conn = conn\<lparr>cp_voice_packet_count := 0\<rparr> in
        if cp_profile_refcount conn profile_hogp = 0 then conn\<lparr>cp_hogp_work := False\<rparr> else conn
      else conn)"

text \<open>Writing through the pointer to the connection at position \<open>i\<close>.\<close>

definition set_conn :: "nat \<Rightarrow> rtk_conn_prof \<Rightarrow> rtl_coex_struct \<Rightarrow> rtl_coex_struct" where
  "set_conn i conn c = c\<lparr>cx_conn_hash := (cx_conn_hash c)[i := conn]\<rparr>"

definition update_profile_state :: "nat \<Rightarrow> profile \<Rightarrow> bool \<Rightarrow> rtl_coex_struct \<Rightarrow> rtl_coex_struct result" where
  "update_profile_state i profile_index is_busy c =
     (let conn = cx_conn_hash c ! i; n = profile_bit profile_index in
      if \<not> is_profile_connected conn profile_index then Inr c
      else if is_busy then
        if \<not> is_profile_busy conn profile_index then
          rtk_notify_profileinfo_to_fw (set_conn i (conn\<lparr>cp_profile_status := set_bit n (cp_profile_status conn)\<rparr>) c)
        else Inr c
      else
        if is_profile_busy conn profile_index then
          rtk_notify_profileinfo_to_fw (set_conn i (conn\<lparr>cp_profile_status := unset_bit n (cp_profile_status conn)\<rparr>) c)
        else Inr c)"

text \<open>What adding and removing one use of a profile does to a connection.\<close>

definition profile_add :: "profile \<Rightarrow> rtk_conn_prof \<Rightarrow> rtk_conn_prof" where
  "profile_add k conn =
     (let n = profile_bit k;
          conn' = (if cp_profile_refcount conn k = 0 then
                     rtk_check_setup_timer k
                       (conn\<lparr>cp_profile_bitmap := set_bit n (cp_profile_bitmap conn),
                             cp_profile_status := (if k = profile_sco then set_bit n (cp_profile_status conn) else cp_profile_status conn)\<rparr>)
                   else conn)
      in conn'\<lparr>cp_profile_refcount := (cp_profile_refcount conn')(k := cp_profile_refcount conn' k + 1)\<rparr>)"

definition profile_del :: "profile \<Rightarrow> rtk_conn_prof \<Rightarrow> rtk_conn_prof" where
  "profile_del k conn =
     (let n = profile_bit k;
          conn = conn\<lparr>cp_profile_refcount := (cp_profile_refcount conn)(k := cp_profile_refcount conn k - 1)\<rparr>
      in if cp_profile_refcount conn k = 0 then
           let conn = rtk_check_del_timer k
                 (conn\<lparr>cp_profile_bitmap := unset_bit n (cp_profile_bitmap conn),
                       cp_profile_status := unset_bit n (cp_profile_status conn)\<rparr>)
           in if k = profile_hid \<and> is_profile_connected conn profile_hid_interval
              then conn\<lparr>cp_profile_bitmap := unset_bit (profile_bit profile_hid_interval) (cp_profile_bitmap conn)\<rparr> else conn
         else conn)"

definition update_profile_connection :: "nat \<Rightarrow> profile \<Rightarrow> bool \<Rightarrow> rtl_coex_struct \<Rightarrow> rtl_coex_struct result" where
  "update_profile_connection i profile_index is_add c =
     (let conn = cx_conn_hash c ! i in
      if is_add then
        let c = set_conn i (profile_add profile_index conn) c in
        if cp_profile_refcount conn profile_index = 0 then rtk_notify_profileinfo_to_fw c else Inr c
      else if cp_profile_refcount conn profile_index = 0 then Inr c
      else
        let c = set_conn i (profile_del profile_index conn) c in
        if cp_profile_refcount conn profile_index - 1 = 0 then rtk_notify_profileinfo_to_fw c else Inr c)"

definition update_hid_active_state :: "u16 \<Rightarrow> u16 \<Rightarrow> rtl_coex_struct \<Rightarrow> rtl_coex_struct result" where
  "update_hid_active_state handle interval c =
     (case find_connection_by_handle c handle of None \<Rightarrow> Inr c
      | Some i \<Rightarrow>
          let conn = cx_conn_hash c ! i; m = profile_bit profile_hid_interval; r = cp_profile_refcount conn profile_hid_interval in
          if \<not> is_profile_connected conn profile_hid then Inr c
          else if interval < 60 then
            if \<not> is_profile_connected conn profile_hid_interval then
              rtk_notify_profileinfo_to_fw (set_conn i
                (conn\<lparr>cp_profile_bitmap := set_bit m (cp_profile_bitmap conn),
                      cp_profile_status := (if r + 1 = 1 then set_bit (profile_bit profile_hid) (cp_profile_status conn) else cp_profile_status conn),
                      cp_profile_refcount := (cp_profile_refcount conn)(profile_hid_interval := r + 1)\<rparr>) c)
            else Inr c
          else
            if is_profile_connected conn profile_hid_interval then
              rtk_notify_profileinfo_to_fw (set_conn i
                (conn\<lparr>cp_profile_bitmap := unset_bit m (cp_profile_bitmap conn),
                      cp_profile_status := (if r - 1 = 0 then unset_bit (profile_bit profile_hid) (cp_profile_status conn) else cp_profile_status conn),
                      cp_profile_refcount := (cp_profile_refcount conn)(profile_hid_interval := r - 1)\<rparr>) c)
            else Inr c)"

section \<open>Channels\<close>

definition handle_l2cap_con_req :: "u16 \<Rightarrow> u16 \<Rightarrow> u16 \<Rightarrow> bool \<Rightarrow> rtl_coex_struct \<Rightarrow> rtl_coex_struct" where
  "handle_l2cap_con_req handle psm scid direction c =
     (case psm_to_profile_index psm of None \<Rightarrow> c
      | Some profile_index \<Rightarrow>
          if (if direction then find_profile_by_handle_scid c handle scid else find_profile_by_handle_dcid c handle scid) \<noteq> None then c
          else if direction then snd (list_allocate_add handle psm profile_index 0 scid c)
          else snd (list_allocate_add handle psm profile_index scid 0 c))"

text \<open>The result code is passed in eight bits.\<close>

definition handle_l2cap_con_rsp :: "u16 \<Rightarrow> u16 \<Rightarrow> u16 \<Rightarrow> bool \<Rightarrow> byte \<Rightarrow> rtl_coex_struct \<Rightarrow> rtl_coex_struct result" where
  "handle_l2cap_con_rsp handle dcid scid direction res c =
     (case (if \<not> direction then find_profile_by_handle_scid c handle scid else find_profile_by_handle_dcid c handle scid) of
        None \<Rightarrow> Inr c
      | Some j \<Rightarrow>
          if res = 0 then
            let prof = cx_profile_list c ! j;
                c = c\<lparr>cx_profile_list := (cx_profile_list c)[j := if \<not> direction then prof\<lparr>pi_dcid := dcid\<rparr> else prof\<lparr>pi_scid := dcid\<rparr>]\<rparr>
            in (case find_connection_by_handle c handle of None \<Rightarrow> Inr c
                | Some i \<Rightarrow> update_profile_connection i (pi_profile_index prof) True c)
          else Inr c)"

definition handle_l2cap_discon_req :: "u16 \<Rightarrow> u16 \<Rightarrow> u16 \<Rightarrow> bool \<Rightarrow> rtl_coex_struct \<Rightarrow> rtl_coex_struct result" where
  "handle_l2cap_discon_req handle dcid scid direction c =
     (case (if \<not> direction then find_profile_by_handle_dcid_scid c handle scid dcid
            else find_profile_by_handle_dcid_scid c handle dcid scid) of
        None \<Rightarrow> Inr c
      | Some j \<Rightarrow>
          (case find_connection_by_handle c handle of None \<Rightarrow> Inr c
           | Some i \<Rightarrow>
               let prof = cx_profile_list c ! j in
               bind_result (update_profile_connection i (pi_profile_index prof) False c) (\<lambda>c.
               bind_result
                 (if pi_profile_index prof = profile_a2dp \<and> is_profile_connected (cx_conn_hash c ! i) profile_sink
                  then update_profile_connection i profile_sink False c else Inr c) (\<lambda>c.
               Inr (delete_profile_from_hash j c)))))"

section \<open>Counting packets\<close>

text \<open>
  What the first media packet of a stream triggers. \<open>user_data\<close> is what the packet has after the L2CAP
  header. The RTP header has 12 bytes and a four-bit count of sources in its first byte; the bit pool is
  the third byte of the SBC header.
\<close>

definition a2dp_sink_start :: "nat \<Rightarrow> rtl_coex_struct \<Rightarrow> rtl_coex_struct result" where
  "a2dp_sink_start i c =
     bind_result
       (if \<not> is_profile_connected (cx_conn_hash c ! i) profile_sink then
          let conn = cx_conn_hash c ! i in
          update_profile_connection i profile_sink True
            (set_conn i (conn\<lparr>cp_profile_bitmap := set_bit (profile_bit profile_sink) (cp_profile_bitmap conn)\<rparr>) c)
        else Inr c) (\<lambda>c.
     update_profile_state i profile_sink True c)"

definition a2dp_bitpool :: "u16 \<Rightarrow> byte list \<Rightarrow> rtl_coex_struct \<Rightarrow> rtl_coex_struct result" where
  "a2dp_bitpool len user_data c =
     (if len > 100 then
        bind_result (rd user_data 0) (\<lambda>b0.
        bind_result (rd user_data (12 + unat (b0 AND 0x0f) * 4 + 1 + 2)) (\<lambda>bitpool.
          Inr (rtk_vendor_cmd_to_fw HCI_VENDOR_SET_BITPOOL 1 [bitpool] c)))
      else Inr c)"

definition a2dp_stream_start :: "nat \<Rightarrow> u16 \<Rightarrow> bool \<Rightarrow> byte list \<Rightarrow> rtl_coex_struct \<Rightarrow> rtl_coex_struct result" where
  "a2dp_stream_start i len direction user_data c =
     bind_result (update_profile_state i profile_a2dp True c) (\<lambda>c.
     bind_result (if \<not> direction then a2dp_sink_start i c else Inr c) (\<lambda>c.
     a2dp_bitpool len user_data c))"

definition packets_count :: "u16 \<Rightarrow> u16 \<Rightarrow> u16 \<Rightarrow> bool \<Rightarrow> byte list \<Rightarrow> rtl_coex_struct \<Rightarrow> rtl_coex_struct result" where
  "packets_count handle scid len direction user_data c =
     (case find_connection_by_handle c handle of None \<Rightarrow> Inr c
      | Some i \<Rightarrow>
          if cp_type (cx_conn_hash c ! i) \<noteq> 0 then Inr c
          else
            (case (if \<not> direction then find_profile_by_handle_scid c handle scid else find_profile_by_handle_dcid c handle scid) of
               None \<Rightarrow> Inr c
             | Some j \<Rightarrow>
                 let prof = cx_profile_list c ! j in
                 bind_result
                   (if pi_profile_index prof = profile_a2dp \<and> pi_flags prof = A2DP_MEDIA then
                      bind_result
                        (if \<not> is_profile_busy (cx_conn_hash c ! i) profile_a2dp
                         then a2dp_stream_start i len direction user_data c else Inr c) (\<lambda>c.
                      let conn = cx_conn_hash c ! i in
                      Inr (set_conn i (conn\<lparr>cp_a2dp_packet_count := cp_a2dp_packet_count conn + 1\<rparr>) c))
                    else Inr c) (\<lambda>c.
                 let conn = cx_conn_hash c ! i in
                 Inr (if pi_profile_index prof = profile_pan
                      then set_conn i (conn\<lparr>cp_pan_packet_count := cp_pan_packet_count conn + 1\<rparr>) c else c))))"

definition PAN_PACKET_COUNT :: u32 where "PAN_PACKET_COUNT = 5"

text \<open>The delayed works of the connection at position \<open>i\<close>; each queues itself again.\<close>

definition count_a2dp_packet_timeout :: "nat \<Rightarrow> rtl_coex_struct \<Rightarrow> rtl_coex_struct result" where
  "count_a2dp_packet_timeout i c =
     bind_result
       (if cp_a2dp_packet_count (cx_conn_hash c ! i) = 0 \<and> is_profile_busy (cx_conn_hash c ! i) profile_a2dp then
          bind_result (update_profile_state i profile_a2dp False c) (\<lambda>c.
            if is_profile_connected (cx_conn_hash c ! i) profile_sink then update_profile_state i profile_sink False c else Inr c)
        else Inr c) (\<lambda>c.
     Inr (set_conn i ((cx_conn_hash c ! i)\<lparr>cp_a2dp_packet_count := 0, cp_a2dp_work := True\<rparr>) c))"

definition count_pan_packet_timeout :: "nat \<Rightarrow> rtl_coex_struct \<Rightarrow> rtl_coex_struct result" where
  "count_pan_packet_timeout i c =
     bind_result
       (if cp_pan_packet_count (cx_conn_hash c ! i) < PAN_PACKET_COUNT then
          if is_profile_busy (cx_conn_hash c ! i) profile_pan then update_profile_state i profile_pan False c else Inr c
        else
          if \<not> is_profile_busy (cx_conn_hash c ! i) profile_pan then update_profile_state i profile_pan True c else Inr c) (\<lambda>c.
     Inr (set_conn i ((cx_conn_hash c ! i)\<lparr>cp_pan_packet_count := 0, cp_pan_work := True\<rparr>) c))"

definition count_hogp_packet_timeout :: "nat \<Rightarrow> rtl_coex_struct \<Rightarrow> rtl_coex_struct result" where
  "count_hogp_packet_timeout i c =
     bind_result
       (if cp_hogp_packet_count (cx_conn_hash c ! i) = 0 \<and> is_profile_busy (cx_conn_hash c ! i) profile_hogp
        then update_profile_state i profile_hogp False c else Inr c) (\<lambda>c.
     bind_result (Inr (set_conn i ((cx_conn_hash c ! i)\<lparr>cp_hogp_packet_count := 0\<rparr>) c)) (\<lambda>c.
     bind_result
       (if cp_voice_packet_count (cx_conn_hash c ! i) = 0 \<and> is_profile_busy (cx_conn_hash c ! i) profile_voice
        then update_profile_state i profile_voice False c else Inr c) (\<lambda>c.
     Inr (set_conn i ((cx_conn_hash c ! i)\<lparr>cp_voice_packet_count := 0, cp_hogp_work := True\<rparr>) c))))"

end
