(* ===== verification/Coex_Event.thy ===== *)
theory Coex_Event
  imports Coex_Profile
begin

text \<open>
  The entry points of the coexistence module: commands and data of the host, events and data of the
  controller, the two works that process what was queued, opening and closing. Event codes and
  command codes are those of the Bluetooth specification, as the kernel's headers define them.
\<close>

section \<open>Codes\<close>

definition HCI_OP_INQUIRY :: u16 where "HCI_OP_INQUIRY = 0x0401"
definition HCI_OP_INQUIRY_CANCEL :: u16 where "HCI_OP_INQUIRY_CANCEL = 0x0402"
definition HCI_OP_PERIODIC_INQ :: u16 where "HCI_OP_PERIODIC_INQ = 0x0403"
definition HCI_OP_EXIT_PERIODIC_INQ :: u16 where "HCI_OP_EXIT_PERIODIC_INQ = 0x0404"
definition HCI_OP_CREATE_CONN :: u16 where "HCI_OP_CREATE_CONN = 0x0405"
definition HCI_OP_ACCEPT_CONN_REQ :: u16 where "HCI_OP_ACCEPT_CONN_REQ = 0x0409"
definition HCI_OP_READ_LOCAL_VERSION :: u16 where "HCI_OP_READ_LOCAL_VERSION = 0x1001"

lemmas op_codes = HCI_OP_INQUIRY_def HCI_OP_INQUIRY_CANCEL_def HCI_OP_PERIODIC_INQ_def HCI_OP_EXIT_PERIODIC_INQ_def
  HCI_OP_CREATE_CONN_def HCI_OP_ACCEPT_CONN_REQ_def HCI_OP_READ_LOCAL_VERSION_def

definition HCI_EV_INQUIRY_COMPLETE :: byte where "HCI_EV_INQUIRY_COMPLETE = 0x01"
definition HCI_EV_CONN_COMPLETE :: byte where "HCI_EV_CONN_COMPLETE = 0x03"
definition HCI_EV_DISCONN_COMPLETE :: byte where "HCI_EV_DISCONN_COMPLETE = 0x05"
definition HCI_EV_AUTH_COMPLETE :: byte where "HCI_EV_AUTH_COMPLETE = 0x06"
definition HCI_EV_CMD_COMPLETE :: byte where "HCI_EV_CMD_COMPLETE = 0x0e"
definition HCI_EV_CMD_STATUS :: byte where "HCI_EV_CMD_STATUS = 0x0f"
definition HCI_EV_MODE_CHANGE :: byte where "HCI_EV_MODE_CHANGE = 0x14"
definition HCI_EV_PIN_CODE_REQ :: byte where "HCI_EV_PIN_CODE_REQ = 0x16"
definition HCI_EV_LINK_KEY_NOTIFY :: byte where "HCI_EV_LINK_KEY_NOTIFY = 0x18"
definition HCI_EV_SYNC_CONN_COMPLETE :: byte where "HCI_EV_SYNC_CONN_COMPLETE = 0x2c"
definition HCI_EV_IO_CAPA_REQUEST :: byte where "HCI_EV_IO_CAPA_REQUEST = 0x31"
definition HCI_EV_LE_META :: byte where "HCI_EV_LE_META = 0x3e"
definition HCI_EV_VENDOR_SPECIFIC :: byte where "HCI_EV_VENDOR_SPECIFIC = 0xff"

lemmas ev_codes = HCI_EV_INQUIRY_COMPLETE_def HCI_EV_CONN_COMPLETE_def HCI_EV_DISCONN_COMPLETE_def HCI_EV_AUTH_COMPLETE_def
  HCI_EV_CMD_COMPLETE_def HCI_EV_CMD_STATUS_def HCI_EV_MODE_CHANGE_def HCI_EV_PIN_CODE_REQ_def HCI_EV_LINK_KEY_NOTIFY_def
  HCI_EV_SYNC_CONN_COMPLETE_def HCI_EV_IO_CAPA_REQUEST_def HCI_EV_LE_META_def HCI_EV_VENDOR_SPECIFIC_def

definition HCI_EV_LE_CONN_COMPLETE :: byte where "HCI_EV_LE_CONN_COMPLETE = 0x01"
definition HCI_EV_LE_CONN_UPDATE_COMPLETE :: byte where "HCI_EV_LE_CONN_UPDATE_COMPLETE = 0x03"
definition HCI_EV_LE_ENHANCED_CONN_COMPLETE :: byte where "HCI_EV_LE_ENHANCED_CONN_COMPLETE = 0x0a"

lemmas le_codes = HCI_EV_LE_CONN_COMPLETE_def HCI_EV_LE_CONN_UPDATE_COMPLETE_def HCI_EV_LE_ENHANCED_CONN_COMPLETE_def

definition L2CAP_CONN_REQ :: byte where "L2CAP_CONN_REQ = 0x02"
definition L2CAP_CONN_RSP :: byte where "L2CAP_CONN_RSP = 0x03"
definition L2CAP_DISCONN_REQ :: byte where "L2CAP_DISCONN_REQ = 0x06"

lemmas l2_codes = L2CAP_CONN_REQ_def L2CAP_CONN_RSP_def L2CAP_DISCONN_REQ_def

section \<open>Commands of the host\<close>

definition rtk_btcoex_parse_cmd :: "byte list \<Rightarrow> rtl_coex_struct \<Rightarrow> rtl_coex_struct result" where
  "rtk_btcoex_parse_cmd buffer c =
     bind_result (rd16 buffer 0) (\<lambda>opcode.
       if \<not> cx_running c then Inr c
       else if opcode = HCI_OP_INQUIRY \<or> opcode = HCI_OP_PERIODIC_INQ then Inr (c\<lparr>cx_isinquirying := True\<rparr>)
       else if opcode = HCI_OP_INQUIRY_CANCEL \<or> opcode = HCI_OP_EXIT_PERIODIC_INQ then Inr (c\<lparr>cx_isinquirying := False\<rparr>)
       else if opcode = HCI_OP_ACCEPT_CONN_REQ then Inr (c\<lparr>cx_ispaging := True\<rparr>)
       else if opcode = 0x0406 then
         bind_result (rd buffer 3) (\<lambda>_. bind_result (rd buffer 4) (\<lambda>_. bind_result (rd buffer 5) (\<lambda>_. Inr c)))
       else Inr c)"

section \<open>Events\<close>

text \<open>The handlers; \<open>d\<close> is the event from its code on, the pointer \<open>p\<close> of the source starts at position 2.\<close>

definition rtk_handle_inquiry_complete :: "rtl_coex_struct \<Rightarrow> rtl_coex_struct" where
  "rtk_handle_inquiry_complete c = (if cx_isinquirying c then c\<lparr>cx_isinquirying := False\<rparr> else c)"

definition rtk_handle_pin_code_req :: "rtl_coex_struct \<Rightarrow> rtl_coex_struct" where
  "rtk_handle_pin_code_req c = (if \<not> cx_ispairing c then c\<lparr>cx_ispairing := True\<rparr> else c)"

definition rtk_handle_io_capa_req :: "rtl_coex_struct \<Rightarrow> rtl_coex_struct" where
  "rtk_handle_io_capa_req c = (if \<not> cx_ispairing c then c\<lparr>cx_ispairing := True\<rparr> else c)"

definition rtk_handle_auth_request :: "rtl_coex_struct \<Rightarrow> rtl_coex_struct" where
  "rtk_handle_auth_request c = (if cx_ispairing c then c\<lparr>cx_ispairing := False\<rparr> else c)"

definition rtk_handle_link_key_notify :: "rtl_coex_struct \<Rightarrow> rtl_coex_struct" where
  "rtk_handle_link_key_notify c = (if cx_ispairing c then c\<lparr>cx_ispairing := False\<rparr> else c)"

definition rtk_handle_mode_change_evt :: "byte list \<Rightarrow> rtl_coex_struct \<Rightarrow> rtl_coex_struct result" where
  "rtk_handle_mode_change_evt d c =
     bind_result (rd16 d 3) (\<lambda>mode_change_handle. bind_result (rd16 d 6) (\<lambda>mode_interval.
       update_hid_active_state mode_change_handle mode_interval c))"

definition rtk_handle_cmd_complete_evt :: "byte list \<Rightarrow> rtl_coex_struct \<Rightarrow> rtl_coex_struct result" where
  "rtk_handle_cmd_complete_evt d c =
     bind_result (rd16 d 3) (\<lambda>opcode.
       if opcode = HCI_OP_PERIODIC_INQ then
         bind_result (rd d 5) (\<lambda>status. Inr (if status \<noteq> 0 \<and> cx_isinquirying c then c\<lparr>cx_isinquirying := False\<rparr> else c))
       else if opcode = HCI_OP_READ_LOCAL_VERSION then
         bind_result (rd d 5) (\<lambda>status.
           if status = 0 then
             bind_result (rd16 d 7) (\<lambda>rev. bind_result (rd16 d 12) (\<lambda>lmp.
               Inr (c\<lparr>cx_hci_reversion := rev, cx_lmp_subversion := lmp\<rparr>)))
           else Inr c)
       else if opcode = HCI_VENDOR_SET_PROFILE_REPORT_COMMAND then
         bind_result (rd d 5) (\<lambda>status. Inr (if status = 0x01 then c else c\<lparr>cx_profileinfo_cmd := True\<rparr>))
       else Inr c)"

definition rtk_handle_cmd_status_evt :: "byte list \<Rightarrow> rtl_coex_struct \<Rightarrow> rtl_coex_struct result" where
  "rtk_handle_cmd_status_evt d c =
     bind_result (rd d 2) (\<lambda>status. bind_result (rd16 d 4) (\<lambda>opcode.
       let c = (if opcode = HCI_OP_INQUIRY \<and> status \<noteq> 0 \<and> cx_isinquirying c then c\<lparr>cx_isinquirying := False\<rparr> else c)
       in Inr (if opcode = HCI_OP_CREATE_CONN \<and> status = 0 \<and> \<not> cx_ispaging c then c\<lparr>cx_ispaging := True\<rparr> else c)))"

text \<open>The two handlers of new connections; the fields set in both branches of the source.\<close>

definition conn_reset :: "byte \<Rightarrow> rtk_conn_prof \<Rightarrow> rtk_conn_prof" where
  "conn_reset t conn = conn\<lparr>cp_type := t, cp_profile_bitmap := 0, cp_profile_refcount := (\<lambda>_. 0)\<rparr>"

definition conn_at :: "u16 \<Rightarrow> rtl_coex_struct \<Rightarrow> nat option \<times> rtl_coex_struct" where
  "conn_at handle c =
     (case find_connection_by_handle c handle of Some i \<Rightarrow> (Some i, c)
      | None \<Rightarrow>
          (case allocate_connection_by_handle handle c of (None, c) \<Rightarrow> (None, c)
           | (Some conn, c) \<Rightarrow> (Some (length (cx_conn_hash c)), add_connection_to_hash conn c)))"

definition rtk_handle_connection_complete_evt :: "byte list \<Rightarrow> rtl_coex_struct \<Rightarrow> rtl_coex_struct result" where
  "rtk_handle_connection_complete_evt d c =
     bind_result (rd d 2) (\<lambda>status. bind_result (rd16 d 3) (\<lambda>handle. bind_result (rd d 11) (\<lambda>link_type.
       if status = 0 then
         (case conn_at handle (if cx_ispaging c then c\<lparr>cx_ispaging := False\<rparr> else c) of
            (None, c) \<Rightarrow> Inr c
          | (Some i, c) \<Rightarrow>
              if link_type = 0 \<or> link_type = 2 then
                update_profile_connection i profile_sco True (set_conn i (conn_reset 1 (cx_conn_hash c ! i)) c)
              else Inr (set_conn i (conn_reset 0 (cx_conn_hash c ! i)) c))
       else Inr (if cx_ispaging c then c\<lparr>cx_ispaging := False\<rparr> else c))))"

definition rtk_handle_le_connection_complete_evt :: "bool \<Rightarrow> byte list \<Rightarrow> rtl_coex_struct \<Rightarrow> rtl_coex_struct result" where
  "rtk_handle_le_connection_complete_evt enhanced d c =
     bind_result (rd d 3) (\<lambda>status. bind_result (rd16 d 4) (\<lambda>handle.
     bind_result (rd16 d (if \<not> enhanced then 14 else 26)) (\<lambda>interval.
       if status = 0 then
         (case conn_at handle (if cx_ispaging c then c\<lparr>cx_ispaging := False\<rparr> else c) of
            (None, c) \<Rightarrow> Inr c
          | (Some i, c) \<Rightarrow>
              bind_result (update_profile_connection i profile_hid True (set_conn i (conn_reset 2 (cx_conn_hash c ! i)) c)) (\<lambda>c.
                update_hid_active_state handle interval c))
       else Inr (if cx_ispaging c then c\<lparr>cx_ispaging := False\<rparr> else c))))"

definition rtk_handle_le_connection_update_complete_evt :: "byte list \<Rightarrow> rtl_coex_struct \<Rightarrow> rtl_coex_struct result" where
  "rtk_handle_le_connection_update_complete_evt d c =
     bind_result (rd16 d 4) (\<lambda>handle. bind_result (rd16 d 6) (\<lambda>interval. update_hid_active_state handle interval c))"

definition rtk_handle_le_meta_evt :: "byte list \<Rightarrow> rtl_coex_struct \<Rightarrow> rtl_coex_struct result" where
  "rtk_handle_le_meta_evt d c =
     bind_result (rd d 2) (\<lambda>sub_event.
       if sub_event = HCI_EV_LE_CONN_COMPLETE then rtk_handle_le_connection_complete_evt False d c
       else if sub_event = HCI_EV_LE_ENHANCED_CONN_COMPLETE then rtk_handle_le_connection_complete_evt True d c
       else if sub_event = HCI_EV_LE_CONN_UPDATE_COMPLETE then rtk_handle_le_connection_update_complete_evt d c
       else Inr c)"

text \<open>\<open>disconn_profile\<close> also tells whether the firmware has to be informed.\<close>

definition disconn_profile :: "profile \<Rightarrow> rtk_conn_prof \<Rightarrow> bool \<times> rtk_conn_prof" where
  "disconn_profile k conn =
     (if cp_profile_refcount conn k = 0 then (False, conn)
      else
        let conn = conn\<lparr>cp_profile_refcount := (cp_profile_refcount conn)(k := cp_profile_refcount conn k - 1)\<rparr> in
        if cp_profile_refcount conn k = 0 then
          (True, rtk_check_del_timer k
                   (conn\<lparr>cp_profile_bitmap := unset_bit (profile_bit k) (cp_profile_bitmap conn),
                         cp_profile_status := unset_bit (profile_bit k) (cp_profile_status conn)\<rparr>))
        else (False, conn))"

text \<open>The loop of \<open>disconn_acl\<close>: the channels that stay, the connection, whether to inform the firmware.\<close>

fun disconn_loop :: "u16 \<Rightarrow> rtk_prof_info list \<Rightarrow> rtk_conn_prof \<Rightarrow> bool \<Rightarrow> rtk_prof_info list \<times> rtk_conn_prof \<times> bool" where
  "disconn_loop handle [] conn need = ([], conn, need)"
| "disconn_loop handle (prof # profs) conn need =
     (if handle = pi_handle prof then
        case disconn_profile (pi_profile_index prof) conn of (n1, conn) \<Rightarrow>
        case (if pi_flags prof AND A2DP_MEDIA \<noteq> 0 \<and> is_profile_connected conn profile_sink
              then disconn_profile profile_sink conn else (False, conn)) of (n2, conn) \<Rightarrow>
          disconn_loop handle profs conn (need \<or> n1 \<or> n2)
      else case disconn_loop handle profs conn need of (kept, conn, need) \<Rightarrow> (prof # kept, conn, need))"

definition disconn_acl :: "u16 \<Rightarrow> nat \<Rightarrow> rtl_coex_struct \<Rightarrow> rtl_coex_struct result" where
  "disconn_acl handle i c =
     (case disconn_loop handle (cx_profile_list c) (cx_conn_hash c ! i) False of (kept, conn, need) \<Rightarrow>
        let c = set_conn i conn (c\<lparr>cx_profile_list := kept\<rparr>)
        in if need then rtk_notify_profileinfo_to_fw c else Inr c)"

definition rtk_handle_disconnect_complete_evt :: "byte list \<Rightarrow> rtl_coex_struct \<Rightarrow> rtl_coex_struct result" where
  "rtk_handle_disconnect_complete_evt d c =
     (let c = (if cx_ispairing c then c\<lparr>cx_ispairing := False\<rparr> else c) in
      bind_result (rd d 2) (\<lambda>status. bind_result (rd16 d 3) (\<lambda>handle. bind_result (rd d 5) (\<lambda>reason.
        if status = 0 then
          (case find_connection_by_handle c handle of None \<Rightarrow> Inr c
           | Some i \<Rightarrow>
               let t = cp_type (cx_conn_hash c ! i) in
               bind_result
                 (if t = 0 then disconn_acl handle i c
                  else if t = 1 then update_profile_connection i profile_sco False c
                  else if t = 2 then update_profile_connection i profile_hid False c
                  else Inr c) (\<lambda>c. Inr (delete_connection_from_hash i c)))
        else Inr c))))"

definition rtk_handle_specific_evt :: "byte list \<Rightarrow> rtl_coex_struct \<Rightarrow> rtl_coex_struct result" where
  "rtk_handle_specific_evt d c = bind_result (rd16 d 2) (\<lambda>subcode. Inr c)"

definition rtk_parse_event_data :: "byte list \<Rightarrow> rtl_coex_struct \<Rightarrow> rtl_coex_struct result" where
  "rtk_parse_event_data d c =
     bind_result (rd d 0) (\<lambda>event_code. bind_result (rd d 1) (\<lambda>total_len.
       if event_code = HCI_EV_INQUIRY_COMPLETE then Inr (rtk_handle_inquiry_complete c)
       else if event_code = HCI_EV_PIN_CODE_REQ then Inr (rtk_handle_pin_code_req c)
       else if event_code = HCI_EV_IO_CAPA_REQUEST then Inr (rtk_handle_io_capa_req c)
       else if event_code = HCI_EV_AUTH_COMPLETE then Inr (rtk_handle_auth_request c)
       else if event_code = HCI_EV_LINK_KEY_NOTIFY then Inr (rtk_handle_link_key_notify c)
       else if event_code = HCI_EV_MODE_CHANGE then rtk_handle_mode_change_evt d c
       else if event_code = HCI_EV_CMD_COMPLETE then rtk_handle_cmd_complete_evt d c
       else if event_code = HCI_EV_CMD_STATUS then rtk_handle_cmd_status_evt d c
       else if event_code = HCI_EV_CONN_COMPLETE \<or> event_code = HCI_EV_SYNC_CONN_COMPLETE then rtk_handle_connection_complete_evt d c
       else if event_code = HCI_EV_DISCONN_COMPLETE then rtk_handle_disconnect_complete_evt d c
       else if event_code = HCI_EV_LE_META then rtk_handle_le_meta_evt d c
       else if event_code = HCI_EV_VENDOR_SPECIFIC then rtk_handle_specific_evt d c
       else Inr c))"

text \<open>The work on the queued events; \<open>None\<close>: the loop does not end.\<close>

partial_function (option) rtl_ev_work :: "rtl_coex_struct \<Rightarrow> rtl_coex_struct result option" where
  "rtl_ev_work c =
     (case cx_ev_used_list c of [] \<Rightarrow> Some (Inr c)
      | ev # evs \<Rightarrow>
          (case rtk_parse_event_data (ev_data ev) (c\<lparr>cx_ev_used_list := evs\<rparr>) of Inl e \<Rightarrow> Some (Inl e)
           | Inr c \<Rightarrow> rtl_ev_work (c\<lparr>cx_ev_free_list := cx_ev_free_list c @ [ev]\<rparr>)))"

declare rtl_ev_work.simps [code]

section \<open>Queueing events\<close>

definition cmd_cmplt_filter_out :: "byte list \<Rightarrow> bool result" where
  "cmd_cmplt_filter_out buf =
     bind_result (rd16 buf 3) (\<lambda>opcode.
       Inr (opcode \<notin> {HCI_OP_PERIODIC_INQ, HCI_OP_READ_LOCAL_VERSION, HCI_VENDOR_SET_PROFILE_REPORT_COMMAND}))"

definition cmd_status_filter_out :: "byte list \<Rightarrow> bool result" where
  "cmd_status_filter_out buf = bind_result (rd16 buf 4) (\<lambda>opcode. Inr (opcode \<notin> {HCI_OP_INQUIRY, HCI_OP_CREATE_CONN}))"

definition ev_filter_out :: "byte list \<Rightarrow> bool result" where
  "ev_filter_out buf =
     bind_result (rd buf 0) (\<lambda>code.
       if code \<in> {HCI_EV_INQUIRY_COMPLETE, HCI_EV_PIN_CODE_REQ, HCI_EV_IO_CAPA_REQUEST, HCI_EV_AUTH_COMPLETE, HCI_EV_LINK_KEY_NOTIFY,
         HCI_EV_MODE_CHANGE, HCI_EV_CONN_COMPLETE, HCI_EV_SYNC_CONN_COMPLETE, HCI_EV_DISCONN_COMPLETE, HCI_EV_VENDOR_SPECIFIC} then Inr False
       else if code = HCI_EV_LE_META then
         bind_result (rd buf 2) (\<lambda>sub.
           Inr (sub \<notin> {HCI_EV_LE_CONN_COMPLETE, HCI_EV_LE_ENHANCED_CONN_COMPLETE, HCI_EV_LE_CONN_UPDATE_COMPLETE}))
       else if code = HCI_EV_CMD_COMPLETE then cmd_cmplt_filter_out buf
       else if code = HCI_EV_CMD_STATUS then cmd_status_filter_out buf
       else Inr True)"

text \<open>A node keeps what it had beyond the copied bytes.\<close>

definition rtk_btcoex_evt_enqueue :: "byte list \<Rightarrow> u16 \<Rightarrow> rtl_coex_struct \<Rightarrow> rtl_coex_struct result" where
  "rtk_btcoex_evt_enqueue s count c =
     bind_result (ev_filter_out s) (\<lambda>out.
       if out then Inr c
       else case rtl_ev_node_get c of (None, c) \<Rightarrow> Inr c
         | (Some ev, c) \<Rightarrow>
             let n = min (unat count) MAX_LEN_OF_HCI_EV in
             if n > length s then Inl OutOfBounds
             else Inr ((rtl_ev_node_to_used \<lparr>ev_data = take n s @ drop n (ev_data ev), ev_len = word_of_nat n\<rparr> c)\<lparr>cx_fw_work := True\<rparr>))"

text \<open>
  One round of the loop of \<open>rtk_btcoex_parse_event\<close>, from the copying of \<open>n\<close> bytes on and as a whole; the
  flag tells whether the loop goes on.
\<close>

definition parse_event_copy ::
  "nat \<Rightarrow> nat \<Rightarrow> byte list \<Rightarrow> rtl_coex_struct \<Rightarrow> (bool \<times> nat option \<times> byte list \<times> rtl_coex_struct) result" where
  "parse_event_copy t n buffer c =
     (if t + n > length (cx_back_buff c) then Inl OutOfBounds
      else
        let c = c\<lparr>cx_expect := cx_expect c - word_of_nat n, cx_elen := cx_elen c + word_of_nat n,
                  cx_back_buff := take t (cx_back_buff c) @ take n buffer @ drop (t + n) (cx_back_buff c)\<rparr>;
            buffer = drop n buffer
        in if cx_elen c = 2 \<and> unat (ucast (cx_back_buff c ! 1) :: u16) > HCI_MAX_EVENT_SIZE - 2
           then Inr (False, None, buffer, c\<lparr>cx_expect := ucast (cx_back_buff c ! 1), cx_elen := 0\<rparr>)
           else
             let c = (if cx_elen c = 2 then c\<lparr>cx_expect := ucast (cx_back_buff c ! 1)\<rparr> else c) in
             if cx_expect c = 0 then
               bind_result (rtk_btcoex_evt_enqueue (cx_back_buff c) (cx_elen c) c) (\<lambda>c.
                 Inr (True, None, buffer, c\<lparr>cx_elen := 0\<rparr>))
             else Inr (True, Some (t + n), buffer, c))"

definition parse_event_iter ::
  "nat option \<Rightarrow> byte list \<Rightarrow> rtl_coex_struct \<Rightarrow> (bool \<times> nat option \<times> byte list \<times> rtl_coex_struct) result" where
  "parse_event_iter tbuff buffer c =
     (case (case tbuff of Some t \<Rightarrow> (t, c)
            | None \<Rightarrow> (0, c\<lparr>cx_pkt_type := 0x04, cx_expect := 2, cx_tbuff := None, cx_elen := 0\<rparr>)) of (t, c) \<Rightarrow>
        parse_event_copy t (min (unat (cx_expect c)) (length buffer)) buffer c)"

partial_function (option) parse_event_loop ::
  "nat option \<Rightarrow> byte list \<Rightarrow> rtl_coex_struct \<Rightarrow> (nat option \<times> rtl_coex_struct) result option" where
  "parse_event_loop tbuff buffer c =
     (if buffer = [] then Some (Inr (tbuff, c))
      else case parse_event_iter tbuff buffer c of Inl e \<Rightarrow> Some (Inl e)
        | Inr (again, tbuff, buffer, c) \<Rightarrow> if again then parse_event_loop tbuff buffer c else Some (Inr (tbuff, c)))"

declare parse_event_loop.simps [code]

definition rtk_btcoex_parse_event :: "byte list \<Rightarrow> rtl_coex_struct \<Rightarrow> rtl_coex_struct result option" where
  "rtk_btcoex_parse_event buffer c =
     (if \<not> cx_running c then Some (Inr c)
      else Option.bind (parse_event_loop (cx_tbuff c) buffer c) (\<lambda>r.
             case r of Inl e \<Rightarrow> Some (Inl e) | Inr (tbuff, c) \<Rightarrow> Some (Inr (c\<lparr>cx_tbuff := tbuff\<rparr>))))"

section \<open>Data\<close>

definition rtl_process_l2_sig :: "rtl_l2_buff \<Rightarrow> rtl_coex_struct \<Rightarrow> rtl_coex_struct result" where
  "rtl_process_l2_sig l2 c =
     (let d = l2_data l2; out = (l2_out l2 \<noteq> 0) in
      bind_result (rd16 d 0) (\<lambda>h. bind_result (rd d 8) (\<lambda>code.
        let handle = h AND 0x0FFF in
        if code = L2CAP_CONN_REQ then
          bind_result (rd16 d 12) (\<lambda>psm. bind_result (rd16 d 14) (\<lambda>scid. Inr (handle_l2cap_con_req handle psm scid out c)))
        else if code = L2CAP_CONN_RSP then
          bind_result (rd16 d 12) (\<lambda>dcid. bind_result (rd16 d 14) (\<lambda>scid. bind_result (rd16 d 16) (\<lambda>res.
            handle_l2cap_con_rsp handle dcid scid out (ucast res) c)))
        else if code = L2CAP_DISCONN_REQ then
          bind_result (rd16 d 12) (\<lambda>dcid. bind_result (rd16 d 14) (\<lambda>scid. handle_l2cap_discon_req handle dcid scid out c))
        else Inr c)))"

definition rtl_l2_data_process :: "byte list \<Rightarrow> bool \<Rightarrow> rtl_coex_struct \<Rightarrow> rtl_coex_struct result" where
  "rtl_l2_data_process pp dir c =
     bind_result (rd16 pp 0) (\<lambda>h. bind_result (rd16 pp 4) (\<lambda>pdu_len. bind_result (rd16 pp 6) (\<lambda>channel_id.
       let flag = drop_bit 12 h; handle = h AND 0x0FFF in
       (case find_connection_by_handle c handle of None \<Rightarrow> Inr c
        | Some i \<Rightarrow>
            if channel_id = 0x0001 then
              bind_result (rd pp 8) (\<lambda>code.
                if code = L2CAP_CONN_REQ \<or> code = L2CAP_CONN_RSP \<or> code = L2CAP_DISCONN_REQ then
                  (case rtl_l2_node_get c of (None, c) \<Rightarrow> Inr c
                   | (Some l2, c) \<Rightarrow>
                       let n = min (length pp mod 2 ^ 16) L2_MAX_SUBSEC_LEN in
                       Inr ((rtl_l2_node_to_used
                               (l2\<lparr>l2_data := take n pp @ drop n (l2_data l2), l2_out := (if dir then 1 else 0)\<rparr>) c)\<lparr>cx_l2_work := True\<rparr>))
                else Inr c)
            else if flag \<noteq> 0x01 \<and>
                    (is_profile_connected (cx_conn_hash c ! i) profile_a2dp \<or> is_profile_connected (cx_conn_hash c ! i) profile_pan)
              then packets_count handle channel_id pdu_len dir (drop 8 pp) c
            else Inr c))))"

partial_function (option) rtl_l2_work :: "rtl_coex_struct \<Rightarrow> rtl_coex_struct result option" where
  "rtl_l2_work c =
     (case cx_l2_used_list c of [] \<Rightarrow> Some (Inr c)
      | l2 # l2s \<Rightarrow>
          (case rtl_process_l2_sig l2 (c\<lparr>cx_l2_used_list := l2s\<rparr>) of Inl e \<Rightarrow> Some (Inl e)
           | Inr c \<Rightarrow> rtl_l2_work (c\<lparr>cx_l2_free_list := cx_l2_free_list c @ [l2]\<rparr>)))"

declare rtl_l2_work.simps [code]

definition rtk_btcoex_parse_l2cap_data_tx :: "byte list \<Rightarrow> rtl_coex_struct \<Rightarrow> rtl_coex_struct result" where
  "rtk_btcoex_parse_l2cap_data_tx buffer c = (if \<not> cx_running c then Inr c else rtl_l2_data_process buffer True c)"

definition rtk_btcoex_parse_l2cap_data_rx :: "byte list \<Rightarrow> rtl_coex_struct \<Rightarrow> rtl_coex_struct result" where
  "rtk_btcoex_parse_l2cap_data_rx buffer c = (if \<not> cx_running c then Inr c else rtl_l2_data_process buffer False c)"

section \<open>Opening and closing\<close>

definition rtl_free_frags :: "rtl_coex_struct \<Rightarrow> rtl_coex_struct" where
  "rtl_free_frags c = c\<lparr>cx_tbuff := None, cx_elen := 0\<rparr>"

definition check_profileinfo_cmd :: "rtl_coex_struct \<Rightarrow> rtl_coex_struct" where
  "check_profileinfo_cmd c = rtk_vendor_cmd_to_fw HCI_VENDOR_SET_PROFILE_REPORT_COMMAND 1 [0] c"

definition rtk_btcoex_open :: "bool \<Rightarrow> rtl_coex_struct \<Rightarrow> rtl_coex_struct" where
  "rtk_btcoex_open up c =
     (if cx_running c then c
      else check_profileinfo_cmd
             (c\<lparr>cx_running := True, cx_fw_work := False, cx_l2_work := False, cx_hdev := Some up, cx_profile_list := [],
                cx_conn_hash := [], cx_pkt_type := 0, cx_expect := 0, cx_elen := 0, cx_tbuff := None\<rparr>))"

definition rtk_btcoex_close :: "rtl_coex_struct \<Rightarrow> rtl_coex_struct" where
  "rtk_btcoex_close c =
     (if \<not> cx_running c then c
      else (rtl_free_frags ((flush_profile_hash (flush_connection_hash
              (c\<lparr>cx_running := False, cx_fw_work := False, cx_l2_work := False\<rparr>)))
              \<lparr>cx_profile_bitmap := 0, cx_profile_status := 0\<rparr>))\<lparr>cx_profileinfo_cmd := False\<rparr>)"

definition rtk_btcoex_probe :: "bool \<Rightarrow> rtl_coex_struct \<Rightarrow> rtl_coex_struct" where
  "rtk_btcoex_probe up c = c\<lparr>cx_hdev := Some up\<rparr>"

definition coex_zero :: "u16 option list \<Rightarrow> rtl_coex_struct" where
  "coex_zero mem =
     \<lparr>cx_conn_hash = [], cx_profile_list = [], cx_hdev = None, cx_fw_work = False, cx_l2_work = False, cx_profile_bitmap = 0,
      cx_profile_status = 0, cx_ispairing = False, cx_isinquirying = False, cx_ispaging = False, cx_hci_reversion = 0,
      cx_lmp_subversion = 0, cx_ev_used_list = [], cx_ev_free_list = [], cx_pkt_type = 0, cx_expect = 0, cx_tbuff = None,
      cx_elen = 0, cx_back_buff = replicate HCI_MAX_EVENT_SIZE 0, cx_l2_used_list = [], cx_l2_free_list = [], cx_buff_size = 0,
      cx_running = False, cx_profileinfo_cmd = False, cx_cmds = [], cx_mem = mem\<rparr>"

definition rtk_btcoex_init :: "bool \<Rightarrow> rtl_coex_struct \<Rightarrow> rtl_coex_struct" where
  "rtk_btcoex_init ok c = rtl_alloc_buff ok c"

definition rtk_btcoex_exit :: "rtl_coex_struct \<Rightarrow> rtl_coex_struct" where
  "rtk_btcoex_exit c = rtl_free_buff c"

end
