(* ===== verification/Coex_Report.thy ===== *)
theory Coex_Report
  imports Coex_Event
begin

text \<open>
  The report of profiles to the firmware, and the operations that track profiles: what they leave
  alone and that none of them faults while fewer than 256 connections exist.
\<close>

section \<open>The report\<close>

definition profiled :: "rtk_conn_prof \<Rightarrow> bool" where
  "profiled conn \<longleftrightarrow> cp_profile_bitmap conn \<noteq> 0"

text \<open>One entry and the whole parameter of the command, as the firmware expects them.\<close>

definition report_entry :: "bool \<Rightarrow> rtk_conn_prof \<Rightarrow> byte list" where
  "report_entry new conn = le16_bytes (cp_handle conn) @
     (if new then le16_bytes (cp_profile_bitmap conn) @ le16_bytes (cp_profile_status conn) else [ucast (cp_profile_bitmap conn)])"

definition report_entries :: "bool \<Rightarrow> rtk_conn_prof list \<Rightarrow> byte list" where
  "report_entries new conns = concat (map (report_entry new) (filter profiled conns))"

definition all_status :: "rtk_conn_prof list \<Rightarrow> u16 \<Rightarrow> u16" where
  "all_status conns status = fold (\<lambda>conn s. s OR cp_profile_status conn) (filter profiled conns) status"

lemma length_report_entry [simp]: "length (report_entry new conn) = (if new then 6 else 3)"
  by (simp add: report_entry_def le16_bytes_def)

lemma length_report_entries: "length (report_entries new conns) = (if new then 6 else 3) * length (filter profiled conns)"
  by (cases new; induction conns) (simp_all add: report_entries_def)

lemma report_nothing: "filter profiled conns = [] \<Longrightarrow> report_entries new conns = [] \<and> all_status conns st = st"
  by (simp add: report_entries_def all_status_def)

lemma word_of_nat_byte_0: "n < 256 \<Longrightarrow> (word_of_nat n :: byte) = 0 \<longleftrightarrow> n = 0"
  by (auto simp: word_of_nat_eq_0_iff dest: nat_dvd_not_less)

lemma report_loop_eq:
  assumes "length (filter profiled conns) < 256" "length p + length (report_entries new conns) \<le> cap"
  shows "report_loop new cap conns (word_of_nat (length (filter profiled conns))) p status =
    Inr (p @ report_entries new conns, if new then status else all_status conns status)"
  using assms
proof (induction conns arbitrary: p status)
  case (Cons conn conns)
  show ?case
  proof (cases "profiled conn")
    case True
    let ?n = "length (filter profiled conns)"
    let ?status = "if new then status else status OR cp_profile_status conn"
    have n: "?n < 256" "(word_of_nat (Suc ?n) :: byte) - 1 = word_of_nat ?n" using Cons.prems(1) True by simp_all
    have e: "report_entries new (conn # conns) = report_entry new conn @ report_entries new conns"
      using True by (simp add: report_entries_def)
    have s: "all_status (conn # conns) status = all_status conns (status OR cp_profile_status conn)"
      using True by (simp add: all_status_def)
    have room: "length p + length (report_entry new conn) \<le> cap" using Cons.prems(2) by (simp only: e length_append)
    have step: "report_loop new cap (conn # conns) (word_of_nat (Suc ?n)) p status =
        (if ?n = 0 then Inr (p @ report_entry new conn, ?status)
         else report_loop new cap conns (word_of_nat ?n) (p @ report_entry new conn) ?status)"
      using True room n(2) word_of_nat_byte_0 [OF n(1)]
      by (simp only: report_loop.simps profiled_def if_True Let_def n(2) flip: report_entry_def not_le)
         (simp add: not_less)
    show ?thesis
    proof (cases "?n = 0")
      case True
      with \<open>profiled conn\<close> step e s report_nothing [of conns] show ?thesis by simp
    next
      case False
      with \<open>profiled conn\<close> step e s n(1) Cons.IH [of "p @ report_entry new conn" ?status] Cons.prems(2) show ?thesis by simp
    qed
  next
    case False
    then have e: "report_entries new (conn # conns) = report_entries new conns" "all_status (conn # conns) status = all_status conns status"
      by (simp_all add: report_entries_def all_status_def)
    have z: "cp_profile_bitmap conn = 0" using False by (simp add: profiled_def)
    from False Cons.prems Cons.IH [of p status] word_of_nat_byte_0 [of "length (filter profiled conns)"] report_nothing [of conns]
    show ?thesis by (auto simp: e z)
  qed
qed (simp add: report_entries_def all_status_def)

text \<open>The state in which the report is sent, and the command.\<close>

definition report_bytes :: "rtl_coex_struct \<Rightarrow> byte list" where
  "report_bytes c =
     count_handles (cx_conn_hash c) # report_entries (cx_profileinfo_cmd c) (cx_conn_hash c) @
     (if cx_profileinfo_cmd c then [] else [ucast (all_status (cx_conn_hash c) (cx_profile_status c))])"

definition report_opcode :: "rtl_coex_struct \<Rightarrow> u16" where
  "report_opcode c =
     (if cx_profileinfo_cmd c then HCI_VENDOR_SET_PROFILE_REPORT_COMMAND else HCI_VENDOR_SET_PROFILE_REPORT_LEGACY_COMMAND)"

definition few_conns :: "nat \<Rightarrow> rtl_coex_struct \<Rightarrow> bool" where
  "few_conns n c \<longleftrightarrow> length (cx_conn_hash c) + n < 256"

lemma count_handles_profiled: "count_handles conns = word_of_nat (length (filter profiled conns))"
  by (simp add: count_handles_def profiled_def [abs_def])

lemma few_profiled: "few_conns n c \<Longrightarrow> length (filter profiled (cx_conn_hash c)) < 256"
  by (rule le_less_trans [OF length_filter_le]) (simp add: few_conns_def)

lemma unat_word_of_nat_byte: "n < 256 \<Longrightarrow> unat (word_of_nat n :: byte) = n"
  by (simp add: unsigned_of_nat take_bit_nat_eq_self)

lemma notify_eq:
  assumes "length (filter profiled (cx_conn_hash c)) < 256"
  shows "rtk_notify_profileinfo_to_fw c =
    Inr (case next_mem c of (m, c1) \<Rightarrow>
           if m = None then c1
           else rtk_vendor_cmd_to_fw (report_opcode c) (word_of_nat (length (report_bytes c))) (report_bytes c)
                  (if cx_profileinfo_cmd c then c1 else c1\<lparr>cx_profile_status := 0\<rparr>))"
proof -
  let ?conns = "cx_conn_hash c" and ?new = "cx_profileinfo_cmd c"
  let ?n = "length (filter profiled ?conns)" and ?cap = "if ?new then 1 + length (filter profiled (cx_conn_hash c)) * 6 else 2 + length (filter profiled (cx_conn_hash c)) * 3"
  obtain m c1 where m: "next_mem c = (m, c1)" by force
  then have c1: "cx_conn_hash c1 = ?conns" "cx_profile_status c1 = cx_profile_status c" "cx_profileinfo_cmd c1 = ?new"
    by (auto simp: next_mem_def)
  have l: "report_loop ?new ?cap ?conns (word_of_nat ?n) [word_of_nat ?n] (cx_profile_status c) =
      Inr ([word_of_nat ?n] @ report_entries ?new ?conns, if ?new then cx_profile_status c else all_status ?conns (cx_profile_status c))"
    by (rule report_loop_eq [OF assms]) (simp add: length_report_entries)
  have len: "length (report_bytes c) = ?cap" by (simp add: report_bytes_def length_report_entries)
  show ?thesis
    using l len
    by (cases ?new) (simp_all add: rtk_notify_profileinfo_to_fw_def count_handles_profiled unat_word_of_nat_byte [OF assms] m c1
        report_bytes_def report_opcode_def length_report_entries mult.commute Let_def)
qed

section \<open>What tracking leaves alone\<close>

text \<open>The buffers, the reassembly and the device.\<close>

definition io_part :: "rtl_coex_struct \<Rightarrow> _" where
  "io_part c = ((cx_ev_used_list c, cx_ev_free_list c, cx_l2_used_list c, cx_l2_free_list c, cx_buff_size c),
     (cx_pkt_type c, cx_expect c, cx_tbuff c, cx_elen c, cx_back_buff c), (cx_running c, cx_hdev c, cx_fw_work c, cx_l2_work c))"

lemma io_part_tracked [simp]:
  "io_part (c\<lparr>cx_conn_hash := a\<rparr>) = io_part c" "io_part (c\<lparr>cx_profile_list := b\<rparr>) = io_part c"
  "io_part (c\<lparr>cx_profile_bitmap := d\<rparr>) = io_part c" "io_part (c\<lparr>cx_profile_status := d\<rparr>) = io_part c"
  "io_part (c\<lparr>cx_ispairing := e\<rparr>) = io_part c" "io_part (c\<lparr>cx_isinquirying := e\<rparr>) = io_part c" "io_part (c\<lparr>cx_ispaging := e\<rparr>) = io_part c"
  "io_part (c\<lparr>cx_hci_reversion := d\<rparr>) = io_part c" "io_part (c\<lparr>cx_lmp_subversion := d\<rparr>) = io_part c"
  "io_part (c\<lparr>cx_profileinfo_cmd := e\<rparr>) = io_part c" "io_part (c\<lparr>cx_cmds := f\<rparr>) = io_part c" "io_part (c\<lparr>cx_mem := g\<rparr>) = io_part c"
  by (simp_all add: io_part_def)

lemma io_partD:
  assumes "io_part c' = io_part c"
  shows "cx_ev_used_list c' = cx_ev_used_list c" "cx_ev_free_list c' = cx_ev_free_list c"
    "cx_l2_used_list c' = cx_l2_used_list c" "cx_l2_free_list c' = cx_l2_free_list c" "cx_buff_size c' = cx_buff_size c"
    "cx_expect c' = cx_expect c" "cx_tbuff c' = cx_tbuff c" "cx_elen c' = cx_elen c" "cx_back_buff c' = cx_back_buff c"
    "cx_running c' = cx_running c" "cx_hdev c' = cx_hdev c"
  using assms by (simp_all add: io_part_def)

text \<open>An operation that returns, with at most \<open>n\<close> connections more.\<close>

definition keeps :: "nat \<Rightarrow> rtl_coex_struct \<Rightarrow> rtl_coex_struct result \<Rightarrow> bool" where
  "keeps n c r \<longleftrightarrow> (\<exists>c'. r = Inr c' \<and> io_part c' = io_part c \<and> length (cx_conn_hash c') \<le> length (cx_conn_hash c) + n)"

definition keeps_len :: "rtl_coex_struct \<Rightarrow> rtl_coex_struct result \<Rightarrow> bool" where
  "keeps_len c r \<longleftrightarrow> (\<exists>c'. r = Inr c' \<and> io_part c' = io_part c \<and> length (cx_conn_hash c') = length (cx_conn_hash c))"

lemma keeps_lenI: "io_part c' = io_part c \<Longrightarrow> length (cx_conn_hash c') = length (cx_conn_hash c) \<Longrightarrow> keeps_len c (Inr c')"
  by (auto simp: keeps_len_def)

lemma keepsI: "io_part c' = io_part c \<Longrightarrow> length (cx_conn_hash c') \<le> length (cx_conn_hash c) + n \<Longrightarrow> keeps n c (Inr c')"
  by (auto simp: keeps_def)

lemma keeps_len_refl [simp]: "keeps_len c (Inr c)"
  by (simp add: keeps_lenI)

lemma keeps_refl [simp]: "keeps n c (Inr c)"
  by (simp add: keepsI)

lemma keeps_len_bind:
  assumes "keeps_len c r" "\<And>c'. io_part c' = io_part c \<Longrightarrow> length (cx_conn_hash c') = length (cx_conn_hash c) \<Longrightarrow> keeps_len c' (f c')"
  shows "keeps_len c (bind_result r f)"
proof -
  from assms(1) obtain c' where c': "r = Inr c'" "io_part c' = io_part c" "length (cx_conn_hash c') = length (cx_conn_hash c)"
    by (auto simp: keeps_len_def)
  with assms(2) [OF c'(2,3)] show ?thesis by (auto simp: keeps_len_def)
qed

lemma keeps_len_from:
  "keeps_len c' r \<Longrightarrow> io_part c' = io_part c \<Longrightarrow> length (cx_conn_hash c') = length (cx_conn_hash c) \<Longrightarrow> keeps_len c r"
  by (auto simp: keeps_len_def)

lemma keeps_of_len: "keeps_len c r \<Longrightarrow> keeps n c r"
  by (auto simp: keeps_len_def keeps_def)

lemma set_conn_frame [simp]:
  "io_part (set_conn i conn c) = io_part c" "length (cx_conn_hash (set_conn i conn c)) = length (cx_conn_hash c)"
  "cx_profile_list (set_conn i conn c) = cx_profile_list c" "few_conns n (set_conn i conn c) = few_conns n c"
  by (simp_all add: set_conn_def few_conns_def)

lemma vendor_cmd_frame [simp]:
  "io_part (rtk_vendor_cmd_to_fw opc len p c) = io_part c" "cx_conn_hash (rtk_vendor_cmd_to_fw opc len p c) = cx_conn_hash c"
  "cx_profile_list (rtk_vendor_cmd_to_fw opc len p c) = cx_profile_list c"
  by (simp_all add: rtk_vendor_cmd_to_fw_def next_mem_def split: option.split)

text \<open>The report changes nothing that is tracked.\<close>

lemma notify_ok:
  assumes "few_conns n c"
  obtains c' where "rtk_notify_profileinfo_to_fw c = Inr c'" "io_part c' = io_part c" "cx_conn_hash c' = cx_conn_hash c"
    "cx_profile_list c' = cx_profile_list c"
proof -
  let ?r = "case next_mem c of (m, c1) \<Rightarrow>
           if m = None then c1
           else rtk_vendor_cmd_to_fw (report_opcode c) (word_of_nat (length (report_bytes c))) (report_bytes c)
                  (if cx_profileinfo_cmd c then c1 else c1\<lparr>cx_profile_status := 0\<rparr>)"
  have "io_part ?r = io_part c" "cx_conn_hash ?r = cx_conn_hash c" "cx_profile_list ?r = cx_profile_list c"
    by (auto simp: next_mem_def)
  with notify_eq [OF few_profiled [OF assms]] that show thesis by blast
qed

lemma notify_keeps: "few_conns n c \<Longrightarrow> keeps_len c (rtk_notify_profileinfo_to_fw c)"
  by (erule notify_ok) (auto simp: keeps_len_def)

lemma notify_set_keeps: "few_conns n c \<Longrightarrow> keeps_len c (rtk_notify_profileinfo_to_fw (set_conn i conn c))"
  by (rule keeps_len_from [OF notify_keeps]) simp_all

lemma update_profile_state_keeps: "few_conns n c \<Longrightarrow> keeps_len c (update_profile_state i k b c)"
  by (auto simp: update_profile_state_def Let_def intro: notify_set_keeps)

lemma update_profile_connection_keeps: "few_conns n c \<Longrightarrow> keeps_len c (update_profile_connection i k b c)"
  by (auto simp: update_profile_connection_def Let_def intro: notify_set_keeps keeps_lenI)

lemma update_hid_active_state_keeps: "few_conns n c \<Longrightarrow> keeps_len c (update_hid_active_state h iv c)"
  by (auto simp: update_hid_active_state_def Let_def split: option.split intro: notify_set_keeps)

end
