(* ===== verification/Coex_Stream.thy ===== *)
theory Coex_Stream
  imports Coex_Report
begin

text \<open>
  The reassembly of events (\<open>rtk_btcoex_parse_event\<close>): whatever pieces the driver hands over, the loop
  ends, stays inside its buffer and queues the events of the byte stream.
\<close>

section \<open>Specification\<close>

text \<open>A byte stream as complete events and the beginning of the next one.\<close>

function split_events :: "byte list \<Rightarrow> byte list list \<times> byte list" where
  "split_events bs =
     (if length bs < 2 \<or> length bs < 2 + unat (bs ! 1) then ([], bs)
      else case split_events (drop (2 + unat (bs ! 1)) bs) of (es, r) \<Rightarrow> (take (2 + unat (bs ! 1)) bs # es, r))"
  by pat_completeness auto
termination
  by (relation "measure length") auto

declare split_events.simps [simp del]

text \<open>An event long enough for the filter to decide, and an event the module is interested in.\<close>

definition ev_determined :: "byte list \<Rightarrow> bool" where
  "ev_determined e = (case ev_filter_out e of Inr _ \<Rightarrow> True | Inl _ \<Rightarrow> False)"

definition ev_wanted :: "byte list \<Rightarrow> bool" where
  "ev_wanted e \<longleftrightarrow> ev_filter_out e = Inr False"

text \<open>What is queued: the bytes that were copied into the nodes.\<close>

definition queued :: "rtl_coex_struct \<Rightarrow> byte list list" where
  "queued c = map (\<lambda>ev. take (unat (ev_len ev)) (ev_data ev)) (cx_ev_used_list c)"

definition partial_event :: "nat option \<Rightarrow> rtl_coex_struct \<Rightarrow> byte list" where
  "partial_event tb c = (case tb of None \<Rightarrow> [] | Some t \<Rightarrow> take t (cx_back_buff c))"

definition crx_inv :: "nat option \<Rightarrow> rtl_coex_struct \<Rightarrow> bool" where
  "crx_inv tb c \<longleftrightarrow> length (cx_back_buff c) = HCI_MAX_EVENT_SIZE \<and>
     (case tb of None \<Rightarrow> True
      | Some t \<Rightarrow> 0 < t \<and> t = unat (cx_elen c) \<and> 0 < unat (cx_expect c) \<and>
          t + unat (cx_expect c) = (if t < 2 then 2 else 2 + unat (cx_back_buff c ! 1)))"

definition pool_inv :: "rtl_coex_struct \<Rightarrow> bool" where
  "pool_inv c \<longleftrightarrow>
     (\<forall>ev \<in> set (cx_ev_used_list c @ cx_ev_free_list c). length (ev_data ev) = MAX_LEN_OF_HCI_EV) \<and>
     (\<forall>l2 \<in> set (cx_l2_used_list c @ cx_l2_free_list c). length (l2_data l2) = L2_MAX_SUBSEC_LEN) \<and>
     length (cx_ev_used_list c) + length (cx_ev_free_list c) = (if cx_buff_size c = 0 then 0 else NUM_RTL_HCI_EV) \<and>
     length (cx_l2_used_list c) + length (cx_l2_free_list c) = (if cx_buff_size c = 0 then 0 else L2_MAX_PKTS)"

text \<open>The fields of the reassembly concern neither the pools nor the queue.\<close>

lemma pool_rx_frame [simp]:
  "pool_inv (c\<lparr>cx_expect := a\<rparr>) = pool_inv c" "pool_inv (c\<lparr>cx_elen := a\<rparr>) = pool_inv c"
  "pool_inv (c\<lparr>cx_back_buff := b\<rparr>) = pool_inv c" "pool_inv (c\<lparr>cx_tbuff := t\<rparr>) = pool_inv c" "pool_inv (c\<lparr>cx_pkt_type := d\<rparr>) = pool_inv c"
  "queued (c\<lparr>cx_expect := a\<rparr>) = queued c" "queued (c\<lparr>cx_elen := a\<rparr>) = queued c"
  "queued (c\<lparr>cx_back_buff := b\<rparr>) = queued c" "queued (c\<lparr>cx_tbuff := t\<rparr>) = queued c" "queued (c\<lparr>cx_pkt_type := d\<rparr>) = queued c"
  by (simp_all add: pool_inv_def queued_def)

section \<open>Arithmetic of the counters\<close>

lemma u16_sub: "n \<le> unat (x :: u16) \<Longrightarrow> unat (x - word_of_nat n) = unat x - n"
proof -
  assume n: "n \<le> unat x"
  then have m: "unat (word_of_nat n :: u16) = n"
    using unsigned_less [of x, where ?'a = nat] by (simp add: unsigned_of_nat take_bit_nat_eq_self)
  with n have "(word_of_nat n :: u16) \<le> x" by (simp add: word_le_nat_alt)
  then show ?thesis by (simp add: unat_sub m)
qed

lemma u16_add: "unat (x :: u16) + n < 65536 \<Longrightarrow> unat (x + word_of_nat n) = unat x + n"
  by (simp add: unat_word_ariths unsigned_of_nat take_bit_nat_eq_self)

lemma unat_ucast_byte [simp]: "unat (ucast (b :: byte) :: u16) = unat b"
proof -
  have "unat b < 2 ^ 16" using unsigned_less [of b, where ?'a = nat] by simp
  then show ?thesis by (simp add: unsigned_ucast_eq take_bit_nat_eq_self)
qed

section \<open>The filter looks at the event only\<close>

lemma rd_prefix: "rd e i = Inr b \<Longrightarrow> take (length e) bb = e \<Longrightarrow> rd bb i = Inr b"
proof -
  assume r: "rd e i = Inr b" and t: "take (length e) bb = e"
  from r have i: "i < length e" "e ! i = b" by (auto simp: rd_def split: if_splits)
  have "length e \<le> length bb" using t by (metis length_take min.cobounded1)
  moreover have "bb ! i = e ! i" using t i(1) by (metis nth_take)
  ultimately show "rd bb i = Inr b" using i by (simp add: rd_def)
qed

lemma rd16_prefix: "rd16 e i = Inr b \<Longrightarrow> take (length e) bb = e \<Longrightarrow> rd16 bb i = Inr b"
  by (auto simp: rd16_def bind_result_eq_Inr dest: rd_prefix)

lemma filter_prefix:
  assumes "ev_filter_out e = Inr b" "take (length e) bb = e"
  shows "ev_filter_out bb = Inr b"
proof -
  from assms(1) obtain code where code: "rd e 0 = Inr code" by (auto simp: ev_filter_out_def bind_result_eq_Inr)
  note c' = rd_prefix [OF code assms(2)]
  from assms(1) show ?thesis
    by (auto simp: ev_filter_out_def cmd_cmplt_filter_out_def cmd_status_filter_out_def code c' bind_result_eq_Inr
        dest!: rd_prefix [OF _ assms(2)] rd16_prefix [OF _ assms(2)] split: if_splits)
qed

section \<open>Queueing one event\<close>

lemma evt_enqueue_ok:
  assumes f: "ev_filter_out e = Inr out" and bb: "take (length e) bb = e" "length bb = HCI_MAX_EVENT_SIZE"
    and cnt: "unat count = length e" and pool: "pool_inv c"
  shows "\<exists>c'. rtk_btcoex_evt_enqueue bb count c = Inr c' \<and> pool_inv c' \<and>
    queued c' = queued c @ (if out \<or> cx_ev_free_list c = [] then [] else [take MAX_LEN_OF_HCI_EV e]) \<and>
    length (cx_ev_free_list c') = (if out then length (cx_ev_free_list c) else length (cx_ev_free_list c) - 1) \<and>
    cx_back_buff c' = cx_back_buff c \<and> cx_running c' = cx_running c"
proof -
  have f': "ev_filter_out bb = Inr out" by (rule filter_prefix [OF f bb(1)])
  let ?n = "min (length e) MAX_LEN_OF_HCI_EV"
  have n: "?n \<le> length bb" using bb(2) by (simp add: coex_sizes)
  have n16: "unat (word_of_nat ?n :: u16) = ?n"
    by (simp add: unsigned_of_nat take_bit_nat_eq_self MAX_LEN_OF_HCI_EV_def)
  have t: "take ?n bb = take ?n e" using bb(1) by (metis min.cobounded1 min.absorb1 take_take)
  have te: "take ?n e = take MAX_LEN_OF_HCI_EV e" by (simp add: min_def)
  show ?thesis
  proof (cases "out \<or> cx_ev_free_list c = []")
    case True
    with f' pool show ?thesis by (auto simp: rtk_btcoex_evt_enqueue_def rtl_ev_node_get_def)
  next
    case False
    then obtain ev evs where free: "cx_ev_free_list c = ev # evs" "\<not> out" by (cases "cx_ev_free_list c") auto
    with pool have b: "cx_buff_size c \<noteq> 0" by (auto simp: pool_inv_def split: if_splits)
    let ?ev = "\<lparr>ev_data = take ?n bb @ drop ?n (ev_data ev), ev_len = word_of_nat ?n\<rparr>"
    let ?c = "c\<lparr>cx_ev_free_list := evs, cx_ev_used_list := cx_ev_used_list c @ [?ev], cx_fw_work := True\<rparr>"
    have "rtk_btcoex_evt_enqueue bb count c = Inr ?c"
      using f' b free bb(2) cnt
      by (simp add: rtk_btcoex_evt_enqueue_def rtl_ev_node_get_def rtl_ev_node_to_used_def coex_sizes Let_def)
    moreover have "pool_inv ?c"
      using pool free n by (auto simp: pool_inv_def coex_sizes)
    moreover have "queued ?c = queued c @ [take MAX_LEN_OF_HCI_EV e]"
      using n n16 by (simp add: queued_def) (simp add: t te)
    ultimately show ?thesis using free by simp
  qed
qed

section \<open>One round of the loop\<close>

text \<open>The place to write to and the state, at the beginning of a round.\<close>

lemma parse_event_iter_start:
  assumes "crx_inv tb c"
  obtains t c0 where "parse_event_iter tb buffer c = parse_event_iter (Some t) buffer c0" "t = unat (cx_elen c0)"
    "0 < unat (cx_expect c0)" "t + unat (cx_expect c0) = (if t < 2 then 2 else 2 + unat (cx_back_buff c0 ! 1))"
    "take t (cx_back_buff c0) = partial_event tb c" "cx_back_buff c0 = cx_back_buff c" "queued c0 = queued c"
    "cx_ev_free_list c0 = cx_ev_free_list c" "pool_inv c0 = pool_inv c" "cx_running c0 = cx_running c"
proof (cases tb)
  case None
  let ?c0 = "c\<lparr>cx_pkt_type := 0x04, cx_expect := 2, cx_tbuff := None, cx_elen := 0\<rparr>"
  show thesis
    by (rule that [of 0 ?c0]) (simp_all add: None parse_event_iter_def partial_event_def)
next
  case (Some t)
  with assms show thesis by (intro that [of t c]) (auto simp: crx_inv_def partial_event_def split: if_splits)
qed

text \<open>A round consumes at least one byte; it either extends the event or completes it.\<close>

lemma parse_event_iter_cases:
  assumes inv: "crx_inv tb c" and buf: "buffer \<noteq> []"
  obtains (more) t' buffer' c' where "parse_event_iter tb buffer c = Inr (True, Some t', buffer', c')" "crx_inv (Some t') c'"
      "partial_event (Some t') c' @ buffer' = partial_event tb c @ buffer" "length buffer' < length buffer"
      "queued c' = queued c" "cx_ev_free_list c' = cx_ev_free_list c" "pool_inv c' = pool_inv c" "cx_running c' = cx_running c"
  | (complete) e buffer' c1 where "parse_event_iter tb buffer c =
        bind_result (rtk_btcoex_evt_enqueue (cx_back_buff c1) (cx_elen c1) c1) (\<lambda>c. Inr (True, None, buffer', c\<lparr>cx_elen := 0\<rparr>))"
      "e @ buffer' = partial_event tb c @ buffer" "2 \<le> length e" "length e = 2 + unat (e ! 1)" "length buffer' < length buffer"
      "take (length e) (cx_back_buff c1) = e" "length (cx_back_buff c1) = HCI_MAX_EVENT_SIZE" "unat (cx_elen c1) = length e"
      "queued c1 = queued c" "cx_ev_free_list c1 = cx_ev_free_list c" "pool_inv c1 = pool_inv c" "cx_running c1 = cx_running c"
proof -
  obtain t c0 where s: "parse_event_iter tb buffer c = parse_event_iter (Some t) buffer c0" "t = unat (cx_elen c0)"
    "0 < unat (cx_expect c0)" "t + unat (cx_expect c0) = (if t < 2 then 2 else 2 + unat (cx_back_buff c0 ! 1))"
    "take t (cx_back_buff c0) = partial_event tb c" "cx_back_buff c0 = cx_back_buff c" "queued c0 = queued c"
    "cx_ev_free_list c0 = cx_ev_free_list c" "pool_inv c0 = pool_inv c" "cx_running c0 = cx_running c"
    by (rule parse_event_iter_start [OF inv])
  have bb: "length (cx_back_buff c0) = HCI_MAX_EVENT_SIZE" using inv s(6) by (simp add: crx_inv_def)
  define n where "n = min (unat (cx_expect c0)) (length buffer)"
  define BB where "BB = take t (cx_back_buff c0) @ take n buffer @ drop (t + n) (cx_back_buff c0)"
  define c1 where "c1 = c0\<lparr>cx_expect := cx_expect c0 - word_of_nat n, cx_elen := cx_elen c0 + word_of_nat n, cx_back_buff := BB\<rparr>"
  have n: "0 < n" "n \<le> unat (cx_expect c0)" "n \<le> length buffer" using s(3) buf by (auto simp: n_def Suc_le_eq)
  have small: "t + unat (cx_expect c0) \<le> 257" using s(4) unat_byte_less [of "cx_back_buff c0 ! 1"] by (auto split: if_splits)
  have tn: "t + n \<le> length (cx_back_buff c0)" using small n(2) bb by (simp add: coex_sizes)
  have BB: "length BB = HCI_MAX_EVENT_SIZE" using tn bb n(3) by (simp add: BB_def)
  have tBB: "take (t + n) BB = partial_event tb c @ take n buffer"
    using tn n(3) by (simp add: BB_def flip: s(5))
  have keep: "2 \<le> t \<Longrightarrow> BB ! 1 = cx_back_buff c0 ! 1" using tn by (simp add: BB_def nth_append)
  have elen: "unat (cx_elen c1) = t + n" using small n(2) s(2) u16_add [of "cx_elen c0" n] by (simp add: c1_def)
  have expect: "unat (cx_expect c1) = unat (cx_expect c0) - n" using u16_sub [OF n(2)] by (simp add: c1_def)
  have elen2: "cx_elen c1 = 2 \<longleftrightarrow> t + n = 2" by (simp add: word_eq_iff_unsigned [where ?'a = nat] elen)
  define c2 where "c2 = (if cx_elen c1 = 2 then c1\<lparr>cx_expect := ucast (BB ! 1)\<rparr> else c1)"
  have c2 [simp]: "cx_back_buff c2 = BB" "cx_elen c2 = cx_elen c1" "queued c2 = queued c" "cx_ev_free_list c2 = cx_ev_free_list c"
      "pool_inv c2 = pool_inv c" "cx_running c2 = cx_running c"
    using s(7-10) by (simp_all add: c2_def c1_def)
  have exp2: "unat (cx_expect c2) = (if t + n = 2 then unat (BB ! 1) else unat (cx_expect c0) - n)"
    using elen2 expect by (simp add: c2_def)
  have iter: "parse_event_iter tb buffer c =
      (if cx_expect c2 = 0 then
         bind_result (rtk_btcoex_evt_enqueue BB (cx_elen c1) c2) (\<lambda>c. Inr (True, None, drop n buffer, c\<lparr>cx_elen := 0\<rparr>))
       else Inr (True, Some (t + n), drop n buffer, c2))"
  proof -
    have "\<not> unat (BB ! 1) > HCI_MAX_EVENT_SIZE - 2" using unat_byte_less [of "BB ! 1"] by (simp add: coex_sizes)
    moreover have "parse_event_iter tb buffer c = parse_event_copy t n buffer c0"
      unfolding s(1) by (simp add: parse_event_iter_def n_def)
    ultimately show ?thesis
      using tn by (simp add: parse_event_copy_def c2_def c1_def Let_def flip: BB_def)
  qed
  have old: "t + n \<noteq> 2 \<Longrightarrow> t + n = t + unat (cx_expect c0) \<Longrightarrow> 2 \<le> t" using s(4) by (auto split: if_splits)
  have old': "2 < t + n \<Longrightarrow> 2 \<le> t" using s(4) n(2) by (auto split: if_splits)
  show thesis
  proof (cases "cx_expect c2 = 0")
    case True
    define e where "e = partial_event tb c @ take n buffer"
    have e: "take (t + n) BB = e" using tBB by (simp add: e_def)
    have len: "length e = t + n" using tn BB bb by (simp flip: e)
    have e1: "e ! 1 = BB ! 1" if "2 \<le> t + n" using that by (simp flip: e)
    have z: "unat (cx_expect c2) = 0" using True by simp
    have two: "2 \<le> t + n" "t + n = 2 + unat (BB ! 1)"
    proof -
      have "2 \<le> t + n \<and> t + n = 2 + unat (BB ! 1)"
      proof (cases "t + n = 2")
        case True
        then show ?thesis using z exp2 by simp
      next
        case False
        then have x: "unat (cx_expect c0) = n" using z exp2 n(2) by simp
        with False have "2 \<le> t" by (intro old) simp_all
        with x keep s(4) show ?thesis by simp
      qed
      then show "2 \<le> t + n" "t + n = 2 + unat (BB ! 1)" by blast+
    qed
    have i: "parse_event_iter tb buffer c =
        bind_result (rtk_btcoex_evt_enqueue (cx_back_buff c2) (cx_elen c2) c2) (\<lambda>c. Inr (True, None, drop n buffer, c\<lparr>cx_elen := 0\<rparr>))"
      unfolding iter using True by simp
    show thesis
    proof (rule complete [OF i])
      show "e @ drop n buffer = partial_event tb c @ buffer" by (simp add: e_def)
      show "length e = 2 + unat (e ! 1)" using two e1 len by simp
      show "length (drop n buffer) < length buffer" using n(1) buf by simp
    qed (use two len e BB elen in simp_all)
  next
    case False
    then have pos: "0 < unat (cx_expect c2)" by (simp add: unat_gt_0)
    have "crx_inv (Some (t + n)) c2"
      using pos exp2 BB elen n s(4) old' keep by (auto simp: crx_inv_def split: if_splits)
    with False iter n(1) buf tBB show thesis
      by (intro more [of "t + n" "drop n buffer" c2]) (simp_all add: partial_event_def)
  qed
qed

section \<open>The loop\<close>

lemma split_events_complete:
  assumes "length e = 2 + unat (e ! 1)"
  shows "split_events (e @ bs) = (e # fst (split_events bs), snd (split_events bs))"
proof -
  have "(e @ bs) ! 1 = e ! 1" using assms by (simp add: nth_append)
  with assms show ?thesis by (subst split_events.simps) (simp add: nth_append split: prod.split)
qed

lemma split_events_partial:
  assumes "crx_inv tb c"
  shows "split_events (partial_event tb c) = ([], partial_event tb c)"
proof (cases tb)
  case None
  then show ?thesis by (simp add: partial_event_def split_events.simps)
next
  case (Some t)
  with assms have t: "t + unat (cx_expect c) = (if t < 2 then 2 else 2 + unat (cx_back_buff c ! 1))" "0 < unat (cx_expect c)"
    "length (cx_back_buff c) = HCI_MAX_EVENT_SIZE" by (auto simp: crx_inv_def split: if_splits)
  have "t \<le> HCI_MAX_EVENT_SIZE" using t(1) unat_byte_less [of "cx_back_buff c ! 1"] by (simp add: coex_sizes split: if_splits)
  then have "length (take t (cx_back_buff c)) = t" using t(3) by simp
  with t(1,2) Some show ?thesis by (subst split_events.simps) (auto simp: partial_event_def split: if_splits)
qed

text \<open>
  The loop from any state of the reassembly: it ends, what remains is the beginning of an event, and
  of the complete events those that are wanted are queued while there are free nodes.
\<close>

lemma parse_event_loop_ok:
  assumes "crx_inv tb c" "pool_inv c" "\<forall>e \<in> set (fst (split_events (partial_event tb c @ buffer))). ev_determined e"
  shows "\<exists>tb' c'. parse_event_loop tb buffer c = Some (Inr (tb', c')) \<and> crx_inv tb' c' \<and> pool_inv c' \<and> cx_running c' = cx_running c \<and>
    partial_event tb' c' = snd (split_events (partial_event tb c @ buffer)) \<and>
    (\<exists>es. es = filter ev_wanted (fst (split_events (partial_event tb c @ buffer))) \<and>
      queued c' = queued c @ map (take MAX_LEN_OF_HCI_EV) (take (length (cx_ev_free_list c)) es) \<and>
      length (cx_ev_free_list c') = length (cx_ev_free_list c) - length es)"
  using assms
proof (induction "length buffer" arbitrary: tb buffer c rule: less_induct)
  case less
  show ?case
  proof (cases "buffer = []")
    case True
    with less.prems split_events_partial [OF less.prems(1)] show ?thesis by (simp add: parse_event_loop.simps)
  next
    case False
    with less.prems(1) show ?thesis
    proof (cases rule: parse_event_iter_cases)
      case (more t' buffer' c')
      with False have l: "parse_event_loop tb buffer c = parse_event_loop (Some t') buffer' c'"
        by (subst parse_event_loop.simps) simp
      from less.hyps [OF more(4,2)] less.prems(2,3) more show ?thesis unfolding l by simp
    next
      case (complete e buffer' c1)
      have sp: "split_events (partial_event tb c @ buffer) = (e # fst (split_events buffer'), snd (split_events buffer'))"
        using split_events_complete [OF complete(4), of buffer'] complete(2) by simp
      with less.prems(3) obtain out where out: "ev_filter_out e = Inr out"
        by (auto simp: ev_determined_def split: sum.splits)
      have pool: "pool_inv c1" using complete(11) less.prems(2) by simp
      from evt_enqueue_ok [OF out complete(6,7,8) pool] obtain c2 where c2:
          "rtk_btcoex_evt_enqueue (cx_back_buff c1) (cx_elen c1) c1 = Inr c2" "pool_inv c2"
          "queued c2 = queued c @ (if out \<or> cx_ev_free_list c = [] then [] else [take MAX_LEN_OF_HCI_EV e])"
          "length (cx_ev_free_list c2) = (if out then length (cx_ev_free_list c) else length (cx_ev_free_list c) - 1)"
          "cx_back_buff c2 = cx_back_buff c1" "cx_running c2 = cx_running c"
        using complete(9,10,12) by auto
      let ?c = "c2\<lparr>cx_elen := 0\<rparr>"
      have l: "parse_event_loop tb buffer c = parse_event_loop None buffer' ?c"
        using False complete(1) c2(1) by (subst parse_event_loop.simps) simp
      have inv: "crx_inv None ?c" "pool_inv ?c" using complete(7) c2 by (simp_all add: crx_inv_def)
      have w: "ev_wanted e \<longleftrightarrow> \<not> out" using out by (simp add: ev_wanted_def)
      have det: "\<forall>e \<in> set (fst (split_events (partial_event None ?c @ buffer'))). ev_determined e"
        using less.prems(3) sp by (simp add: partial_event_def)
      from less.hyps [OF complete(5) inv det] show ?thesis
        unfolding l sp using c2 w by (cases out; cases "cx_ev_free_list c") (auto simp: partial_event_def)
    qed
  qed
qed

section \<open>A stream in pieces\<close>

lemma split_events_append:
  "split_events (xs @ ys) =
     (fst (split_events xs) @ fst (split_events (snd (split_events xs) @ ys)), snd (split_events (snd (split_events xs) @ ys)))"
proof (induction xs rule: split_events.induct)
  case (1 xs)
  show ?case
  proof (cases "length xs < 2 \<or> length xs < 2 + unat (xs ! 1)")
    case True
    then have "split_events xs = ([], xs)" by (subst split_events.simps) simp
    then show ?thesis by simp
  next
    case False
    let ?n = "2 + unat (xs ! 1)"
    have n: "length (take ?n xs) = ?n" "take ?n xs ! 1 = xs ! 1" using False by simp_all
    have e: "split_events (take ?n xs @ zs) = (take ?n xs # fst (split_events zs), snd (split_events zs))" for zs
      by (rule split_events_complete) (simp only: n)
    have "split_events (xs @ ys) = (take ?n xs # fst (split_events (drop ?n xs @ ys)), snd (split_events (drop ?n xs @ ys)))"
      using e [of "drop ?n xs @ ys"] by (simp del: take_append flip: append_assoc)
    moreover have "split_events xs = (take ?n xs # fst (split_events (drop ?n xs)), snd (split_events (drop ?n xs)))"
      using e [of "drop ?n xs"] by simp
    ultimately show ?thesis using "1.IH" [OF False] by simp
  qed
qed

fun coex_feed :: "byte list list \<Rightarrow> rtl_coex_struct \<Rightarrow> rtl_coex_struct result option" where
  "coex_feed [] c = Some (Inr c)"
| "coex_feed (buffer # buffers) c =
     Option.bind (rtk_btcoex_parse_event buffer c) (\<lambda>r. case r of Inl e \<Rightarrow> Some (Inl e) | Inr c \<Rightarrow> coex_feed buffers c)"

definition coex_rx_inv :: "rtl_coex_struct \<Rightarrow> bool" where
  "coex_rx_inv c \<longleftrightarrow> cx_running c \<and> crx_inv (cx_tbuff c) c \<and> pool_inv c"

abbreviation pending_bytes :: "rtl_coex_struct \<Rightarrow> byte list" where
  "pending_bytes c \<equiv> partial_event (cx_tbuff c) c"

lemma parse_event_ok:
  assumes "coex_rx_inv c" "\<forall>e \<in> set (fst (split_events (pending_bytes c @ buffer))). ev_determined e"
  obtains c' where "rtk_btcoex_parse_event buffer c = Some (Inr c')" "coex_rx_inv c'"
    "pending_bytes c' = snd (split_events (pending_bytes c @ buffer))"
    "queued c' = queued c @ map (take MAX_LEN_OF_HCI_EV)
       (take (length (cx_ev_free_list c)) (filter ev_wanted (fst (split_events (pending_bytes c @ buffer)))))"
    "length (cx_ev_free_list c') = length (cx_ev_free_list c) - length (filter ev_wanted (fst (split_events (pending_bytes c @ buffer))))"
proof -
  from assms(1) have c: "cx_running c" "crx_inv (cx_tbuff c) c" "pool_inv c" by (simp_all add: coex_rx_inv_def)
  from parse_event_loop_ok [OF c(2,3) assms(2)] obtain tb' c' where l: "parse_event_loop (cx_tbuff c) buffer c = Some (Inr (tb', c'))"
    "crx_inv tb' c'" "pool_inv c'" "cx_running c' = cx_running c"
    "partial_event tb' c' = snd (split_events (pending_bytes c @ buffer))"
    "queued c' = queued c @ map (take MAX_LEN_OF_HCI_EV)
       (take (length (cx_ev_free_list c)) (filter ev_wanted (fst (split_events (pending_bytes c @ buffer)))))"
    "length (cx_ev_free_list c') = length (cx_ev_free_list c) - length (filter ev_wanted (fst (split_events (pending_bytes c @ buffer))))"
    by auto
  let ?c = "c'\<lparr>cx_tbuff := tb'\<rparr>"
  have "crx_inv tb' ?c" "partial_event tb' ?c = partial_event tb' c'" using l(2)
    by (auto simp: crx_inv_def partial_event_def split: option.splits if_splits)
  with l c(1) show thesis by (intro that [of ?c]) (simp_all add: rtk_btcoex_parse_event_def coex_rx_inv_def)
qed

lemma coex_feed_ok:
  assumes "coex_rx_inv c" "\<forall>e \<in> set (fst (split_events (pending_bytes c @ concat buffers))). ev_determined e"
  shows "\<exists>c'. coex_feed buffers c = Some (Inr c') \<and> coex_rx_inv c' \<and>
    pending_bytes c' = snd (split_events (pending_bytes c @ concat buffers)) \<and>
    queued c' = queued c @ map (take MAX_LEN_OF_HCI_EV)
      (take (length (cx_ev_free_list c)) (filter ev_wanted (fst (split_events (pending_bytes c @ concat buffers)))))"
  using assms
proof (induction buffers arbitrary: c)
  case Nil
  then have "split_events (pending_bytes c) = ([], pending_bytes c)"
    by (intro split_events_partial) (simp add: coex_rx_inv_def)
  with Nil show ?case by simp
next
  case (Cons buffer buffers)
  note sp = split_events_append [of "pending_bytes c @ buffer" "concat buffers"]
  have det: "\<forall>e \<in> set (fst (split_events (pending_bytes c @ buffer))). ev_determined e" using Cons.prems(2) sp by simp
  obtain c1 where c1: "rtk_btcoex_parse_event buffer c = Some (Inr c1)" "coex_rx_inv c1"
    "pending_bytes c1 = snd (split_events (pending_bytes c @ buffer))"
    "queued c1 = queued c @ map (take MAX_LEN_OF_HCI_EV)
       (take (length (cx_ev_free_list c)) (filter ev_wanted (fst (split_events (pending_bytes c @ buffer)))))"
    "length (cx_ev_free_list c1) = length (cx_ev_free_list c) - length (filter ev_wanted (fst (split_events (pending_bytes c @ buffer))))"
    by (rule parse_event_ok [OF Cons.prems(1) det])
  with Cons.IH [OF c1(2)] Cons.prems(2) sp show ?case by auto
qed

end
