(* ===== verification/Coex_Safety.thy ===== *)
theory Coex_Safety
  imports Coex_Stream
begin

text \<open>
  The handlers of the coexistence module on arbitrary contents of the queued buffers, the two works
  that empty the queues, and the states the module can reach.
\<close>

section \<open>Handlers\<close>

lemma keeps_from:
  "keeps_len c' r \<Longrightarrow> io_part c' = io_part c \<Longrightarrow> length (cx_conn_hash c') \<le> length (cx_conn_hash c) + n \<Longrightarrow> keeps n c r"
  by (auto simp: keeps_len_def keeps_def)

lemma conn_at_frame:
  assumes "conn_at handle c = (r, c')"
  shows "io_part c' = io_part c" "length (cx_conn_hash c') \<le> length (cx_conn_hash c) + 1"
  using assms
  by (auto simp: conn_at_def allocate_connection_by_handle_def next_mem_def add_connection_to_hash_def
      split: option.splits prod.splits if_splits)

lemma connection_complete_keeps:
  assumes "length d = MAX_LEN_OF_HCI_EV" "few_conns 1 c"
  shows "keeps 1 c (rtk_handle_connection_complete_evt d c)"
proof -
  let ?c0 = "if cx_ispaging c then c\<lparr>cx_ispaging := False\<rparr> else c"
  let ?h = "le16_of (d ! 3) (d ! 4)"
  obtain r c1 where r: "conn_at ?h ?c0 = (r, c1)" by force
  have f: "io_part c1 = io_part c" "length (cx_conn_hash c1) \<le> length (cx_conn_hash c) + 1"
    using conn_at_frame [OF r] by (simp_all split: if_splits)
  have few: "few_conns 0 c1" using assms(2) f(2) by (simp add: few_conns_def)
  have "keeps_len c1 (update_profile_connection i profile_sco True (set_conn i (conn_reset 1 (cx_conn_hash c1 ! i)) c1))" for i
    by (rule keeps_len_from [OF update_profile_connection_keeps]) (use few in simp_all)
  then have k: "keeps 1 c (update_profile_connection i profile_sco True (set_conn i (conn_reset 1 (cx_conn_hash c1 ! i)) c1))" for i
    by (rule keeps_from) (use f in simp_all)
  show ?thesis
    using assms(1) r f k
    by (auto simp: rtk_handle_connection_complete_evt_def coex_sizes intro!: keepsI split: option.split)
qed

lemma le_connection_complete_keeps:
  assumes "length d = MAX_LEN_OF_HCI_EV" "few_conns 1 c"
  shows "keeps 1 c (rtk_handle_le_connection_complete_evt enh d c)"
proof -
  let ?c0 = "if cx_ispaging c then c\<lparr>cx_ispaging := False\<rparr> else c"
  let ?h = "le16_of (d ! 4) (d ! 5)"
  obtain r c1 where r: "conn_at ?h ?c0 = (r, c1)" by force
  have f: "io_part c1 = io_part c" "length (cx_conn_hash c1) \<le> length (cx_conn_hash c) + 1"
    using conn_at_frame [OF r] by (simp_all split: if_splits)
  have few: "few_conns 0 c1" using assms(2) f(2) by (simp add: few_conns_def)
  have "keeps_len c1 (bind_result (update_profile_connection i profile_hid True (set_conn i (conn_reset 2 (cx_conn_hash c1 ! i)) c1))
      (\<lambda>c. update_hid_active_state ?h iv c))" for i iv
  proof (rule keeps_len_from [of "set_conn i (conn_reset 2 (cx_conn_hash c1 ! i)) c1"], rule keeps_len_bind)
    show "keeps_len (set_conn i (conn_reset 2 (cx_conn_hash c1 ! i)) c1)
        (update_profile_connection i profile_hid True (set_conn i (conn_reset 2 (cx_conn_hash c1 ! i)) c1))"
      by (rule update_profile_connection_keeps) (use few in simp)
    show "keeps_len c' (update_hid_active_state ?h iv c')"
      if "length (cx_conn_hash c') = length (cx_conn_hash (set_conn i (conn_reset 2 (cx_conn_hash c1 ! i)) c1))" for c'
      by (rule update_hid_active_state_keeps [of 0]) (use few that in \<open>simp add: few_conns_def\<close>)
  qed simp_all
  then have k: "keeps 1 c (bind_result (update_profile_connection i profile_hid True (set_conn i (conn_reset 2 (cx_conn_hash c1 ! i)) c1))
      (\<lambda>c. update_hid_active_state ?h iv c))" for i iv
    by (rule keeps_from) (use f in simp_all)
  show ?thesis
    using assms(1) r f k
    by (auto simp: rtk_handle_le_connection_complete_evt_def coex_sizes intro!: keepsI split: option.split)
qed

lemma disconn_acl_keeps: "few_conns n c \<Longrightarrow> keeps_len c (disconn_acl handle i c)"
proof -
  assume few: "few_conns n c"
  obtain kept conn need where l: "disconn_loop handle (cx_profile_list c) (cx_conn_hash c ! i) False = (kept, conn, need)"
    by (metis prod_cases3)
  let ?c = "set_conn i conn (c\<lparr>cx_profile_list := kept\<rparr>)"
  have f: "few_conns n ?c" using few by (simp add: few_conns_def)
  show "keeps_len c (disconn_acl handle i c)"
    using keeps_len_from [OF notify_keeps [OF f], of c] by (auto simp: disconn_acl_def l Let_def intro: keeps_lenI)
qed

lemma disconnect_complete_keeps:
  assumes "length d = MAX_LEN_OF_HCI_EV" "few_conns n c"
  shows "keeps n c (rtk_handle_disconnect_complete_evt d c)"
proof -
  define c0 where "c0 = (if cx_ispairing c then c\<lparr>cx_ispairing := False\<rparr> else c)"
  have c0: "few_conns n c0" "io_part c0 = io_part c" "length (cx_conn_hash c0) = length (cx_conn_hash c)"
    using assms(2) by (simp_all add: c0_def few_conns_def)
  define op where "op = (\<lambda>i. if cp_type (cx_conn_hash c0 ! i) = 0 then disconn_acl (le16_of (d ! 3) (d ! 4)) i c0
      else if cp_type (cx_conn_hash c0 ! i) = 1 then update_profile_connection i profile_sco False c0
      else if cp_type (cx_conn_hash c0 ! i) = 2 then update_profile_connection i profile_hid False c0 else Inr c0)"
  have "keeps_len c0 (op i)" for i
    using disconn_acl_keeps [OF c0(1)] update_profile_connection_keeps [OF c0(1)] by (simp add: op_def)
  then obtain g where g: "op i = Inr (g i)" "io_part (g i) = io_part c0" "length (cx_conn_hash (g i)) = length (cx_conn_hash c0)" for i
    unfolding keeps_len_def by metis
  have "keeps n c (bind_result (op i) (\<lambda>c. Inr (delete_connection_from_hash i c)))" for i
    using g [of i] c0 by (auto simp: delete_connection_from_hash_def intro!: keepsI)
  moreover have "rtk_handle_disconnect_complete_evt d c =
      (if d ! 2 = 0 then case find_connection_by_handle c0 (le16_of (d ! 3) (d ! 4)) of None \<Rightarrow> Inr c0
         | Some i \<Rightarrow> bind_result (op i) (\<lambda>c. Inr (delete_connection_from_hash i c)) else Inr c0)"
    using assms(1) by (simp add: rtk_handle_disconnect_complete_evt_def coex_sizes op_def Let_def flip: c0_def cong: option.case_cong)
  moreover have "keeps n c (Inr c0)" using c0 by (intro keepsI) simp_all
  ultimately show ?thesis by (simp split: option.split)
qed

text \<open>Every event, whatever its node contains.\<close>

lemma parse_event_data_keeps:
  assumes "length d = MAX_LEN_OF_HCI_EV" "few_conns 1 c"
  shows "keeps 1 c (rtk_parse_event_data d c)"
proof -
  have hid: "keeps 1 c (update_hid_active_state h iv c)" for h iv
    by (rule keeps_of_len [OF update_hid_active_state_keeps [OF assms(2)]])
  have len: "i < length d" if "i < 32" for i using assms(1) that by (simp add: coex_sizes)
  have simple: "keeps 1 c (Inr (rtk_handle_inquiry_complete c))" "keeps 1 c (Inr (rtk_handle_pin_code_req c))"
      "keeps 1 c (Inr (rtk_handle_io_capa_req c))" "keeps 1 c (Inr (rtk_handle_auth_request c))"
      "keeps 1 c (Inr (rtk_handle_link_key_notify c))"
    by (simp_all add: keepsI rtk_handle_inquiry_complete_def rtk_handle_pin_code_req_def rtk_handle_io_capa_req_def
        rtk_handle_auth_request_def rtk_handle_link_key_notify_def)
  have mode: "keeps 1 c (rtk_handle_mode_change_evt d c)" using hid by (simp add: rtk_handle_mode_change_evt_def len)
  have cc: "keeps 1 c (rtk_handle_cmd_complete_evt d c)"
    by (simp add: rtk_handle_cmd_complete_evt_def len keepsI)
  have cs: "keeps 1 c (rtk_handle_cmd_status_evt d c)"
    by (simp add: rtk_handle_cmd_status_evt_def len keepsI Let_def)
  have up: "keeps 1 c (rtk_handle_le_connection_update_complete_evt d c)"
    using hid by (simp add: rtk_handle_le_connection_update_complete_evt_def len)
  have le: "keeps 1 c (rtk_handle_le_meta_evt d c)"
    using le_connection_complete_keeps [OF assms] up by (simp add: rtk_handle_le_meta_evt_def len)
  have sp: "keeps 1 c (rtk_handle_specific_evt d c)" by (simp add: rtk_handle_specific_evt_def len)
  show ?thesis
    using simple mode cc cs le sp connection_complete_keeps [OF assms] disconnect_complete_keeps [OF assms(1), of 1 c] assms(2)
    by (simp add: rtk_parse_event_data_def rd_ok [OF len])
qed

text \<open>The signalling of L2CAP.\<close>

lemma con_req_frame [simp]:
  "io_part (handle_l2cap_con_req h psm scid dir c) = io_part c"
  "cx_conn_hash (handle_l2cap_con_req h psm scid dir c) = cx_conn_hash c"
  by (auto simp: handle_l2cap_con_req_def list_allocate_add_def next_mem_def Let_def split: option.split)

lemma con_rsp_keeps:
  assumes "few_conns n c"
  shows "keeps_len c (handle_l2cap_con_rsp h dcid scid dir res c)"
proof -
  have "keeps_len c (update_profile_connection i k b (c\<lparr>cx_profile_list := ps\<rparr>))" for i k b ps
    by (rule keeps_len_from [OF update_profile_connection_keeps [of n]]) (use assms in \<open>simp_all add: few_conns_def\<close>)
  moreover have "keeps_len c (Inr (c\<lparr>cx_profile_list := ps\<rparr>))" for ps by (simp add: keeps_lenI)
  ultimately show ?thesis by (simp add: handle_l2cap_con_rsp_def Let_def split: option.split)
qed

lemma discon_req_keeps:
  assumes "few_conns n c"
  shows "keeps_len c (handle_l2cap_discon_req h dcid scid dir c)"
proof -
  have few: "few_conns n c'" if "length (cx_conn_hash c') = length (cx_conn_hash c)" for c'
    using assms that by (simp add: few_conns_def)
  have "keeps_len c
      (bind_result (update_profile_connection i k False c) (\<lambda>c.
       bind_result (if k = profile_a2dp \<and> is_profile_connected (cx_conn_hash c ! i) profile_sink
                    then update_profile_connection i profile_sink False c else Inr c) (\<lambda>c.
       Inr (delete_profile_from_hash j c))))" for i j k
  proof (intro keeps_len_bind)
    show "keeps_len c (update_profile_connection i k False c)" by (rule update_profile_connection_keeps [OF assms])
    show "keeps_len c' (if k = profile_a2dp \<and> is_profile_connected (cx_conn_hash c' ! i) profile_sink
        then update_profile_connection i profile_sink False c' else Inr c')"
      if "length (cx_conn_hash c') = length (cx_conn_hash c)" for c'
      using update_profile_connection_keeps [OF few [OF that]] by simp
  qed (simp add: delete_profile_from_hash_def keeps_lenI)
  then show ?thesis by (simp add: handle_l2cap_discon_req_def Let_def split: option.split)
qed

lemma process_l2_sig_keeps:
  assumes "length (l2_data l2) = L2_MAX_SUBSEC_LEN" "few_conns n c"
  shows "keeps_len c (rtl_process_l2_sig l2 c)"
proof -
  have len: "i < length (l2_data l2)" if "i < 128" for i using assms(1) that by (simp add: coex_sizes)
  show ?thesis
    using con_rsp_keeps [OF assms(2)] discon_req_keeps [OF assms(2)]
    by (simp add: rtl_process_l2_sig_def Let_def rd16_ok len keeps_lenI)
qed

text \<open>Counting: the only reads of a packet are guarded by the length that its header claims.\<close>

lemma bitpool_keeps:
  assumes "len > 100 \<longrightarrow> length user_data \<ge> 76"
  shows "keeps_len c (a2dp_bitpool len user_data c)"
proof (cases "len > 100")
  case True
  with assms have "length user_data \<ge> 76" by blast
  note assms = this
  have "12 + unat ((user_data ! 0) AND 0x0f) * 4 + 1 + 2 < length user_data"
    using unat_and_mask_less [of "user_data ! 0"] assms by simp
  moreover have "0 < length user_data" using assms by linarith
  ultimately show ?thesis
    unfolding a2dp_bitpool_def by (simp only: rd_ok bind_result_Inr) (simp add: keeps_lenI)
qed (simp add: a2dp_bitpool_def)

lemma set_conn_bind_keeps [intro!]: "keeps_len c (Inr (set_conn i conn c))"
  by (simp add: keeps_lenI)

lemma keeps_len_bindI:
  assumes "few_conns n c" "keeps_len c r" "\<And>c'. few_conns n c' \<Longrightarrow> keeps_len c' (f c')"
  shows "keeps_len c (bind_result r f)"
  using assms(1) by (intro keeps_len_bind [OF assms(2)] assms(3)) (simp add: few_conns_def)

lemma sink_start_keeps:
  assumes few: "few_conns n c"
  shows "keeps_len c (a2dp_sink_start i c)"
  unfolding a2dp_sink_start_def
proof (rule keeps_len_bindI [OF few])
  have "keeps_len c (update_profile_connection i k b (set_conn i conn c))" for k b conn
    by (rule keeps_len_from [OF update_profile_connection_keeps [of n]]) (use few in simp_all)
  then show "keeps_len c (if \<not> is_profile_connected (cx_conn_hash c ! i) profile_sink then
      let conn = cx_conn_hash c ! i in update_profile_connection i profile_sink True
        (set_conn i (conn\<lparr>cp_profile_bitmap := set_bit (profile_bit profile_sink) (cp_profile_bitmap conn)\<rparr>) c) else Inr c)"
    by (simp add: Let_def)
qed (rule update_profile_state_keeps)

lemma stream_start_keeps:
  assumes "few_conns n c" "len > 100 \<longrightarrow> length user_data \<ge> 76"
  shows "keeps_len c (a2dp_stream_start i len dir user_data c)"
  unfolding a2dp_stream_start_def
  by (intro keeps_len_bindI [OF assms(1)] keeps_len_bindI update_profile_state_keeps [OF assms(1)] bitpool_keeps assms(2))
     (auto intro: sink_start_keeps)

lemma packets_count_keeps:
  assumes "few_conns n c" "len > 100 \<longrightarrow> length user_data \<ge> 76"
  shows "keeps_len c (packets_count h scid len dir user_data c)"
proof -
  have media: "keeps_len c (bind_result (if \<not> b then a2dp_stream_start i len dir user_data c else Inr c) (\<lambda>c.
      let conn = cx_conn_hash c ! i in Inr (set_conn i (conn\<lparr>cp_a2dp_packet_count := cp_a2dp_packet_count conn + 1\<rparr>) c)))" for b i
    by (rule keeps_len_bindI [OF assms(1)]) (use stream_start_keeps [OF assms] in \<open>auto simp: Let_def\<close>)
  define body where "body i a b k = bind_result (if a then bind_result (if \<not> b then a2dp_stream_start i len dir user_data c else Inr c) (\<lambda>c.
      let conn = cx_conn_hash c ! i in Inr (set_conn i (conn\<lparr>cp_a2dp_packet_count := cp_a2dp_packet_count conn + 1\<rparr>) c)) else Inr c)
      (\<lambda>c. let conn = cx_conn_hash c ! i in Inr (if k then set_conn i (conn\<lparr>cp_pan_packet_count := cp_pan_packet_count conn + 1\<rparr>) c else c))"
    for a b k i
  have main: "keeps_len c (body i a b k)" for a b k i
    unfolding body_def by (rule keeps_len_bindI [OF assms(1)]) (use media in \<open>auto simp: Let_def\<close>)
  let ?j = "if \<not> dir then find_profile_by_handle_scid c h scid else find_profile_by_handle_dcid c h scid"
  consider (a) "find_connection_by_handle c h = None" | (b) i where "find_connection_by_handle c h = Some i" "cp_type (cx_conn_hash c ! i) \<noteq> 0"
    | (c) i where "find_connection_by_handle c h = Some i" "?j = None"
    | (d) i j where "find_connection_by_handle c h = Some i" "cp_type (cx_conn_hash c ! i) = 0" "?j = Some j"
    by (metis option.exhaust)
  then show ?thesis
  proof cases
    case (d i j)
    let ?p = "cx_profile_list c ! j"
    have "packets_count h scid len dir user_data c = body i (pi_profile_index ?p = profile_a2dp \<and> pi_flags ?p = A2DP_MEDIA)
        (is_profile_busy (cx_conn_hash c ! i) profile_a2dp) (pi_profile_index ?p = profile_pan)"
      unfolding packets_count_def d(1,3) by (simp add: body_def d(2) Let_def)
    with main show ?thesis by simp
  next
    case (c i)
    then show ?thesis unfolding packets_count_def c by simp
  qed (simp_all add: packets_count_def)
qed

text \<open>The timers.\<close>

lemma cond_state_keeps: "few_conns n c \<Longrightarrow> keeps_len c (if b then update_profile_state i k busy c else Inr c)"
  by (simp add: update_profile_state_keeps)

lemma a2dp_timeout_keeps: "few_conns n c \<Longrightarrow> keeps_len c (count_a2dp_packet_timeout i c)"
  unfolding count_a2dp_packet_timeout_def
  by (rule keeps_len_bindI, assumption) (auto intro!: keeps_len_bindI update_profile_state_keeps)

lemma pan_timeout_keeps: "few_conns n c \<Longrightarrow> keeps_len c (count_pan_packet_timeout i c)"
  unfolding count_pan_packet_timeout_def
  by (rule keeps_len_bindI, assumption) (auto intro!: update_profile_state_keeps)

lemma hogp_timeout_keeps: "few_conns n c \<Longrightarrow> keeps_len c (count_hogp_packet_timeout i c)"
  unfolding count_hogp_packet_timeout_def
proof -
  assume few: "few_conns n c"
  show "keeps_len c (bind_result (if cp_hogp_packet_count (cx_conn_hash c ! i) = 0 \<and> is_profile_busy (cx_conn_hash c ! i) profile_hogp
        then update_profile_state i profile_hogp False c else Inr c) (\<lambda>c.
     bind_result (Inr (set_conn i ((cx_conn_hash c ! i)\<lparr>cp_hogp_packet_count := 0\<rparr>) c)) (\<lambda>c.
     bind_result (if cp_voice_packet_count (cx_conn_hash c ! i) = 0 \<and> is_profile_busy (cx_conn_hash c ! i) profile_voice
        then update_profile_state i profile_voice False c else Inr c) (\<lambda>c.
     Inr (set_conn i ((cx_conn_hash c ! i)\<lparr>cp_voice_packet_count := 0, cp_hogp_work := True\<rparr>) c)))))"
    by (rule keeps_len_bindI [OF few cond_state_keeps [OF few]], rule keeps_len_bindI [OF _ set_conn_bind_keeps], assumption,
        rule keeps_len_bindI [OF _ cond_state_keeps], assumption, assumption, rule set_conn_bind_keeps)
qed

section \<open>The queues\<close>

lemma pool_inv_io:
  assumes "io_part c' = io_part c"
  shows "pool_inv c' = pool_inv c"
  by (simp add: pool_inv_def io_partD [OF assms])

lemma crx_inv_io:
  assumes "io_part c' = io_part c"
  shows "crx_inv tb c' = crx_inv tb c"
  by (cases tb) (simp_all add: crx_inv_def io_partD [OF assms])

definition coex_inv :: "rtl_coex_struct \<Rightarrow> bool" where
  "coex_inv c \<longleftrightarrow> crx_inv (cx_tbuff c) c \<and> pool_inv c"

lemma coex_inv_io:
  assumes "io_part c' = io_part c"
  shows "coex_inv c' = coex_inv c"
  by (simp add: coex_inv_def pool_inv_io [OF assms] crx_inv_io [OF assms] io_partD [OF assms])

lemma crx_inv_lists [simp]:
  "crx_inv tb (c\<lparr>cx_ev_used_list := a\<rparr>) = crx_inv tb c" "crx_inv tb (c\<lparr>cx_ev_free_list := a\<rparr>) = crx_inv tb c"
  "crx_inv tb (c\<lparr>cx_l2_used_list := b\<rparr>) = crx_inv tb c" "crx_inv tb (c\<lparr>cx_l2_free_list := b\<rparr>) = crx_inv tb c"
  by (cases tb; simp add: crx_inv_def)+

text \<open>The work on the events empties the queue and gives every node back.\<close>

lemma ev_work_ok:
  assumes "coex_inv c" "few_conns (length (cx_ev_used_list c)) c"
  shows "\<exists>c'. rtl_ev_work c = Some (Inr c') \<and> coex_inv c' \<and> cx_ev_used_list c' = [] \<and>
    length (cx_ev_free_list c') = length (cx_ev_used_list c) + length (cx_ev_free_list c)"
  using assms
proof (induction "length (cx_ev_used_list c)" arbitrary: c rule: less_induct)
  case less
  show ?case
  proof (cases "cx_ev_used_list c")
    case Nil
    with less.prems show ?thesis by (subst rtl_ev_work.simps) simp
  next
    case (Cons ev evs)
    let ?c = "c\<lparr>cx_ev_used_list := evs\<rparr>"
    have len: "length (ev_data ev) = MAX_LEN_OF_HCI_EV" using less.prems(1) Cons by (simp add: coex_inv_def pool_inv_def)
    have few: "few_conns 1 ?c" using less.prems(2) Cons by (simp add: few_conns_def)
    from parse_event_data_keeps [OF len few] obtain c1 where c1: "rtk_parse_event_data (ev_data ev) ?c = Inr c1"
        "io_part c1 = io_part ?c" "length (cx_conn_hash c1) \<le> length (cx_conn_hash c) + 1"
      by (auto simp: keeps_def)
    let ?c2 = "c1\<lparr>cx_ev_free_list := cx_ev_free_list c1 @ [ev]\<rparr>"
    note io = io_partD [OF c1(2)]
    have c2: "coex_inv ?c2" "few_conns (length (cx_ev_used_list ?c2)) ?c2"
      using less.prems Cons c1(3) crx_inv_io [OF c1(2)] by (auto simp: coex_inv_def pool_inv_def few_conns_def io)
    have "rtl_ev_work c = rtl_ev_work ?c2" using Cons c1(1) by (subst rtl_ev_work.simps) simp
    with less.hyps [OF _ c2] Cons show ?thesis by (simp add: io)
  qed
qed

lemma l2_work_ok:
  assumes "coex_inv c" "few_conns n c"
  shows "\<exists>c'. rtl_l2_work c = Some (Inr c') \<and> coex_inv c' \<and> cx_l2_used_list c' = [] \<and>
    length (cx_l2_free_list c') = length (cx_l2_used_list c) + length (cx_l2_free_list c)"
  using assms
proof (induction "length (cx_l2_used_list c)" arbitrary: c rule: less_induct)
  case less
  show ?case
  proof (cases "cx_l2_used_list c")
    case Nil
    with less.prems show ?thesis by (subst rtl_l2_work.simps) simp
  next
    case (Cons l2 l2s)
    let ?c = "c\<lparr>cx_l2_used_list := l2s\<rparr>"
    have len: "length (l2_data l2) = L2_MAX_SUBSEC_LEN" using less.prems(1) Cons by (simp add: coex_inv_def pool_inv_def)
    have few: "few_conns n ?c" using less.prems(2) by (simp add: few_conns_def)
    from process_l2_sig_keeps [OF len few] obtain c1 where c1: "rtl_process_l2_sig l2 ?c = Inr c1"
        "io_part c1 = io_part ?c" "length (cx_conn_hash c1) = length (cx_conn_hash c)"
      by (auto simp: keeps_len_def)
    let ?c2 = "c1\<lparr>cx_l2_free_list := cx_l2_free_list c1 @ [l2]\<rparr>"
    note io = io_partD [OF c1(2)]
    have c2: "coex_inv ?c2" "few_conns n ?c2"
      using less.prems Cons c1(3) crx_inv_io [OF c1(2)] by (auto simp: coex_inv_def pool_inv_def few_conns_def io)
    have "rtl_l2_work c = rtl_l2_work ?c2" using Cons c1(1) by (subst rtl_l2_work.simps) simp
    with less.hyps [OF _ c2] Cons show ?thesis by (simp add: io)
  qed
qed

text \<open>Receiving an event, whatever the bytes.\<close>

lemma filter_total: "length bb = HCI_MAX_EVENT_SIZE \<Longrightarrow> \<exists>out. ev_filter_out bb = Inr out"
proof -
  assume "length bb = HCI_MAX_EVENT_SIZE"
  then have r: "i < 6 \<Longrightarrow> rd bb i = Inr (bb ! i)" for i by (simp add: coex_sizes)
  have "ev_filter_out bb \<noteq> Inl e" for e
    by (simp add: ev_filter_out_def cmd_cmplt_filter_out_def cmd_status_filter_out_def rd16_def r)
  then show ?thesis by (cases "ev_filter_out bb") auto
qed

lemma evt_enqueue_total:
  assumes "length bb = HCI_MAX_EVENT_SIZE" "pool_inv c"
  shows "\<exists>c'. rtk_btcoex_evt_enqueue bb count c = Inr c' \<and> pool_inv c' \<and> cx_back_buff c' = cx_back_buff c \<and>
    cx_conn_hash c' = cx_conn_hash c"
proof -
  obtain out where "ev_filter_out bb = Inr out" using filter_total [OF assms(1)] by blast
  then show ?thesis
    using assms
    by (cases out; cases "cx_ev_free_list c")
       (auto simp: rtk_btcoex_evt_enqueue_def rtl_ev_node_get_def rtl_ev_node_to_used_def pool_inv_def coex_sizes Let_def)
qed

lemma parse_event_total:
  assumes "coex_inv c"
  shows "\<exists>c'. rtk_btcoex_parse_event buffer c = Some (Inr c') \<and> coex_inv c'"
proof -
  have "\<exists>tb' c'. parse_event_loop tb buffer c = Some (Inr (tb', c')) \<and> crx_inv tb' c' \<and> pool_inv c'"
    if "crx_inv tb c" "pool_inv c" for tb c
    using that
  proof (induction "length buffer" arbitrary: tb buffer c rule: less_induct)
    case less
    show ?case
    proof (cases "buffer = []")
      case True
      with less.prems show ?thesis by (simp add: parse_event_loop.simps)
    next
      case False
      with less.prems(1) show ?thesis
      proof (cases rule: parse_event_iter_cases)
        case (more t' buffer' c')
        with False have l: "parse_event_loop tb buffer c = parse_event_loop (Some t') buffer' c'"
          by (subst parse_event_loop.simps) simp
        from less.hyps [OF more(4,2)] less.prems(2) more(7) show ?thesis unfolding l by simp
      next
        case (complete e buffer' c1)
        from evt_enqueue_total [OF complete(7), of c1 "cx_elen c1"] less.prems(2) complete(11) obtain c2 where c2:
            "rtk_btcoex_evt_enqueue (cx_back_buff c1) (cx_elen c1) c1 = Inr c2" "pool_inv c2" "cx_back_buff c2 = cx_back_buff c1"
          by auto
        let ?c = "c2\<lparr>cx_elen := 0\<rparr>"
        have "parse_event_loop tb buffer c = parse_event_loop None buffer' ?c"
          using False complete(1) c2(1) by (subst parse_event_loop.simps) simp
        moreover have "crx_inv None ?c" "pool_inv ?c" using complete(7) c2 by (simp_all add: crx_inv_def)
        ultimately show ?thesis using less.hyps [OF complete(5)] by simp
      qed
    qed
  qed
  from this [of "cx_tbuff c" c] assms obtain tb' c' where l: "parse_event_loop (cx_tbuff c) buffer c = Some (Inr (tb', c'))"
      "crx_inv tb' c'" "pool_inv c'" by (auto simp: coex_inv_def)
  then have "coex_inv (c'\<lparr>cx_tbuff := tb'\<rparr>)"
    by (auto simp: coex_inv_def crx_inv_def split: option.splits if_splits)
  with l(1) assms show ?thesis by (simp add: rtk_btcoex_parse_event_def)
qed

end
