(* ===== verification/Coex_Track.thy ===== *)
theory Coex_Track
  imports Coex_Safety
begin

text \<open>
  What the tracked data always satisfies: a profile with users is in the bitmap that is reported to
  the firmware. The statement is about every connection, and each operation keeps it when it returns.
\<close>

definition conns_all :: "(rtk_conn_prof \<Rightarrow> bool) \<Rightarrow> rtl_coex_struct \<Rightarrow> bool" where
  "conns_all P c \<longleftrightarrow> (\<forall>conn \<in> set (cx_conn_hash c). P conn)"

definition reported :: "rtk_conn_prof \<Rightarrow> bool" where
  "reported conn \<longleftrightarrow> (\<forall>k. k \<noteq> profile_hid_interval \<longrightarrow> cp_profile_refcount conn k \<noteq> 0 \<longrightarrow> is_profile_connected conn k)"

lemma reportedD: "reported conn \<Longrightarrow> k \<noteq> profile_hid_interval \<Longrightarrow> cp_profile_refcount conn k \<noteq> 0 \<Longrightarrow> bit (cp_profile_bitmap conn) (profile_bit k)"
  by (simp add: reported_def is_profile_connected_def)

section \<open>Connections\<close>

lemma reported_cong:
  "cp_profile_bitmap conn' = cp_profile_bitmap conn \<Longrightarrow> cp_profile_refcount conn' = cp_profile_refcount conn \<Longrightarrow> reported conn' = reported conn"
  by (simp add: reported_def is_profile_connected_def)

lemma setup_timer_frame [simp]:
  "cp_profile_bitmap (rtk_check_setup_timer k conn) = cp_profile_bitmap conn"
  "cp_profile_status (rtk_check_setup_timer k conn) = cp_profile_status conn"
  "cp_profile_refcount (rtk_check_setup_timer k conn) = cp_profile_refcount conn"
  "cp_handle (rtk_check_setup_timer k conn) = cp_handle conn" "cp_type (rtk_check_setup_timer k conn) = cp_type conn"
  by (simp_all add: rtk_check_setup_timer_def Let_def)

lemma del_timer_frame [simp]:
  "cp_profile_bitmap (rtk_check_del_timer k conn) = cp_profile_bitmap conn"
  "cp_profile_status (rtk_check_del_timer k conn) = cp_profile_status conn"
  "cp_profile_refcount (rtk_check_del_timer k conn) = cp_profile_refcount conn"
  "cp_handle (rtk_check_del_timer k conn) = cp_handle conn" "cp_type (rtk_check_del_timer k conn) = cp_type conn"
  by (simp_all add: rtk_check_del_timer_def Let_def)

lemma bit_set_u16 [simp]: "bit (set_bit n (w :: u16)) m \<longleftrightarrow> bit w m \<or> (m = n \<and> n < 16)"
  by (auto simp: bit_set_bit_iff)

lemma bit_unset_u16 [simp]: "bit (unset_bit n (w :: u16)) m \<longleftrightarrow> bit w m \<and> m \<noteq> n"
  by (auto simp: bit_unset_bit_iff)

lemma reported_iff:
  "reported conn \<longleftrightarrow> (\<forall>k. k \<noteq> profile_hid_interval \<longrightarrow> cp_profile_refcount conn k \<noteq> 0 \<longrightarrow> bit (cp_profile_bitmap conn) (profile_bit k))"
  by (simp add: reported_def is_profile_connected_def)

lemma profile_bit_4 [simp]: "profile_bit k = 4 \<longleftrightarrow> k = profile_hid_interval"
  by (cases k) simp_all

lemma reported_add [intro]: "reported conn \<Longrightarrow> reported (profile_add k conn)"
  by (auto simp: reported_iff profile_add_def Let_def)

lemma reported_del [intro]: "reported conn \<Longrightarrow> cp_profile_refcount conn k \<noteq> 0 \<Longrightarrow> reported (profile_del k conn)"
  by (cases "cp_profile_refcount conn k - 1 = 0"; cases "k = profile_hid")
     (auto simp: reported_iff profile_del_def Let_def simp del: profile_bit.simps intro: profile_bit_inj [THEN iffD1])

lemma reported_disconn: "reported conn \<Longrightarrow> reported (snd (disconn_profile k conn))"
  by (cases "cp_profile_refcount conn k - 1 = 0") (auto simp: reported_iff disconn_profile_def Let_def)

lemma reported_reset [simp]: "reported (conn_reset t conn)"
  by (simp add: reported_def conn_reset_def)

lemma reported_disconn_loop:
  "reported conn \<Longrightarrow> reported (fst (snd (disconn_loop handle profs conn need)))"
proof (induction handle profs conn need rule: disconn_loop.induct)
  case (2 handle prof profs conn need)
  show ?case
  proof (cases "handle = pi_handle prof")
    case True
    obtain n1 conn1 where d1: "disconn_profile (pi_profile_index prof) conn = (n1, conn1)" by force
    obtain n2 conn2 where d2: "(if pi_flags prof AND A2DP_MEDIA \<noteq> 0 \<and> is_profile_connected conn1 profile_sink
        then disconn_profile profile_sink conn1 else (False, conn1)) = (n2, conn2)" by force
    have r1: "reported conn1" using reported_disconn [OF 2(3)] d1 by (metis snd_conv)
    have "reported conn2" using reported_disconn [OF r1, of profile_sink] r1 d2 by (metis snd_conv)
    then have "reported (fst (snd (disconn_loop handle profs conn2 (need \<or> n1 \<or> n2))))"
      using 2(1) [OF True d1 [symmetric] d2 [symmetric]] by simp
    then show ?thesis by (simp only: disconn_loop.simps if_P [OF True] d1 d2 prod.case)
  next
    case False
    with 2 show ?thesis by (auto split: prod.split)
  qed
qed simp

section \<open>Operations\<close>

lemma conns_all_set: "conns_all P c \<Longrightarrow> (i < length (cx_conn_hash c) \<Longrightarrow> P (cx_conn_hash c ! i) \<Longrightarrow> P conn) \<Longrightarrow> conns_all P (set_conn i conn c)"
  by (cases "i < length (cx_conn_hash c)") (auto simp: conns_all_def set_conn_def set_conv_nth nth_list_update)

lemma notify_conns: "rtk_notify_profileinfo_to_fw c = Inr c' \<Longrightarrow> cx_conn_hash c' = cx_conn_hash c"
  by (auto simp: rtk_notify_profileinfo_to_fw_def Let_def next_mem_def bind_result_eq_Inr split: if_splits prod.splits)

lemma notify_all: "conns_all P c \<Longrightarrow> returns (conns_all P) (rtk_notify_profileinfo_to_fw c)"
  by (rule returnsI) (simp add: conns_all_def notify_conns)

lemma state_all:
  assumes "conns_all reported c"
  shows "returns (conns_all reported) (update_profile_state i k b c)"
  using assms
  by (auto simp: update_profile_state_def Let_def intro!: notify_all conns_all_set elim: reported_cong [THEN iffD1, rotated 2])

lemma connection_all:
  assumes "conns_all reported c"
  shows "returns (conns_all reported) (update_profile_connection i k b c)"
  using assms by (auto simp: update_profile_connection_def Let_def intro!: notify_all conns_all_set)

lemma reported_hid:
  "reported conn \<Longrightarrow> reported (conn\<lparr>cp_profile_bitmap := set_bit 4 (cp_profile_bitmap conn), cp_profile_status := s,
     cp_profile_refcount := (cp_profile_refcount conn)(profile_hid_interval := r)\<rparr>)"
  "reported conn \<Longrightarrow> reported (conn\<lparr>cp_profile_bitmap := unset_bit 4 (cp_profile_bitmap conn), cp_profile_status := s,
     cp_profile_refcount := (cp_profile_refcount conn)(profile_hid_interval := r)\<rparr>)"
  by (auto simp: reported_def is_profile_connected_def)

lemma hid_all:
  assumes "conns_all reported c"
  shows "returns (conns_all reported) (update_hid_active_state h iv c)"
  unfolding update_hid_active_state_def Let_def profile_bit.simps
  using notify_all [OF conns_all_set [OF assms reported_hid(1)]] notify_all [OF conns_all_set [OF assms reported_hid(2)]] assms
  by (auto split: option.split)

lemmas track_all = state_all connection_all hid_all

lemma returns_bind_all: "returns P m \<Longrightarrow> (\<And>x. P x \<Longrightarrow> returns P (f x)) \<Longrightarrow> returns P (bind_result m f)"
  by (cases m) simp_all

lemma conns_all_frame [simp]:
  "conns_all P (c\<lparr>cx_profile_list := a\<rparr>) = conns_all P c" "conns_all P (c\<lparr>cx_ispaging := b\<rparr>) = conns_all P c"
  "conns_all P (c\<lparr>cx_ispairing := b\<rparr>) = conns_all P c" "conns_all P (c\<lparr>cx_isinquirying := b\<rparr>) = conns_all P c"
  "conns_all P (c\<lparr>cx_hci_reversion := d\<rparr>) = conns_all P c" "conns_all P (c\<lparr>cx_lmp_subversion := d\<rparr>) = conns_all P c"
  "conns_all P (c\<lparr>cx_profileinfo_cmd := b\<rparr>) = conns_all P c"
  "conns_all P (rtk_vendor_cmd_to_fw opc len p c) = conns_all P c" "conns_all P (delete_profile_from_hash j c) = conns_all P c"
  "conns_all P (handle_l2cap_con_req h psm scid dir c) = conns_all P c"
  by (simp_all add: conns_all_def delete_profile_from_hash_def)

lemma con_rsp_all: "conns_all reported c \<Longrightarrow> returns (conns_all reported) (handle_l2cap_con_rsp h dcid scid dir res c)"
  by (auto simp: handle_l2cap_con_rsp_def Let_def split: option.split intro!: connection_all)

lemma discon_req_all: "conns_all reported c \<Longrightarrow> returns (conns_all reported) (handle_l2cap_discon_req h dcid scid dir c)"
  by (auto simp: handle_l2cap_discon_req_def Let_def simp del: returns_simps(3) split: option.split intro!: connection_all returns_bind_all)

lemma conn_at_all:
  assumes "conns_all reported c" "conn_at handle c = (Some i, c')"
  shows "conns_all reported (set_conn i (conn_reset t conn) c')"
proof -
  have "\<forall>j < length (cx_conn_hash c'). j \<noteq> i \<longrightarrow> reported (cx_conn_hash c' ! j)"
    using assms
    by (auto simp: conn_at_def conns_all_def allocate_connection_by_handle_def next_mem_def add_connection_to_hash_def nth_append
        split: option.splits prod.splits if_splits)
  then have "reported ((cx_conn_hash c')[i := conn_reset t conn] ! j)" if "j < length (cx_conn_hash c')" for j
    using that by (cases "i = j") simp_all
  then show ?thesis by (auto simp: conns_all_def set_conn_def in_set_conv_nth)
qed

lemma conn_at_none: "conns_all P c \<Longrightarrow> conn_at handle c = (None, c') \<Longrightarrow> conns_all P c'"
  by (auto simp: conn_at_def conns_all_def allocate_connection_by_handle_def next_mem_def split: option.splits prod.splits if_splits)

lemma returns_read: "(\<And>x. returns P (f x)) \<Longrightarrow> returns P (bind_result m f)"
  by (cases m) simp_all

lemma new_connection_all:
  assumes "conns_all reported c" "\<And>i c'. conns_all reported (set_conn i (conn_reset t (cx_conn_hash c' ! i)) c') \<Longrightarrow>
    returns (conns_all reported) (f i c')"
  shows "returns (conns_all reported) (case conn_at handle c of (None, c) \<Rightarrow> Inr c | (Some i, c) \<Rightarrow> f i c)"
  using assms conn_at_all [OF assms(1)] conn_at_none [OF assms(1)] by (auto split: prod.split option.split)

lemma connection_complete_all:
  assumes "conns_all reported c"
  shows "returns (conns_all reported) (rtk_handle_connection_complete_evt d c)"
proof -
  define c0 where "c0 = (if cx_ispaging c then c\<lparr>cx_ispaging := False\<rparr> else c)"
  have c0: "conns_all reported c0" using assms by (simp add: c0_def)
  have "returns (conns_all reported) (case conn_at h c0 of (None, c) \<Rightarrow> Inr c
      | (Some i, c) \<Rightarrow> if b then update_profile_connection i profile_sco True (set_conn i (conn_reset 1 (cx_conn_hash c ! i)) c)
          else Inr (set_conn i (conn_reset 0 (cx_conn_hash c ! i)) c))" for h b
  proof (cases b)
    case True
    have "returns (conns_all reported) (case conn_at h c0 of (None, c) \<Rightarrow> Inr c
        | (Some i, c) \<Rightarrow> update_profile_connection i profile_sco True (set_conn i (conn_reset 1 (cx_conn_hash c ! i)) c))"
      by (rule new_connection_all [OF c0, of 1]) (rule connection_all)
    with True show ?thesis by (simp cong: option.case_cong)
  next
    case False
    moreover have "returns (conns_all reported) (case conn_at h c0 of (None, c) \<Rightarrow> Inr c
        | (Some i, c) \<Rightarrow> Inr (set_conn i (conn_reset 0 (cx_conn_hash c ! i)) c))"
      by (rule new_connection_all [OF c0, of 0]) simp
    ultimately show ?thesis by (simp cong: option.case_cong)
  qed
  then show ?thesis
    unfolding rtk_handle_connection_complete_evt_def c0_def [symmetric] using c0 by (auto simp del: returns_simps(3) intro!: returns_read)
qed

lemma le_connection_complete_all:
  assumes "conns_all reported c"
  shows "returns (conns_all reported) (rtk_handle_le_connection_complete_evt enh d c)"
proof -
  define c0 where "c0 = (if cx_ispaging c then c\<lparr>cx_ispaging := False\<rparr> else c)"
  have c0: "conns_all reported c0" using assms by (simp add: c0_def)
  have "returns (conns_all reported) (case conn_at h c0 of (None, c) \<Rightarrow> Inr c
      | (Some i, c) \<Rightarrow> bind_result (update_profile_connection i profile_hid True (set_conn i (conn_reset 2 (cx_conn_hash c ! i)) c))
          (\<lambda>c. update_hid_active_state h iv c))" for h iv
    by (rule new_connection_all [OF c0, of 2]) (auto simp del: returns_simps(3) intro!: returns_bind_all connection_all hid_all)
  then show ?thesis
    unfolding rtk_handle_le_connection_complete_evt_def c0_def [symmetric] using c0 by (auto simp del: returns_simps(3) intro!: returns_read)
qed

lemma disconn_acl_all: "conns_all reported c \<Longrightarrow> returns (conns_all reported) (disconn_acl handle i c)"
proof -
  assume c: "conns_all reported c"
  obtain kept conn need where l: "disconn_loop handle (cx_profile_list c) (cx_conn_hash c ! i) False = (kept, conn, need)"
    by (metis prod_cases3)
  have "conns_all reported (set_conn i conn (c\<lparr>cx_profile_list := kept\<rparr>))"
    by (rule conns_all_set) (use c reported_disconn_loop [of "cx_conn_hash c ! i" handle "cx_profile_list c" False] l in auto)
  then show ?thesis by (auto simp: disconn_acl_def l Let_def intro: notify_all)
qed

lemma delete_all: "conns_all P c \<Longrightarrow> conns_all P (delete_connection_from_hash i c)"
  by (auto simp: conns_all_def delete_connection_from_hash_def dest: in_set_takeD in_set_dropD)

lemma disconnect_complete_all:
  assumes "conns_all reported c"
  shows "returns (conns_all reported) (rtk_handle_disconnect_complete_evt d c)"
proof -
  define c0 where "c0 = (if cx_ispairing c then c\<lparr>cx_ispairing := False\<rparr> else c)"
  have c0: "conns_all reported c0" using assms by (simp add: c0_def)
  have "returns (conns_all reported) (bind_result
       (if t = 0 then disconn_acl h i c0 else if t = 1 then update_profile_connection i profile_sco False c0
        else if t = 2 then update_profile_connection i profile_hid False c0 else Inr c0) (\<lambda>c. Inr (delete_connection_from_hash i c)))"
    for t :: byte and h i
    by (rule returns_bind_all) (use c0 in \<open>auto intro: disconn_acl_all connection_all delete_all\<close>)
  then show ?thesis
    unfolding rtk_handle_disconnect_complete_evt_def c0_def [symmetric] Let_def using c0
    by (auto simp del: returns_simps(3) intro!: returns_read split: option.split)
qed

lemma event_data_all:
  assumes "conns_all reported c"
  shows "returns (conns_all reported) (rtk_parse_event_data d c)"
proof -
  have simple: "conns_all reported (rtk_handle_inquiry_complete c)" "conns_all reported (rtk_handle_pin_code_req c)"
      "conns_all reported (rtk_handle_io_capa_req c)" "conns_all reported (rtk_handle_auth_request c)"
      "conns_all reported (rtk_handle_link_key_notify c)"
    using assms by (simp_all add: rtk_handle_inquiry_complete_def rtk_handle_pin_code_req_def rtk_handle_io_capa_req_def
        rtk_handle_auth_request_def rtk_handle_link_key_notify_def)
  have "returns (conns_all reported) (rtk_handle_mode_change_evt d c)" "returns (conns_all reported) (rtk_handle_cmd_complete_evt d c)"
      "returns (conns_all reported) (rtk_handle_cmd_status_evt d c)" "returns (conns_all reported) (rtk_handle_le_meta_evt d c)"
      "returns (conns_all reported) (rtk_handle_specific_evt d c)"
    using assms hid_all [OF assms] le_connection_complete_all [OF assms]
    by (auto simp: rtk_handle_mode_change_evt_def rtk_handle_cmd_complete_evt_def rtk_handle_cmd_status_evt_def rtk_handle_le_meta_evt_def
        rtk_handle_le_connection_update_complete_evt_def rtk_handle_specific_evt_def Let_def simp del: returns_simps(3) intro!: returns_read)
  with simple connection_complete_all [OF assms] disconnect_complete_all [OF assms] assms show ?thesis
    unfolding rtk_parse_event_data_def by (intro returns_read) simp
qed

lemma l2_sig_all: "conns_all reported c \<Longrightarrow> returns (conns_all reported) (rtl_process_l2_sig l2 c)"
  unfolding rtl_process_l2_sig_def Let_def
  by (auto simp del: returns_simps(3) intro!: returns_read con_rsp_all discon_req_all)

section \<open>Counting\<close>

lemma reported_more: "reported conn \<Longrightarrow> reported (conn\<lparr>cp_profile_bitmap := set_bit n (cp_profile_bitmap conn)\<rparr>)"
  by (auto simp: reported_iff)

lemma reported_counters [simp]:
  "reported (conn\<lparr>cp_a2dp_packet_count := x\<rparr>) = reported conn" "reported (conn\<lparr>cp_pan_packet_count := x\<rparr>) = reported conn"
  "reported (conn\<lparr>cp_hogp_packet_count := x\<rparr>) = reported conn" "reported (conn\<lparr>cp_voice_packet_count := x\<rparr>) = reported conn"
  "reported (conn\<lparr>cp_a2dp_work := b\<rparr>) = reported conn" "reported (conn\<lparr>cp_pan_work := b\<rparr>) = reported conn"
  "reported (conn\<lparr>cp_hogp_work := b\<rparr>) = reported conn"
  by (simp_all add: reported_iff)

lemma sink_start_all: "conns_all reported c \<Longrightarrow> returns (conns_all reported) (a2dp_sink_start i c)"
  unfolding a2dp_sink_start_def Let_def
  by (intro returns_bind_all) (auto intro!: state_all connection_all conns_all_set reported_more)

lemma bitpool_all: "conns_all P c \<Longrightarrow> returns (conns_all P) (a2dp_bitpool len user_data c)"
  by (auto simp: a2dp_bitpool_def simp del: returns_simps(3) intro!: returns_read)

lemma stream_start_all: "conns_all reported c \<Longrightarrow> returns (conns_all reported) (a2dp_stream_start i len dir user_data c)"
  unfolding a2dp_stream_start_def
  by (intro returns_bind_all) (auto intro: state_all sink_start_all bitpool_all)

lemma packets_count_all: "conns_all reported c \<Longrightarrow> returns (conns_all reported) (packets_count h scid len dir user_data c)"
  unfolding packets_count_def Let_def
  by (cases "if \<not> dir then find_profile_by_handle_scid c h scid else find_profile_by_handle_dcid c h scid";
      cases "find_connection_by_handle c h")
     (auto simp del: returns_simps(3) simp: if_distrib intro!: returns_bind_all stream_start_all conns_all_set)

lemma l2_queue_all: "conns_all P c \<Longrightarrow> returns (conns_all P) (case rtl_l2_node_get c of (None, c) \<Rightarrow> Inr c
    | (Some l2, c) \<Rightarrow> Inr ((rtl_l2_node_to_used (f l2) c)\<lparr>cx_l2_work := True\<rparr>))"
  by (auto simp: rtl_l2_node_get_def rtl_l2_node_to_used_def conns_all_def split: list.split)

lemma l2_data_all: "conns_all reported c \<Longrightarrow> returns (conns_all reported) (rtl_l2_data_process pp dir c)"
  unfolding rtl_l2_data_process_def Let_def
  by (auto simp del: returns_simps(3) split: option.split intro!: returns_read packets_count_all l2_queue_all)

lemma timeouts_all:
  assumes "conns_all reported c"
  shows "returns (conns_all reported) (count_a2dp_packet_timeout i c)" "returns (conns_all reported) (count_pan_packet_timeout i c)"
    "returns (conns_all reported) (count_hogp_packet_timeout i c)"
  unfolding count_a2dp_packet_timeout_def count_pan_packet_timeout_def count_hogp_packet_timeout_def
  using assms by (auto simp del: returns_simps(3) intro!: returns_bind_all state_all conns_all_set)

section \<open>Loops\<close>

lemma conns_all_queues [simp]:
  "conns_all P (c\<lparr>cx_ev_used_list := a\<rparr>) = conns_all P c" "conns_all P (c\<lparr>cx_ev_free_list := a\<rparr>) = conns_all P c"
  "conns_all P (c\<lparr>cx_l2_used_list := b\<rparr>) = conns_all P c" "conns_all P (c\<lparr>cx_l2_free_list := b\<rparr>) = conns_all P c"
  by (simp_all add: conns_all_def)

lemma returns_Inr: "returns P m \<Longrightarrow> m = Inr x \<Longrightarrow> P x"
  by simp

lemma ev_work_all:
  assumes "conns_all reported c" "rtl_ev_work c = Some r"
  shows "returns (conns_all reported) r"
proof -
  have "conns_all reported c \<longrightarrow> returns (conns_all reported) r"
  proof (rule rtl_ev_work.raw_induct [OF _ assms(2)])
    fix work c r
    assume IH: "\<And>c r. work c = Some r \<Longrightarrow> conns_all reported c \<longrightarrow> returns (conns_all reported) r"
      and r: "(case cx_ev_used_list c of [] \<Rightarrow> Some (Inr c)
        | x # xs \<Rightarrow> case rtk_parse_event_data (ev_data x) (c\<lparr>cx_ev_used_list := xs\<rparr>) of Inl e \<Rightarrow> Some (Inl e)
          | Inr c \<Rightarrow> work (c\<lparr>cx_ev_free_list := cx_ev_free_list c @ [x]\<rparr>)) = Some r"
    show "conns_all reported c \<longrightarrow> returns (conns_all reported) r"
      using r by (auto split: list.splits sum.splits dest!: IH dest: returns_Inr [OF event_data_all, rotated] intro!: event_data_all)
  qed
  with assms(1) show ?thesis by blast
qed

lemma l2_work_all:
  assumes "conns_all reported c" "rtl_l2_work c = Some r"
  shows "returns (conns_all reported) r"
proof -
  have "conns_all reported c \<longrightarrow> returns (conns_all reported) r"
  proof (rule rtl_l2_work.raw_induct [OF _ assms(2)])
    fix work c r
    assume IH: "\<And>c r. work c = Some r \<Longrightarrow> conns_all reported c \<longrightarrow> returns (conns_all reported) r"
      and r: "(case cx_l2_used_list c of [] \<Rightarrow> Some (Inr c)
        | x # xs \<Rightarrow> case rtl_process_l2_sig x (c\<lparr>cx_l2_used_list := xs\<rparr>) of Inl e \<Rightarrow> Some (Inl e)
          | Inr c \<Rightarrow> work (c\<lparr>cx_l2_free_list := cx_l2_free_list c @ [x]\<rparr>)) = Some r"
    show "conns_all reported c \<longrightarrow> returns (conns_all reported) r"
      using r by (auto split: list.splits sum.splits dest!: IH dest: returns_Inr [OF l2_sig_all, rotated] intro!: l2_sig_all)
  qed
  with assms(1) show ?thesis by blast
qed

lemma enqueue_conns: "returns (\<lambda>c'. cx_conn_hash c' = cx_conn_hash c) (rtk_btcoex_evt_enqueue bb count c)"
  unfolding rtk_btcoex_evt_enqueue_def rtl_ev_node_get_def rtl_ev_node_to_used_def Let_def
  by (rule returns_read) (simp split: list.split)

lemma parse_event_copy_conns: "returns (\<lambda>(b, tb, buffer, c'). cx_conn_hash c' = cx_conn_hash c) (parse_event_copy t n buffer c)"
proof -
  have enq: "returns (\<lambda>(b, tb, buffer, c'). cx_conn_hash c' = cx_conn_hash c)
      (bind_result (rtk_btcoex_evt_enqueue bb count c1) (\<lambda>c. Inr (True, None, buffer, c\<lparr>cx_elen := 0\<rparr>)))"
    if "cx_conn_hash c1 = cx_conn_hash c" for bb count c1 buffer
    using enqueue_conns [of c1 bb count] that by simp
  show ?thesis unfolding parse_event_copy_def Let_def by (auto simp del: returns_simps(3) intro!: enq)
qed

lemma parse_event_iter_conns: "returns (\<lambda>(b, tb, buffer, c'). cx_conn_hash c' = cx_conn_hash c) (parse_event_iter tb buffer c)"
  using parse_event_copy_conns [of "c\<lparr>cx_pkt_type := 0x04, cx_expect := 2, cx_tbuff := None, cx_elen := 0\<rparr>"]
  by (auto simp: parse_event_iter_def parse_event_copy_conns split: option.split)

lemma parse_event_conns:
  assumes "rtk_btcoex_parse_event buffer c = Some (Inr c')"
  shows "cx_conn_hash c' = cx_conn_hash c"
proof -
  have "returns (\<lambda>x. cx_conn_hash (snd x) = cx_conn_hash c) r" if "parse_event_loop tb buffer c = Some r" for tb r
  proof (rule parse_event_loop.raw_induct [OF _ that])
    fix loop tb buffer c r
    assume IH: "\<And>tb buffer c r. loop tb buffer c = Some r \<Longrightarrow> returns (\<lambda>x. cx_conn_hash (snd x) = cx_conn_hash c) r"
      and r: "(if buffer = [] then Some (Inr (tb, c)) else case parse_event_iter tb buffer c of Inl e \<Rightarrow> Some (Inl e)
        | Inr (again, tb, buffer, c) \<Rightarrow> if again then loop tb buffer c else Some (Inr (tb, c))) = Some r"
    show "returns (\<lambda>x. cx_conn_hash (snd x) = cx_conn_hash c) r"
    proof (cases "parse_event_iter tb buffer c")
      case (Inr q)
      obtain again tb1 buffer1 c1 where q: "q = (again, tb1, buffer1, c1)" by (rule prod_cases4)
      have "cx_conn_hash c1 = cx_conn_hash c" using parse_event_iter_conns [of c tb buffer] by (simp add: Inr q)
      with r show ?thesis using IH [of tb1 buffer1 c1 r] by (cases "buffer = []"; cases again) (auto simp: Inr q)
    qed (use r in \<open>auto split: if_splits\<close>)
  qed
  note loop = this
  show ?thesis
  proof (cases "cx_running c")
    case True
    with assms obtain tb1 c1 where "parse_event_loop (cx_tbuff c) buffer c = Some (Inr (tb1, c1))" "c' = c1\<lparr>cx_tbuff := tb1\<rparr>"
      by (cases "parse_event_loop (cx_tbuff c) buffer c") (auto simp: rtk_btcoex_parse_event_def split: sum.split_asm)
    with loop [of "cx_tbuff c" "Inr (tb1, c1)"] show ?thesis by simp
  qed (use assms in \<open>simp add: rtk_btcoex_parse_event_def\<close>)
qed

end
