(* ===== verification/Coex_Reach.thy ===== *)
theory Coex_Reach
  imports Coex_Track
begin

text \<open>
  The coexistence module as a state machine: the calls of the driver, the works and the timers in any
  order. Every state that can be reached satisfies the invariants of the pools, of the reassembly and
  of the tracked profiles, and every further call returns.
\<close>

section \<open>Operations\<close>

text \<open>
  The calls, what the work queue runs, and what the environment does: the device goes up or down, the
  coming allocations succeed with some contents or fail.
\<close>

datatype coex_op = CxProbe bool | CxOpen bool | CxClose | CxDevice bool | CxMemory "u16 option list"
  | CxCmd "byte list" | CxEvent "byte list" | CxDataTx "byte list" | CxDataRx "byte list"
  | CxEvWork | CxL2Work | CxTimerA2dp nat | CxTimerPan nat | CxTimerHogp nat

fun coex_op_run :: "coex_op \<Rightarrow> rtl_coex_struct \<Rightarrow> rtl_coex_struct result option" where
  "coex_op_run (CxProbe up) c = Some (Inr (rtk_btcoex_probe up c))"
| "coex_op_run (CxOpen up) c = Some (Inr (rtk_btcoex_open up c))"
| "coex_op_run CxClose c = Some (Inr (rtk_btcoex_close c))"
| "coex_op_run (CxDevice up) c = Some (Inr (c\<lparr>cx_hdev := map_option (\<lambda>_. up) (cx_hdev c)\<rparr>))"
| "coex_op_run (CxMemory mem) c = Some (Inr (c\<lparr>cx_mem := mem\<rparr>))"
| "coex_op_run (CxCmd b) c = Some (rtk_btcoex_parse_cmd b c)"
| "coex_op_run (CxEvent b) c = rtk_btcoex_parse_event b c"
| "coex_op_run (CxDataTx b) c = Some (rtk_btcoex_parse_l2cap_data_tx b c)"
| "coex_op_run (CxDataRx b) c = Some (rtk_btcoex_parse_l2cap_data_rx b c)"
| "coex_op_run CxEvWork c = rtl_ev_work (c\<lparr>cx_fw_work := False\<rparr>)"
| "coex_op_run CxL2Work c = rtl_l2_work (c\<lparr>cx_l2_work := False\<rparr>)"
| "coex_op_run (CxTimerA2dp i) c = Some (count_a2dp_packet_timeout i c)"
| "coex_op_run (CxTimerPan i) c = Some (count_pan_packet_timeout i c)"
| "coex_op_run (CxTimerHogp i) c = Some (count_hogp_packet_timeout i c)"

text \<open>
  What the callers guarantee. A command has its header, a disconnect command its parameters. A data packet
  has the header of ACL and of L2CAP, a byte of payload, and all of the L2CAP packet it announces.
  Works and timers run when they were queued.
\<close>

definition cmd_complete :: "byte list \<Rightarrow> bool" where
  "cmd_complete b \<longleftrightarrow> 3 \<le> length b \<and> (le16_of (b ! 0) (b ! 1) = 0x0406 \<longrightarrow> 6 \<le> length b)"

definition pdu_complete :: "byte list \<Rightarrow> bool" where
  "pdu_complete b \<longleftrightarrow> 9 \<le> length b \<and> 8 + unat (le16_of (b ! 4) (b ! 5)) \<le> length b"

fun coex_op_ok :: "coex_op \<Rightarrow> rtl_coex_struct \<Rightarrow> bool" where
  "coex_op_ok (CxCmd b) c = cmd_complete b"
| "coex_op_ok (CxDataTx b) c = pdu_complete b"
| "coex_op_ok (CxDataRx b) c = pdu_complete b"
| "coex_op_ok CxEvWork c = cx_fw_work c"
| "coex_op_ok CxL2Work c = cx_l2_work c"
| "coex_op_ok (CxTimerA2dp i) c = (i < length (cx_conn_hash c) \<and> cp_a2dp_work (cx_conn_hash c ! i))"
| "coex_op_ok (CxTimerPan i) c = (i < length (cx_conn_hash c) \<and> cp_pan_work (cx_conn_hash c ! i))"
| "coex_op_ok (CxTimerHogp i) c = (i < length (cx_conn_hash c) \<and> cp_hogp_work (cx_conn_hash c ! i))"
| "coex_op_ok _ c = True"

text \<open>
  A full queue of events can add 32 connections; 256 connections with profiles would overflow the
  eight-bit count of the report.
\<close>

definition conn_room :: "rtl_coex_struct \<Rightarrow> bool" where
  "conn_room c \<longleftrightarrow> length (cx_conn_hash c) + 32 < 256"

inductive coex_reach :: "rtl_coex_struct \<Rightarrow> bool" where
  start: "coex_reach (rtk_btcoex_init ok (coex_zero mem))"
| step: "coex_reach c \<Longrightarrow> coex_op_ok opn c \<Longrightarrow> conn_room c \<Longrightarrow> coex_op_run opn c = Some (Inr c') \<Longrightarrow> coex_reach c'"

lemma conn_room_few: "conn_room c \<longleftrightarrow> few_conns 32 c"
  by (simp add: conn_room_def few_conns_def)

section \<open>Data packets\<close>

lemma l2_queue_inv:
  assumes inv: "coex_inv c" and n: "n \<le> L2_MAX_SUBSEC_LEN" "n \<le> length pp"
  shows "\<exists>c'. (case rtl_l2_node_get c of (None, c) \<Rightarrow> Inr c
     | (Some l2, c) \<Rightarrow> Inr ((rtl_l2_node_to_used (l2\<lparr>l2_data := take n pp @ drop n (l2_data l2), l2_out := w\<rparr>) c)\<lparr>cx_l2_work := True\<rparr>)) = Inr c'
     \<and> coex_inv c'"
proof (cases "cx_buff_size c = 0 \<or> cx_l2_free_list c = []")
  case True
  with inv show ?thesis by (auto simp: rtl_l2_node_get_def)
next
  case False
  then obtain l2 l2s where f: "cx_l2_free_list c = l2 # l2s" "cx_buff_size c \<noteq> 0" by (cases "cx_l2_free_list c") auto
  let ?l2 = "l2\<lparr>l2_data := take n pp @ drop n (l2_data l2), l2_out := w\<rparr>"
  let ?c = "c\<lparr>cx_l2_free_list := l2s, cx_l2_used_list := cx_l2_used_list c @ [?l2], cx_l2_work := True\<rparr>"
  have len: "length (l2_data ?l2) = L2_MAX_SUBSEC_LEN" using inv n f by (simp add: coex_inv_def pool_inv_def)
  have "crx_inv (cx_tbuff ?c) ?c" using inv by (cases "cx_tbuff c") (simp_all add: coex_inv_def crx_inv_def)
  moreover have "pool_inv ?c" using inv f len by (auto simp: coex_inv_def pool_inv_def)
  ultimately show ?thesis using f by (simp add: rtl_l2_node_get_def rtl_l2_node_to_used_def coex_inv_def)
qed

lemma keeps_inv: "keeps_len c r \<Longrightarrow> coex_inv c \<Longrightarrow> \<exists>c'. r = Inr c' \<and> coex_inv c'"
  unfolding keeps_len_def using coex_inv_io by blast

lemma l2_data_ok:
  assumes inv: "coex_inv c" and few: "few_conns n c" and pp: "pdu_complete pp"
  shows "\<exists>c'. rtl_l2_data_process pp dir c = Inr c' \<and> coex_inv c'"
proof -
  let ?h = "le16_of (pp ! 0) (pp ! 1)" and ?len = "le16_of (pp ! 4) (pp ! 5)" and ?cid = "le16_of (pp ! 6) (pp ! 7)"
  have len: "i < length pp" if "i < 9" for i using pp that by (simp add: pdu_complete_def)
  have "?len > 100 \<longrightarrow> length (drop 8 pp) \<ge> 76"
    using pp by (auto simp: pdu_complete_def word_less_nat_alt)
  note cnt = keeps_inv [OF packets_count_keeps [OF few this] inv]
  note q = l2_queue_inv [OF inv, of "min (length pp mod 2 ^ 16) L2_MAX_SUBSEC_LEN" pp]
  have q: "\<exists>c'. (case rtl_l2_node_get c of (None, c) \<Rightarrow> Inr c
     | (Some l2, c) \<Rightarrow> Inr ((rtl_l2_node_to_used (l2\<lparr>l2_data := take (min (length pp mod 2 ^ 16) L2_MAX_SUBSEC_LEN) pp @
         drop (min (length pp mod 2 ^ 16) L2_MAX_SUBSEC_LEN) (l2_data l2), l2_out := w\<rparr>) c)\<lparr>cx_l2_work := True\<rparr>)) = Inr c' \<and> coex_inv c'" for w
    by (rule q) (simp_all add: min.coboundedI1 mod_less_eq_dividend)
  have r: "rd16 pp 0 = Inr ?h" "rd16 pp 4 = Inr ?len" "rd16 pp 6 = Inr ?cid" "rd pp 8 = Inr (pp ! 8)"
    using rd16_ok [of 0 pp] rd16_ok [of 4 pp] rd16_ok [of 6 pp] by (simp_all add: len eval_nat_numeral)
  show ?thesis
    unfolding rtl_l2_data_process_def r bind_result_Inr Let_def
    using q cnt inv by (auto split: option.split)
qed

section \<open>Every step\<close>

lemma timeouts_keep:
  assumes "few_conns n c"
  shows "keeps_len c (count_a2dp_packet_timeout i c)" "keeps_len c (count_pan_packet_timeout i c)" "keeps_len c (count_hogp_packet_timeout i c)"
  using assms by (auto intro: a2dp_timeout_keeps pan_timeout_keeps hogp_timeout_keeps)

definition coex_good :: "rtl_coex_struct \<Rightarrow> bool" where
  "coex_good c \<longleftrightarrow> coex_inv c \<and> conns_all reported c"

lemma good_of:
  assumes "\<exists>c'. r = Inr c' \<and> coex_inv c'" "returns (conns_all reported) r"
  shows "\<exists>c'. Some r = Some (Inr c') \<and> coex_good c'"
  using assms by (auto simp: coex_good_def)

lemma open_good: "coex_good c \<Longrightarrow> coex_good (rtk_btcoex_open up c)"
  by (auto simp: coex_good_def coex_inv_def crx_inv_def pool_inv_def conns_all_def rtk_btcoex_open_def check_profileinfo_cmd_def
      rtk_vendor_cmd_to_fw_def next_mem_def)

lemma close_good: "coex_good c \<Longrightarrow> coex_good (rtk_btcoex_close c)"
  by (auto simp: coex_good_def coex_inv_def crx_inv_def pool_inv_def conns_all_def rtk_btcoex_close_def rtl_free_frags_def
      flush_profile_hash_def flush_connection_hash_def)

lemma env_good [simp]:
  "coex_good (c\<lparr>cx_hdev := d\<rparr>) = coex_good c" "coex_good (c\<lparr>cx_mem := m\<rparr>) = coex_good c"
  "coex_good (c\<lparr>cx_fw_work := b\<rparr>) = coex_good c" "coex_good (c\<lparr>cx_l2_work := b\<rparr>) = coex_good c"
  "coex_good (c\<lparr>cx_ispaging := b\<rparr>) = coex_good c" "coex_good (c\<lparr>cx_isinquirying := b\<rparr>) = coex_good c"
  by (cases "cx_tbuff c"; simp add: coex_good_def coex_inv_def crx_inv_def pool_inv_def conns_all_def)+

lemma cmd_good:
  assumes "coex_good c" "cmd_complete b"
  shows "\<exists>c'. rtk_btcoex_parse_cmd b c = Inr c' \<and> coex_good c'"
proof -
  have "rd16 b 0 = Inr (le16_of (b ! 0) (b ! 1))" using rd16_ok [of 0 b] assms(2) by (simp add: cmd_complete_def)
  with assms show ?thesis by (auto simp: rtk_btcoex_parse_cmd_def cmd_complete_def op_codes)
qed

lemma event_good:
  assumes "coex_good c"
  shows "\<exists>c'. rtk_btcoex_parse_event b c = Some (Inr c') \<and> coex_good c'"
proof -
  from assms parse_event_total [of c b] obtain c' where c': "rtk_btcoex_parse_event b c = Some (Inr c')" "coex_inv c'"
    by (auto simp: coex_good_def)
  with assms parse_event_conns [OF c'(1)] show ?thesis by (simp add: coex_good_def conns_all_def)
qed

lemma ev_work_good:
  assumes "coex_good c" "conn_room c"
  shows "\<exists>c'. rtl_ev_work c = Some (Inr c') \<and> coex_good c' \<and> cx_ev_used_list c' = [] \<and>
    length (cx_ev_free_list c') = length (cx_ev_used_list c) + length (cx_ev_free_list c)"
proof -
  have "length (cx_ev_used_list c) \<le> 32"
    using assms(1) by (auto simp: coex_good_def coex_inv_def pool_inv_def NUM_RTL_HCI_EV_def split: if_splits)
  then have few: "few_conns (length (cx_ev_used_list c)) c" using assms(2) by (simp add: conn_room_def few_conns_def)
  from assms(1) have i: "coex_inv c" "conns_all reported c" by (simp_all add: coex_good_def)
  from ev_work_ok [OF i(1) few] ev_work_all [OF i(2)] show ?thesis by (auto simp: coex_good_def)
qed

lemma l2_work_good:
  assumes "coex_good c" "conn_room c"
  shows "\<exists>c'. rtl_l2_work c = Some (Inr c') \<and> coex_good c' \<and> cx_l2_used_list c' = [] \<and>
    length (cx_l2_free_list c') = length (cx_l2_used_list c) + length (cx_l2_free_list c)"
proof -
  from assms have i: "coex_inv c" "conns_all reported c" "few_conns 32 c" by (simp_all add: coex_good_def conn_room_few)
  from l2_work_ok [OF i(1,3)] l2_work_all [OF i(2)] show ?thesis by (auto simp: coex_good_def)
qed

lemma coex_step_good:
  assumes good: "coex_good c" and ok: "coex_op_ok opn c" and room: "conn_room c"
  shows "\<exists>c'. coex_op_run opn c = Some (Inr c') \<and> coex_good c'"
proof -
  have i: "coex_inv c" "conns_all reported c" "few_conns 32 c" using good room by (simp_all add: coex_good_def conn_room_few)
  note timer = good_of [OF keeps_inv [OF timeouts_keep(1) [OF i(3)] i(1)] timeouts_all(1) [OF i(2)]]
    good_of [OF keeps_inv [OF timeouts_keep(2) [OF i(3)] i(1)] timeouts_all(2) [OF i(2)]]
    good_of [OF keeps_inv [OF timeouts_keep(3) [OF i(3)] i(1)] timeouts_all(3) [OF i(2)]]
  have data: "\<exists>c'. (if \<not> cx_running c then Inr c else rtl_l2_data_process b dir c) = Inr c' \<and> coex_good c'" if "pdu_complete b" for b dir
    using good_of [OF l2_data_ok [OF i(1,3) that] l2_data_all [OF i(2)]] good by (cases "cx_running c") auto
  have work: "\<exists>c'. rtl_ev_work (c\<lparr>cx_fw_work := False\<rparr>) = Some (Inr c') \<and> coex_good c'"
      "\<exists>c'. rtl_l2_work (c\<lparr>cx_l2_work := False\<rparr>) = Some (Inr c') \<and> coex_good c'"
    using ev_work_good [of "c\<lparr>cx_fw_work := False\<rparr>"] l2_work_good [of "c\<lparr>cx_l2_work := False\<rparr>"] good room
    by (auto simp: conn_room_def)
  show ?thesis
    using timer work data cmd_good [OF good] event_good [OF good] good ok
    by (cases opn) (auto simp: rtk_btcoex_probe_def open_good close_good rtk_btcoex_parse_l2cap_data_tx_def rtk_btcoex_parse_l2cap_data_rx_def)
qed

lemma coex_init_good: "coex_good (rtk_btcoex_init ok (coex_zero mem))"
  by (auto simp: coex_good_def coex_inv_def crx_inv_def pool_inv_def conns_all_def rtk_btcoex_init_def rtl_alloc_buff_def coex_zero_def
      ev_zero_def l2_zero_def Let_def coex_sizes)

lemma coex_reach_good: "coex_reach c \<Longrightarrow> coex_good c"
proof (induction rule: coex_reach.induct)
  case (step c opn c')
  with coex_step_good [OF step.IH step.hyps(2,3)] show ?case by auto
qed (rule coex_init_good)

end
