(* ===== verification/Coex_Props.thy ===== *)
theory Coex_Props
  imports Coex_Reach
begin

text \<open>
  Properties of the coexistence module: what it reports to the firmware, how channels and connections
  come and go, and where the reported data is wrong.
\<close>

section \<open>Reading a report\<close>

text \<open>What the firmware reads from the parameter of the command: handles, profiles and, in the new format, their activity.\<close>

fun decode_entries :: "bool \<Rightarrow> nat \<Rightarrow> byte list \<Rightarrow> (u16 \<times> u16 \<times> u16) list" where
  "decode_entries new 0 bs = []"
| "decode_entries new (Suc n) bs =
     (le16_of (bs ! 0) (bs ! 1),
      if new then (le16_of (bs ! 2) (bs ! 3), le16_of (bs ! 4) (bs ! 5)) else (ucast (bs ! 2), 0)) #
     decode_entries new n (drop (if new then 6 else 3) bs)"

definition decode_report :: "bool \<Rightarrow> byte list \<Rightarrow> (u16 \<times> u16 \<times> u16) list" where
  "decode_report new bs = decode_entries new (unat (bs ! 0)) (tl bs)"

definition conn_view :: "bool \<Rightarrow> rtk_conn_prof \<Rightarrow> u16 \<times> u16 \<times> u16" where
  "conn_view new conn =
     (cp_handle conn, if new then (cp_profile_bitmap conn, cp_profile_status conn) else (take_bit 8 (cp_profile_bitmap conn), 0))"

lemma ucast_ucast_byte: "ucast (ucast (w :: u16) :: byte) = take_bit 8 w"
  by (rule bit_word_eqI) (auto simp: bit_simps)

lemma decode_entries_eq:
  "decode_entries new (length (filter profiled conns)) (report_entries new conns @ rest) = map (conn_view new) (filter profiled conns)"
proof (induction conns)
  case (Cons conn conns)
  show ?case
  proof (cases "profiled conn")
    case True
    then have "report_entries new (conn # conns) = report_entry new conn @ report_entries new conns"
      by (simp add: report_entries_def)
    with True Cons.IH show ?thesis
      by (cases new) (simp_all add: report_entry_def conn_view_def [abs_def] ucast_ucast_byte le16_bytes_def)
  qed (use Cons in \<open>simp add: report_entries_def\<close>)
qed (simp add: report_entries_def)

lemma decode_report_eq:
  assumes "length (filter profiled (cx_conn_hash c)) < 256"
  shows "decode_report (cx_profileinfo_cmd c) (report_bytes c) =
    map (conn_view (cx_profileinfo_cmd c)) (filter profiled (cx_conn_hash c))"
  using decode_entries_eq unat_word_of_nat_byte [OF assms]
  by (simp add: decode_report_def report_bytes_def count_handles_profiled)

text \<open>A report that fits into a command is sent with its length.\<close>

lemma report_fits: "length (report_bytes c) < 256 \<Longrightarrow> length (filter profiled (cx_conn_hash c)) < 256"
  by (auto simp: report_bytes_def length_report_entries split: if_splits)

lemma notify_sends:
  assumes "length (report_bytes c) < 256" "cx_hdev c = Some True" "take 2 (cx_mem c) = map Some ms"
  obtains c' where "rtk_notify_profileinfo_to_fw c = Inr c'"
    "cx_cmds c' = cx_cmds c @ [le16_bytes (report_opcode c) @ [word_of_nat (length (report_bytes c))] @ report_bytes c]"
    "cx_conn_hash c' = cx_conn_hash c"
proof -
  have mem: "fst (next_mem c) \<noteq> None" "fst (next_mem (snd (next_mem c))) \<noteq> None"
  proof -
    have "m \<noteq> None" if "m \<in> set (take 2 (cx_mem c))" for m using assms(3) that by auto
    then show "fst (next_mem c) \<noteq> None" "fst (next_mem (snd (next_mem c))) \<noteq> None"
      by (cases "cx_mem c"; cases "tl (cx_mem c)"; simp add: next_mem_def)+
  qed
  let ?n = "word_of_nat (length (report_bytes c)) :: byte"
  have n: "unat ?n = length (report_bytes c)" by (rule unat_word_of_nat_byte [OF assms(1)])
  obtain m c1 where m: "next_mem c = (Some m, c1)" using mem(1) by (metis fst_conv option.exhaust surj_pair)
  then have c1: "cx_hdev c1 = Some True" "cx_cmds c1 = cx_cmds c" "cx_conn_hash c1 = cx_conn_hash c" "cx_mem c1 = tl (cx_mem c)"
    using assms(2) by (auto simp: next_mem_def)
  have "fst (next_mem c1) \<noteq> None" using mem(2) m by simp
  then have c2: "fst (next_mem (c1\<lparr>cx_profile_status := s\<rparr>)) \<noteq> None" for s by (cases "cx_mem c1") (simp_all add: next_mem_def)
  have v: "cx_cmds (rtk_vendor_cmd_to_fw opc ?n (report_bytes c) c') = cx_cmds c' @ [le16_bytes opc @ [?n] @ report_bytes c]"
    if "cx_hdev c' = Some True" "fst (next_mem c') \<noteq> None" for c' opc
    using that n by (auto simp: rtk_vendor_cmd_to_fw_def next_mem_def split: if_splits)
  let ?c = "if cx_profileinfo_cmd c then c1 else c1\<lparr>cx_profile_status := 0\<rparr>"
  have c3: "cx_hdev ?c = Some True" "fst (next_mem ?c) \<noteq> None" "cx_cmds ?c = cx_cmds c" "cx_conn_hash ?c = cx_conn_hash c"
    using c1 c2 \<open>fst (next_mem c1) \<noteq> None\<close> by simp_all
  have "rtk_notify_profileinfo_to_fw c = Inr (rtk_vendor_cmd_to_fw (report_opcode c) ?n (report_bytes c) ?c)"
    using notify_eq [OF report_fits [OF assms(1)]] by (simp add: m)
  then show thesis by (rule that) (use v [OF c3(1,2)] c3(3,4) in simp_all)
qed

section \<open>Channels\<close>

lemma max_byte: "(255 :: byte) = - 1"
  by simp

lemma first_index_append_None: "first_index P xs = None \<Longrightarrow> P y \<Longrightarrow> first_index P (xs @ [y]) = Some (length xs)"
  by (induction xs) (auto split: if_splits)

lemma first_index_map: "first_index (\<lambda>x. P (f x)) xs = first_index P (map f xs)"
  by (induction xs) simp_all

text \<open>One use more and one use less of a profile.\<close>

lemma profile_add_use:
  "cp_profile_refcount (profile_add k conn) = (cp_profile_refcount conn)(k := cp_profile_refcount conn k + 1)"
  by (simp add: profile_add_def Let_def)

lemma profile_add_connected: "cp_profile_refcount conn k = 0 \<or> is_profile_connected conn k \<Longrightarrow> is_profile_connected (profile_add k conn) k"
  by (auto simp: profile_add_def is_profile_connected_def Let_def)

lemma profile_del_use:
  "cp_profile_refcount (profile_del k conn) = (cp_profile_refcount conn)(k := cp_profile_refcount conn k - 1)"
  by (simp add: profile_del_def Let_def)

lemma connection_ok:
  assumes "few_conns n c" "i < length (cx_conn_hash c)"
  shows "\<exists>c'. update_profile_connection i k True c = Inr c' \<and> cx_conn_hash c' = (cx_conn_hash c)[i := profile_add k (cx_conn_hash c ! i)] \<and>
      cx_profile_list c' = cx_profile_list c"
    "cp_profile_refcount (cx_conn_hash c ! i) k \<noteq> 0 \<Longrightarrow> \<exists>c'. update_profile_connection i k False c = Inr c' \<and>
      cx_conn_hash c' = (cx_conn_hash c)[i := profile_del k (cx_conn_hash c ! i)] \<and> cx_profile_list c' = cx_profile_list c"
proof -
  have "\<exists>c'. rtk_notify_profileinfo_to_fw (set_conn i conn c) = Inr c' \<and> cx_conn_hash c' = (cx_conn_hash c)[i := conn] \<and>
      cx_profile_list c' = cx_profile_list c" for conn
    using notify_ok [of n "set_conn i conn c"] assms(1) by (metis set_conn_frame(3,4) set_conn_def rtl_coex_struct.select_convs(1)
        rtl_coex_struct.simps(51) rtl_coex_struct.surjective rtl_coex_struct.update_convs(1))
  then show "\<exists>c'. update_profile_connection i k True c = Inr c' \<and> cx_conn_hash c' = (cx_conn_hash c)[i := profile_add k (cx_conn_hash c ! i)] \<and>
      cx_profile_list c' = cx_profile_list c"
    "cp_profile_refcount (cx_conn_hash c ! i) k \<noteq> 0 \<Longrightarrow> \<exists>c'. update_profile_connection i k False c = Inr c' \<and>
      cx_conn_hash c' = (cx_conn_hash c)[i := profile_del k (cx_conn_hash c ! i)] \<and> cx_profile_list c' = cx_profile_list c"
    by (auto simp: update_profile_connection_def Let_def set_conn_def)
qed

section \<open>Properties\<close>

text \<open>(C16) Every report that fits into a command arrives: the command has the opcode of its format, the true length, and the firmware
  reads from it the handle, the profiles and (in the new format) the activity of exactly the connections that use a profile.\<close>

theorem report_decodes:
  assumes "length (report_bytes c) < 256" "cx_hdev c = Some True" "take 2 (cx_mem c) = map Some ms"
  shows "\<exists>c' p. rtk_notify_profileinfo_to_fw c = Inr c' \<and>
    cx_cmds c' = cx_cmds c @ [le16_bytes (report_opcode c) @ [word_of_nat (length p)] @ p] \<and> length p < 256 \<and>
    decode_report (cx_profileinfo_cmd c) p =
      map (conn_view (cx_profileinfo_cmd c)) (filter (\<lambda>conn. cp_profile_bitmap conn \<noteq> 0) (cx_conn_hash c))"
proof -
  obtain c' where "rtk_notify_profileinfo_to_fw c = Inr c'"
    "cx_cmds c' = cx_cmds c @ [le16_bytes (report_opcode c) @ [word_of_nat (length (report_bytes c))] @ report_bytes c]"
    by (rule notify_sends [OF assms])
  with decode_report_eq [OF report_fits [OF assms(1)]] assms(1) show ?thesis
    by (intro exI [of _ c'] exI [of _ "report_bytes c"]) (simp add: profiled_def [abs_def])
qed

text \<open>(C14) In every reachable state every call of the driver, every work and every timer returns without a fault and leads to a
  reachable state, provided the callers pass complete packets and fewer than 224 connections exist.\<close>

theorem coex_calls_return:
  assumes "coex_reach c" "coex_op_ok opn c" "conn_room c"
  shows "\<exists>c'. coex_op_run opn c = Some (Inr c') \<and> coex_reach c'"
  using coex_step_good [OF coex_reach_good [OF assms(1)] assms(2,3)] coex_reach.step [OF assms] by blast

text \<open>(C32) The two works end: each empties its queue, and every buffer is free again.\<close>

theorem coex_works_drain:
  assumes "coex_reach c" "conn_room c" "cx_buff_size c \<noteq> 0"
  shows "(\<exists>c'. rtl_ev_work c = Some (Inr c') \<and> cx_ev_used_list c' = [] \<and> length (cx_ev_free_list c') = NUM_RTL_HCI_EV) \<and>
    (\<exists>c'. rtl_l2_work c = Some (Inr c') \<and> cx_l2_used_list c' = [] \<and> length (cx_l2_free_list c') = L2_MAX_PKTS)"
proof -
  note good = coex_reach_good [OF assms(1)]
  have "length (cx_ev_used_list c) + length (cx_ev_free_list c) = NUM_RTL_HCI_EV"
    "length (cx_l2_used_list c) + length (cx_l2_free_list c) = L2_MAX_PKTS"
    using good assms(3) by (auto simp: coex_good_def coex_inv_def pool_inv_def)
  with ev_work_good [OF good assms(2)] l2_work_good [OF good assms(2)] show ?thesis by auto
qed

text \<open>(C17) In every reachable state a profile other than the interval marker \<open>profile_hid_interval\<close> that has users on a connection is
  among those reported for the connection. For the marker the statement fails: \<open>update_profile_connection\<close> clears its bit together
  with that of the HID profile, but leaves its count.\<close>

theorem coex_profiles_reported:
  assumes "coex_reach c" "conn \<in> set (cx_conn_hash c)" "cp_profile_refcount conn k \<noteq> 0" "k \<noteq> profile_hid_interval"
  shows "is_profile_connected conn k"
  using coex_reach_good [OF assms(1)] assms(2-4) by (simp add: coex_good_def conns_all_def reported_def)

text \<open>(C15) The bytes of the controller's events may reach an open module in any pieces: the calls return, the unfinished event is kept,
  and of the complete events exactly those the module handles are queued in order, cut at 32 bytes, as far as buffers are free.\<close>

theorem coex_event_stream:
  assumes "coex_reach c" "cx_running c" "\<forall>e \<in> set (fst (split_events (pending_bytes c @ concat buffers))). ev_determined e"
  shows "\<exists>c'. coex_feed buffers c = Some (Inr c') \<and>
    pending_bytes c' = snd (split_events (pending_bytes c @ concat buffers)) \<and>
    queued c' = queued c @ map (take MAX_LEN_OF_HCI_EV)
      (take (length (cx_ev_free_list c)) (filter ev_wanted (fst (split_events (pending_bytes c @ concat buffers)))))"
proof -
  have "coex_rx_inv c" using coex_reach_good [OF assms(1)] assms(2) by (simp add: coex_good_def coex_inv_def coex_rx_inv_def)
  with coex_feed_ok [OF _ assms(3)] show ?thesis by blast
qed

text \<open>(C33) A channel that the host itself opens and closes, on a connection without the sink profile, leaves no trace: the request, the
  positive response and the disconnection return, in between the profile of the channel has one user more and is reported, and at the
  end channels and users are those of before. With the sink profile connected the disconnection of an audio channel also drops a user
  of the sink, so that case is excluded.\<close>

theorem channel_roundtrip:
  assumes "psm_to_profile_index psm = Some k" "find_connection_by_handle c h = Some i" "h AND 0xFFF = h"
    and "find_profile_by_handle_scid c h scid = None" "take 1 (cx_mem c) \<noteq> [None]" "few_conns 0 c"
    and "reported (cx_conn_hash c ! i)" "cp_profile_refcount (cx_conn_hash c ! i) k \<noteq> 255" "\<not> is_profile_connected (cx_conn_hash c ! i) profile_sink"
  shows "\<exists>c1 c2. handle_l2cap_con_rsp h dcid scid False 0 (handle_l2cap_con_req h psm scid True c) = Inr c1 \<and>
    cp_profile_refcount (cx_conn_hash c1 ! i) k = cp_profile_refcount (cx_conn_hash c ! i) k + 1 \<and>
    is_profile_connected (cx_conn_hash c1 ! i) k \<and>
    handle_l2cap_discon_req h dcid scid True c1 = Inr c2 \<and> cx_profile_list c2 = cx_profile_list c \<and>
    map cp_profile_refcount (cx_conn_hash c2) = map cp_profile_refcount (cx_conn_hash c)"
proof -
  let ?conn = "cx_conn_hash c ! i"
  have i: "i < length (cx_conn_hash c)" using assms(2) by (auto simp: find_connection_by_handle_def dest: first_index_Some)
  obtain fl mem where req: "handle_l2cap_con_req h psm scid True c = c\<lparr>cx_mem := mem, cx_profile_list := cx_profile_list c @
      [\<lparr>pi_handle = h, pi_psm = psm, pi_dcid = 0, pi_scid = scid, pi_profile_index = k, pi_flags = fl\<rparr>]\<rparr>"
    using assms(1,4,5) by (cases "cx_mem c") (auto simp: handle_l2cap_con_req_def list_allocate_add_def next_mem_def Let_def)
  define p where "p = \<lparr>pi_handle = h, pi_psm = psm, pi_dcid = dcid, pi_scid = scid, pi_profile_index = k, pi_flags = fl\<rparr>"
  define c0 where "c0 = c\<lparr>cx_mem := mem, cx_profile_list := cx_profile_list c @ [p]\<rparr>"
  have find1: "find_profile_by_handle_scid (handle_l2cap_con_req h psm scid True c) h scid = Some (length (cx_profile_list c))"
    using assms(3,4) by (simp add: req find_profile_by_handle_scid_def first_index_append_None)
  have rsp: "handle_l2cap_con_rsp h dcid scid False 0 (handle_l2cap_con_req h psm scid True c) = update_profile_connection i k True c0"
    using find1 assms(2) by (simp add: handle_l2cap_con_rsp_def req c0_def p_def find_connection_by_handle_def Let_def)
  obtain c1 where c1: "update_profile_connection i k True c0 = Inr c1" "cx_conn_hash c1 = (cx_conn_hash c)[i := profile_add k ?conn]"
      "cx_profile_list c1 = cx_profile_list c @ [p]"
    using connection_ok(1) [of 0 c0 i k] assms(6) i by (auto simp: c0_def few_conns_def)
  have k: "k \<noteq> profile_hid_interval" "k \<noteq> profile_sink" using assms(1) by (auto simp: psm_to_profile_index_def split: if_splits)
  have use: "cp_profile_refcount (cx_conn_hash c1 ! i) k = cp_profile_refcount ?conn k + 1" "is_profile_connected (cx_conn_hash c1 ! i) k"
    using i assms(7) k(1) by (auto simp: c1(2) profile_add_use reported_def intro!: profile_add_connected)
  have sink: "\<not> is_profile_connected (profile_del k (profile_add k ?conn)) profile_sink"
    using assms(9) k(2) by (auto simp: profile_del_def profile_add_def is_profile_connected_def Let_def simp del: profile_bit.simps)
  have nz: "cp_profile_refcount (cx_conn_hash c1 ! i) k \<noteq> 0"
    using assms(8) by (metis use(1) eq_neg_iff_add_eq_0 max_byte)
  obtain c2 where c2: "update_profile_connection i k False c1 = Inr c2" "cx_profile_list c2 = cx_profile_list c @ [p]"
      "cx_conn_hash c2 = (cx_conn_hash c)[i := profile_del k (profile_add k ?conn)]"
    using connection_ok(2) [of 0 c1 i k] assms(6) i nz by (auto simp: c1(2,3) few_conns_def)
  have find2: "find_profile_by_handle_dcid_scid c1 h dcid scid = Some (length (cx_profile_list c))"
    using assms(3,4) unfolding find_profile_by_handle_dcid_scid_def c1(3)
    by (intro first_index_append_None) (auto simp: find_profile_by_handle_scid_def first_index_None p_def)
  have hconn: "cp_handle (profile_add k ?conn) = cp_handle ?conn" by (simp add: profile_add_def Let_def)
  have "map cp_handle (cx_conn_hash c1) = map cp_handle (cx_conn_hash c)"
    using i hconn by (simp add: c1(2) map_update list_update_same_conv)
  then have find3: "find_connection_by_handle c1 h = Some i"
    using assms(2) first_index_map [of "\<lambda>x. h AND 0xFFF = x" cp_handle] by (metis find_connection_by_handle_def)
  have "handle_l2cap_discon_req h dcid scid True c1 = Inr (delete_profile_from_hash (length (cx_profile_list c)) c2)"
    using find2 find3 c2 sink i by (simp add: handle_l2cap_discon_req_def c1(3) p_def Let_def)
  moreover have "map cp_profile_refcount (cx_conn_hash c2) = map cp_profile_refcount (cx_conn_hash c)"
    using i by (simp add: c2(3) map_update profile_del_use profile_add_use list_update_same_conv)
  ultimately show ?thesis
    using rsp c1(1) use by (intro exI [of _ c1] exI [of _ "delete_profile_from_hash (length (cx_profile_list c)) c2"])
      (simp add: delete_profile_from_hash_def c2(2))
qed

text \<open>(C34) The report sent while an ACL connection with an HID channel in sniff mode is lost still names the connection: only its HID
  bit is cleared, the bit of the interval stays, and the connection is deleted without another report.\<close>

theorem acl_disconnect_stale_report:
  assumes "length d = MAX_LEN_OF_HCI_EV" "d ! 2 = 0" "h = le16_of (d ! 3) (d ! 4)"
    and "cx_conn_hash c = [conn]" "cp_handle conn = h" "h AND 0xFFF = h" "cp_type conn = 0"
    and "cx_profile_list c = [prof]" "pi_handle prof = h" "pi_profile_index prof = profile_hid" "pi_flags prof AND A2DP_MEDIA = 0"
    and "cp_profile_refcount conn profile_hid = 1" "is_profile_connected conn profile_hid_interval"
    and "cx_hdev c = Some True" "cx_mem c = []"
  shows "\<exists>c' p. rtk_handle_disconnect_complete_evt d c = Inr c' \<and> cx_conn_hash c' = [] \<and>
    cx_cmds c' = cx_cmds c @ [le16_bytes (report_opcode c) @ [word_of_nat (length p)] @ p] \<and>
    map fst (decode_report (cx_profileinfo_cmd c) p) = [h]"
proof -
  define conn' where "conn' = snd (disconn_profile profile_hid conn)"
  define c0 where "c0 = c\<lparr>cx_ispairing := False, cx_profile_list := [], cx_conn_hash := [conn']\<rparr>"
  have need: "disconn_profile profile_hid conn = (True, conn')" using assms(12) by (simp add: conn'_def disconn_profile_def Let_def)
  have bits: "is_profile_connected conn' profile_hid_interval" "cp_handle conn' = h"
    using assms(5,12,13) by (auto simp: conn'_def disconn_profile_def is_profile_connected_def Let_def)
  then have prof: "profiled conn'" by (auto simp: profiled_def is_profile_connected_def)
  have c0: "length (report_bytes c0) < 256" "cx_hdev c0 = Some True" "take 2 (cx_mem c0) = map Some []"
    using assms(14,15) by (simp_all add: c0_def report_bytes_def length_report_entries)
  obtain c1 where c1: "rtk_notify_profileinfo_to_fw c0 = Inr c1" "cx_conn_hash c1 = [conn']"
      "cx_cmds c1 = cx_cmds c @ [le16_bytes (report_opcode c) @ [word_of_nat (length (report_bytes c0))] @ report_bytes c0]"
    by (rule notify_sends [OF c0]) (simp add: c0_def report_opcode_def)
  have "map fst (decode_report (cx_profileinfo_cmd c) (report_bytes c0)) = [h]"
    using decode_report_eq [of c0] prof bits(2) by (simp add: c0_def conn_view_def)
  moreover have "rtk_handle_disconnect_complete_evt d c = Inr (delete_connection_from_hash 0 c1)"
  proof -
    have pair: "(if cx_ispairing c then c\<lparr>cx_ispairing := False\<rparr> else c) = c\<lparr>cx_ispairing := False\<rparr>" by (cases c) simp
    have len: "i < length d" if "i < 32" for i using assms(1) that by (simp add: coex_sizes)
    have "disconn_acl h 0 (c\<lparr>cx_ispairing := False\<rparr>) = Inr c1"
      using need c1(1) assms(4,8-11) by (simp add: disconn_acl_def set_conn_def c0_def Let_def)
    then show ?thesis
      using assms(2-8) by (simp add: rtk_handle_disconnect_complete_evt_def pair len find_connection_by_handle_def Let_def)
  qed
  ultimately show ?thesis
    using c1 by (intro exI [of _ "delete_connection_from_hash 0 c1"] exI [of _ "report_bytes c0"]) (simp add: delete_connection_from_hash_def)
qed

text \<open>The activity of the profiles of a new connection is whatever its memory contained: it is reported with the first profile.\<close>

theorem new_connection_status_unset:
  assumes "length d = MAX_LEN_OF_HCI_EV" "d ! 2 = 0" "h = le16_of (d ! 3) (d ! 4)" "d ! 11 = 1"
    and "find_connection_by_handle c h = None" "cx_mem c = Some j # mem" "few_conns 1 c" "k \<noteq> profile_sco"
  shows "\<exists>c1 c2 conn. rtk_handle_connection_complete_evt d c = Inr c1 \<and>
    update_profile_connection (length (cx_conn_hash c)) k True c1 = Inr c2 \<and> cx_conn_hash c2 = cx_conn_hash c @ [conn] \<and>
    cp_handle conn = h \<and> cp_profile_bitmap conn = set_bit (profile_bit k) 0 \<and> cp_profile_status conn = j"
proof -
  define conn0 where "conn0 = conn_reset 0 (hd (cx_conn_hash (snd (conn_at h (c\<lparr>cx_conn_hash := []\<rparr>)))))"
  define c1 where "c1 = (if cx_ispaging c then c\<lparr>cx_ispaging := False\<rparr> else c)\<lparr>cx_mem := mem, cx_conn_hash := cx_conn_hash c @ [conn0]\<rparr>"
  have len: "i < length d" if "i < 32" for i using assms(1) that by (simp add: coex_sizes)
  have "rtk_handle_connection_complete_evt d c = Inr c1"
    using assms(2-6) by (auto simp: rtk_handle_connection_complete_evt_def len conn_at_def find_connection_by_handle_def
        allocate_connection_by_handle_def next_mem_def add_connection_to_hash_def set_conn_def c1_def conn0_def conn_reset_def)
  moreover have conn0: "cp_handle conn0 = h" "cp_profile_bitmap conn0 = 0" "cp_profile_status conn0 = j" "cp_profile_refcount conn0 k = 0"
    using assms(6) by (simp_all add: conn0_def conn_at_def find_connection_by_handle_def allocate_connection_by_handle_def next_mem_def
        add_connection_to_hash_def conn_reset_def)
  moreover obtain c2 where "update_profile_connection (length (cx_conn_hash c)) k True c1 = Inr c2"
      "cx_conn_hash c2 = cx_conn_hash c @ [profile_add k conn0]"
    using connection_ok(1) [of 0 c1 "length (cx_conn_hash c)" k] assms(7) by (auto simp: c1_def few_conns_def)
  ultimately show ?thesis
    using assms(8) by (intro exI [of _ c1] exI [of _ c2] exI [of _ "profile_add k conn0"]) (simp add: profile_add_def Let_def)
qed

section \<open>Examples\<close>

text \<open>Runs of the module; an SCO connection is reported in two pieces, together with the end of an inquiry.\<close>

fun coex_run :: "coex_op list \<Rightarrow> rtl_coex_struct \<Rightarrow> rtl_coex_struct option" where
  "coex_run [] c = Some c"
| "coex_run (opn # ops) c =
     (if coex_op_ok opn c \<and> conn_room c then case coex_op_run opn c of Some (Inr c') \<Rightarrow> coex_run ops c' | _ \<Rightarrow> None else None)"

lemma coex_run_reach: "coex_reach c \<Longrightarrow> coex_run ops c = Some c' \<Longrightarrow> coex_reach c'"
  by (induction ops c rule: coex_run.induct) (auto split: if_splits option.splits sum.splits dest: coex_reach.step)

definition ex_ops :: "coex_op list" where
  "ex_ops = [CxOpen True, CxEvent [0x03, 0x0b, 0x00, 0x01], CxEvent [0x00, 1, 2, 3, 4, 5, 6, 0x00, 0x00, 0x01, 0x01, 0x00]]"

definition ex_start :: rtl_coex_struct where "ex_start = rtk_btcoex_init True (coex_zero [])"
definition ex_queue :: rtl_coex_struct where "ex_queue = the (coex_run ex_ops ex_start)"
definition ex_sco :: rtl_coex_struct where "ex_sco = the (coex_run [CxEvWork] ex_queue)"

lemma ex_queue_eval:
  "map_option (\<lambda>c. (cx_buff_size c, cx_fw_work c, cx_running c, conn_room c, cx_tbuff c, length (cx_ev_free_list c))) (coex_run ex_ops ex_start)
   = Some (4224, True, True, True, None, 30)"
  by code_simp

lemma ex_sco_eval:
  "map_option (\<lambda>c. map (\<lambda>conn. cp_profile_refcount conn profile_sco) (cx_conn_hash c)) (coex_run [CxEvWork] ex_queue) = Some [1]"
  by code_simp

lemma ex_start_reach: "coex_reach ex_start"
  unfolding ex_start_def by (rule coex_reach.start)

lemma ex_queue: "coex_reach ex_queue" "cx_buff_size ex_queue \<noteq> 0" "cx_fw_work ex_queue" "cx_running ex_queue" "conn_room ex_queue"
  "pending_bytes ex_queue = []"
proof -
  obtain c where c: "coex_run ex_ops ex_start = Some c" "cx_buff_size c = 4224" "cx_fw_work c" "cx_running c" "conn_room c" "cx_tbuff c = None"
    using ex_queue_eval by auto
  then show "coex_reach ex_queue" "cx_buff_size ex_queue \<noteq> 0" "cx_fw_work ex_queue" "cx_running ex_queue" "conn_room ex_queue"
      "pending_bytes ex_queue = []"
    using coex_run_reach [OF ex_start_reach c(1)] by (simp_all add: ex_queue_def partial_event_def)
qed

lemma ex_sco:
  obtains conn where "coex_reach ex_sco" "cx_conn_hash ex_sco = [conn]" "cp_profile_refcount conn profile_sco = 1"
proof -
  obtain c conn where c: "coex_run [CxEvWork] ex_queue = Some c" "cx_conn_hash c = [conn]" "cp_profile_refcount conn profile_sco = 1"
    using ex_sco_eval by auto
  then show thesis using coex_run_reach [OF ex_queue(1) c(1)] that by (simp add: ex_sco_def)
qed

definition ex_conn :: rtk_conn_prof where
  "ex_conn = \<lparr>cp_handle = 1, cp_a2dp_packet_count = 0, cp_pan_packet_count = 0, cp_hogp_packet_count = 0, cp_voice_packet_count = 0,
     cp_type = 0, cp_profile_bitmap = 0x12, cp_profile_status = 0x02, cp_profile_refcount = (\<lambda>k. if k = profile_hid then 1 else 0),
     cp_a2dp_work = False, cp_pan_work = False, cp_hogp_work = False\<rparr>"

definition ex_prof :: rtk_prof_info where
  "ex_prof = \<lparr>pi_handle = 1, pi_psm = 0x11, pi_dcid = 0x40, pi_scid = 0x41, pi_profile_index = profile_hid, pi_flags = 0\<rparr>"

definition ex_coex :: rtl_coex_struct where
  "ex_coex = (coex_zero [])\<lparr>cx_hdev := Some True, cx_conn_hash := [ex_conn], cx_profile_list := [ex_prof]\<rparr>"

definition ex_event :: "byte list \<Rightarrow> byte list" where
  "ex_event bs = bs @ replicate (MAX_LEN_OF_HCI_EV - length bs) 0"

lemmas ex_defs = ex_coex_def ex_conn_def ex_prof_def coex_zero_def

theorem report_decodes_witness:
  "\<exists>c' p. rtk_notify_profileinfo_to_fw ex_coex = Inr c' \<and>
    cx_cmds c' = cx_cmds ex_coex @ [le16_bytes (report_opcode ex_coex) @ [word_of_nat (length p)] @ p] \<and> length p < 256 \<and>
    decode_report (cx_profileinfo_cmd ex_coex) p =
      map (conn_view (cx_profileinfo_cmd ex_coex)) (filter (\<lambda>conn. cp_profile_bitmap conn \<noteq> 0) (cx_conn_hash ex_coex))"
  by (rule report_decodes [where ms = "[]"]) (simp_all add: ex_defs report_bytes_def length_report_entries)

theorem coex_calls_return_witness: "\<exists>c'. coex_op_run CxEvWork ex_queue = Some (Inr c') \<and> coex_reach c'"
  by (rule coex_calls_return [OF ex_queue(1) _ ex_queue(5)]) (simp add: ex_queue(3))

theorem coex_works_drain_witness:
  "(\<exists>c'. rtl_ev_work ex_queue = Some (Inr c') \<and> cx_ev_used_list c' = [] \<and> length (cx_ev_free_list c') = NUM_RTL_HCI_EV) \<and>
   (\<exists>c'. rtl_l2_work ex_queue = Some (Inr c') \<and> cx_l2_used_list c' = [] \<and> length (cx_l2_free_list c') = L2_MAX_PKTS)"
  by (rule coex_works_drain [OF ex_queue(1,5,2)])

theorem coex_profiles_reported_witness: "is_profile_connected (cx_conn_hash ex_sco ! 0) profile_sco"
  by (rule ex_sco) (rule coex_profiles_reported [of ex_sco], simp_all)

theorem coex_event_stream_witness:
  "\<exists>c'. coex_feed [[0x14, 0x06, 0x00], [0x01, 0x00, 0x02, 0x14, 0x00, 0x05]] ex_queue = Some (Inr c') \<and> pending_bytes c' = [0x05] \<and>
    queued c' = queued ex_queue @ map (take MAX_LEN_OF_HCI_EV) (take (length (cx_ev_free_list ex_queue)) [[0x14, 0x06, 0x00, 0x01, 0x00, 0x02, 0x14, 0x00]])"
proof -
  have s: "split_events [0x14, 0x06, 0x00, 0x01, 0x00, 0x02, 0x14, 0x00, 0x05] = ([[0x14, 0x06, 0x00, 0x01, 0x00, 0x02, 0x14, 0x00]], [0x05])"
    by (simp add: split_events.simps)
  have f: "ev_filter_out [0x14, 0x06, 0x00, 0x01, 0x00, 0x02, 0x14, 0x00] = Inr False" by (simp add: ev_filter_out_def ev_codes)
  show ?thesis
    using coex_event_stream [OF ex_queue(1,4), of "[[0x14, 0x06, 0x00], [0x01, 0x00, 0x02, 0x14, 0x00, 0x05]]"]
    by (simp add: ex_queue(6) s f ev_determined_def ev_wanted_def)
qed

theorem channel_roundtrip_witness:
  "\<exists>c1 c2. handle_l2cap_con_rsp 1 0x50 0x51 False 0 (handle_l2cap_con_req 1 0x19 0x51 True ex_coex) = Inr c1 \<and>
    cp_profile_refcount (cx_conn_hash c1 ! 0) profile_a2dp = cp_profile_refcount (cx_conn_hash ex_coex ! 0) profile_a2dp + 1 \<and>
    is_profile_connected (cx_conn_hash c1 ! 0) profile_a2dp \<and>
    handle_l2cap_discon_req 1 0x50 0x51 True c1 = Inr c2 \<and> cx_profile_list c2 = cx_profile_list ex_coex \<and>
    map cp_profile_refcount (cx_conn_hash c2) = map cp_profile_refcount (cx_conn_hash ex_coex)"
  by (rule channel_roundtrip)
     (auto simp: ex_defs psm_to_profile_index_def PSM_AVDTP_def find_connection_by_handle_def find_profile_by_handle_scid_def few_conns_def
        reported_def is_profile_connected_def)

theorem acl_disconnect_stale_report_witness:
  "\<exists>c' p. rtk_handle_disconnect_complete_evt (ex_event [0x05, 0x04, 0x00, 0x01, 0x00, 0x13]) ex_coex = Inr c' \<and> cx_conn_hash c' = [] \<and>
    cx_cmds c' = cx_cmds ex_coex @ [le16_bytes (report_opcode ex_coex) @ [word_of_nat (length p)] @ p] \<and>
    map fst (decode_report (cx_profileinfo_cmd ex_coex) p) = [1]"
  by (rule acl_disconnect_stale_report [where conn = ex_conn and prof = ex_prof])
     (simp_all add: ex_defs ex_event_def coex_sizes is_profile_connected_def le16_of_def)

theorem new_connection_status_unset_witness:
  "\<exists>c1 c2 conn. rtk_handle_connection_complete_evt (ex_event [0x03, 0x0b, 0x00, 0x02, 0x00, 1, 2, 3, 4, 5, 6, 0x01, 0x00]) (ex_coex\<lparr>cx_mem := [Some 0xa5a5]\<rparr>) = Inr c1 \<and>
    update_profile_connection (length (cx_conn_hash (ex_coex\<lparr>cx_mem := [Some 0xa5a5]\<rparr>))) profile_pan True c1 = Inr c2 \<and>
    cx_conn_hash c2 = cx_conn_hash (ex_coex\<lparr>cx_mem := [Some 0xa5a5]\<rparr>) @ [conn] \<and>
    cp_handle conn = 2 \<and> cp_profile_bitmap conn = set_bit (profile_bit profile_pan) 0 \<and> cp_profile_status conn = 0xa5a5"
  by (rule new_connection_status_unset)
     (simp_all add: ex_defs ex_event_def coex_sizes find_connection_by_handle_def few_conns_def le16_of_def)

end
