(* ===== verification/Driver_Coex.thy ===== *)
theory Driver_Coex
  imports Kernel_H4 Kernel_H5_Stream Coex_Props
begin

text \<open>
  The receiver of the driver together with the coexistence module it informs: what the module has
  queued after a stream of packets came in from the line.
\<close>

section \<open>Calls of the driver\<close>

fun coex_upcall :: "upcall \<Rightarrow> rtl_coex_struct \<Rightarrow> rtl_coex_struct result option" where
  "coex_upcall (ParseEvent b) c = rtk_btcoex_parse_event b c"
| "coex_upcall (ParseL2capRx b) c = Some (rtk_btcoex_parse_l2cap_data_rx b c)"
| "coex_upcall _ c = Some (Inr c)"

fun coex_upcalls :: "upcall list \<Rightarrow> rtl_coex_struct \<Rightarrow> rtl_coex_struct result option" where
  "coex_upcalls [] c = Some (Inr c)"
| "coex_upcalls (u # us) c =
     Option.bind (coex_upcall u c) (\<lambda>r. case r of Inl e \<Rightarrow> Some (Inl e) | Inr c \<Rightarrow> coex_upcalls us c)"

text \<open>What the driver guarantees of the calls, and the events among them.\<close>

fun upcall_ok :: "upcall \<Rightarrow> bool" where
  "upcall_ok (ParseEvent b) = (2 \<le> length b \<and> length b = 2 + unat (b ! 1) \<and> ev_determined b)"
| "upcall_ok (ParseL2capRx b) = pdu_complete b"
| "upcall_ok _ = True"

fun upcall_events :: "upcall list \<Rightarrow> byte list list" where
  "upcall_events [] = []"
| "upcall_events (ParseEvent b # us) = b # upcall_events us"
| "upcall_events (_ # us) = upcall_events us"

lemma upcall_events_append [simp]: "upcall_events (us @ vs) = upcall_events us @ upcall_events vs"
  by (induction us rule: upcall_events.induct) simp_all

section \<open>The module between two events\<close>

definition coex_ready :: "rtl_coex_struct \<Rightarrow> bool" where
  "coex_ready c \<longleftrightarrow> coex_good c \<and> cx_running c \<and> conn_room c \<and> pending_bytes c = []"

definition coex_takes :: "rtl_coex_struct \<Rightarrow> byte list list \<Rightarrow> rtl_coex_struct \<Rightarrow> bool" where
  "coex_takes c es c' \<longleftrightarrow> queued c' = queued c @ map (take MAX_LEN_OF_HCI_EV) (take (length (cx_ev_free_list c)) es) \<and>
     length (cx_ev_free_list c') = length (cx_ev_free_list c) - length es"

lemma coex_takes_refl [simp]: "coex_takes c [] c"
  by (simp add: coex_takes_def)

lemma coex_takes_trans: "coex_takes c es c1 \<Longrightarrow> coex_takes c1 es' c2 \<Longrightarrow> coex_takes c (es @ es') c2"
  by (simp add: coex_takes_def)

lemma ready_rx_inv: "coex_ready c \<Longrightarrow> coex_rx_inv c"
  by (simp add: coex_ready_def coex_good_def coex_inv_def coex_rx_inv_def)

lemma event_taken:
  assumes "coex_ready c" "upcall_ok (ParseEvent b)"
  shows "\<exists>c'. rtk_btcoex_parse_event b c = Some (Inr c') \<and> coex_ready c' \<and> coex_takes c (filter ev_wanted [b]) c'"
proof -
  have s: "split_events (pending_bytes c @ b) = ([b], [])"
    using assms split_events_complete [of b "[]"] by (simp add: coex_ready_def split_events.simps [of "[]"])
  have d: "\<forall>e \<in> set (fst (split_events (pending_bytes c @ b))). ev_determined e" using assms(2) by (simp add: s)
  obtain c' where c': "rtk_btcoex_parse_event b c = Some (Inr c')" "coex_rx_inv c'"
    "pending_bytes c' = snd (split_events (pending_bytes c @ b))"
    "queued c' = queued c @ map (take MAX_LEN_OF_HCI_EV)
       (take (length (cx_ev_free_list c)) (filter ev_wanted (fst (split_events (pending_bytes c @ b)))))"
    "length (cx_ev_free_list c') = length (cx_ev_free_list c) - length (filter ev_wanted (fst (split_events (pending_bytes c @ b))))"
    by (rule parse_event_ok [OF ready_rx_inv [OF assms(1)] d])
  have "coex_good c'" using event_good [of c b] assms(1) c'(1) by (auto simp: coex_ready_def)
  moreover have "conn_room c'" using assms(1) parse_event_conns [OF c'(1)] by (simp add: coex_ready_def conn_room_def)
  ultimately show ?thesis
    using c' by (intro exI [of _ c']) (simp add: coex_ready_def coex_rx_inv_def coex_takes_def s)
qed

text \<open>Data packets concern neither the queue of events nor their reassembly.\<close>

definition ev_part :: "rtl_coex_struct \<Rightarrow> _" where
  "ev_part c = (cx_ev_used_list c, cx_ev_free_list c, cx_tbuff c, cx_back_buff c, cx_running c, length (cx_conn_hash c))"

lemma keeps_ev_part: "keeps_len c r \<Longrightarrow> returns (\<lambda>c'. ev_part c' = ev_part c) r"
  by (auto simp: keeps_len_def ev_part_def dest: io_partD)

lemma l2_data_ev_part:
  assumes "few_conns n c" "pdu_complete pp"
  shows "returns (\<lambda>c'. ev_part c' = ev_part c) (rtl_l2_data_process pp dir c)"
proof -
  let ?len = "le16_of (pp ! 4) (pp ! 5)"
  have r: "rd16 pp 4 = Inr ?len" using rd16_ok [of 4 pp] assms(2) by (simp add: pdu_complete_def)
  have "?len > 100 \<longrightarrow> length (drop 8 pp) \<ge> 76" using assms(2) by (auto simp: pdu_complete_def word_less_nat_alt)
  note cnt = keeps_ev_part [OF packets_count_keeps [OF assms(1) this]]
  have q: "returns (\<lambda>c'. ev_part c' = ev_part c) (case rtl_l2_node_get c of (None, c) \<Rightarrow> Inr c
      | (Some l2, c) \<Rightarrow> Inr ((rtl_l2_node_to_used (f l2) c)\<lparr>cx_l2_work := True\<rparr>))" for f
    by (auto simp: rtl_l2_node_get_def rtl_l2_node_to_used_def ev_part_def split: list.split)
  show ?thesis
    unfolding rtl_l2_data_process_def r bind_result_Inr Let_def
    by (auto simp del: returns_simps(3) split: option.split intro!: returns_read q cnt)
qed

lemma data_taken:
  assumes "coex_ready c" "pdu_complete b"
  shows "\<exists>c'. rtk_btcoex_parse_l2cap_data_rx b c = Inr c' \<and> coex_ready c' \<and> coex_takes c [] c'"
proof -
  have c: "coex_inv c" "conns_all reported c" "few_conns 32 c" "cx_running c"
    using assms(1) by (simp_all add: coex_ready_def coex_good_def conn_room_few)
  obtain c' where c': "rtl_l2_data_process b False c = Inr c'" "coex_inv c'" using l2_data_ok [OF c(1,3) assms(2)] by blast
  have "conns_all reported c'" using l2_data_all [OF c(2), of b False] c'(1) by simp
  moreover have e: "ev_part c' = ev_part c" using l2_data_ev_part [OF c(3) assms(2), of False] c'(1) by simp
  moreover have "pending_bytes c' = pending_bytes c" using e by (cases "cx_tbuff c") (simp_all add: ev_part_def partial_event_def)
  ultimately show ?thesis
    using assms(1) c' c(4)
    by (simp add: rtk_btcoex_parse_l2cap_data_rx_def coex_ready_def coex_good_def coex_takes_def ev_part_def conn_room_def queued_def)
qed

lemma upcalls_taken:
  assumes "coex_ready c" "list_all upcall_ok us"
  shows "\<exists>c'. coex_upcalls us c = Some (Inr c') \<and> coex_ready c' \<and> coex_takes c (filter ev_wanted (upcall_events us)) c'"
  using assms
proof (induction us arbitrary: c)
  case (Cons u us)
  have "\<exists>c1. coex_upcall u c = Some (Inr c1) \<and> coex_ready c1 \<and> coex_takes c (filter ev_wanted (upcall_events [u])) c1"
    using event_taken [OF Cons.prems(1)] data_taken [OF Cons.prems(1)] Cons.prems by (cases u) auto
  then obtain c1 where c1: "coex_upcall u c = Some (Inr c1)" "coex_ready c1" "coex_takes c (filter ev_wanted (upcall_events [u])) c1" by blast
  with Cons.IH [of c1] Cons.prems(2) obtain c2 where c2: "coex_upcalls us c1 = Some (Inr c2)" "coex_ready c2"
      "coex_takes c1 (filter ev_wanted (upcall_events us)) c2" by auto
  have "upcall_events (u # us) = upcall_events [u] @ upcall_events us" by (simp flip: upcall_events_append)
  with coex_takes_trans [OF c1(3) c2(3)] c1 c2 show ?case by simp
qed simp

section \<open>A driver that informs the module\<close>

text \<open>The call a driver makes for a message it hands to the host stack, and the messages the module can take.\<close>

fun msg_hooks :: "nat \<times> byte list \<Rightarrow> upcall list" where
  "msg_hooks (t, ds) =
     (if t = HCI_EVENT_PKT then [ParseEvent ds] else if t = HCI_ACLDATA_PKT then [ParseL2capRx ds] else [])"

fun msg_ok :: "nat \<times> byte list \<Rightarrow> bool" where
  "msg_ok (t, ds) \<longleftrightarrow> (t = HCI_EVENT_PKT \<longrightarrow> upcall_ok (ParseEvent ds)) \<and> (t = HCI_ACLDATA_PKT \<longrightarrow> pdu_complete ds)"

definition msg_events :: "(nat \<times> byte list) list \<Rightarrow> byte list list" where
  "msg_events ms = map snd (filter (\<lambda>m. fst m = HCI_EVENT_PKT) ms)"

lemma msg_hooks_ok: "msg_ok m \<Longrightarrow> list_all upcall_ok (msg_hooks m)"
  by (cases m) simp

lemma msg_hooks_events: "upcall_events (concat (map msg_hooks ms)) = msg_events ms"
  by (induction ms) (auto simp: msg_events_def pkt_type_defs)

text \<open>
  Both protocols promise the same: in the states they reach, the calls into the module are those of
  the messages handed up that the protocol informs about, in their order.
\<close>

locale coex_driver =
  fixes reached :: "'s \<Rightarrow> bool" and messages :: "'s \<Rightarrow> (nat \<times> byte list) list" and calls :: "'s \<Rightarrow> upcall list"
    and informs :: "nat \<times> byte list \<Rightarrow> bool"
  assumes calls_made: "reached s \<Longrightarrow> hooks_up (calls s) = concat (map msg_hooks (filter informs (messages s)))"
begin

lemma module_informed:
  assumes "reached s" "list_all msg_ok (messages s)" "coex_reach c" "cx_running c" "conn_room c" "pending_bytes c = []"
  shows "\<exists>c'. coex_upcalls (hooks_up (calls s)) c = Some (Inr c') \<and> pending_bytes c' = [] \<and>
    queued c' = queued c @ map (take MAX_LEN_OF_HCI_EV)
      (take (length (cx_ev_free_list c)) (filter ev_wanted (msg_events (filter informs (messages s)))))"
proof -
  have "coex_ready c" using assms(3-6) coex_reach_good by (simp add: coex_ready_def)
  moreover have "list_all upcall_ok (hooks_up (calls s))"
    using assms(2) msg_hooks_ok by (auto simp: calls_made [OF assms(1)] list_all_iff)
  ultimately show ?thesis
    using upcalls_taken [of c "hooks_up (calls s)"]
    by (auto simp: calls_made [OF assms(1)] msg_hooks_events coex_ready_def coex_takes_def)
qed

end

section \<open>The four-wire driver\<close>

text \<open>Packets that carry no data are handed up without a call.\<close>

definition h4_informs :: "nat \<times> byte list \<Rightarrow> bool" where
  "h4_informs m = (h4_announced (fst m) (snd m) \<noteq> 0)"

text \<open>The states after whole packets.\<close>

definition h4_fed :: "h4_struct \<Rightarrow> bool" where
  "h4_fed h \<longleftrightarrow> (\<exists>h0 ps. h4_idle h0 \<and> h4_mem h0 \<and> h4_out h0 = [] \<and> list_all h4_packet ps \<and>
     h4_recv h0 (concat (map h4_bytes ps)) = Inr (True, h))"

lemma packet_hooks_informs: "concat (map packet_hooks ps) = concat (map msg_hooks (filter h4_informs ps))"
  by (induction ps) (auto simp: packet_hooks_def h4_informs_def)

interpretation h4_coex: coex_driver h4_fed "\<lambda>h. map skb_msg (frames_up (h4_out h))" h4_out h4_informs
proof
  fix h
  assume "h4_fed h"
  then obtain h0 ps where "h4_idle h0" "h4_mem h0" "h4_out h0 = []" "list_all h4_packet ps"
      "h4_recv h0 (concat (map h4_bytes ps)) = Inr (True, h)"
    by (auto simp: h4_fed_def)
  with h4_recv_packets [of h0 ps] show "hooks_up (h4_out h) = concat (map msg_hooks (filter h4_informs (map skb_msg (frames_up (h4_out h)))))"
    by (auto simp: packet_hooks_informs)
qed

definition line_packet :: "nat \<times> byte list \<Rightarrow> bool" where
  "line_packet p \<longleftrightarrow> h4_packet p \<and>
     (fst p = HCI_EVENT_PKT \<longrightarrow> ev_determined (snd p)) \<and> (fst p = HCI_ACLDATA_PKT \<longrightarrow> pdu_complete (snd p))"

definition line_events :: "(nat \<times> byte list) list \<Rightarrow> byte list list" where
  "line_events ps = map snd (filter (\<lambda>(t, ds). t = HCI_EVENT_PKT \<and> ds ! 1 \<noteq> 0) ps)"

lemma line_packet_ok: "line_packet p \<Longrightarrow> msg_ok p"
  by (cases p) (auto simp: line_packet_def h4_packet_def h4_hdr_def h4_announced_def pkt_type_defs)

lemma line_events_informs: "msg_events (filter h4_informs ps) = line_events ps"
  by (induction ps) (auto simp: msg_events_def line_events_def h4_informs_def h4_announced_def pkt_type_defs unat_eq_0)

section \<open>The three-wire driver\<close>

text \<open>Every message of a reliable channel is told to the module, whatever bytes arrive.\<close>

definition h5_hooked :: "h5_struct \<Rightarrow> bool" where
  "h5_hooked h5 \<longleftrightarrow> hooks_up (k_out h5) = concat (map msg_hooks (delivered h5))"

lemma h5_hooked_out: "k_out h5' = k_out h5 \<Longrightarrow> h5_hooked h5' = h5_hooked h5"
  by (simp add: h5_hooked_def delivered_def)

lemma h5_hooked_wakeup: "k_out h5' = k_out h5 @ [TxWakeup] \<Longrightarrow> h5_hooked h5' = h5_hooked h5"
  by (simp add: h5_hooked_def delivered_def)

lemma h5_hooked_pass_up: "h5_hooked h5 \<Longrightarrow> h5_hooked (kh5_pass_up skb h5)"
  by (auto simp: h5_hooked_def kh5_pass_up_delivered reliable_type_def skb_msg_def)
     (auto simp: kh5_pass_up_def kh5_upcall_def Let_def pkt_type_defs)

lemma kh5_prepare_out: "kh5_prepare_pkt h5 data t = Inr (r, h5') \<Longrightarrow> k_out h5' = k_out h5"
  by (auto simp: kh5_prepare_pkt_def bind_result_eq_Inr Let_def split: option.splits prod.splits if_splits)

lemma kh5_dequeue_unrel_out: "kh5_dequeue_unrel h5 = Inr (r, h5') \<Longrightarrow> k_out h5' = k_out h5"
  by (cases "k_unrel h5")
     (auto simp: kh5_dequeue_unrel_def bind_result_eq_Inr split: option.splits dest!: kh5_prepare_out)

lemma kh5_dequeue_rel_out: "kh5_dequeue_rel h5 = Inr (r, h5') \<Longrightarrow> k_out h5' = k_out h5"
  by (cases "k_rel h5")
     (auto simp: kh5_dequeue_rel_def bind_result_eq_Inr split: option.splits if_splits dest!: kh5_prepare_out)

lemma h5_dequeue_out:
  assumes "h5_dequeue h5 = Inr (r, h5')"
  shows "k_out h5' = k_out h5"
proof -
  from assms obtain r1 h1 where 1: "kh5_dequeue_unrel h5 = Inr (r1, h1)"
      "(case r1 of Some _ \<Rightarrow> Inr (r1, h1) | None \<Rightarrow> bind_result (kh5_dequeue_rel h1) (\<lambda>(r, h5). case r of Some _ \<Rightarrow> Inr (r, h5)
          | None \<Rightarrow> if k_txack_req h5 \<noteq> 0 then kh5_prepare_pkt h5 [] H5_ACK_PKT else Inr (None, h5))) = Inr (r, h5')"
    by (auto simp: h5_dequeue_def bind_result_eq_Inr)
  from 1(2) show ?thesis
    using kh5_dequeue_unrel_out [OF 1(1)]
    by (auto simp: bind_result_eq_Inr split: option.splits if_splits dest!: kh5_dequeue_rel_out kh5_prepare_out)
qed

lemma requeue_loop_out: "k_out (requeue_loop h5) = k_out h5"
  by (induction h5 rule: requeue_loop.induct) (subst requeue_loop.simps, simp)

lemma h5_hooked_complete:
  assumes "h5_hooked h5" "kh5_complete_rx_pkt h5 = Inr h5'"
  shows "h5_hooked h5'"
proof -
  have w: "h5_hooked (kh5_upcall TxWakeup (h5_pkt_cull (kh5_bookkeep d h5)))" for d
  proof -
    have "k_out (h5_pkt_cull (kh5_bookkeep d h5)) = k_out h5" by (simp add: h5_pkt_cull_def kh5_bookkeep_def Let_def)
    then have "k_out (kh5_upcall TxWakeup (h5_pkt_cull (kh5_bookkeep d h5))) = k_out h5 @ [TxWakeup]" by (simp add: kh5_upcall_def)
    from h5_hooked_wakeup [OF this] assms(1) show ?thesis by simp
  qed
  have u: "h5_hooked (h\<lparr>k_rx_state := st, k_rx_skb := p\<rparr>) = h5_hooked h" for h st p by (rule h5_hooked_out) simp
  from assms(2) show ?thesis
    by (auto simp: kh5_complete_rx_pkt_def bind_result_eq_Inr Let_def u intro!: w h5_hooked_pass_up split: option.splits)
qed

lemma h5_hooked_drop: "kh5_drop_rx h5 = Inr h5' \<Longrightarrow> h5_hooked h5' = h5_hooked h5"
  by (rule h5_hooked_out) (auto simp: kh5_drop_rx_def bind_result_eq_Inr)

lemma h5_hooked_unslip: "kh5_unslip_one_byte h5 b = Inr h5' \<Longrightarrow> h5_hooked h5' = h5_hooked h5"
  by (rule h5_hooked_out)
     (auto simp: kh5_unslip_one_byte_def kh5_store_byte_def bind_result_eq_Inr split: h5_rx_esc_state.splits if_splits)

lemma h5_hooked_hdr:
  assumes "kh5_recv_hdr h5 = Inr h5'"
  shows "h5_hooked h5' = h5_hooked h5"
proof -
  have w: "h5_hooked (kh5_upcall TxWakeup (h5\<lparr>k_txack_req := 1\<rparr>)) = h5_hooked h5"
    by (rule h5_hooked_wakeup) (simp add: kh5_upcall_def)
  have d: "h5_hooked (h5\<lparr>k_rx_state := st, k_rx_count := n\<rparr>) = h5_hooked h5" for st n by (rule h5_hooked_out) simp
  from assms show ?thesis
    by (auto simp: kh5_recv_hdr_def bind_result_eq_Inr w d dest!: h5_hooked_drop split: if_splits)
qed

lemma h5_hooked_data: "kh5_recv_data h5 = Inr h5' \<Longrightarrow> h5_hooked h5 \<Longrightarrow> h5_hooked h5'"
  using h5_hooked_out [of "h5\<lparr>k_rx_state := H5_W4_CRC, k_rx_count := 2\<rparr>" h5]
  by (auto simp: kh5_recv_data_def bind_result_eq_Inr intro: h5_hooked_complete split: if_splits)

lemma h5_hooked_crc:
  assumes "kh5_recv_crc h5 = Inr h5'" "h5_hooked h5"
  shows "h5_hooked h5'"
proof -
  have "h5_hooked (h5\<lparr>k_rx_skb := p\<rparr>)" for p using assms(2) h5_hooked_out [of "h5\<lparr>k_rx_skb := p\<rparr>" h5] by simp
  with assms show ?thesis
    by (auto simp: kh5_recv_crc_def bind_result_eq_Inr dest: h5_hooked_drop intro: h5_hooked_complete split: if_splits)
qed

lemma h5_hooked_start: "h5_hooked (snd (kh5_recv_start h5)) = h5_hooked h5"
  by (rule h5_hooked_out) (simp add: kh5_recv_start_def next_alloc_def Let_def)

lemma h5_hooked_iter:
  assumes "kh5_recv_iter h5 b = Inr (act, h5')" "h5_hooked h5"
  shows "h5_hooked h5'"
proof (cases "k_rx_count h5 = 0")
  case True
  have "h5_hooked (h5\<lparr>k_rx_state := st\<rparr>)" for st using assms(2) h5_hooked_out [of "h5\<lparr>k_rx_state := st\<rparr>" h5] by simp
  with assms True h5_hooked_start [of h5] show ?thesis
    by (cases "k_rx_state h5")
       (auto simp: kh5_recv_iter_def bind_result_eq_Inr h5_hooked_hdr intro: h5_hooked_data h5_hooked_crc split: if_splits)
next
  case False
  have "h5_hooked (h5\<lparr>k_rx_skb := p, k_rx_state := st, k_rx_count := n\<rparr>)" for p st n
    using assms(2) h5_hooked_out [of "h5\<lparr>k_rx_skb := p, k_rx_state := st, k_rx_count := n\<rparr>" h5] by simp
  with assms False show ?thesis
    by (auto simp: kh5_recv_iter_def bind_result_eq_Inr h5_hooked_unslip split: if_splits)
qed

lemma h5_hooked_recv: "kh5_recv h5 bs = Inr h5' \<Longrightarrow> h5_hooked h5 \<Longrightarrow> h5_hooked h5'"
proof (induction h5 bs rule: kh5_recv.induct)
  case (2 h5 b bs)
  from "2.prems"(1) obtain act h1 where h1: "kh5_recv_iter h5 b = Inr (act, h1)"
    by (cases "kh5_recv_iter h5 b") (auto simp: kh5_recv.simps(2))
  from h5_hooked_iter [OF h1 "2.prems"(2)] "2.prems"(1) "2.IH"(1) [OF h1 refl] "2.IH"(2) [OF h1 refl] show ?case
    by (cases act) (simp_all add: kh5_recv.simps(2) h1)
qed simp

lemma h5_hooked_enqueue: "h5_hooked (h5_enqueue skb h5) = h5_hooked h5"
  by (rule h5_hooked_out) (auto simp: h5_enqueue_def Let_def)

lemma h5_hooked_timeout: "h5_hooked (h5_timed_event h5) = h5_hooked h5"
  by (rule h5_hooked_wakeup) (simp add: h5_timed_event_def kh5_upcall_def requeue_loop_out)

lemma h5_reach_hooked: "h5_reach h5 sent \<Longrightarrow> h5_hooked h5"
proof (induction rule: h5_reach.induct)
  case (opened al h)
  then show ?case by (auto simp: h5_open_def h5_zero_def h5_hooked_def delivered_def split: prod.splits if_splits)
next
  case (dequeue h sent r h')
  then show ?case by (simp add: h5_hooked_out [OF h5_dequeue_out])
qed (simp_all add: h5_hooked_enqueue h5_hooked_timeout h5_hooked_recv)

interpretation h5_coex: coex_driver "\<lambda>h. \<exists>sent. h5_reach h sent" delivered k_out "\<lambda>_. True"
  by unfold_locales (use h5_reach_hooked in \<open>auto simp: h5_hooked_def\<close>)

lemma kh5_chunks_reach: "h5_reach h sent \<Longrightarrow> kh5_chunks h cs = Inr h' \<Longrightarrow> h5_reach h' sent"
  by (induction cs arbitrary: h) (auto simp: bind_result_eq_Inr intro: h5_reach.receive)

section \<open>Properties\<close>

text \<open>(C13) Driver and coexistence module together: a stream of packets that reaches a new four-wire driver in any pieces is handed to the
  host stack, the calls the driver makes into a running module all return, and the module has queued, in order and cut at 32 bytes, the
  events with data that it handles, as far as its buffers suffice.\<close>

theorem driver_coex_stream:
  assumes "h4_idle h" "h4_mem h" "h4_out h = []" "list_all line_packet ps" "concat cs = concat (map h4_bytes ps)"
    and "coex_reach c" "cx_running c" "conn_room c" "pending_bytes c = []"
  shows "\<exists>h' c'. h4_chunks h cs = Inr h' \<and> map skb_msg (frames_up (h4_out h')) = ps \<and>
    coex_upcalls (hooks_up (h4_out h')) c = Some (Inr c') \<and> pending_bytes c' = [] \<and>
    queued c' = queued c @ map (take MAX_LEN_OF_HCI_EV) (take (length (cx_ev_free_list c)) (filter ev_wanted (line_events ps)))"
proof -
  have p: "list_all h4_packet ps" "list_all msg_ok ps" using assms(4) line_packet_ok by (auto simp: list_all_iff line_packet_def)
  from h4_recv_packets [OF assms(1,2) p(1)] obtain h' where h': "h4_recv h (concat cs) = Inr (True, h')"
      "map skb_msg (frames_up (h4_out h')) = ps"
    using assms(3,5) by auto
  have "h4_fed h'" using assms(1-3,5) p(1) h'(1) by (auto simp: h4_fed_def)
  from h4_coex.module_informed [OF this _ assms(6-9)] h' p(2) show ?thesis
    using h4_chunks_concat [OF h4_idle_inv [OF assms(1)] assms(2), of cs] by (auto simp: line_events_informs)
qed

theorem driver_coex_stream_witness:
  "\<exists>h' c'. h4_chunks ex_h4 [[0x04, 0x14, 0x06], [0x00, 0x01, 0x00, 0x02, 0x14, 0x00, 0x03, 0x2a, 0x00, 0x00]] = Inr h' \<and>
    map skb_msg (frames_up (h4_out h')) =
      [(HCI_EVENT_PKT, [0x14, 0x06, 0x00, 0x01, 0x00, 0x02, 0x14, 0x00]), (HCI_SCODATA_PKT, [0x2a, 0x00, 0x00])] \<and>
    coex_upcalls (hooks_up (h4_out h')) ex_queue = Some (Inr c') \<and> pending_bytes c' = [] \<and>
    queued c' = queued ex_queue @ map (take MAX_LEN_OF_HCI_EV) (take (length (cx_ev_free_list ex_queue)) (filter ev_wanted
      (line_events [(HCI_EVENT_PKT, [0x14, 0x06, 0x00, 0x01, 0x00, 0x02, 0x14, 0x00]), (HCI_SCODATA_PKT, [0x2a, 0x00, 0x00])])))"
proof (rule driver_coex_stream [OF ex_h4_idle _ _ _ ex_queue(1,4,5,6)])
  have "ev_determined [0x14, 0x06, 0x00, 0x01, 0x00, 0x02, 0x14, 0x00]" by (simp add: ev_determined_def ev_filter_out_def ev_codes)
  then show "list_all line_packet [(HCI_EVENT_PKT, [0x14, 0x06, 0x00, 0x01, 0x00, 0x02, 0x14, 0x00]), (HCI_SCODATA_PKT, [0x2a, 0x00, 0x00])]"
    by (simp add: line_packet_def h4_packet_def h4_hdr_def h4_announced_def pkt_type_defs h4_size_defs)
qed (simp_all add: ex_h4_def h4_open_def next_alloc_def h4_bytes_def pkt_type_defs)

text \<open>(C12) The same over three wires: of any frames that reach a new driver in any pieces, repeated and early ones included, the
  driver hands up the reliable messages in sequence; it tells a running module about exactly these, the calls return when the messages are
  complete, and the module has queued the events it handles once, in order and cut at 32 bytes, as far as its buffers suffice.\<close>

theorem h5_coex_stream:
  assumes "h5_open [] = Some h" "list_all apkt_ok ps" "concat cs = concat (map apkt_bytes ps)" "list_all msg_ok (in_sequence 0 ps)"
    and "coex_reach c" "cx_running c" "conn_room c" "pending_bytes c = []"
  shows "\<exists>h' c'. kh5_chunks h cs = Inr h' \<and> delivered h' = in_sequence 0 ps \<and>
    coex_upcalls (hooks_up (k_out h')) c = Some (Inr c') \<and> pending_bytes c' = [] \<and>
    queued c' = queued c @ map (take MAX_LEN_OF_HCI_EV)
      (take (length (cx_ev_free_list c)) (filter ev_wanted (msg_events (in_sequence 0 ps))))"
proof -
  have h: "krx_idle h" "k_allocs h = []" "k_rxseq_txack h = seq8 0" "delivered h = []"
    using assms(1) by (auto simp: h5_open_def h5_zero_def next_alloc_def krx_idle_def delivered_def seq8_def)
  from kh5_recv_frames [OF h(1,2) assms(2) h(3)] obtain h' where "kh5_recv h (concat (map apkt_bytes ps)) = Inr h'"
      "delivered h' = in_sequence 0 ps"
    using h(4) by auto
  then have h': "kh5_chunks h cs = Inr h'" "delivered h' = in_sequence 0 ps" by (simp_all add: kh5_chunks_concat [OF h(2)] assms(3))
  have "\<exists>sent. h5_reach h' sent" using kh5_chunks_reach [OF h5_reach.opened [OF assms(1)] h'(1)] by blast
  from h5_coex.module_informed [OF this _ assms(5-8)] assms(4) h' show ?thesis by simp
qed

text \<open>Two events, the first one sent twice.\<close>

definition ex_apkts :: "apkt list" where
  "ex_apkts =
     (let p = \<lparr>ap_rel = True, ap_ack = 0, ap_seq = 0, ap_crc = True, ap_type = HCI_EVENT_PKT,
                ap_data = [0x14, 0x06, 0x00, 0x01, 0x00, 0x02, 0x14, 0x00]\<rparr>
      in [p, p, p\<lparr>ap_seq := 1, ap_data := [0x05, 0x04, 0x00, 0x01, 0x00, 0x13]\<rparr>])"

theorem h5_coex_stream_witness:
  "\<exists>h' c'. kh5_chunks ex_h5 [take 5 (concat (map apkt_bytes ex_apkts)), drop 5 (concat (map apkt_bytes ex_apkts))] = Inr h' \<and>
    delivered h' = [(HCI_EVENT_PKT, [0x14, 0x06, 0x00, 0x01, 0x00, 0x02, 0x14, 0x00]), (HCI_EVENT_PKT, [0x05, 0x04, 0x00, 0x01, 0x00, 0x13])] \<and>
    coex_upcalls (hooks_up (k_out h')) ex_queue = Some (Inr c') \<and> pending_bytes c' = [] \<and>
    queued c' = queued ex_queue @ [[0x14, 0x06, 0x00, 0x01, 0x00, 0x02, 0x14, 0x00], [0x05, 0x04, 0x00, 0x01, 0x00, 0x13]]"
proof -
  let ?B = "concat (map apkt_bytes ex_apkts)"
  let ?e1 = "[0x14, 0x06, 0x00, 0x01, 0x00, 0x02, 0x14, 0x00] :: byte list" and ?e2 = "[0x05, 0x04, 0x00, 0x01, 0x00, 0x13] :: byte list"
  have o: "h5_open [] = Some ex_h5" by (simp add: ex_h5_def h5_open_def next_alloc_def)
  have s: "in_sequence 0 ex_apkts = [(HCI_EVENT_PKT, ?e1), (HCI_EVENT_PKT, ?e2)]" by (simp add: ex_apkts_def Let_def)
  have d: "ev_determined ?e1" "ev_determined ?e2" "ev_wanted ?e1" "ev_wanted ?e2"
    by (simp_all add: ev_determined_def ev_wanted_def ev_filter_out_def ev_codes)
  have p: "list_all apkt_ok ex_apkts" by (simp add: ex_apkts_def Let_def apkt_ok_def kh5_chan_def kpkt_defs)
  have m: "list_all msg_ok (in_sequence 0 ex_apkts)" using d by (simp add: s pkt_type_defs)
  have f: "length (cx_ev_free_list ex_queue) = 30" using ex_queue_eval by (auto simp: ex_queue_def)
  have "concat [take 5 ?B, drop 5 ?B] = ?B" by simp
  from h5_coex_stream [OF o p this m ex_queue(1,4,5,6)] show ?thesis
    using d by (simp add: s msg_events_def f MAX_LEN_OF_HCI_EV_def)
qed

end
