(* ===== verification/Spec2Isabelle.thy ===== *)
theory Spec2Isabelle
  imports Attach_Main List_Head Kernel_Close_Props Driver_Coex
begin

text \<open>
  Verification of the Bluetooth software for the RTL8821CS (\<open>src/package/rtl8821cs-bluetooth/src\<close>).

  \<^bold>\<open>The program.\<close> Two programs share a serial line to the controller. The attach tool
  (\<open>rtk_hciattach\<close>) opens the line, establishes the H5 link, identifies the chip, builds a
  configuration and a firmware image from the files of the root file system, downloads them in
  fragments, changes the speed, and finally installs the line discipline \<open>N_HCI\<close> with its
  protocol. From then on the kernel driver (\<open>hci_ldisc.c\<close>, \<open>hci_rtk_h5.c\<close>, \<open>hci_h4.c\<close>) carries the
  packets of the host stack over the line, either with the reliable three-wire protocol H5 or with
  the plain four-wire protocol H4. The coexistence module of the driver (\<open>rtk_coex.c\<close>) watches commands,
  events and data, keeps track of connections and the profiles used on them, and reports these to the firmware.

  \<^bold>\<open>Conventions.\<close> C integers are words of their width where the code computes modulo it
  (bytes, checksums, sequence and acknowledgement numbers, 32-bit lengths of firmware files) and \<open>nat\<close>
  where they count bytes in memory. A function that can leave an allocation, follow a null pointer or
  use a freed object returns \<open>'a result\<close>, the sum of the datatype \<open>fault\<close> and the value, so memory safety
  is the statement that no \<open>Inl\<close> is reached. Return codes of the source are part of the value. Every
  answer of the system (read, write, poll, epoll, malloc, files, the host stack) is an input: lists of
  results that the calls consume, over which the theorems quantify. Loops without a bound in the code are
  recursions over those inputs, \<open>partial_function (option)\<close> where the loop may not end (then
  termination is a theorem), or have fuel: \<open>fwc_loop\<close>, \<open>section_loop\<close> and the search for dummy headers inside it (\<open>dummy_loop\<close>) have
  \<open>2 ^ 16 + 1\<close> steps each, more than the 16-bit counters that drive them allow (the inner search of \<open>section_loop\<close> shares the counter of the
  outer loop, so with exactly 65535 sections the outer loop starts again and may use up its steps). Lengths of files are below 2 GB, as \<open>int\<close> arithmetic of the
  code requires. Log output has no definition.

  \<^bold>\<open>The attach tool.\<close>
  \<^item> \<open>Prelude\<close> has results and faults, byte lists, little-endian numbers; \<open>Crc\<close>, \<open>Skb\<close>, \<open>Slip\<close> the
    checksum, the packet buffer and the byte stuffing of \<open>hciattach_rtk.c\<close>, each with its reference
    definition: the bit-serial CRC, a byte sink (locale \<open>byte_sink\<close>, also interpreted by the kernel's
    buffers), the encoding of a byte string and its inverse.
  \<^item> \<open>Rtb_State\<close> is the structure \<open>rtb_cfg\<close> (\<open>hciattach.h\<close>) and its constants; \<open>H5_Tx\<close> builds packets
    (\<open>h5_prepare_pkt\<close>), \<open>H5_Rx\<close> is the receive loop \<open>h5_recv\<close> with link establishment and the
    handling of command-complete events. \<open>H5_Rx_Safety\<close> proves its invariant, \<open>H5_Roundtrip\<close> what it
    does with frames, \<open>H5_Link\<close> the properties: packets with their header in numbers (\<open>wire_header\<close>), the round trip
    between two peers, rejection of damaged frames (a burst of two bytes leaves a checksum residue, one damaged header byte breaks
    the header sum), independence from how the stream is cut, refinement of the link state machine.
  \<^item> \<open>H5_Xfer\<close> is \<open>start_transmit_wait\<close> with its event loop, timer and retransmission, and the commands
    built on it; the step relations \<open>rx_step\<close> and \<open>wait_step\<close> take the receive loop and the wait apart, and it is proved that a
    wait that succeeds has read the packet that answers it; \<open>H4_Xfer\<close> the file \<open>hciattach_h4.c\<close>; \<open>Download\<close> the fragmentation
    \<open>rtb_download_fwc\<close> over both transports, proved equal to a plan of fragments.
  \<^item> \<open>Fwc_Config\<close> and \<open>Fwc_Patch\<close> are \<open>rtb_fwc.c\<close>: text and binary configuration, the device address,
    the merge; chip tables, both firmware formats, the sorted list of patches and the final buffer. Their
    properties are in \<open>Fwc_Config_Props\<close> and \<open>Fwc_Patch_Props\<close>.
  \<^item> \<open>Attach\<close> is \<open>rtb_config\<close>, \<open>rtb_init\<close> and \<open>init_uart\<close>, \<open>H5_Active\<close> and \<open>Attach_Props\<close> prove
    that the line is handed to the kernel only with an active link (every \<open>ioctl\<close> is logged with the state it is made in),
    \<open>Attach_Run\<close> runs a complete attach.
  \<^item> \<open>Attach_Main\<close> is \<open>main\<close> and \<open>reset_bluetooth\<close>: options and operands, and the rounds of attaching, waiting and
    recovering. What \<open>getopt\<close>, \<open>ppoll\<close>, \<open>fork\<close> and the signals do are inputs. It is proved that operands are well-formed,
    that the waiting process, when it ends with status 0, has restored the line, and that without detaching a signal during a recovery
    does not end the program.
  \<^item> \<open>List_Head\<close> has the linked lists of \<open>rtb_fwc.c\<close> in an explicit heap, proves that every list operation of the file, with
    \<open>list_replace_init\<close>, refines the one on lists, and models \<open>config_lists_free\<close> and \<open>insert_queue_sort\<close> node by node; the other
    theories use lists, in particular \<open>merge_configs\<close> of \<open>Fwc_Config\<close>. It shows that freeing a
    configuration is safe, and states what an appending client needs as the locale \<open>sequence_store\<close>.

  \<^bold>\<open>The kernel driver.\<close>
  \<^item> \<open>Kernel_Skb\<close> models the kernel's packet buffers and the calls out of a protocol. \<open>Kernel_H5\<close> is
    \<open>hci_rtk_h5.c\<close>: the three queues, the window, packet construction, acknowledgement,
    retransmission and the receiver. \<open>Kernel_H5_Props\<close> has the lemmas on encoding, sequence numbers and the
    reception of one frame, \<open>Kernel_Link\<close> two endpoints over a line that loses frames and the theorem of
    reliable delivery, \<open>Kernel_H5_Safety\<close> the endpoint against arbitrary bytes and the agreement of its
    wire format with the attach tool, \<open>Kernel_H5_Stream\<close> the receiver on a stream of frames as a go-back-N receiver.
  \<^item> \<open>Kernel_H4\<close> is \<open>hci_h4.c\<close> with its receiver as a parser of packet streams.
  \<^item> \<open>Kernel_Ldisc\<close> is \<open>hci_ldisc.c\<close> over an arbitrary protocol; \<open>Kernel_Proto\<close> states what it relies on
    as the locale \<open>uart_proto\<close>, proves the transmit work and the entry points correct from it, and
    interprets it by both protocols of the driver.
  \<^item> \<open>Kernel_Sched\<close> takes the transmit path apart into the accesses to \<open>tx_state\<close> of concurrent callers and
    the worker, and proves that no wake-up is lost and everything offered is transmitted in order.
  \<^item> \<open>Kernel_Close\<close> does the same for \<open>hci_uart_tty_close\<close> against the host stack, the terminal, the retransmission work and the
    transmit work, with \<open>proto_lock\<close> and the objects that closing frees. \<open>Kernel_Close_Props\<close> proves that none of them is used after it
    was freed and that closing ends, and shows a run in which \<open>__hci_uart_flush\<close> frees a packet that the worker writes.

  \<^bold>\<open>The coexistence module.\<close>
  \<^item> \<open>Coex_State\<close>, \<open>Coex_Profile\<close> and \<open>Coex_Event\<close> are \<open>rtk_coex.c\<close> and \<open>rtk_coex.h\<close>: pools and lists; profiles,
    channels and counters with the report to the firmware; handlers of commands, events and data, the works, opening and closing.
  \<^item> \<open>Coex_Report\<close> shows which bytes are reported and what tracking leaves alone, \<open>Coex_Stream\<close> that the reassembly of events
    refines the splitting of a byte stream, \<open>Coex_Safety\<close> that no handler faults on any contents of its buffer and that the
    works empty their queues, \<open>Coex_Track\<close> that a profile with users stays in the reported set.
  \<^item> \<open>Coex_Reach\<close> puts the calls, works and timers together as a state machine whose reachable states have these
    properties; \<open>Coex_Props\<close> states them, with the round trip of a channel and two faults of the report;
    \<open>Driver_Coex\<close> states what the module expects of a driver as the locale \<open>coex_driver\<close>, interprets it by both protocols
    and composes their receivers with the module.

  \<^bold>\<open>Idealisations of the coexistence module.\<close> A list entry is named by its position and a connection's delayed works are flags.
  Memory obtained with \<open>kmalloc\<close> has arbitrary contents (one 16-bit value per allocation, repeated), which later reads see. The properties
  assume fewer than 224 connections, so that a full queue of 32 events cannot reach the 256 that overflow the eight-bit count of the
  report, and data packets that are not fragments; without these the code reads or writes outside its buffers, which the model shows.
  What is read only for a log message when the module is closed is left out.

  \<^bold>\<open>Idealisations of the driver.\<close> Outside \<open>Kernel_Sched\<close> and \<open>Kernel_Close\<close> each entry point runs atomically, as the locks of the source
  arrange for the queues and for opening and closing; \<open>rx_count\<close> of H4 is a \<open>nat\<close> (it is bounded by the frame size). In \<open>Kernel_Close\<close>
  each step is one access to shared state in the order of the source, and the kernel's functions that wait
  (\<open>cancel_work_sync\<close>, \<open>hci_unregister_dev\<close>, the terminal layer before \<open>close\<close>) are guards of a step. A failed allocation is an input. The delayed
  work of the retransmission timer is the flag \<open>k_retrans\<close> and may fire whenever it is set. A buffer has exactly the tail room that was
  asked for, where the kernel may give more, and the terminal's \<open>write\<close> takes some of the bytes and never fails. In \<open>Kernel_Sched\<close> the protocol
  is one queue in the order of the packets offered: the priority of unreliable packets and the retransmissions of \<open>h5_dequeue\<close> are in
  \<open>Kernel_H5\<close> only. The entry points of \<open>Kernel_Proto\<close> (\<open>line_reach\<close>) are those of an attached line, without the retransmission work, which
  \<open>Kernel_Link\<close>, \<open>Kernel_H5_Safety\<close> and \<open>Kernel_Close\<close> have, and without \<open>ioctl\<close>.

  \<^bold>\<open>Not modelled.\<close> The sockets and WiFi messages of \<open>rtk_coex.c\<close> under \<open>RTB_SOFTWARE_MAILBOX\<close>, which is not
  defined, and the code under \<open>WOBT_NOTIFY\<close>, \<open>SERIAL_NONBLOCK_READ\<close> and \<open>#if 0\<close>, which is not compiled either; log output (\<open>op_string\<close>, \<open>util_hexdump\<close>, \<open>usage\<close>); the device tree, scripts, makefiles, patches and
  firmware images of the image build.
\<close>

end
